(* ===== verification/Prelude.thy ===== *)
theory Prelude
  imports Main "HOL-Library.Word" "HOL-Library.Multiset"
begin

text \<open>
  Shared material of the development: the machine-integer helpers (unsigned 8, 16 and 32
  bit counters of the driver are natural numbers with the wrap-around written out), generic
  lemmas on lists and sums that several components use, the fact collections, and three
  interfaces stated as locales:
  \<^item> \<open>run_invariant\<close>: an invariant that every admissible operation keeps holds after every
    admissible sequence of operations;
  \<^item> \<open>id_pool\<close>: the contract of an allocator of identifiers or descriptors (association ids,
    local peer ids, tx descriptors);
  \<^item> \<open>replay_order\<close>: the contract of a packet-number comparison.
\<close>

named_theorems wrap_simps \<open>wrap-around arithmetic of the unsigned counters\<close>
named_theorems frame_simps \<open>fields an operation leaves unchanged\<close>

section \<open>Unsigned counters\<close>

text \<open>\<open>u_int8_t\<close>, \<open>u_int16_t\<close> and \<open>u_int32_t\<close> values as naturals: every write truncates.\<close>

abbreviation u8 :: "nat \<Rightarrow> nat" where "u8 x \<equiv> x mod 2 ^ 8"
abbreviation u16 :: "nat \<Rightarrow> nat" where "u16 x \<equiv> x mod 2 ^ 16"
abbreviation u32 :: "nat \<Rightarrow> nat" where "u32 x \<equiv> x mod 2 ^ 32"

text \<open>Modular subtraction at width \<open>w\<close>: C's \<open>a - b\<close> on unsigned operands.\<close>

definition usub :: "nat \<Rightarrow> nat \<Rightarrow> nat \<Rightarrow> nat" where
  "usub w a b = (a + (2 ^ w - b mod 2 ^ w)) mod 2 ^ w"

lemma usub_exact [wrap_simps]:
  assumes "b \<le> a" and "a < 2 ^ w"
  shows "usub w a b = a - b"
proof -
  have "a + (2 ^ w - b mod 2 ^ w) = (a - b) + 2 ^ w"
    using assms by simp
  then show ?thesis
    unfolding usub_def using assms by (metis less_imp_diff_less mod_add_self2 mod_less)
qed

lemma usub_bound: "usub w a b < 2 ^ w"
  by (simp add: usub_def)

lemma usub_self: "a < 2 ^ w \<Longrightarrow> usub w a a = 0"
  by (simp add: usub_exact)

section \<open>Lists\<close>

lemma sum_list_remove1_int:
  fixes f :: "'a \<Rightarrow> int"
  assumes "x \<in> set xs"
  shows "sum_list (map f (remove1 x xs)) = sum_list (map f xs) - f x"
  using assms by (induction xs) auto

lemma sum_list_fun_upd_notin:
  fixes f :: "'b \<Rightarrow> 'c :: comm_monoid_add"
  assumes "x \<notin> set xs"
  shows "sum_list (map (\<lambda>y. f ((g(x := v)) y)) xs) = sum_list (map (\<lambda>y. f (g y)) xs)"
  using assms by (induction xs) auto

lemma map_fun_upd_notin [simp]: "x \<notin> set xs \<Longrightarrow> map (\<lambda>y. f ((g(x := v)) y)) xs = map (\<lambda>y. f (g y)) xs"
  by (induction xs) auto

lemma sum_list_fun_upd_in:
  fixes f :: "'b \<Rightarrow> int"
  assumes "distinct xs" and "x \<in> set xs"
  shows "sum_list (map (\<lambda>y. f ((g(x := v)) y)) xs) = sum_list (map (\<lambda>y. f (g y)) xs) - f (g x) + f v"
  using assms
proof (induction xs)
  case Nil
  then show ?case by simp
next
  case (Cons a xs)
  then show ?case by (cases "a = x") (auto simp del: fun_upd_apply simp add: fun_upd_same fun_upd_other)
qed

lemma sum_list_pos_eq_0_iff:
  fixes f :: "'a \<Rightarrow> int"
  assumes "\<And>x. x \<in> set xs \<Longrightarrow> 0 < f x"
  shows "(sum_list (map f xs) = 0) = (xs = [])"
proof (cases xs)
  case Nil
  then show ?thesis by simp
next
  case (Cons a ys)
  have "0 \<le> sum_list (map f ys)"
    using assms Cons by (intro sum_list_nonneg) (auto intro: order_less_imp_le)
  moreover have "0 < f a"
    using assms Cons by simp
  ultimately show ?thesis
    using Cons by simp
qed

section \<open>Interface: an invariant kept by every operation\<close>

text \<open>Running a list of operations; \<open>ok\<close> is what the callers guarantee of each call.\<close>

fun run_ops :: "('s \<Rightarrow> 'e \<Rightarrow> 's) \<Rightarrow> 's \<Rightarrow> 'e list \<Rightarrow> 's" where
  "run_ops step s [] = s"
| "run_ops step s (e # es) = run_ops step (step s e) es"

fun admissible :: "('s \<Rightarrow> 'e \<Rightarrow> 's) \<Rightarrow> ('s \<Rightarrow> 'e \<Rightarrow> bool) \<Rightarrow> 's \<Rightarrow> 'e list \<Rightarrow> bool" where
  "admissible step ok s [] = True"
| "admissible step ok s (e # es) = (ok s e \<and> admissible step ok (step s e) es)"

lemma run_ops_append: "run_ops step s (xs @ ys) = run_ops step (run_ops step s xs) ys"
  by (induction xs arbitrary: s) auto

locale run_invariant =
  fixes step :: "'s \<Rightarrow> 'e \<Rightarrow> 's"
    and ok :: "'s \<Rightarrow> 'e \<Rightarrow> bool"
    and inv :: "'s \<Rightarrow> bool"
  assumes step_inv: "inv s \<Longrightarrow> ok s e \<Longrightarrow> inv (step s e)"
begin

lemma run_inv: "inv s \<Longrightarrow> admissible step ok s es \<Longrightarrow> inv (run_ops step s es)"
  by (induction es arbitrary: s) (auto intro: step_inv)

lemma prefix_inv:
  assumes "inv s" and "admissible step ok s (xs @ ys)"
  shows "inv (run_ops step s xs)"
proof -
  have "admissible step ok s xs" if "admissible step ok s (xs @ ys)" for s
    using that by (induction xs arbitrary: s) auto
  with assms show ?thesis by (blast intro: run_inv)
qed

end

section \<open>Interface: a pool of identifiers\<close>

locale id_pool =
  fixes alloc :: "'s \<Rightarrow> ('i \<times> 's) option"
    and free :: "'i \<Rightarrow> 's \<Rightarrow> 's"
    and used :: "'s \<Rightarrow> 'i set"
    and capacity :: "'s \<Rightarrow> nat"
    and inv :: "'s \<Rightarrow> bool"
  assumes alloc_fresh: "inv s \<Longrightarrow> alloc s = Some (i, s') \<Longrightarrow> i \<notin> used s"
    and alloc_used: "inv s \<Longrightarrow> alloc s = Some (i, s') \<Longrightarrow> used s' = insert i (used s)"
    and alloc_inv: "inv s \<Longrightarrow> alloc s = Some (i, s') \<Longrightarrow> inv s'"
    and alloc_capacity: "inv s \<Longrightarrow> alloc s = Some (i, s') \<Longrightarrow> capacity s' = capacity s"
    and alloc_full: "inv s \<Longrightarrow> (alloc s = None) = (card (used s) = capacity s)"
    and free_used: "inv s \<Longrightarrow> i \<in> used s \<Longrightarrow> used (free i s) = used s - {i}"
    and free_inv: "inv s \<Longrightarrow> i \<in> used s \<Longrightarrow> inv (free i s)"
    and free_capacity: "inv s \<Longrightarrow> i \<in> used s \<Longrightarrow> capacity (free i s) = capacity s"
    and used_finite: "inv s \<Longrightarrow> finite (used s)"
    and used_le: "inv s \<Longrightarrow> card (used s) \<le> capacity s"
begin

text \<open>Allocating \<open>n\<close> times in a row, stopping at the first failure.\<close>

fun alloc_many :: "nat \<Rightarrow> 's \<Rightarrow> 'i list \<times> 's" where
  "alloc_many 0 s = ([], s)"
| "alloc_many (Suc n) s =
     (case alloc s of None \<Rightarrow> ([], s)
      | Some (i, s') \<Rightarrow> (let (is, t) = alloc_many n s' in (i # is, t)))"

lemma alloc_many_spec:
  assumes "inv s" and "alloc_many n s = (is, t)"
  shows "distinct is \<and> set is \<inter> used s = {} \<and> used t = used s \<union> set is \<and> inv t \<and>
         length is = min n (capacity s - card (used s)) \<and> capacity t = capacity s"
  using assms
proof (induction n arbitrary: s "is" t)
  case 0
  then show ?case by simp
next
  case (Suc n)
  show ?case
  proof (cases "alloc s")
    case None
    with Suc.prems have "is = []" and "t = s" and "card (used s) = capacity s"
      by (auto simp: alloc_full)
    with Suc.prems(1) show ?thesis by simp
  next
    case (Some p)
    then obtain i s' where al: "alloc s = Some (i, s')" by (cases p) auto
    obtain js u where rec: "alloc_many n s' = (js, u)" by (cases "alloc_many n s'")
    from Suc.prems(2) al rec have eqs: "is = i # js" "t = u" by auto
    have inv': "inv s'" using Suc.prems(1) al by (rule alloc_inv)
    note IH = Suc.IH [OF inv' rec]
    have fresh: "i \<notin> used s" and us: "used s' = insert i (used s)"
      and cap: "capacity s' = capacity s"
      using Suc.prems(1) al by (auto dest: alloc_fresh alloc_used alloc_capacity)
    have "card (used s') = Suc (card (used s))"
      using fresh us used_finite [OF Suc.prems(1)] by simp
    moreover have "card (used s) < capacity s"
      using alloc_full [OF Suc.prems(1)] used_le [OF Suc.prems(1)] al by simp
    ultimately show ?thesis
      using IH fresh us cap unfolding eqs by auto
  qed
qed

text \<open>A freed identifier can be allocated again: freeing makes room for one more.\<close>

lemma free_makes_room:
  assumes "inv s" and "i \<in> used s"
  shows "alloc (free i s) \<noteq> None"
proof -
  have "card (used s - {i}) < card (used s)"
    using used_finite [OF assms(1)] assms(2) by (rule card_Diff1_less)
  then have "card (used (free i s)) < capacity (free i s)"
    using assms used_le [OF assms(1)] by (simp add: free_used free_capacity)
  then show ?thesis
    using alloc_full [OF free_inv [OF assms]] by auto
qed

end

section \<open>Interface: a packet-number comparison\<close>

text \<open>
  \<open>replay new old\<close> is what a comparison function of the PN check returns. The laws: a number
  replays itself, and acceptance composes.
\<close>

locale replay_order =
  fixes replay :: "'p \<Rightarrow> 'p \<Rightarrow> bool"
  assumes replay_self: "replay p p"
    and accept_trans: "\<not> replay q p \<Longrightarrow> \<not> replay r q \<Longrightarrow> \<not> replay r p"
begin

fun accept_seq :: "'p \<Rightarrow> 'p list \<Rightarrow> 'p list" where
  "accept_seq lst [] = []"
| "accept_seq lst (x # xs) =
     (if replay x lst then accept_seq lst xs else x # accept_seq x xs)"

lemma accept_seq_later: "y \<in> set (accept_seq lst xs) \<Longrightarrow> \<not> replay y lst"
  by (induction lst xs rule: accept_seq.induct) (auto split: if_splits dest: accept_trans)

lemma accept_seq_increasing: "sorted_wrt (\<lambda>a b. \<not> replay b a) (lst # accept_seq lst xs)"
proof (induction lst xs rule: accept_seq.induct)
  case (2 lst x xs)
  then show ?case
    by (cases "replay x lst") (use accept_trans in auto)
qed simp

lemma accept_seq_distinct: "distinct (lst # accept_seq lst xs)"
proof -
  have "distinct xs" if "sorted_wrt (\<lambda>a b. \<not> replay b a) xs" for xs
    using that by (induction xs) (auto simp: replay_self)
  then show ?thesis by (blast intro: accept_seq_increasing)
qed

end

end
