(* ===== verification/TxDesc.thy ===== *)
theory TxDesc
  imports Prelude
begin

text \<open>
  Data model of the high-latency tx path (CORE/CLD_TXRX/TXRX/ol_txrx_types.h) and the pool of
  tx descriptors (ol_tx_desc.c).

  A descriptor is identified by its id. Its first word is shared (\<open>union ol_tx_desc_list_elem_t\<close>): it
  is the pointer to the netbuf while the descriptor is in use and the link of the free list while it
  is free, so freeing a descriptor overwrites the pointer to its netbuf. A netbuf has a number; the
  queues and the scheduler read only its length. What the kernel writes through a pointer handed to it
  (the link of a buffer, when the buffer is freed) is outside the model.
  The pointer \<open>pdev->tx_sched.scheduler\<close> is the pair of \<open>sched_attached\<close> (it is not NULL) and
  \<open>scheduler\<close> (what it points to). What happens to a netbuf when its descriptor is released (batch free, data callback, over the
  air acknowledgement callback) is recorded in \<open>nbuf_events\<close>; the descriptors handed to HTT are
  recorded in \<open>target_descs\<close>. Both are ghost fields: no operation reads them.

  Build configuration: high latency (SDIO) with CONFIG_HL_SUPPORT,
  FEATURE_HL_GROUP_CREDIT_FLOW_CONTROL and DEBUG_HL_LOGGING, without
  CONFIG_PER_VDEV_TX_DESC_POOL, QCA_SUPPORT_TXDESC_SANITY_CHECKS and WLAN_FEATURE_DSRC.
\<close>

section \<open>Data\<close>

datatype ol_tx_queue_status = ol_tx_queue_empty | ol_tx_queue_active | ol_tx_queue_paused

datatype ol_tx_scheduler_status = ol_tx_scheduler_idle | ol_tx_scheduler_running

text \<open>The scheduling categories, in the order of the C enumeration.\<close>

datatype ol_tx_cat =
    CAT_BE | CAT_BK | CAT_VI | CAT_VO
  | CAT_NON_QOS_DATA | CAT_UCAST_MGMT | CAT_MCAST_DATA | CAT_MCAST_MGMT

definition all_cats :: "ol_tx_cat list" where
  "all_cats = [CAT_BE, CAT_BK, CAT_VI, CAT_VO,
               CAT_NON_QOS_DATA, CAT_UCAST_MGMT, CAT_MCAST_DATA, CAT_MCAST_MGMT]"

text \<open>\<open>ol_tx_frm_type\<close>; values from \<open>OL_TXRX_MGMT_TYPE_BASE\<close> on are management frame types.\<close>

definition ol_tx_frm_std :: nat where "ol_tx_frm_std = 0"
definition ol_tx_frm_tso :: nat where "ol_tx_frm_tso = 1"
definition ol_tx_frm_no_free :: nat where "ol_tx_frm_no_free = 3"
definition ol_tx_frm_freed :: nat where "ol_tx_frm_freed = 255"
definition OL_TXRX_MGMT_TYPE_BASE :: nat where "OL_TXRX_MGMT_TYPE_BASE = 4"

record ol_tx_desc =
  desc_id :: nat
  netbuf_len :: nat
  pkt_type :: nat

text \<open>The first word of a descriptor.\<close>

datatype desc_word = NULL | Netbuf nat | Elem nat

text \<open>
  What a descriptor carries besides the frame: its first word, the references on it (the download and the target
  each hold one), the status the target reported, and the virtual device (\<open>tx_desc->vdev\<close>, cleared
  when the descriptor is free). \<open>sl_frame\<close> is the frame it was last dispatched with.
\<close>

record tx_slot =
  first_word :: desc_word
  sl_frame :: ol_tx_desc
  ref_cnt :: int
  sl_status :: nat
  sl_vdev :: "nat option"

text \<open>A tx queue is a queue of a peer (one per tid) or of a virtual device.\<close>

datatype txq_id = Peer_txq nat nat | Vdev_txq nat nat

text \<open>\<open>struct ol_tx_frms_queue_t\<close>; \<open>OL_TX_MAX_GROUPS_PER_QUEUE\<close> is 1.\<close>

record ol_tx_frms_queue =
  paused_total :: nat
  txq_frms :: nat
  txq_bytes :: nat
  txq_head :: "ol_tx_desc list"
  txq_flag :: ol_tx_queue_status
  txq_group :: "nat option"

text \<open>\<open>struct ol_tx_sched_wrr_adv_category_info_t\<close>: specification, state, statistics.\<close>

record ol_tx_cat_specs =
  wrr_skip_weight :: int
  credit_threshold :: nat
  send_limit :: nat
  credit_reserve :: nat
  discard_weight :: int

record ol_tx_cat_info =
  specs :: ol_tx_cat_specs
  wrr_count :: int
  cat_frms :: int
  cat_bytes :: int
  cat_head :: "txq_id list"
  cat_active :: bool
  stat_queued :: int
  stat_discard :: int
  stat_dispatched :: int

text \<open>\<open>struct ol_tx_sched_wrr_adv_t\<close>.\<close>

record ol_tx_sched_wrr_adv =
  order :: "ol_tx_cat list"
  sched_index :: nat
  categories :: "ol_tx_cat \<Rightarrow> ol_tx_cat_info"

text \<open>What became of a netbuf: the pointer that was handed on, with the error flag.\<close>

datatype nbuf_event =
    Nbuf_tx_free desc_word bool
  | Nbuf_data_callback desc_word bool
  | Nbuf_ota_ack nat desc_word bool
  | Nbuf_mgmt_free desc_word
  | Nbuf_download nat desc_word bool

text \<open>\<open>struct ol_txrx_vdev_t\<close>: its id, the reasons it is paused for, and its peers.\<close>

record ol_txrx_vdev =
  vdev_id :: nat
  hl_paused_reason :: "32 word"
  peer_list :: "nat list"

text \<open>The part of \<open>struct ol_txrx_pdev_t\<close> that the tx path uses.\<close>

record ol_txrx_pdev =
  pool_size :: nat
  freelist :: desc_word
  num_free :: nat
  tx_slots :: "nat \<Rightarrow> tx_slot"
  rsrc_cnt :: int
  rsrc_threshold_lo :: nat
  rsrc_threshold_hi :: nat
  target_tx_credit :: int
  tid_to_ac :: "nat \<Rightarrow> ol_tx_cat"
  sched_attached :: bool
  scheduler :: ol_tx_sched_wrr_adv
  tx_sched_status :: ol_tx_scheduler_status
  last_used_txq :: "txq_id option"
  txqs :: "txq_id \<Rightarrow> ol_tx_frms_queue"
  vdev_list :: "ol_txrx_vdev list"
  grp_credit :: "nat \<Rightarrow> int"
  grp_membership :: "nat \<Rightarrow> 32 word"
  tx_data_callback :: bool
  ota_ack_cb :: "nat \<Rightarrow> bool"
  download_cb :: "nat \<Rightarrow> bool"
  nbuf_events :: "nbuf_event list"
  target_descs :: "ol_tx_desc list"

section \<open>Operations\<close>

definition upd_slot :: "nat \<Rightarrow> (tx_slot \<Rightarrow> tx_slot) \<Rightarrow> ol_txrx_pdev \<Rightarrow> ol_txrx_pdev" where
  "upd_slot i f pdev = pdev\<lparr>tx_slots := (tx_slots pdev)(i := f (tx_slots pdev i))\<rparr>"

abbreviation first_words :: "ol_txrx_pdev \<Rightarrow> nat \<Rightarrow> desc_word" where
  "first_words pdev \<equiv> \<lambda>i. first_word (tx_slots pdev i)"

text \<open>
  The unlink from the free list; the caller fills the descriptor in. When the head of the list is not
  a descriptor (a netbuf pointer, after a descriptor was freed twice) the code would take the buffer
  for one; the model stops there.
\<close>

definition ol_tx_desc_alloc :: "nat \<Rightarrow> ol_txrx_pdev \<Rightarrow> (nat \<times> ol_txrx_pdev) option" where
  "ol_tx_desc_alloc vdev pdev =
     (case freelist pdev of
        Elem i \<Rightarrow>
          Some (i, upd_slot i (\<lambda>sl. sl\<lparr>sl_vdev := Some vdev\<rparr>)
                     (pdev\<lparr>num_free := usub 16 (num_free pdev) 1, freelist := first_words pdev i\<rparr>))
      | _ \<Rightarrow> None)"

definition ol_tx_desc_alloc_hl :: "nat \<Rightarrow> ol_txrx_pdev \<Rightarrow> (nat \<times> ol_txrx_pdev) option" where
  "ol_tx_desc_alloc_hl vdev pdev =
     (case ol_tx_desc_alloc vdev pdev of
        None \<Rightarrow> None
      | Some (i, pdev') \<Rightarrow> Some (i, pdev'\<lparr>rsrc_cnt := rsrc_cnt pdev' - 1\<rparr>))"

definition ol_tx_desc_hl :: "nat \<Rightarrow> ol_txrx_pdev \<Rightarrow> nat \<Rightarrow> nat \<Rightarrow> (ol_tx_desc \<times> ol_txrx_pdev) option" where
  "ol_tx_desc_hl vdev pdev netbuf len =
     (case ol_tx_desc_alloc_hl vdev pdev of
        None \<Rightarrow> None
      | Some (i, pdev') \<Rightarrow>
          Some (\<lparr>desc_id = i, netbuf_len = len, pkt_type = ol_tx_frm_std\<rparr>,
                upd_slot i (\<lambda>sl. sl\<lparr>first_word := Netbuf netbuf\<rparr>) pdev'))"

definition ol_tx_desc_push_free :: "nat \<Rightarrow> ol_txrx_pdev \<Rightarrow> ol_txrx_pdev" where
  "ol_tx_desc_push_free i pdev =
     (upd_slot i (\<lambda>sl. sl\<lparr>first_word := freelist pdev\<rparr>) pdev)\<lparr>freelist := Elem i\<rparr>"

definition ol_tx_desc_free :: "nat \<Rightarrow> ol_txrx_pdev \<Rightarrow> ol_txrx_pdev" where
  "ol_tx_desc_free i pdev =
     (let pdev = ol_tx_desc_push_free i pdev;
          pdev = pdev\<lparr>num_free := u16 (num_free pdev + 1)\<rparr>
      in upd_slot i (\<lambda>sl. sl\<lparr>sl_vdev := None\<rparr>) pdev)"

definition nbuf_log :: "nbuf_event list \<Rightarrow> ol_txrx_pdev \<Rightarrow> ol_txrx_pdev" where
  "nbuf_log es pdev = pdev\<lparr>nbuf_events := nbuf_events pdev @ es\<rparr>"

text \<open>
  The descriptors are freed in list order; the netbufs are chained by prepending and freed as
  one batch afterwards, so they go in the opposite order.
\<close>

fun ol_tx_desc_list_loop ::
    "ol_txrx_pdev \<Rightarrow> ol_tx_desc list \<Rightarrow> desc_word list \<Rightarrow> ol_txrx_pdev \<times> desc_word list" where
  "ol_tx_desc_list_loop pdev [] msdus = (pdev, msdus)"
| "ol_tx_desc_list_loop pdev (d # ds) msdus =
     ol_tx_desc_list_loop (ol_tx_desc_free (desc_id d) (upd_slot (desc_id d) (\<lambda>sl. sl\<lparr>ref_cnt := 0\<rparr>) pdev))
       ds (first_words pdev (desc_id d) # msdus)"

definition ol_tx_desc_frame_list_free ::
    "ol_txrx_pdev \<Rightarrow> ol_tx_desc list \<Rightarrow> bool \<Rightarrow> ol_txrx_pdev" where
  "ol_tx_desc_frame_list_free pdev tx_descs had_error =
     (let (pdev, msdus) = ol_tx_desc_list_loop pdev tx_descs []
      in nbuf_log (map (\<lambda>msdu. Nbuf_tx_free msdu had_error) msdus) pdev)"

definition ol_tx_desc_frame_free_nonstd ::
    "ol_txrx_pdev \<Rightarrow> ol_tx_desc \<Rightarrow> bool \<Rightarrow> ol_txrx_pdev" where
  "ol_tx_desc_frame_free_nonstd pdev d had_error =
     (let pdev = upd_slot (desc_id d) (\<lambda>sl. sl\<lparr>ref_cnt := 0\<rparr>) pdev;
          netbuf = first_words pdev (desc_id d)
      in
      if pkt_type d = ol_tx_frm_no_free \<and> tx_data_callback pdev then
        ol_tx_desc_free (desc_id d) (nbuf_log [Nbuf_data_callback netbuf had_error] pdev)
      else if pkt_type d = ol_tx_frm_tso then
        ol_tx_desc_free (desc_id d) (nbuf_log [Nbuf_tx_free netbuf had_error] pdev)
      else if OL_TXRX_MGMT_TYPE_BASE \<le> pkt_type d \<and> pkt_type d \<noteq> ol_tx_frm_freed then
        (let mgmt_type = pkt_type d - OL_TXRX_MGMT_TYPE_BASE;
             acks = (if ota_ack_cb pdev mgmt_type
                     then [Nbuf_ota_ack mgmt_type netbuf had_error] else [])
         in ol_tx_desc_free (desc_id d) (nbuf_log (acks @ [Nbuf_mgmt_free netbuf]) pdev))
      else
        ol_tx_desc_free (desc_id d) (nbuf_log [Nbuf_tx_free netbuf had_error] pdev))"

section \<open>The pool\<close>

text \<open>The free list as a list of ids: \<open>free_chain\<close> relates it to the links, \<open>free_walk\<close> follows them.\<close>

fun free_chain :: "(nat \<Rightarrow> desc_word) \<Rightarrow> desc_word \<Rightarrow> nat list \<Rightarrow> bool" where
  "free_chain w h [] \<longleftrightarrow> h = NULL"
| "free_chain w h (i # is) \<longleftrightarrow> h = Elem i \<and> free_chain w (w i) is"

fun free_walk :: "(nat \<Rightarrow> desc_word) \<Rightarrow> nat \<Rightarrow> desc_word \<Rightarrow> nat list" where
  "free_walk w 0 h = []"
| "free_walk w (Suc n) h = (case h of Elem i \<Rightarrow> i # free_walk w n (w i) | _ \<Rightarrow> [])"

definition free_descs :: "ol_txrx_pdev \<Rightarrow> nat list" where
  "free_descs pdev = free_walk (first_words pdev) (pool_size pdev) (freelist pdev)"

definition desc_pool_inv :: "ol_txrx_pdev \<Rightarrow> bool" where
  "desc_pool_inv pdev \<longleftrightarrow>
     free_chain (first_words pdev) (freelist pdev) (free_descs pdev) \<and>
     distinct (free_descs pdev) \<and> set (free_descs pdev) \<subseteq> {..<pool_size pdev} \<and>
     num_free pdev = length (free_descs pdev) \<and> pool_size pdev < 2 ^ 16"

definition descs_used :: "ol_txrx_pdev \<Rightarrow> nat set" where
  "descs_used pdev = {..<pool_size pdev} - set (free_descs pdev)"

lemma free_chain_upd [simp]: "i \<notin> set fl \<Longrightarrow> free_chain (w(i := x)) h fl = free_chain w h fl"
  by (induction fl arbitrary: h) auto

lemma free_chain_walk: "free_chain w h fl \<Longrightarrow> length fl \<le> n \<Longrightarrow> free_walk w n h = fl"
proof (induction fl arbitrary: h n)
  case Nil
  then show ?case by (cases n) simp_all
next
  case (Cons i fl)
  then show ?case by (cases n) simp_all
qed

lemma pool_invI:
  assumes "free_chain (first_words p) (freelist p) fl" and "distinct fl" and "set fl \<subseteq> {..<pool_size p}"
    and "num_free p = length fl" and "pool_size p < 2 ^ 16"
  shows "free_descs p = fl" and "desc_pool_inv p"
proof -
  have "card (set fl) \<le> card {..<pool_size p}" using assms(3) by (intro card_mono) auto
  then have "length fl \<le> pool_size p" using assms(2) by (simp add: distinct_card)
  then show "free_descs p = fl" unfolding free_descs_def by (rule free_chain_walk [OF assms(1)])
  then show "desc_pool_inv p" using assms by (simp add: desc_pool_inv_def)
qed

lemma pool_invD:
  assumes "desc_pool_inv p"
  shows "free_chain (first_words p) (freelist p) (free_descs p)" "distinct (free_descs p)"
    "set (free_descs p) \<subseteq> {..<pool_size p}" "num_free p = length (free_descs p)" "pool_size p < 2 ^ 16"
  using assms by (simp_all add: desc_pool_inv_def)

lemma length_freelist_le:
  assumes "desc_pool_inv pdev"
  shows "length (free_descs pdev) \<le> pool_size pdev"
proof -
  have "card (set (free_descs pdev)) \<le> card {..<pool_size pdev}"
    using pool_invD(3) [OF assms] by (intro card_mono) auto
  then show ?thesis
    using pool_invD(2) [OF assms] by (simp add: distinct_card)
qed

lemma card_descs_used:
  assumes "desc_pool_inv pdev"
  shows "card (descs_used pdev) = pool_size pdev - length (free_descs pdev)"
  using pool_invD(2,3) [OF assms] unfolding descs_used_def
  by (simp add: card_Diff_subset distinct_card)

lemma freelist_shorter_when_used:
  assumes "desc_pool_inv pdev" and "i \<in> descs_used pdev"
  shows "length (free_descs pdev) < pool_size pdev"
proof -
  have "0 < card (descs_used pdev)"
    using assms(2) by (auto simp: card_gt_0_iff descs_used_def)
  then show ?thesis by (simp add: card_descs_used [OF assms(1)])
qed

lemma upd_slot_fields [simp]:
  "freelist (upd_slot i f p) = freelist p" "num_free (upd_slot i f p) = num_free p"
  "pool_size (upd_slot i f p) = pool_size p"
  "tx_slots (upd_slot i f p) = (tx_slots p)(i := f (tx_slots p i))"
  "rsrc_cnt (upd_slot i f p) = rsrc_cnt p"
  "rsrc_threshold_lo (upd_slot i f p) = rsrc_threshold_lo p"
  "rsrc_threshold_hi (upd_slot i f p) = rsrc_threshold_hi p"
  "target_tx_credit (upd_slot i f p) = target_tx_credit p"
  "tid_to_ac (upd_slot i f p) = tid_to_ac p" "sched_attached (upd_slot i f p) = sched_attached p"
  "scheduler (upd_slot i f p) = scheduler p" "tx_sched_status (upd_slot i f p) = tx_sched_status p"
  "last_used_txq (upd_slot i f p) = last_used_txq p" "txqs (upd_slot i f p) = txqs p"
  "vdev_list (upd_slot i f p) = vdev_list p" "grp_credit (upd_slot i f p) = grp_credit p"
  "grp_membership (upd_slot i f p) = grp_membership p"
  "tx_data_callback (upd_slot i f p) = tx_data_callback p"
  "ota_ack_cb (upd_slot i f p) = ota_ack_cb p" "download_cb (upd_slot i f p) = download_cb p" "nbuf_events (upd_slot i f p) = nbuf_events p"
  "target_descs (upd_slot i f p) = target_descs p"
  by (simp_all add: upd_slot_def)

lemma desc_alloc_Some:
  assumes "ol_tx_desc_alloc v pdev = Some (i, pdev')"
  shows "freelist pdev = Elem i"
    and "pdev' = upd_slot i (\<lambda>sl. sl\<lparr>sl_vdev := Some v\<rparr>)
                   (pdev\<lparr>num_free := usub 16 (num_free pdev) 1, freelist := first_words pdev i\<rparr>)"
  using assms by (auto simp: ol_tx_desc_alloc_def split: desc_word.splits)

lemma desc_alloc_inv:
  assumes "desc_pool_inv pdev" and "ol_tx_desc_alloc v pdev = Some (i, pdev')"
  shows "desc_pool_inv pdev'" and "free_descs pdev = i # free_descs pdev'" and "pool_size pdev' = pool_size pdev"
proof -
  note inv = pool_invD [OF assms(1)]
  note al = desc_alloc_Some [OF assms(2)]
  obtain rest where fl: "free_descs pdev = i # rest"
    using inv(1) unfolding al(1) by (cases "free_descs pdev") auto
  have ch: "free_chain (first_words pdev) (first_words pdev i) rest"
    using inv(1) fl by simp
  have w: "first_words pdev' = first_words pdev" by (simp add: al(2) fun_eq_iff)
  have n: "num_free pdev' = length rest"
    using inv(4,5) length_freelist_le [OF assms(1)] by (simp add: al(2) fl wrap_simps)
  have "free_chain (first_words pdev') (freelist pdev') rest"
    unfolding w using ch by (simp add: al(2))
  note pool = pool_invI [OF this]
  show "desc_pool_inv pdev'" using inv fl n by (intro pool(2)) (simp_all add: al(2))
  have "free_descs pdev' = rest" using inv fl n by (intro pool(1)) (simp_all add: al(2))
  then show "free_descs pdev = i # free_descs pdev'" by (simp add: fl)
  show "pool_size pdev' = pool_size pdev" by (simp add: al(2))
qed

lemma desc_free_fields:
  "freelist (ol_tx_desc_free i p) = Elem i" "nbuf_events (ol_tx_desc_free i p) = nbuf_events p"
  "tx_slots (ol_tx_desc_free i p) = (tx_slots p)(i := (tx_slots p i)\<lparr>first_word := freelist p, sl_vdev := None\<rparr>)"
  "num_free (ol_tx_desc_free i p) = u16 (num_free p + 1)" "pool_size (ol_tx_desc_free i p) = pool_size p"
  by (simp_all add: ol_tx_desc_free_def ol_tx_desc_push_free_def Let_def)

lemma desc_free_words: "first_words (ol_tx_desc_free i p) = (first_words p)(i := freelist p)"
  by (auto simp: desc_free_fields)

lemma desc_free_inv:
  assumes "desc_pool_inv pdev" and "i \<in> descs_used pdev"
  shows "desc_pool_inv (ol_tx_desc_free i pdev)" and "free_descs (ol_tx_desc_free i pdev) = i # free_descs pdev"
proof -
  note inv = pool_invD [OF assms(1)]
  have i: "i \<notin> set (free_descs pdev)" "i < pool_size pdev" using assms(2) by (auto simp: descs_used_def)
  have "free_chain (first_words (ol_tx_desc_free i pdev)) (freelist (ol_tx_desc_free i pdev)) (i # free_descs pdev)"
    unfolding desc_free_words using inv(1) i(1) by (simp add: desc_free_fields)
  note pool = pool_invI [OF this]
  have n: "num_free (ol_tx_desc_free i pdev) = length (i # free_descs pdev)"
    using inv(4,5) freelist_shorter_when_used [OF assms] by (simp add: desc_free_fields)
  show "desc_pool_inv (ol_tx_desc_free i pdev)"
    using inv i n by (intro pool(2)) (simp_all add: desc_free_fields)
  show "free_descs (ol_tx_desc_free i pdev) = i # free_descs pdev"
    using inv i n by (intro pool(1)) (simp_all add: desc_free_fields)
qed

interpretation tx_descs: id_pool "ol_tx_desc_alloc v" ol_tx_desc_free descs_used pool_size desc_pool_inv
  for v
proof unfold_locales
  fix s :: ol_txrx_pdev and i s'
  assume inv: "desc_pool_inv s"
  show "finite (descs_used s)" by (simp add: descs_used_def)
  show "card (descs_used s) \<le> pool_size s" by (simp add: card_descs_used [OF inv])
  show "(ol_tx_desc_alloc v s = None) = (card (descs_used s) = pool_size s)"
    using length_freelist_le [OF inv] card_descs_used [OF inv] pool_invD(1) [OF inv]
    by (cases "free_descs s") (auto simp: ol_tx_desc_alloc_def)
  assume al: "ol_tx_desc_alloc v s = Some (i, s')"
  note a = desc_alloc_inv [OF inv al]
  show "i \<notin> descs_used s" by (simp add: descs_used_def a(2))
  show "descs_used s' = insert i (descs_used s)"
    using pool_invD(2,3) [OF inv] by (auto simp: descs_used_def a(2,3))
  show "desc_pool_inv s'" by (rule a)
  show "pool_size s' = pool_size s" by (rule a)
next
  fix s :: ol_txrx_pdev and i
  assume inv: "desc_pool_inv s" and i: "i \<in> descs_used s"
  show "descs_used (ol_tx_desc_free i s) = descs_used s - {i}"
    by (auto simp: descs_used_def desc_free_inv(2) [OF inv i] desc_free_fields)
  show "desc_pool_inv (ol_tx_desc_free i s)" using inv i by (rule desc_free_inv)
  show "pool_size (ol_tx_desc_free i s) = pool_size s" by (simp add: desc_free_fields)
qed

end
