(* ===== verification/TxSched.thy ===== *)
theory TxSched
  imports TxDesc
begin

text \<open>
  The tx download scheduler of the high-latency path: ol_tx_sched.c (the OL_TX_SCHED_WRR_ADV
  variant) with the two queue operations it calls, \<open>ol_tx_dequeue\<close> and the group-credit
  accounting of ol_tx_queue.c.

  The spin locks are not modelled: every function here runs with \<open>tx_queue_spinlock\<close> held or
  takes it, so each is one atomic step. \<open>htt_tx_msdu_credit\<close> is 1 for every frame. The bad-peer
  flow control (QCA_BAD_PEER_TX_FLOW_CL) is compiled out, so \<open>ol_tx_bad_peer_dequeue_check\<close>
  returns the send limit it is given.
\<close>

section \<open>Dequeueing frames of one queue\<close>

definition htt_tx_msdu_credit :: "ol_tx_desc \<Rightarrow> nat" where
  "htt_tx_msdu_credit d = 1"

text \<open>
  The loop of \<open>ol_tx_dequeue\<close>: the frames still allowed, the credit, and the accumulated
  number of frames, credit and bytes; the queue and the caller's output list. The last
  component of the result is \<open>flush_all\<close>: the queue ran dry before its counter did.
\<close>

fun ol_tx_dequeue_loop ::
    "nat \<Rightarrow> nat \<Rightarrow> nat \<Rightarrow> nat \<Rightarrow> nat \<Rightarrow> ol_tx_desc list \<Rightarrow> ol_tx_desc list \<Rightarrow>
     nat \<times> nat \<times> nat \<times> ol_tx_desc list \<times> ol_tx_desc list \<times> bool" where
  "ol_tx_dequeue_loop max_frames credit n credit_sum bytes_sum [] out =
     (n, credit_sum, bytes_sum, [], out, n < max_frames)"
| "ol_tx_dequeue_loop max_frames credit n credit_sum bytes_sum (d # ds) out =
     (if n < max_frames then
        if credit_sum + htt_tx_msdu_credit d > credit then
          (n, credit_sum, bytes_sum, d # ds, out, False)
        else
          ol_tx_dequeue_loop max_frames credit (n + 1) (credit_sum + htt_tx_msdu_credit d)
            (bytes_sum + netbuf_len d) ds (out @ [d])
      else (n, credit_sum, bytes_sum, d # ds, out, False))"

text \<open>The flush loop removes as many frames as were dequeued from the front of the output list.\<close>

fun ol_tx_dequeue_flush ::
    "nat \<Rightarrow> ol_tx_desc list \<Rightarrow> ol_txrx_pdev \<Rightarrow> ol_tx_desc list \<times> ol_txrx_pdev" where
  "ol_tx_dequeue_flush 0 out pdev = (out, pdev)"
| "ol_tx_dequeue_flush (Suc n) [] pdev = ([], pdev)"
| "ol_tx_dequeue_flush (Suc n) (d # ds) pdev =
     ol_tx_dequeue_flush n ds (ol_tx_desc_frame_free_nonstd pdev d False)"

definition upd_txq ::
    "txq_id \<Rightarrow> (ol_tx_frms_queue \<Rightarrow> ol_tx_frms_queue) \<Rightarrow> ol_txrx_pdev \<Rightarrow> ol_txrx_pdev" where
  "upd_txq q f pdev = pdev\<lparr>txqs := (txqs pdev)(q := f (txqs pdev q))\<rparr>"

text \<open>The result: state, output list, number of frames, credit used, bytes.\<close>

definition ol_tx_dequeue ::
    "ol_txrx_pdev \<Rightarrow> txq_id \<Rightarrow> ol_tx_desc list \<Rightarrow> nat \<Rightarrow> nat \<Rightarrow>
     ol_txrx_pdev \<times> ol_tx_desc list \<times> nat \<times> nat \<times> nat" where
  "ol_tx_dequeue pdev q out max_frames credit =
     (let txq = txqs pdev q;
          temp_bytes = txq_bytes txq;
          max_frames = (if txq_frms txq < max_frames then txq_frms txq else max_frames);
          (num_frames, credit_sum, bytes_sum, ds, out, flush_all) =
            ol_tx_dequeue_loop max_frames credit 0 0 0 (txq_head txq) out;
          frms = usub 16 (txq_frms txq) num_frames;
          txq = txq\<lparr>txq_head := ds, txq_frms := frms,
                    txq_bytes := usub 32 (txq_bytes txq) bytes_sum,
                    txq_flag := (if frms = 0 \<and> txq_flag txq = ol_tx_queue_active
                                 then ol_tx_queue_empty else txq_flag txq)\<rparr>
      in if flush_all \<and> bytes_sum \<noteq> 0 then
           (let (out, pdev) = ol_tx_dequeue_flush num_frames out
                  (upd_txq q (\<lambda>_. txq\<lparr>txq_frms := 0, txq_bytes := 0\<rparr>) pdev)
            in (pdev, out, 0, 0, temp_bytes))
         else (upd_txq q (\<lambda>_. txq) pdev, out, num_frames, credit_sum, bytes_sum))"

section \<open>Group credit\<close>

definition ol_tx_txq_group_credit_limit :: "ol_txrx_pdev \<Rightarrow> txq_id \<Rightarrow> nat \<Rightarrow> nat" where
  "ol_tx_txq_group_credit_limit pdev q credit =
     (let updated_credit =
            (case txq_group (txqs pdev q) of
               None \<Rightarrow> int credit
             | Some g \<Rightarrow> min (int credit) (grp_credit pdev g))
      in if updated_credit < 0 then 0 else nat updated_credit)"

definition ol_txrx_update_group_credit :: "nat \<Rightarrow> int \<Rightarrow> bool \<Rightarrow> ol_txrx_pdev \<Rightarrow> ol_txrx_pdev" where
  "ol_txrx_update_group_credit g credit absolute pdev =
     pdev\<lparr>grp_credit :=
       (grp_credit pdev)(g := if absolute then credit else grp_credit pdev g + credit)\<rparr>"

definition ol_tx_txq_group_credit_update ::
    "ol_txrx_pdev \<Rightarrow> txq_id \<Rightarrow> int \<Rightarrow> bool \<Rightarrow> ol_txrx_pdev" where
  "ol_tx_txq_group_credit_update pdev q credit absolute =
     (case txq_group (txqs pdev q) of
        None \<Rightarrow> pdev
      | Some g \<Rightarrow> ol_txrx_update_group_credit g credit absolute pdev)"

section \<open>The order list\<close>

definition NUM_CATEGORIES :: nat where "NUM_CATEGORIES = 8"

function rotate_shift :: "'a list \<Rightarrow> nat \<Rightarrow> 'a list \<times> nat" where
  "rotate_shift ord idx =
     (if idx < NUM_CATEGORIES - 1 then rotate_shift (ord[idx := ord ! (idx + 1)]) (idx + 1)
      else (ord, idx))"
  by pat_completeness auto
termination by (relation "measure (\<lambda>(ord, idx). NUM_CATEGORIES - idx)") auto

definition ol_tx_sched_wrr_adv_rotate_order_list_tail :: "'a list \<Rightarrow> nat \<Rightarrow> 'a list" where
  "ol_tx_sched_wrr_adv_rotate_order_list_tail ord idx =
     (let v = ord ! idx; (ord, idx) = rotate_shift ord idx in ord[idx := v])"

section \<open>The WRR scheduler\<close>

definition upd_cat ::
    "ol_tx_cat \<Rightarrow> (ol_tx_cat_info \<Rightarrow> ol_tx_cat_info) \<Rightarrow> ol_txrx_pdev \<Rightarrow> ol_txrx_pdev" where
  "upd_cat c f pdev =
     pdev\<lparr>scheduler := (scheduler pdev)
       \<lparr>categories := (categories (scheduler pdev))(c := f (categories (scheduler pdev) c))\<rparr>\<rparr>"

abbreviation cat_of :: "ol_txrx_pdev \<Rightarrow> ol_tx_cat \<Rightarrow> ol_tx_cat_info" where
  "cat_of pdev c \<equiv> categories (scheduler pdev) c"

definition set_order :: "ol_tx_cat list \<Rightarrow> ol_txrx_pdev \<Rightarrow> ol_txrx_pdev" where
  "set_order ord pdev = pdev\<lparr>scheduler := (scheduler pdev)\<lparr>order := ord\<rparr>\<rparr>"

definition set_index :: "nat \<Rightarrow> ol_txrx_pdev \<Rightarrow> ol_txrx_pdev" where
  "set_index i pdev = pdev\<lparr>scheduler := (scheduler pdev)\<lparr>sched_index := i\<rparr>\<rparr>"

definition ol_tx_sched_select_init_wrr_adv :: "ol_txrx_pdev \<Rightarrow> ol_txrx_pdev" where
  "ol_tx_sched_select_init_wrr_adv pdev = (set_index 0 pdev)\<lparr>last_used_txq := None\<rparr>"

definition ol_tx_sched_wrr_adv_credit_sanity_check :: "ol_txrx_pdev \<Rightarrow> nat \<Rightarrow> bool" where
  "ol_tx_sched_wrr_adv_credit_sanity_check pdev credit =
     list_all (\<lambda>c. \<not> credit_threshold (specs (cat_of pdev c)) > credit) all_cats"

text \<open>
  The selection loop. It returns the state and the position of the chosen category, or a
  position past the end of the list when no category is active. The measure of its termination:
  each skip brings the counter of a category one step closer to its skip weight, each move to
  the next position shortens the rest of the list.
\<close>

definition wrr_slack :: "ol_txrx_pdev \<Rightarrow> nat" where
  "wrr_slack pdev =
     (\<Sum>c\<leftarrow>all_cats. nat (wrr_skip_weight (specs (cat_of pdev c)) - wrr_count (cat_of pdev c)))"

lemma set_all_cats [simp]: "c \<in> set all_cats"
  by (cases c) (auto simp: all_cats_def)

lemma distinct_all_cats [simp]: "distinct all_cats"
  by (simp add: all_cats_def)

lemma length_all_cats [simp]: "length all_cats = NUM_CATEGORIES"
  by (simp add: all_cats_def NUM_CATEGORIES_def)

lemma sum_list_strict_mono_at:
  fixes f g :: "'a \<Rightarrow> nat"
  assumes "x \<in> set xs" and "f x < g x" and "\<And>y. y \<in> set xs \<Longrightarrow> f y \<le> g y"
  shows "sum_list (map f xs) < sum_list (map g xs)"
  using assms
proof (induction xs)
  case (Cons a xs)
  have "sum_list (map f xs) \<le> sum_list (map g xs)"
    using Cons.prems(3) by (intro sum_list_mono) simp
  then show ?case
    using Cons by (cases "x = a") (auto intro: add_less_le_mono add_le_less_mono)
qed simp

lemma wrr_slack_skip:
  assumes "wrr_count (cat_of pdev c) + 1 < wrr_skip_weight (specs (cat_of pdev c))"
  shows "wrr_slack (set_order ord (upd_cat c (\<lambda>i. i\<lparr>wrr_count := wrr_count i + 1\<rparr>) pdev)) < wrr_slack pdev"
  unfolding wrr_slack_def
  by (rule sum_list_strict_mono_at [of c]) (use assms in \<open>auto simp: set_order_def upd_cat_def\<close>)

function wrr_select_loop :: "ol_txrx_pdev \<Rightarrow> nat \<Rightarrow> ol_txrx_pdev \<times> nat" where
  "wrr_select_loop pdev index =
     (if index < NUM_CATEGORIES then
        let c = order (scheduler pdev) ! index
        in if \<not> cat_active (cat_of pdev c) then wrr_select_loop pdev (index + 1)
           else
             let pdev' = upd_cat c (\<lambda>i. i\<lparr>wrr_count := wrr_count i + 1\<rparr>) pdev
             in if wrr_count (cat_of pdev c) + 1 < wrr_skip_weight (specs (cat_of pdev c)) then
                  wrr_select_loop
                    (set_order (ol_tx_sched_wrr_adv_rotate_order_list_tail
                       (order (scheduler pdev')) index) pdev') index
                else (pdev', index)
      else (pdev, index))"
  by pat_completeness auto
termination
  by (relation "measures [\<lambda>(pdev, index). wrr_slack pdev, \<lambda>(pdev, index). NUM_CATEGORIES - index]")
    (auto simp: wrr_slack_skip)

declare wrr_select_loop.simps [simp del] rotate_shift.simps [simp del]

text \<open>\<open>struct ol_tx_sched_ctx\<close>: the frames collected for the download.\<close>

record ol_tx_sched_ctx =
  ctx_head :: "ol_tx_desc list"
  ctx_frms :: nat

text \<open>The branch that downloads frames of the queue taken from the category's list.\<close>

definition wrr_serve_txq ::
    "ol_txrx_pdev \<Rightarrow> ol_tx_sched_ctx \<Rightarrow> ol_tx_cat \<Rightarrow> txq_id \<Rightarrow> nat \<Rightarrow>
     ol_txrx_pdev \<times> ol_tx_sched_ctx \<times> nat" where
  "wrr_serve_txq pdev sctx c q credit =
     (let pdev = pdev\<lparr>last_used_txq := Some q\<rparr>;
          (pdev, out, frames, used, bytes) =
            ol_tx_dequeue pdev q (ctx_head sctx) (send_limit (specs (cat_of pdev c))) credit;
          pdev = upd_cat c (\<lambda>i. i\<lparr>stat_dispatched := stat_dispatched i + int frames,
                                 cat_frms := cat_frms i - int frames,
                                 cat_bytes := cat_bytes i - int bytes\<rparr>) pdev;
          pdev = (if txq_frms (txqs pdev q) > 0
                  then upd_cat c (\<lambda>i. i\<lparr>cat_head := cat_head i @ [q]\<rparr>) pdev
                  else if cat_frms (cat_of pdev c) = 0
                  then upd_cat c (\<lambda>i. i\<lparr>cat_active := False\<rparr>) pdev
                  else pdev);
          sctx = sctx\<lparr>ctx_head := out, ctx_frms := ctx_frms sctx + frames\<rparr>;
          pdev = ol_tx_txq_group_credit_update pdev q (- int used) False
      in (pdev, sctx, used))"

text \<open>
  Once a category has been chosen: take the first queue of its list, and either let it download
  frames or, when the credit of its group does not suffice, put it back.
\<close>

definition wrr_offer_credit ::
    "ol_txrx_pdev \<Rightarrow> ol_tx_sched_ctx \<Rightarrow> ol_tx_cat \<Rightarrow> nat \<Rightarrow> ol_txrx_pdev \<times> ol_tx_sched_ctx \<times> nat" where
  "wrr_offer_credit pdev sctx c credit =
     (case cat_head (cat_of pdev c) of
        [] \<Rightarrow> (pdev, sctx, 0)
      | q # rest \<Rightarrow>
          let pdev = upd_cat c (\<lambda>i. i\<lparr>cat_head := rest\<rparr>) pdev;
              credit = ol_tx_txq_group_credit_limit pdev q credit
          in if credit > credit_reserve (specs (cat_of pdev c)) then
               wrr_serve_txq pdev sctx c q (credit - credit_reserve (specs (cat_of pdev c)))
             else if last_used_txq pdev = Some q then
               (upd_cat c (\<lambda>i. i\<lparr>cat_head := q # cat_head i\<rparr>) pdev, sctx, 0)
             else
               let pdev = upd_cat c (\<lambda>i. i\<lparr>cat_head := cat_head i @ [q]\<rparr>) pdev
               in (if last_used_txq pdev = None then pdev\<lparr>last_used_txq := Some q\<rparr>
                   else pdev, sctx, 0))"

text \<open>Reset the WRR counter, move the category to the back, remember where to go on.\<close>

definition wrr_commit :: "ol_txrx_pdev \<Rightarrow> nat \<Rightarrow> ol_txrx_pdev" where
  "wrr_commit pdev index =
     (let c = order (scheduler pdev) ! index;
          pdev = upd_cat c (\<lambda>i. i\<lparr>wrr_count := 0\<rparr>) pdev;
          pdev = set_order (ol_tx_sched_wrr_adv_rotate_order_list_tail
                   (order (scheduler pdev)) index) pdev
      in set_index index pdev)"

definition ol_tx_sched_select_batch_wrr_adv ::
    "ol_txrx_pdev \<Rightarrow> ol_tx_sched_ctx \<Rightarrow> nat \<Rightarrow> ol_txrx_pdev \<times> ol_tx_sched_ctx \<times> nat" where
  "ol_tx_sched_select_batch_wrr_adv pdev sctx credit =
     (let (pdev, index) = wrr_select_loop pdev (sched_index (scheduler pdev))
      in if index \<ge> NUM_CATEGORIES then (pdev, sctx, 0)
         else
           let c = order (scheduler pdev) ! index
           in if credit < credit_threshold (specs (cat_of pdev c)) then
                (upd_cat c (\<lambda>i. i\<lparr>wrr_count := wrr_count i - 1\<rparr>) pdev, sctx, 0)
              else wrr_offer_credit (wrr_commit pdev index) sctx c credit)"

definition ol_tx_sched_txq_enqueue_wrr_adv ::
    "ol_txrx_pdev \<Rightarrow> txq_id \<Rightarrow> nat \<Rightarrow> nat \<Rightarrow> nat \<Rightarrow> ol_txrx_pdev" where
  "ol_tx_sched_txq_enqueue_wrr_adv pdev q tid frms bytes =
     (let c = tid_to_ac pdev tid;
          pdev = upd_cat c (\<lambda>i. i\<lparr>cat_frms := cat_frms i + int frms,
                                 cat_bytes := cat_bytes i + int bytes,
                                 stat_queued := stat_queued i + int frms\<rparr>) pdev
      in if txq_flag (txqs pdev q) \<noteq> ol_tx_queue_active
         then upd_cat c (\<lambda>i. i\<lparr>cat_head := cat_head i @ [q], cat_active := True\<rparr>) pdev
         else pdev)"

definition ol_tx_sched_txq_deactivate_wrr_adv ::
    "ol_txrx_pdev \<Rightarrow> txq_id \<Rightarrow> nat \<Rightarrow> ol_txrx_pdev" where
  "ol_tx_sched_txq_deactivate_wrr_adv pdev q tid =
     (let c = tid_to_ac pdev tid;
          pdev = upd_cat c (\<lambda>i. i\<lparr>cat_frms := cat_frms i - int (txq_frms (txqs pdev q)),
                                 cat_bytes := cat_bytes i - int (txq_bytes (txqs pdev q)),
                                 cat_head := remove1 q (cat_head i)\<rparr>) pdev
      in if cat_frms (cat_of pdev c) = 0 \<and> cat_active (cat_of pdev c)
         then upd_cat c (\<lambda>i. i\<lparr>cat_active := False\<rparr>) pdev
         else pdev)"

definition ol_tx_sched_discard_select_category_wrr_adv :: "ol_txrx_pdev \<Rightarrow> ol_tx_cat" where
  "ol_tx_sched_discard_select_category_wrr_adv pdev =
     snd (foldl (\<lambda>(max_score, cat) c.
            let score = cat_frms (cat_of pdev c) * discard_weight (specs (cat_of pdev c))
            in if max_score = 0 \<or> score > max_score then (score, c) else (max_score, cat))
          (0, CAT_BE) all_cats)"

definition ol_tx_sched_txq_discard_wrr_adv ::
    "ol_txrx_pdev \<Rightarrow> txq_id \<Rightarrow> ol_tx_cat \<Rightarrow> nat \<Rightarrow> nat \<Rightarrow> ol_txrx_pdev" where
  "ol_tx_sched_txq_discard_wrr_adv pdev q c frames bytes =
     (let pdev = (if txq_frms (txqs pdev q) = 0
                  then upd_cat c (\<lambda>i. i\<lparr>cat_head := remove1 q (cat_head i)\<rparr>) pdev else pdev);
          pdev = upd_cat c (\<lambda>i. i\<lparr>cat_frms := cat_frms i - int frames,
                                 cat_bytes := cat_bytes i - int bytes,
                                 stat_discard := stat_discard i + int frames\<rparr>) pdev
      in if cat_frms (cat_of pdev c) = 0
         then upd_cat c (\<lambda>i. i\<lparr>cat_active := False\<rparr>) pdev else pdev)"

section \<open>The scheduler framework\<close>

text \<open>The notifications of \<open>ol_tx_sched_notify\<close> with the information each carries.\<close>

datatype ol_tx_sched_notify_event =
    OL_TX_ENQUEUE_FRAME nat nat
  | OL_TX_DELETE_QUEUE nat
  | OL_TX_PAUSE_QUEUE nat
  | OL_TX_UNPAUSE_QUEUE nat
  | OL_TX_DISCARD_FRAMES ol_tx_cat nat nat

definition ol_tx_sched_notify ::
    "ol_txrx_pdev \<Rightarrow> txq_id \<Rightarrow> ol_tx_sched_notify_event \<Rightarrow> ol_txrx_pdev" where
  "ol_tx_sched_notify pdev q ev =
     (if \<not> sched_attached pdev then pdev
      else case ev of
        OL_TX_ENQUEUE_FRAME tid bytes \<Rightarrow> ol_tx_sched_txq_enqueue_wrr_adv pdev q tid 1 bytes
      | OL_TX_DELETE_QUEUE tid \<Rightarrow>
          (if txq_flag (txqs pdev q) = ol_tx_queue_active
           then ol_tx_sched_txq_deactivate_wrr_adv pdev q tid else pdev)
      | OL_TX_PAUSE_QUEUE tid \<Rightarrow>
          (if txq_flag (txqs pdev q) = ol_tx_queue_active
           then ol_tx_sched_txq_deactivate_wrr_adv pdev q tid else pdev)
      | OL_TX_UNPAUSE_QUEUE tid \<Rightarrow>
          (if txq_frms (txqs pdev q) \<noteq> 0
           then ol_tx_sched_txq_enqueue_wrr_adv pdev q tid
                  (txq_frms (txqs pdev q)) (txq_bytes (txqs pdev q))
           else pdev)
      | OL_TX_DISCARD_FRAMES c frames bytes \<Rightarrow>
          ol_tx_sched_txq_discard_wrr_adv pdev q c frames bytes)"

text \<open>The queue with the most frames of a category's list.\<close>

definition ol_tx_sched_discard_select_txq :: "ol_txrx_pdev \<Rightarrow> txq_id list \<Rightarrow> txq_id option" where
  "ol_tx_sched_discard_select_txq pdev tx_queues =
     snd (foldl (\<lambda>(max_frms, sel) q.
            if txq_frms (txqs pdev q) > max_frms then (txq_frms (txqs pdev q), Some q)
            else (max_frms, sel)) (0, None) tx_queues)"

definition OL_TX_DISCARD_QUANTUM :: nat where "OL_TX_DISCARD_QUANTUM = 10"

definition ol_tx_sched_discard_select ::
    "ol_txrx_pdev \<Rightarrow> nat \<Rightarrow> ol_tx_desc list \<Rightarrow> bool \<Rightarrow> ol_txrx_pdev \<times> ol_tx_desc list \<times> nat" where
  "ol_tx_sched_discard_select pdev frms tx_descs force =
     (let c = ol_tx_sched_discard_select_category_wrr_adv pdev
      in case ol_tx_sched_discard_select_txq pdev (cat_head (cat_of pdev c)) of
           None \<Rightarrow> (pdev, tx_descs, 0)
         | Some q \<Rightarrow>
             let qf = txq_frms (txqs pdev q);
                 frms = (if force then frms
                         else
                           let frms = (if OL_TX_DISCARD_QUANTUM < frms then OL_TX_DISCARD_QUANTUM else frms)
                           in if qf > 1 \<and> frms \<ge> qf div 2 then qf div 2 else frms);
                 (pdev, tx_descs, frms, _, bytes) = ol_tx_dequeue pdev q tx_descs frms 10000
             in (ol_tx_sched_notify pdev q (OL_TX_DISCARD_FRAMES c frms bytes), tx_descs, frms))"

section \<open>Download to the target\<close>

text \<open>
  Two outcomes come from outside: whether a netbuf has room for its msdu id
  (\<open>ol_tx_msdu_id_storage\<close>, a function of the netbuf layout) and whether HTT could allocate the
  HTC packet for it (\<open>htt_htc_pkt_alloc\<close>). Both are parameters of the model.
\<close>

record htt_env =
  storage_err :: "ol_tx_desc \<Rightarrow> bool"
  pkt_alloc_fails :: "ol_tx_desc \<Rightarrow> bool"

definition htt_tx_send_std :: "htt_env \<Rightarrow> ol_txrx_pdev \<Rightarrow> ol_tx_desc \<Rightarrow> ol_txrx_pdev \<times> bool" where
  "htt_tx_send_std env pdev d =
     (if pkt_alloc_fails env d then (pdev, True)
      else (pdev\<lparr>target_descs := target_descs pdev @ [d]\<rparr>, False))"

text \<open>The batch is sent frame by frame; the rejected frames are chained in front.\<close>

fun htt_tx_send_batch ::
    "htt_env \<Rightarrow> ol_txrx_pdev \<Rightarrow> ol_tx_desc list \<Rightarrow> nat \<Rightarrow> ol_tx_desc list \<Rightarrow>
     ol_txrx_pdev \<times> ol_tx_desc list" where
  "htt_tx_send_batch env pdev msdus 0 rejected = (pdev, rejected)"
| "htt_tx_send_batch env pdev [] (Suc n) rejected = (pdev, rejected)"
| "htt_tx_send_batch env pdev (d # ds) (Suc n) rejected =
     (let (pdev, failed) = htt_tx_send_std env pdev d
      in htt_tx_send_batch env pdev ds n (if failed then d # rejected else rejected))"

definition OL_TX_TARGET_CREDIT_INCR :: "ol_tx_desc \<Rightarrow> ol_txrx_pdev \<Rightarrow> ol_txrx_pdev" where
  "OL_TX_TARGET_CREDIT_INCR d pdev =
     pdev\<lparr>target_tx_credit := target_tx_credit pdev + int (htt_tx_msdu_credit d)\<rparr>"

text \<open>A frame that could not be sent gives its credit back and is freed with an error.\<close>

definition send_failed :: "ol_tx_desc \<Rightarrow> ol_txrx_pdev \<Rightarrow> ol_txrx_pdev" where
  "send_failed d pdev =
     ol_tx_desc_frame_free_nonstd (OL_TX_TARGET_CREDIT_INCR d pdev) d True"

definition ol_tx_send_batch ::
    "htt_env \<Rightarrow> ol_txrx_pdev \<Rightarrow> ol_tx_desc list \<Rightarrow> nat \<Rightarrow> ol_txrx_pdev" where
  "ol_tx_send_batch env pdev msdus num_msdus =
     (let (pdev, rejected) = htt_tx_send_batch env pdev msdus num_msdus []
      in fold send_failed rejected pdev)"

text \<open>
  The dispatch loop: the rest of the context's list and its frame counter, the chain of msdus
  collected so far (from \<open>head_msdu\<close> on) and \<open>num_msdus\<close>.
\<close>

fun ol_tx_sched_dispatch_loop ::
    "htt_env \<Rightarrow> ol_txrx_pdev \<Rightarrow> ol_tx_desc list \<Rightarrow> nat \<Rightarrow> ol_tx_desc list \<Rightarrow> nat \<Rightarrow> ol_txrx_pdev" where
  "ol_tx_sched_dispatch_loop env pdev hd_list 0 chain num_msdus =
     (if chain \<noteq> [] then ol_tx_send_batch env pdev chain num_msdus else pdev)"
| "ol_tx_sched_dispatch_loop env pdev [] (Suc frms) chain num_msdus =
     (if chain \<noteq> [] then ol_tx_send_batch env pdev chain num_msdus else pdev)"
| "ol_tx_sched_dispatch_loop env pdev (d # ds) (Suc frms) chain num_msdus =
     (let pdev = upd_slot (desc_id d) (\<lambda>sl. sl\<lparr>sl_frame := d, ref_cnt := 2\<rparr>) pdev in
      if storage_err env d then
        let pdev = ol_tx_send_batch env pdev (chain @ [d]) num_msdus;
            (pdev, failed) = htt_tx_send_std env pdev d;
            pdev = (if failed then send_failed d pdev else pdev)
        in ol_tx_sched_dispatch_loop env pdev ds frms [] 0
      else ol_tx_sched_dispatch_loop env pdev ds frms (chain @ [d]) (num_msdus + 1))"

definition ol_tx_sched_dispatch :: "htt_env \<Rightarrow> ol_txrx_pdev \<Rightarrow> ol_tx_sched_ctx \<Rightarrow> ol_txrx_pdev" where
  "ol_tx_sched_dispatch env pdev sctx =
     ol_tx_sched_dispatch_loop env pdev (ctx_head sctx) (ctx_frms sctx) [] 0"

section \<open>The selection leaves the target credit alone\<close>

lemma upd_frame [frame_simps]:
  "target_tx_credit (upd_cat c f pdev) = target_tx_credit pdev"
  "target_tx_credit (upd_txq q g pdev) = target_tx_credit pdev"
  "target_tx_credit (set_order ord pdev) = target_tx_credit pdev"
  "target_tx_credit (set_index i pdev) = target_tx_credit pdev"
  by (simp_all add: upd_cat_def upd_txq_def set_order_def set_index_def)

lemma free_nonstd_frame [frame_simps]:
  "target_tx_credit (ol_tx_desc_frame_free_nonstd pdev d e) = target_tx_credit pdev"
  by (simp add: upd_slot_def ol_tx_desc_frame_free_nonstd_def ol_tx_desc_free_def ol_tx_desc_push_free_def
      nbuf_log_def Let_def)

lemma dequeue_flush_credit [frame_simps]:
  "target_tx_credit (snd (ol_tx_dequeue_flush n out pdev)) = target_tx_credit pdev"
  by (induction n out pdev rule: ol_tx_dequeue_flush.induct) (simp_all add: frame_simps)

lemma dequeue_credit [frame_simps]:
  "target_tx_credit (fst (ol_tx_dequeue pdev q out m c)) = target_tx_credit pdev"
proof -
  obtain n cs bs ds o' fl where
    lp: "ol_tx_dequeue_loop (if txq_frms (txqs pdev q) < m then txq_frms (txqs pdev q) else m) c 0 0 0
           (txq_head (txqs pdev q)) out = (n, cs, bs, ds, o', fl)"
    by (metis prod_cases6)
  show ?thesis
    unfolding ol_tx_dequeue_def Let_def lp
    by (auto simp: frame_simps case_prod_beta)
qed

lemma select_loop_credit [frame_simps]:
  "target_tx_credit (fst (wrr_select_loop pdev index)) = target_tx_credit pdev"
proof (induction pdev index rule: wrr_select_loop.induct)
  case (1 pdev index)
  then show ?case
    by (subst wrr_select_loop.simps) (simp add: Let_def frame_simps)
qed

lemma group_update_credit [frame_simps]:
  "target_tx_credit (ol_tx_txq_group_credit_update pdev q v b) = target_tx_credit pdev"
  by (simp add: ol_tx_txq_group_credit_update_def ol_txrx_update_group_credit_def split: option.splits)

lemma serve_credit [frame_simps]:
  "target_tx_credit (fst (wrr_serve_txq pdev sctx c q credit)) = target_tx_credit pdev"
proof -
  obtain p out n u b where
    dq: "ol_tx_dequeue (pdev\<lparr>last_used_txq := Some q\<rparr>) q (ctx_head sctx)
           (send_limit (specs (cat_of pdev c))) credit = (p, out, n, u, b)"
    by (metis prod_cases5)
  have "target_tx_credit p = target_tx_credit pdev"
    using dequeue_credit [of "pdev\<lparr>last_used_txq := Some q\<rparr>" q "ctx_head sctx"
        "send_limit (specs (cat_of pdev c))" credit] dq by simp
  then show ?thesis
    unfolding wrr_serve_txq_def Let_def by (simp add: dq frame_simps)
qed

lemma offer_credit_credit [frame_simps]:
  "target_tx_credit (fst (wrr_offer_credit pdev sctx c credit)) = target_tx_credit pdev"
  by (simp add: wrr_offer_credit_def Let_def frame_simps split: list.splits)

lemma select_batch_credit [frame_simps]:
  "target_tx_credit (fst (ol_tx_sched_select_batch_wrr_adv pdev sctx credit)) = target_tx_credit pdev"
proof -
  obtain p i where sl: "wrr_select_loop pdev (sched_index (scheduler pdev)) = (p, i)"
    by fastforce
  have "target_tx_credit p = target_tx_credit pdev"
    using select_loop_credit [of pdev "sched_index (scheduler pdev)"] sl by simp
  then show ?thesis
    by (simp add: ol_tx_sched_select_batch_wrr_adv_def Let_def sl wrr_commit_def frame_simps)
qed

section \<open>The scheduler\<close>

text \<open>
  The loop runs while the target has credit; every iteration that does not end it takes at
  least one credit, so it terminates.
\<close>

function ol_tx_sched_loop ::
    "ol_txrx_pdev \<Rightarrow> ol_tx_sched_ctx \<Rightarrow> ol_txrx_pdev \<times> ol_tx_sched_ctx" where
  "ol_tx_sched_loop pdev sctx =
     (if target_tx_credit pdev > 0 then
        let (pdev', sctx', num_credits) =
              ol_tx_sched_select_batch_wrr_adv pdev sctx (nat (target_tx_credit pdev));
            pdev'' = (if num_credits > 0
                      then pdev'\<lparr>target_tx_credit := target_tx_credit pdev' - int num_credits\<rparr>
                      else pdev')
        in if num_credits = 0 then (pdev'', sctx') else ol_tx_sched_loop pdev'' sctx'
      else (pdev, sctx))"
  by pat_completeness auto
termination
proof (relation "measure (\<lambda>(pdev, sctx). nat (target_tx_credit pdev))", goal_cases)
  case (2 pdev sctx x p' rest s' n p'')
  have "target_tx_credit p' = target_tx_credit pdev"
    using 2 select_batch_credit [of pdev sctx "nat (target_tx_credit pdev)"] by (metis fst_conv)
  with 2 show ?case by auto
qed auto

declare ol_tx_sched_loop.simps [simp del]

definition ol_tx_sched :: "htt_env \<Rightarrow> ol_txrx_pdev \<Rightarrow> ol_txrx_pdev" where
  "ol_tx_sched env pdev =
     (if tx_sched_status pdev \<noteq> ol_tx_scheduler_idle then pdev
      else
        let pdev = pdev\<lparr>tx_sched_status := ol_tx_scheduler_running\<rparr>;
            pdev = ol_tx_sched_select_init_wrr_adv pdev;
            (pdev, sctx) = ol_tx_sched_loop pdev \<lparr>ctx_head = [], ctx_frms = 0\<rparr>;
            pdev = ol_tx_sched_dispatch env pdev sctx
        in pdev\<lparr>tx_sched_status := ol_tx_scheduler_idle\<rparr>)"

section \<open>Attaching and configuring the scheduler\<close>

text \<open>The category table of the SDIO build.\<close>

fun wrr_adv_cfg_spec :: "ol_tx_cat \<Rightarrow> ol_tx_cat_specs" where
  "wrr_adv_cfg_spec CAT_VO = \<lparr>wrr_skip_weight = 1, credit_threshold = 17, send_limit = 24, credit_reserve = 0, discard_weight = 1\<rparr>"
| "wrr_adv_cfg_spec CAT_VI = \<lparr>wrr_skip_weight = 3, credit_threshold = 17, send_limit = 16, credit_reserve = 1, discard_weight = 4\<rparr>"
| "wrr_adv_cfg_spec CAT_BE = \<lparr>wrr_skip_weight = 10, credit_threshold = 17, send_limit = 16, credit_reserve = 1, discard_weight = 8\<rparr>"
| "wrr_adv_cfg_spec CAT_BK = \<lparr>wrr_skip_weight = 12, credit_threshold = 6, send_limit = 6, credit_reserve = 1, discard_weight = 8\<rparr>"
| "wrr_adv_cfg_spec CAT_NON_QOS_DATA = \<lparr>wrr_skip_weight = 10, credit_threshold = 17, send_limit = 16, credit_reserve = 1, discard_weight = 8\<rparr>"
| "wrr_adv_cfg_spec CAT_UCAST_MGMT = \<lparr>wrr_skip_weight = 1, credit_threshold = 1, send_limit = 4, credit_reserve = 0, discard_weight = 1\<rparr>"
| "wrr_adv_cfg_spec CAT_MCAST_DATA = \<lparr>wrr_skip_weight = 10, credit_threshold = 17, send_limit = 4, credit_reserve = 1, discard_weight = 4\<rparr>"
| "wrr_adv_cfg_spec CAT_MCAST_MGMT = \<lparr>wrr_skip_weight = 1, credit_threshold = 1, send_limit = 4, credit_reserve = 0, discard_weight = 1\<rparr>"

definition wmm_cats :: "ol_tx_cat list" where
  "wmm_cats = [CAT_BE, CAT_BK, CAT_VI, CAT_VO]"

text \<open>The ini-file tuning: a category whose configured skip weight is 0 keeps its table entry.\<close>

definition ol_tx_sched_wrr_param_update ::
    "(ol_tx_cat \<Rightarrow> ol_tx_cat_specs) \<Rightarrow> (ol_tx_cat \<Rightarrow> ol_tx_cat_specs) \<Rightarrow> ol_tx_cat \<Rightarrow> ol_tx_cat_specs" where
  "ol_tx_sched_wrr_param_update cfg spec c =
     (if c \<in> set wmm_cats \<and> wrr_skip_weight (cfg c) \<noteq> 0 then cfg c else spec c)"

definition ol_tx_sched_init_wrr_adv :: "(ol_tx_cat \<Rightarrow> ol_tx_cat_specs) \<Rightarrow> ol_tx_sched_wrr_adv" where
  "ol_tx_sched_init_wrr_adv cfg =
     (let sp = ol_tx_sched_wrr_param_update cfg wrr_adv_cfg_spec
      in \<lparr>order = all_cats, sched_index = 0,
          categories = (\<lambda>c. \<lparr>specs = sp c, wrr_count = wrr_skip_weight (sp c) - 1,
            cat_frms = 0, cat_bytes = 0, cat_head = [], cat_active = False,
            stat_queued = 0, stat_discard = 0, stat_dispatched = 0\<rparr>)\<rparr>)"

text \<open>\<open>mem_ok\<close>: the allocation of the scheduler structure succeeded.\<close>

definition ol_tx_sched_attach ::
    "bool \<Rightarrow> (ol_tx_cat \<Rightarrow> ol_tx_cat_specs) \<Rightarrow> ol_txrx_pdev \<Rightarrow> ol_txrx_pdev" where
  "ol_tx_sched_attach mem_ok cfg pdev =
     (let pdev = pdev\<lparr>tx_sched_status := ol_tx_scheduler_idle\<rparr>
      in if mem_ok then pdev\<lparr>sched_attached := True, scheduler := ol_tx_sched_init_wrr_adv cfg\<rparr>
         else pdev\<lparr>sched_attached := False\<rparr>)"

definition ol_tx_sched_detach :: "ol_txrx_pdev \<Rightarrow> ol_txrx_pdev" where
  "ol_tx_sched_detach pdev = pdev\<lparr>sched_attached := False\<rparr>"

text \<open>
  \<open>ol_txrx_set_wmm_param\<close>: the AIFS and CWmin of an access category, added up, decide which of
  the four default entries it gets.
\<close>

definition default_edca :: "ol_tx_cat \<Rightarrow> nat" where
  "default_edca c = (case c of CAT_VO \<Rightarrow> 2 + 3 | CAT_VI \<Rightarrow> 2 + 7 | CAT_BE \<Rightarrow> 3 + 15 | _ \<Rightarrow> 7 + 15)"

definition wmm_ac_selected :: "nat \<Rightarrow> ol_tx_cat" where
  "wmm_ac_selected w =
     (if default_edca CAT_VO \<ge> w then CAT_VO
      else if default_edca CAT_VI \<ge> w then CAT_VI
      else if default_edca CAT_BE \<ge> w then CAT_BE else CAT_BK)"

definition ol_txrx_set_wmm_param ::
    "(ol_tx_cat \<Rightarrow> nat) \<Rightarrow> (ol_tx_cat \<Rightarrow> nat) \<Rightarrow> ol_txrx_pdev \<Rightarrow> ol_txrx_pdev" where
  "ol_txrx_set_wmm_param aifs cwmin pdev =
     fold (\<lambda>c. upd_cat c (\<lambda>i. i\<lparr>specs := wrr_adv_cfg_spec (wmm_ac_selected (u32 (aifs c + cwmin c)))\<rparr>))
       wmm_cats pdev"

text \<open>The statistics of the categories.\<close>

definition ol_tx_sched_stats_clear :: "ol_txrx_pdev \<Rightarrow> ol_txrx_pdev" where
  "ol_tx_sched_stats_clear pdev =
     fold (\<lambda>c. upd_cat c (\<lambda>i. i\<lparr>stat_queued := 0, stat_discard := 0, stat_dispatched := 0\<rparr>)) all_cats pdev"

text \<open>The map from tids to categories, as the attach of the physical device sets it up.\<close>

definition TXRX_TID_TO_WMM_AC :: "nat \<Rightarrow> ol_tx_cat" where
  "TXRX_TID_TO_WMM_AC tid =
     (if tid div 2 = 3 then CAT_VO else if tid div 2 = 2 then CAT_VI
      else if odd tid \<noteq> odd (tid div 2) then CAT_BK else CAT_BE)"

definition init_tid_to_ac :: "(nat \<Rightarrow> ol_tx_cat) \<Rightarrow> nat \<Rightarrow> ol_tx_cat" where
  "init_tid_to_ac old tid =
     (if tid < 16 then TXRX_TID_TO_WMM_AC tid
      else if tid = 16 then CAT_NON_QOS_DATA else if tid = 17 then CAT_UCAST_MGMT
      else if tid = 18 then CAT_MCAST_DATA else if tid = 19 then CAT_MCAST_MGMT else old tid)"

end
