(* ===== verification/RxData.thy ===== *)
theory RxData
  imports TxSched
begin

unbundle bit_operations_syntax

text \<open>
  The receive side's data (\<open>ol_txrx_types.h\<close>, \<open>htt_common.h\<close>, \<open>ol_htt_rx_api.h\<close>) and the last
  stage of the receive path (\<open>ol_rx.c\<close>, \<open>ol_rx_fwd.c\<close>): the privacy filter, delivery to the OS
  shim, and intra-BSS forwarding.

  A linked list of network buffers is a list of \<open>rx_msdu\<close>. The buffer's identity is \<open>m_id\<close>, its
  rx descriptor \<open>m_desc\<close>, and \<open>m_data\<close> the bytes behind the descriptor. Freed buffers, buffers
  handed to the OS and buffers handed to the tx path are logged in the state, so that theorems
  can say where every frame went.
\<close>

section \<open>Rx descriptors\<close>

text \<open>\<open>union htt_rx_pn_t\<close>, seen through its \<open>pn128\<close> member; \<open>pn24\<close> and \<open>pn48\<close> overlay word 0.\<close>

record htt_rx_pn =
  pn128_0 :: "64 word"
  pn128_1 :: "64 word"

datatype htt_sec_type =
    htt_sec_type_none | htt_sec_type_wep128 | htt_sec_type_wep104 | htt_sec_type_wep40
  | htt_sec_type_tkip | htt_sec_type_tkip_nomic | htt_sec_type_aes_ccmp | htt_sec_type_wapi

datatype pn_replay_type = OL_RX_TKIP_REPLAYS | OL_RX_CCMP_REPLAYS | OL_RX_OTHER_REPLAYS

datatype wlan_op_mode =
    wlan_op_mode_unknown | wlan_op_mode_ap | wlan_op_mode_ibss | wlan_op_mode_sta
  | wlan_op_mode_monitor | wlan_op_mode_ocb

text \<open>
  The fields of the rx descriptor the host reads. The high-latency descriptor has the bit fields
  \<open>seq_num\<close> (12 bits), \<open>encrypted\<close>, \<open>mcast_bcast\<close>, \<open>fragment\<close> and four PN words; the first and
  last MSDU flags are in the rx indication in front of it, the firmware's discard and forward
  bits behind it. \<open>rd_retry\<close> and \<open>rd_tid\<close> exist only in the low-latency descriptor.
\<close>

record hl_htt_rx_desc =
  rd_seq_num :: nat
  rd_encrypted :: bool
  rd_mcast_bcast :: bool
  rd_fragment :: bool
  pn_31_0 :: "32 word"
  pn_63_32 :: "32 word"
  pn_95_64 :: "32 word"
  pn_127_96 :: "32 word"
  rd_first_msdu :: bool
  rd_last_msdu :: bool
  rd_discard :: bool
  rd_forward :: bool
  rd_retry :: bool
  rd_tid :: nat

record rx_msdu =
  m_id :: nat
  m_desc :: hl_htt_rx_desc
  m_data :: "8 word list"

section \<open>Virtual devices, peers and the device\<close>

datatype privacy_filter = PRIVACY_FILTER_ALWAYS | PRIVACY_FILTER_KEY_UNAVAILABLE

datatype privacy_filter_packet_type =
  PRIVACY_FILTER_PACKET_UNICAST | PRIVACY_FILTER_PACKET_MULTICAST | PRIVACY_FILTER_PACKET_BOTH

record privacy_exemption =
  pe_ether_type :: nat
  pe_filter_type :: privacy_filter
  pe_packet_type :: privacy_filter_packet_type

record rx_vdev =
  rxv_opmode :: wlan_op_mode
  rxv_safemode :: bool
  rxv_drop_unenc :: bool
  rxv_privacy_filters :: "privacy_exemption list"
  rxv_disable_intrabss_fwd :: bool
  rxv_fwd_tx_packets :: nat
  rxv_fwd_rx_packets :: nat

text \<open>
  \<open>struct ol_rx_reorder_t\<close>. A slot is the list of buffers between its head and tail pointers.
  \<open>ro_array = None\<close> stands for \<open>array == &base\<close>, \<open>Some\<close> for a separately allocated array.
  Fragments wait in slot 0, and there the tail pointer need not be the last element of the chain:
  \<open>ro_frag_rest\<close> is what is linked behind the tail. Whoever links something behind the tail or
  clears the slot loses it. \<open>ro_on_waitlist\<close> is \<open>defrag_waitlist_elem.tqe_prev != NULL\<close>.
\<close>

record ol_rx_reorder =
  win_sz :: nat
  win_sz_mask :: nat
  num_mpdus :: nat
  ro_base :: "rx_msdu list"
  ro_array :: "rx_msdu list list option"
  ro_frag_rest :: "rx_msdu list"
  tm_active :: bool
  tm_timestamp_ms :: nat
  ro_on_waitlist :: bool
  defrag_timeout_ms :: nat
  ro_tid :: nat

text \<open>The function a peer's \<open>rx_opt_proc\<close> points to.\<close>

datatype rx_opt_proc_fn =
  OL_RX_PN_CHECK | OL_RX_PN_CHECK_ONLY | OL_RX_FWD_CHECK | OL_RX_DELIVER
| OL_RX_IN_ORDER_DELIVER | OL_RX_DISCARD

datatype ol_rx_reorder_msg_type = reorder_store | reorder_release | reorder_flush

record ol_rx_reorder_record =
  rr_msg_type :: ol_rx_reorder_msg_type
  rr_tid :: nat
  rr_peer_id :: nat
  rr_start_seq :: nat
  rr_end_seq :: nat
  rr_reorder_idx :: nat

record ol_rx_reorder_history =
  rh_curr_index :: nat
  rh_wrap_around :: bool
  rh_record :: "ol_rx_reorder_record list"

record rx_peer =
  rxp_vdev :: nat
  rxp_local_id :: nat
  rx_opt_proc :: rx_opt_proc_fn
  fw_pn_check :: bool
  sec_ucast :: htt_sec_type
  sec_mcast :: htt_sec_type
  michael_key :: "bool \<Rightarrow> 8 word list"
  keyinstalled :: bool
  tids_rx_reorder :: "nat \<Rightarrow> ol_rx_reorder"
  tids_last_pn :: "nat \<Rightarrow> htt_rx_pn"
  tids_last_pn_valid :: "nat \<Rightarrow> bool"
  tids_next_rel_idx :: "nat \<Rightarrow> nat"
  tids_last_seq :: "nat \<Rightarrow> nat"
  tids_mcast_last_seq :: "nat \<Rightarrow> nat"
  reorder_history :: "ol_rx_reorder_history option"

text \<open>
  The part of \<open>struct ol_txrx_pdev_t\<close> and of the HTT handle the receive path uses, with the logs.
  \<open>peers\<close> holds the peer objects, \<open>peer_id_map\<close> is \<open>ol_txrx_peer_find_by_id\<close>, \<open>ocb_peer\<close> the
  peer \<open>ol_txrx_get_ocb_peer\<close> finds, \<open>rx_holes\<close> the hole sizes reported upwards.
\<close>

record rx_pdev =
  is_high_latency :: bool
  full_reorder_offload :: bool
  native_wifi :: bool
  dup_check :: bool
  defrag_timeout_check :: bool
  defrag_cfg_timeout_ms :: nat
  rx_desc_size_hl :: nat
  cur_seq_num_hl :: nat
  pn_replays :: "pn_replay_type \<Rightarrow> nat"
  msdu_mc_dup_drop :: nat
  rx_vdevs :: "nat \<Rightarrow> rx_vdev"
  peers :: "nat \<Rightarrow> rx_peer"
  peer_id_map :: "nat \<Rightarrow> nat option"
  ocb_peer :: "nat option"
  defrag_waitlist :: "(nat \<times> nat) list"
  vt_list :: "ol_tx_cat \<Rightarrow> (nat \<times> nat) list"
  vt_duration_ms :: "ol_tx_cat \<Rightarrow> nat"
  vt_timer :: "ol_tx_cat \<Rightarrow> nat option"
  rx_holes :: "nat list"
  rx_freed :: "rx_msdu list"
  rx_osif :: "(nat \<times> rx_msdu list) list"
  rx_fwd :: "rx_msdu list"

text \<open>
  What the receive path gets from outside: the clock, the content of an uninitialised local, the
  outcome of copying a buffer and of enlarging one to append another, and what \<open>vdev->tx\<close> returns (\<open>None\<close> when it took the frame).
\<close>

record rx_env =
  now_ms :: nat
  stack_pn :: htt_rx_pn
  nbuf_copy :: "rx_msdu \<Rightarrow> rx_msdu option"
  nbuf_cat_ok :: "rx_msdu \<Rightarrow> rx_msdu \<Rightarrow> bool"
  vdev_tx :: "rx_msdu \<Rightarrow> rx_msdu option"

definition OL_TXRX_NUM_EXT_TIDS :: nat where "OL_TXRX_NUM_EXT_TIDS = 19"
definition OL_RX_MCAST_TID :: nat where "OL_RX_MCAST_TID = 18"
definition IEEE80211_SEQ_MAX :: nat where "IEEE80211_SEQ_MAX = 4096"
definition INVALID_REORDER_INDEX :: nat where "INVALID_REORDER_INDEX = 0xFFFF"

lemmas rx_consts = OL_TXRX_NUM_EXT_TIDS_def OL_RX_MCAST_TID_def IEEE80211_SEQ_MAX_def
  INVALID_REORDER_INDEX_def

section \<open>Descriptor accessors\<close>

definition htt_rx_mpdu_desc_retry :: "rx_pdev \<Rightarrow> hl_htt_rx_desc \<Rightarrow> bool" where
  "htt_rx_mpdu_desc_retry s d = (if is_high_latency s then False else rd_retry d)"

definition htt_rx_mpdu_desc_tid :: "rx_pdev \<Rightarrow> hl_htt_rx_desc \<Rightarrow> nat" where
  "htt_rx_mpdu_desc_tid s d = (if is_high_latency s then 0xff else rd_tid d)"

definition htt_rx_msdu_is_frag_hl :: "hl_htt_rx_desc \<Rightarrow> bool" where
  "htt_rx_msdu_is_frag_hl d = rd_mcast_bcast d"

definition htt_rx_msdu_is_frag_ll :: "hl_htt_rx_desc \<Rightarrow> bool" where
  "htt_rx_msdu_is_frag_ll d = rd_fragment d"

definition htt_rx_msdu_is_frag :: "rx_pdev \<Rightarrow> hl_htt_rx_desc \<Rightarrow> bool" where
  "htt_rx_msdu_is_frag s d =
     (if is_high_latency s then htt_rx_msdu_is_frag_hl d else htt_rx_msdu_is_frag_ll d)"

text \<open>
  The sequence number. The high-latency accessor caches it: while the last popped message carries
  no rx descriptor it answers with the cached value instead of reading the given descriptor.
\<close>

definition htt_rx_mpdu_desc_seq_num :: "rx_pdev \<Rightarrow> hl_htt_rx_desc \<Rightarrow> nat" where
  "htt_rx_mpdu_desc_seq_num s d =
     (if is_high_latency s \<and> rx_desc_size_hl s = 0 then u16 (cur_seq_num_hl s) else u16 (rd_seq_num d))"

definition seq_num_cached :: "rx_pdev \<Rightarrow> hl_htt_rx_desc \<Rightarrow> rx_pdev" where
  "seq_num_cached s d =
     (if is_high_latency s \<and> rx_desc_size_hl s \<noteq> 0 then s\<lparr>cur_seq_num_hl := u16 (rd_seq_num d)\<rparr> else s)"

text \<open>
  The packet number, written into \<open>pn\<close>: low latency assembles the words it needs, high latency
  writes 32-bit words of the union and leaves the others alone, and nothing at all for a
  descriptor that is not of a first MSDU.
\<close>

definition put_word32_lo :: "32 word \<Rightarrow> 64 word \<Rightarrow> 64 word" where
  "put_word32_lo v x = (x AND 0xFFFFFFFF00000000) OR ucast v"

definition put_word32_hi :: "32 word \<Rightarrow> 64 word \<Rightarrow> 64 word" where
  "put_word32_hi v x = (x AND 0x00000000FFFFFFFF) OR push_bit 32 (ucast v)"

definition htt_rx_mpdu_desc_pn_hl :: "hl_htt_rx_desc \<Rightarrow> nat \<Rightarrow> htt_rx_pn \<Rightarrow> htt_rx_pn" where
  "htt_rx_mpdu_desc_pn_hl d len pn =
     (if \<not> rd_first_msdu d then pn
      else
        (let pn1 = (if len = 128
              then pn\<lparr>pn128_1 := put_word32_lo (pn_95_64 d) (put_word32_hi (pn_127_96 d) (pn128_1 pn))\<rparr>
              else pn);
             pn2 = (if len = 128 \<or> len = 48
              then pn1\<lparr>pn128_0 := put_word32_hi (pn_63_32 d) (pn128_0 pn1)\<rparr> else pn1)
         in if len = 128 \<or> len = 48 \<or> len = 24
            then pn2\<lparr>pn128_0 := put_word32_lo (pn_31_0 d) (pn128_0 pn2)\<rparr> else pn2))"

definition htt_rx_mpdu_desc_pn_ll :: "hl_htt_rx_desc \<Rightarrow> nat \<Rightarrow> htt_rx_pn \<Rightarrow> htt_rx_pn" where
  "htt_rx_mpdu_desc_pn_ll d len pn =
     (if len = 24 then
        pn\<lparr>pn128_0 := put_word32_lo (pn_31_0 d AND 0xffffff) (pn128_0 pn)\<rparr>
      else if len = 48 then
        pn\<lparr>pn128_0 := ucast (pn_31_0 d) OR push_bit 32 (ucast (pn_63_32 d AND 0xffff))\<rparr>
      else if len = 128 then
        \<lparr>pn128_0 = (ucast (pn_31_0 d) OR push_bit 32 (ucast (pn_63_32 d AND 0xffff)))
                     OR push_bit 48 (ucast (drop_bit 16 (pn_63_32 d))),
         pn128_1 = ucast (pn_95_64 d) OR push_bit 32 (ucast (pn_127_96 d))\<rparr>
      else pn)"

definition htt_rx_mpdu_desc_pn :: "rx_pdev \<Rightarrow> hl_htt_rx_desc \<Rightarrow> nat \<Rightarrow> htt_rx_pn \<Rightarrow> htt_rx_pn" where
  "htt_rx_mpdu_desc_pn s d len pn =
     (if is_high_latency s then htt_rx_mpdu_desc_pn_hl d len pn else htt_rx_mpdu_desc_pn_ll d len pn)"

definition htt_rx_mpdu_is_encrypted :: "rx_pdev \<Rightarrow> hl_htt_rx_desc \<Rightarrow> bool" where
  "htt_rx_mpdu_is_encrypted s d =
     (if is_high_latency s \<and> \<not> rd_first_msdu d then True else rd_encrypted d)"

section \<open>Updates of one peer\<close>

abbreviation upd_peer :: "nat \<Rightarrow> (rx_peer \<Rightarrow> rx_peer) \<Rightarrow> rx_pdev \<Rightarrow> rx_pdev" where
  "upd_peer p f s \<equiv> s\<lparr>peers := (peers s)(p := f (peers s p))\<rparr>"

abbreviation upd_reorder :: "nat \<Rightarrow> nat \<Rightarrow> (ol_rx_reorder \<Rightarrow> ol_rx_reorder) \<Rightarrow> rx_pdev \<Rightarrow> rx_pdev" where
  "upd_reorder p tid f s \<equiv>
     upd_peer p (\<lambda>pr. pr\<lparr>tids_rx_reorder := (tids_rx_reorder pr)(tid := f (tids_rx_reorder pr tid))\<rparr>) s"

text \<open>\<open>htt_rx_desc_frame_free\<close> and \<open>ol_rx_frames_free\<close>: the buffers return to the allocator.\<close>

definition htt_rx_desc_frame_free :: "rx_msdu \<Rightarrow> rx_pdev \<Rightarrow> rx_pdev" where
  "htt_rx_desc_frame_free m s = s\<lparr>rx_freed := rx_freed s @ [m]\<rparr>"

fun ol_rx_frames_free :: "rx_msdu list \<Rightarrow> rx_pdev \<Rightarrow> rx_pdev" where
  "ol_rx_frames_free [] s = s"
| "ol_rx_frames_free (m # ms) s = ol_rx_frames_free ms (htt_rx_desc_frame_free m s)"

lemma ol_rx_frames_free_eq: "ol_rx_frames_free ms s = s\<lparr>rx_freed := rx_freed s @ ms\<rparr>"
  by (induction ms arbitrary: s) (simp_all add: htt_rx_desc_frame_free_def)

section \<open>Delivery\<close>

definition byte_at :: "8 word list \<Rightarrow> nat \<Rightarrow> nat" where
  "byte_at d i = (if i < length d then unat (d ! i) else 0)"

definition is_eapol_wapi :: "nat \<Rightarrow> bool" where
  "is_eapol_wapi t = (t = 0x888E \<or> t = 0x88B4)"

text \<open>
  \<open>ol_rx_filter\<close>: the loop over the privacy exemptions returns \<open>Some reject\<close> when one decides.
\<close>

fun filter_loop :: "privacy_exemption list \<Rightarrow> nat \<Rightarrow> bool \<Rightarrow> bool \<Rightarrow> rx_peer \<Rightarrow> bool option" where
  "filter_loop [] ether_type is_mcast is_encrypted p = None"
| "filter_loop (f # fs) ether_type is_mcast is_encrypted p =
     (if pe_ether_type f \<noteq> ether_type then filter_loop fs ether_type is_mcast is_encrypted p
      else if pe_packet_type f \<noteq> (if is_mcast then PRIVACY_FILTER_PACKET_MULTICAST
                                     else PRIVACY_FILTER_PACKET_UNICAST)
            \<and> pe_packet_type f \<noteq> PRIVACY_FILTER_PACKET_BOTH
      then filter_loop fs ether_type is_mcast is_encrypted p
      else case pe_filter_type f of
        PRIVACY_FILTER_ALWAYS \<Rightarrow> Some is_encrypted
      | PRIVACY_FILTER_KEY_UNAVAILABLE \<Rightarrow>
          Some (\<not> is_encrypted \<and> \<not> is_mcast \<and> sec_ucast p \<noteq> htt_sec_type_none \<and>
                (keyinstalled p \<or> \<not> is_eapol_wapi ether_type)))"

definition ol_rx_filter :: "rx_vdev \<Rightarrow> rx_peer \<Rightarrow> rx_msdu \<Rightarrow> rx_pdev \<Rightarrow> bool" where
  "ol_rx_filter v p m s =
     (if rxv_safemode v then False
      else
        (let is_mcast = rd_mcast_bcast (m_desc m);
             offset = (if native_wifi s then 30 else 12);
             ether_type = (if rxv_privacy_filters v \<noteq> []
                           then byte_at (m_data m) offset * 256 + byte_at (m_data m) (offset + 1) else 0);
             is_encrypted = htt_rx_mpdu_is_encrypted s (m_desc m)
         in if is_encrypted \<and> ether_type = 0x88B4 then True
            else case filter_loop (rxv_privacy_filters v) ether_type is_mcast is_encrypted p of
              Some r \<Rightarrow> r
            | None \<Rightarrow>
                if \<not> rxv_drop_unenc v \<or> is_encrypted then False
                else (if is_mcast then sec_mcast p else sec_ucast p) \<noteq> htt_sec_type_none))"

text \<open>
  \<open>ol_rx_deliver\<close>: the filter decides on the first MSDU of an MPDU and its verdict stays in force
  for the MSDUs that follow. The loop returns the list to deliver; the others are freed.
\<close>

fun ol_rx_deliver_loop ::
  "rx_vdev \<Rightarrow> rx_peer \<Rightarrow> bool \<Rightarrow> rx_msdu list \<Rightarrow> rx_pdev \<Rightarrow> rx_msdu list \<times> rx_pdev" where
  "ol_rx_deliver_loop v p filt [] s = ([], s)"
| "ol_rx_deliver_loop v p filt (m # ms) s =
     (let filt' = (if rd_first_msdu (m_desc m) then ol_rx_filter v p m s else filt)
      in if rd_discard (m_desc m) \<or> filt'
         then ol_rx_deliver_loop v p filt' ms (htt_rx_desc_frame_free m s)
         else (let (ds, s') = ol_rx_deliver_loop v p filt' ms s in (m # ds, s')))"

definition osif_rx :: "nat \<Rightarrow> rx_msdu list \<Rightarrow> rx_pdev \<Rightarrow> rx_pdev" where
  "osif_rx p ms s = s\<lparr>rx_osif := rx_osif s @ [(p, ms)]\<rparr>"

definition ol_rx_deliver :: "nat \<Rightarrow> nat \<Rightarrow> rx_msdu list \<Rightarrow> rx_pdev \<Rightarrow> rx_pdev" where
  "ol_rx_deliver p tid ms s =
     (let (ds, s') = ol_rx_deliver_loop (rx_vdevs s (rxp_vdev (peers s p))) (peers s p) False ms s
      in if ds = [] then s' else osif_rx p ds s')"

definition ol_rx_in_order_deliver :: "nat \<Rightarrow> nat \<Rightarrow> rx_msdu list \<Rightarrow> rx_pdev \<Rightarrow> rx_pdev" where
  "ol_rx_in_order_deliver p tid ms s = osif_rx p ms s"

text \<open>\<open>ol_rx_discard\<close>: the receive function of a peer that is being detached.\<close>

definition ol_rx_discard :: "nat \<Rightarrow> nat \<Rightarrow> rx_msdu list \<Rightarrow> rx_pdev \<Rightarrow> rx_pdev" where
  "ol_rx_discard p tid ms s = ol_rx_frames_free ms s"

text \<open>\<open>ol_rx_fwd_to_tx\<close>: a frame the tx path hands back is freed.\<close>

definition ol_rx_fwd_to_tx :: "rx_env \<Rightarrow> rx_msdu \<Rightarrow> rx_pdev \<Rightarrow> rx_pdev" where
  "ol_rx_fwd_to_tx e m s =
     (case vdev_tx e m of
        None \<Rightarrow> s\<lparr>rx_fwd := rx_fwd s @ [m]\<rparr>
      | Some m' \<Rightarrow> s\<lparr>rx_freed := rx_freed s @ [m']\<rparr>)"

abbreviation upd_rx_vdev :: "nat \<Rightarrow> (rx_vdev \<Rightarrow> rx_vdev) \<Rightarrow> rx_pdev \<Rightarrow> rx_pdev" where
  "upd_rx_vdev v f s \<equiv> s\<lparr>rx_vdevs := (rx_vdevs s)(v := f (rx_vdevs s v))\<rparr>"

fun ol_rx_fwd_check_loop ::
  "rx_env \<Rightarrow> nat \<Rightarrow> rx_msdu list \<Rightarrow> rx_pdev \<Rightarrow> rx_msdu list \<times> rx_pdev" where
  "ol_rx_fwd_check_loop e v [] s = ([], s)"
| "ol_rx_fwd_check_loop e v (m # ms) s =
     (if \<not> rxv_disable_intrabss_fwd (rx_vdevs s v) \<and> rd_forward (m_desc m) then
        if rd_discard (m_desc m) then
          ol_rx_fwd_check_loop e v ms
            (upd_rx_vdev v (\<lambda>w. w\<lparr>rxv_fwd_tx_packets := Suc (rxv_fwd_tx_packets w),
                               rxv_fwd_rx_packets := Suc (rxv_fwd_rx_packets w)\<rparr>)
               (ol_rx_fwd_to_tx e m s))
        else
          (let s1 = (case nbuf_copy e m of
                Some c \<Rightarrow> upd_rx_vdev v (\<lambda>w. w\<lparr>rxv_fwd_tx_packets := Suc (rxv_fwd_tx_packets w)\<rparr>)
                            (ol_rx_fwd_to_tx e c s)
              | None \<Rightarrow> s);
               (ds, s2) = ol_rx_fwd_check_loop e v ms s1
           in (m # ds, s2))
      else (let (ds, s2) = ol_rx_fwd_check_loop e v ms s in (m # ds, s2)))"

definition ol_rx_fwd_check :: "rx_env \<Rightarrow> nat \<Rightarrow> nat \<Rightarrow> rx_msdu list \<Rightarrow> rx_pdev \<Rightarrow> rx_pdev" where
  "ol_rx_fwd_check e p tid ms s =
     (let (ds, s1) = ol_rx_fwd_check_loop e (rxp_vdev (peers s p)) ms s
      in if ds = [] then s1
         else if full_reorder_offload s1 then ol_rx_in_order_deliver p tid ds s1
         else ol_rx_deliver p tid ds s1)"

section \<open>What the delivery stage keeps\<close>

text \<open>
  The delivery stage and the PN check touch only the logs, the forwarding and replay counters and
  the last packet numbers. \<open>rx_core\<close> is the state without these: two states with the same core
  agree on everything the reorder and defragmentation code relies on.
\<close>

definition rx_core :: "rx_pdev \<Rightarrow> rx_pdev" where
  "rx_core s = s\<lparr>rx_freed := [], rx_osif := [], rx_fwd := [], pn_replays := (\<lambda>_. 0),
     rx_vdevs := (\<lambda>v. (rx_vdevs s v)\<lparr>rxv_fwd_tx_packets := 0, rxv_fwd_rx_packets := 0\<rparr>),
     peers := (\<lambda>p. (peers s p)\<lparr>tids_last_pn := (\<lambda>_. \<lparr>pn128_0 = 0, pn128_1 = 0\<rparr>),
                              tids_last_pn_valid := (\<lambda>_. False)\<rparr>)\<rparr>"

text \<open>Where the frames that left the reorder code are.\<close>

definition osif_frames :: "rx_pdev \<Rightarrow> rx_msdu list" where
  "osif_frames s = concat (map snd (rx_osif s))"

definition rx_logs :: "rx_pdev \<Rightarrow> rx_msdu multiset" where
  "rx_logs s = mset (rx_freed s) + mset (osif_frames s) + mset (rx_fwd s)"

lemma rx_core_logs [simp]:
  "rx_core (s\<lparr>rx_freed := x\<rparr>) = rx_core s" "rx_core (s\<lparr>rx_osif := y\<rparr>) = rx_core s"
  "rx_core (s\<lparr>rx_fwd := z\<rparr>) = rx_core s" "rx_core (s\<lparr>pn_replays := w\<rparr>) = rx_core s"
  by (simp_all add: rx_core_def)

lemma rx_core_counters [simp]:
  "rx_core (upd_rx_vdev v (\<lambda>w. w\<lparr>rxv_fwd_tx_packets := m, rxv_fwd_rx_packets := n\<rparr>) s) = rx_core s"
  "rx_core (upd_rx_vdev v (\<lambda>w. w\<lparr>rxv_fwd_tx_packets := m\<rparr>) s) = rx_core s"
  "rx_core (upd_peer p (\<lambda>q. q\<lparr>tids_last_pn_valid := a, tids_last_pn := b\<rparr>) s) = rx_core s"
  by (auto simp add: rx_core_def fun_eq_iff intro!: rx_pdev.equality)

lemma rx_core_fields:
  assumes "rx_core s' = rx_core s"
  shows "vt_list s' = vt_list s" "vt_timer s' = vt_timer s" "vt_duration_ms s' = vt_duration_ms s"
    "defrag_waitlist s' = defrag_waitlist s" "peer_id_map s' = peer_id_map s" "ocb_peer s' = ocb_peer s"
    "is_high_latency s' = is_high_latency s" "dup_check s' = dup_check s"
    "full_reorder_offload s' = full_reorder_offload s" "rx_desc_size_hl s' = rx_desc_size_hl s"
    "cur_seq_num_hl s' = cur_seq_num_hl s"
    "defrag_timeout_check s' = defrag_timeout_check s"
    "tids_rx_reorder (peers s' p) = tids_rx_reorder (peers s p)"
    "reorder_history (peers s' p) = reorder_history (peers s p)"
    "tids_last_seq (peers s' p) = tids_last_seq (peers s p)"
    "tids_next_rel_idx (peers s' p) = tids_next_rel_idx (peers s p)"
    "rxp_vdev (peers s' p) = rxp_vdev (peers s p)"
    "rx_opt_proc (peers s' p) = rx_opt_proc (peers s p)"
proof -
  show "vt_list s' = vt_list s" "vt_timer s' = vt_timer s" "vt_duration_ms s' = vt_duration_ms s"
    "defrag_waitlist s' = defrag_waitlist s" "peer_id_map s' = peer_id_map s" "ocb_peer s' = ocb_peer s"
    "is_high_latency s' = is_high_latency s" "dup_check s' = dup_check s"
    "full_reorder_offload s' = full_reorder_offload s" "rx_desc_size_hl s' = rx_desc_size_hl s"
    "cur_seq_num_hl s' = cur_seq_num_hl s"
    "defrag_timeout_check s' = defrag_timeout_check s"
    using arg_cong [OF assms, of vt_list] arg_cong [OF assms, of vt_timer]
      arg_cong [OF assms, of vt_duration_ms] arg_cong [OF assms, of defrag_waitlist]
      arg_cong [OF assms, of peer_id_map] arg_cong [OF assms, of ocb_peer]
      arg_cong [OF assms, of is_high_latency] arg_cong [OF assms, of dup_check]
      arg_cong [OF assms, of full_reorder_offload] arg_cong [OF assms, of rx_desc_size_hl]
      arg_cong [OF assms, of cur_seq_num_hl] arg_cong [OF assms, of defrag_timeout_check]
    by (simp_all add: rx_core_def)
  show "tids_rx_reorder (peers s' p) = tids_rx_reorder (peers s p)"
    "reorder_history (peers s' p) = reorder_history (peers s p)"
    "tids_last_seq (peers s' p) = tids_last_seq (peers s p)"
    "tids_next_rel_idx (peers s' p) = tids_next_rel_idx (peers s p)"
    "rxp_vdev (peers s' p) = rxp_vdev (peers s p)"
    "rx_opt_proc (peers s' p) = rx_opt_proc (peers s p)"
    using arg_cong [OF assms, of "\<lambda>t. tids_rx_reorder (peers t p)"]
      arg_cong [OF assms, of "\<lambda>t. reorder_history (peers t p)"]
      arg_cong [OF assms, of "\<lambda>t. tids_last_seq (peers t p)"]
      arg_cong [OF assms, of "\<lambda>t. tids_next_rel_idx (peers t p)"]
      arg_cong [OF assms, of "\<lambda>t. rxp_vdev (peers t p)"]
      arg_cong [OF assms, of "\<lambda>t. rx_opt_proc (peers t p)"]
    by (simp_all add: rx_core_def)
qed

lemma ol_rx_deliver_loop_spec:
  assumes "ol_rx_deliver_loop v p filt ms s = (ds, s')"
  shows "\<exists>fr. s' = s\<lparr>rx_freed := rx_freed s @ fr\<rparr> \<and> mset ms = mset ds + mset fr"
  using assms
proof (induction v p filt ms s arbitrary: ds s' rule: ol_rx_deliver_loop.induct)
  case (1 v p filt s)
  then show ?case by (intro exI [of _ "[]"]) simp
next
  case (2 v p filt m ms s)
  define f' where "f' = (if rd_first_msdu (m_desc m) then ol_rx_filter v p m s else filt)"
  show ?case
  proof (cases "rd_discard (m_desc m) \<or> f'")
    case True
    with 2 have "\<exists>fr. s' = (htt_rx_desc_frame_free m s)\<lparr>rx_freed :=
        rx_freed (htt_rx_desc_frame_free m s) @ fr\<rparr> \<and> mset ms = mset ds + mset fr"
      by (simp add: f'_def Let_def)
    then obtain fr where "s' = (htt_rx_desc_frame_free m s)\<lparr>rx_freed :=
        rx_freed (htt_rx_desc_frame_free m s) @ fr\<rparr>" and "mset ms = mset ds + mset fr" by blast
    then show ?thesis by (intro exI [of _ "m # fr"]) (simp add: htt_rx_desc_frame_free_def)
  next
    case False
    then obtain es where "ol_rx_deliver_loop v p f' ms s = (es, s')" and "ds = m # es"
      using 2(3) by (auto simp: f'_def Let_def split: prod.splits)
    with 2(2) [OF f'_def] False show ?thesis by auto
  qed
qed

lemma osif_rx_logs [simp]:
  "rx_core (osif_rx p ms s) = rx_core s" "rx_logs (osif_rx p ms s) = rx_logs s + mset ms"
  by (simp_all add: osif_rx_def rx_logs_def osif_frames_def)

lemma ol_rx_frames_free_logs [simp]:
  "rx_core (ol_rx_frames_free ms s) = rx_core s" "rx_logs (ol_rx_frames_free ms s) = rx_logs s + mset ms"
  by (simp_all add: ol_rx_frames_free_eq rx_logs_def osif_frames_def)

lemma ol_rx_deliver_spec:
  "rx_core (ol_rx_deliver p tid ms s) = rx_core s \<and> rx_logs (ol_rx_deliver p tid ms s) = rx_logs s + mset ms"
proof -
  obtain ds s' where l:
    "ol_rx_deliver_loop (rx_vdevs s (rxp_vdev (peers s p))) (peers s p) False ms s = (ds, s')"
    by (cases "ol_rx_deliver_loop (rx_vdevs s (rxp_vdev (peers s p))) (peers s p) False ms s")
  from ol_rx_deliver_loop_spec [OF l] obtain fr where
    s': "s' = s\<lparr>rx_freed := rx_freed s @ fr\<rparr>" and ms: "mset ms = mset ds + mset fr" by blast
  have "rx_logs s' = rx_logs s + mset fr" by (simp add: s' rx_logs_def osif_frames_def)
  with l ms show ?thesis by (simp add: ol_rx_deliver_def s')
qed

text \<open>
  The tx path returns the frame it does not take (\<open>ol_tx_hl\<close>, \<open>ol_tx_ll\<close>: the list of the frames
  not accepted). With forwarding, a frame can also be transmitted as a copy, so the frames that
  left are at least those that went in.
\<close>

definition tx_returns_own :: "rx_env \<Rightarrow> bool" where
  "tx_returns_own e \<longleftrightarrow> (\<forall>m m'. vdev_tx e m = Some m' \<longrightarrow> m' = m)"

lemma ol_rx_fwd_to_tx_spec:
  "rx_core (ol_rx_fwd_to_tx e m s) = rx_core s"
  "tx_returns_own e \<Longrightarrow> rx_logs (ol_rx_fwd_to_tx e m s) = add_mset m (rx_logs s)"
  by (auto simp: ol_rx_fwd_to_tx_def rx_logs_def osif_frames_def tx_returns_own_def split: option.split)

lemma rx_logs_upd_vdev [simp]: "rx_logs (s\<lparr>rx_vdevs := v\<rparr>) = rx_logs s"
  and rx_logs_upd_peers [simp]: "rx_logs (s\<lparr>peers := q\<rparr>) = rx_logs s"
  by (simp_all add: rx_logs_def osif_frames_def)

lemma ol_rx_fwd_check_loop_core:
  assumes "ol_rx_fwd_check_loop e v ms s = (ds, s')"
  shows "rx_core s' = rx_core s"
  using assms
  by (induction e v ms s arbitrary: ds s' rule: ol_rx_fwd_check_loop.induct)
    (auto simp: ol_rx_fwd_to_tx_spec Let_def split: if_splits option.splits prod.splits
      simp del: fun_upd_apply)

lemma ol_rx_fwd_check_loop_logs:
  assumes "ol_rx_fwd_check_loop e v ms s = (ds, s')" and "tx_returns_own e"
  shows "rx_logs s + mset ms \<subseteq># rx_logs s' + mset ds"
  using assms
proof (induction e v ms s arbitrary: ds s' rule: ol_rx_fwd_check_loop.induct)
  case (2 e v m ms s)
  show ?case
  proof (cases "\<not> rxv_disable_intrabss_fwd (rx_vdevs s v) \<and> rd_forward (m_desc m)")
    case False
    then obtain es where "ol_rx_fwd_check_loop e v ms s = (es, s')" and "ds = m # es"
      using 2(4) by (auto split: prod.splits)
    with 2(3) [OF False] 2(5) show ?thesis by simp
  next
    case fwd: True
    show ?thesis
    proof (cases "rd_discard (m_desc m)")
      case True
      with fwd 2(1) [OF fwd True] 2(4,5) show ?thesis by (simp add: ol_rx_fwd_to_tx_spec)
    next
      case False
      define t where "t = (case nbuf_copy e m of
                Some c \<Rightarrow> upd_rx_vdev v (\<lambda>w. w\<lparr>rxv_fwd_tx_packets := Suc (rxv_fwd_tx_packets w)\<rparr>)
                            (ol_rx_fwd_to_tx e c s)
              | None \<Rightarrow> s)"
      obtain es where r: "ol_rx_fwd_check_loop e v ms t = (es, s')" and ds: "ds = m # es"
        using 2(4) fwd False by (auto simp: t_def Let_def split: prod.splits)
      have "rx_logs s \<subseteq># rx_logs t"
        using 2(5) by (auto simp: t_def ol_rx_fwd_to_tx_spec split: option.split)
      moreover have "rx_logs t + mset ms \<subseteq># rx_logs s' + mset es"
        using 2(2) [OF fwd False t_def r 2(5)] .
      ultimately have "rx_logs s + mset ms \<subseteq># rx_logs s' + mset es"
        by (meson subset_mset.add_right_mono subset_mset.trans)
      then show ?thesis by (simp add: ds)
    qed
  qed
qed simp

lemma ol_rx_fwd_check_spec:
  "rx_core (ol_rx_fwd_check e p tid ms s) = rx_core s"
  "tx_returns_own e \<Longrightarrow> rx_logs s + mset ms \<subseteq># rx_logs (ol_rx_fwd_check e p tid ms s)"
proof -
  obtain ds s' where l: "ol_rx_fwd_check_loop e (rxp_vdev (peers s p)) ms s = (ds, s')"
    by (cases "ol_rx_fwd_check_loop e (rxp_vdev (peers s p)) ms s")
  have eq: "ol_rx_fwd_check e p tid ms s =
      (if ds = [] then s' else if full_reorder_offload s' then osif_rx p ds s' else ol_rx_deliver p tid ds s')"
    by (simp add: ol_rx_fwd_check_def l ol_rx_in_order_deliver_def)
  show "rx_core (ol_rx_fwd_check e p tid ms s) = rx_core s"
    using ol_rx_fwd_check_loop_core [OF l] by (simp add: eq ol_rx_deliver_spec)
  show "rx_logs s + mset ms \<subseteq># rx_logs (ol_rx_fwd_check e p tid ms s)" if "tx_returns_own e"
    using ol_rx_fwd_check_loop_logs [OF l that] by (auto simp add: eq ol_rx_deliver_spec)
qed

end
