(* ===== verification/RxPn.thy ===== *)
theory RxPn
  imports RxData "HOL-Library.Sublist"
begin

text \<open>
  The packet-number (replay) check of \<open>ol_rx_pn.c\<close>: the comparison functions, the table of the
  security types (\<open>ol_txrx_pdev_attach\<close>), the check of a list of MPDUs, the installation of a key
  (\<open>ol_rx_sec_ind_handler\<close>) and the dispatch through \<open>rx_opt_proc\<close>.

  The comparison functions are interpretations of \<open>replay_order\<close>; that an accepted sequence of
  packet numbers is strictly increasing comes from that interface.
\<close>

section \<open>Comparison functions\<close>

definition ol_rx_pn_cmp24 :: "htt_rx_pn \<Rightarrow> htt_rx_pn \<Rightarrow> bool \<Rightarrow> wlan_op_mode \<Rightarrow> bool" where
  "ol_rx_pn_cmp24 new_pn old_pn is_unicast opmode =
     ((pn128_0 new_pn AND 0xffffff) \<le> (pn128_0 old_pn AND 0xffffff))"

definition ol_rx_pn_cmp48 :: "htt_rx_pn \<Rightarrow> htt_rx_pn \<Rightarrow> bool \<Rightarrow> wlan_op_mode \<Rightarrow> bool" where
  "ol_rx_pn_cmp48 new_pn old_pn is_unicast opmode =
     ((pn128_0 new_pn AND 0xffffffffffff) \<le> (pn128_0 old_pn AND 0xffffffffffff))"

definition ol_rx_pn_wapi_cmp :: "htt_rx_pn \<Rightarrow> htt_rx_pn \<Rightarrow> bool \<Rightarrow> wlan_op_mode \<Rightarrow> bool" where
  "ol_rx_pn_wapi_cmp new_pn old_pn is_unicast opmode =
     (let pn_is_replay = (if pn128_1 new_pn = pn128_1 old_pn
                          then pn128_0 new_pn \<le> pn128_0 old_pn
                          else pn128_1 new_pn < pn128_1 old_pn)
      in if is_unicast then
           (if opmode = wlan_op_mode_ap
            then pn_is_replay \<or> (pn128_0 new_pn AND 1) \<noteq> 0
            else pn_is_replay \<or> (pn128_0 new_pn AND 1) \<noteq> 1)
         else pn_is_replay)"

text \<open>The table \<open>pdev->rx_pn\<close>: the length in bits and the comparison of each security type.\<close>

fun rx_pn_len :: "htt_sec_type \<Rightarrow> nat" where
  "rx_pn_len htt_sec_type_tkip = 48"
| "rx_pn_len htt_sec_type_tkip_nomic = 48"
| "rx_pn_len htt_sec_type_aes_ccmp = 48"
| "rx_pn_len htt_sec_type_wapi = 128"
| "rx_pn_len _ = 0"

definition rx_pn_cmp :: "htt_sec_type \<Rightarrow> htt_rx_pn \<Rightarrow> htt_rx_pn \<Rightarrow> bool \<Rightarrow> wlan_op_mode \<Rightarrow> bool" where
  "rx_pn_cmp sec = (if sec = htt_sec_type_wapi then ol_rx_pn_wapi_cmp else ol_rx_pn_cmp48)"

interpretation pn24: replay_order "\<lambda>new old. ol_rx_pn_cmp24 new old uc opmode"
  by unfold_locales (auto simp: ol_rx_pn_cmp24_def)

interpretation pn48: replay_order "\<lambda>new old. ol_rx_pn_cmp48 new old uc opmode"
  by unfold_locales (auto simp: ol_rx_pn_cmp48_def)

interpretation wapi: replay_order "\<lambda>new old. ol_rx_pn_wapi_cmp new old uc opmode"
  by unfold_locales (auto simp: ol_rx_pn_wapi_cmp_def Let_def split: if_splits)

interpretation rx_pn: replay_order "\<lambda>new old. rx_pn_cmp sec new old uc opmode"
  by unfold_locales
    (auto simp: rx_pn_cmp_def pn48.replay_self wapi.replay_self
      dest: pn48.accept_trans wapi.accept_trans split: if_splits)

section \<open>The check\<close>

text \<open>
  \<open>ol_rx_mpdu_list_next\<close>: the MSDUs of the first MPDU, up to the one that completes it (all of the
  list when none does), and the rest.
\<close>

fun ol_rx_mpdu_list_next :: "rx_msdu list \<Rightarrow> rx_msdu list \<times> rx_msdu list" where
  "ol_rx_mpdu_list_next [] = ([], [])"
| "ol_rx_mpdu_list_next (m # ms) =
     (if rd_last_msdu (m_desc m) then ([m], ms)
      else (let (xs, ys) = ol_rx_mpdu_list_next ms in (m # xs, ys)))"

lemma ol_rx_mpdu_list_next_append:
  "ol_rx_mpdu_list_next ms = (xs, ys) \<Longrightarrow> ms = xs @ ys"
  by (induction ms arbitrary: xs ys) (auto split: if_splits prod.splits)

lemma ol_rx_mpdu_list_next_nonempty:
  "ol_rx_mpdu_list_next (m # ms) = (xs, ys) \<Longrightarrow> \<exists>xs'. xs = m # xs'"
  by (auto split: if_splits prod.splits)

lemma ol_rx_mpdu_list_next_shorter:
  assumes "ol_rx_mpdu_list_next (m # ms) = (xs, ys)"
  shows "length ys < Suc (length ms)"
proof -
  obtain xs' where "xs = m # xs'" using ol_rx_mpdu_list_next_nonempty [OF assms] by blast
  then have "length (m # ms) = Suc (length xs') + length ys"
    using ol_rx_mpdu_list_next_append [OF assms] by (metis length_append length_Cons)
  then show ?thesis by simp
qed

text \<open>What the loop reads and does not change, gathered once before it.\<close>

record pn_ctx =
  pc_sec :: htt_sec_type
  pc_ucast :: bool
  pc_opmode :: wlan_op_mode
  pc_replay_type :: pn_replay_type

text \<open>The replayed MPDU: every MSDU is freed and counted.\<close>

definition pn_drop_mpdu :: "pn_replay_type \<Rightarrow> rx_msdu list \<Rightarrow> rx_pdev \<Rightarrow> rx_pdev" where
  "pn_drop_mpdu rt mpdu s =
     (ol_rx_frames_free mpdu s)
       \<lparr>pn_replays := (pn_replays s)(rt := u32 (pn_replays s rt + length mpdu))\<rparr>"

text \<open>
  The loop of \<open>ol_rx_pn_check_base\<close>. The state is the last PN, whether it is valid, and the
  device (freed frames and replay counters); the result is the list of MSDUs passed on.
\<close>

function pn_check_loop ::
  "rx_env \<Rightarrow> pn_ctx \<Rightarrow> rx_msdu list \<Rightarrow> bool \<Rightarrow> htt_rx_pn \<Rightarrow> rx_pdev \<Rightarrow>
   rx_msdu list \<times> bool \<times> htt_rx_pn \<times> rx_pdev" where
  "pn_check_loop e c [] valid last_pn s = ([], valid, last_pn, s)"
| "pn_check_loop e c (m # ms) valid last_pn s =
     (let (mpdu, next_mpdu) = ol_rx_mpdu_list_next (m # ms);
          new_pn = htt_rx_mpdu_desc_pn s (m_desc m) (rx_pn_len (pc_sec c)) (stack_pn e)
      in if \<not> htt_rx_mpdu_is_encrypted s (m_desc m) then
           (let (out, r) = pn_check_loop e c next_mpdu valid last_pn s in (mpdu @ out, r))
         else if valid \<and> rx_pn_cmp (pc_sec c) new_pn last_pn (pc_ucast c) (pc_opmode c) then
           pn_check_loop e c next_mpdu True last_pn (pn_drop_mpdu (pc_replay_type c) mpdu s)
         else
           (let (out, r) = pn_check_loop e c next_mpdu True new_pn s in (mpdu @ out, r)))"
  by pat_completeness auto

termination
proof (relation "measure (\<lambda>(e, c, ms, v, l, s). length ms)", goal_cases)
  case 1
  then show ?case by simp
next
  case (2 e c m ms valid last_pn s x xa y xb)
  then show ?case using ol_rx_mpdu_list_next_shorter [of m ms xa y] by simp
next
  case (3 e c m ms valid last_pn s x xa y xb)
  then show ?case using ol_rx_mpdu_list_next_shorter [of m ms xa y] by simp
next
  case (4 e c m ms valid last_pn s x xa y xb)
  then show ?case using ol_rx_mpdu_list_next_shorter [of m ms xa y] by simp
qed

definition replay_type_of :: "htt_sec_type \<Rightarrow> pn_replay_type" where
  "replay_type_of sec =
     (if sec = htt_sec_type_tkip \<or> sec = htt_sec_type_tkip_nomic then OL_RX_TKIP_REPLAYS
      else if sec = htt_sec_type_aes_ccmp then OL_RX_CCMP_REPLAYS else OL_RX_OTHER_REPLAYS)"

definition peer_sec_type :: "rx_peer \<Rightarrow> bool \<Rightarrow> htt_sec_type" where
  "peer_sec_type p mcast = (if mcast then sec_mcast p else sec_ucast p)"

definition ol_rx_pn_check_base ::
  "rx_env \<Rightarrow> nat \<Rightarrow> nat \<Rightarrow> rx_msdu list \<Rightarrow> rx_pdev \<Rightarrow> rx_msdu list \<times> rx_pdev" where
  "ol_rx_pn_check_base e p tid msdu_list s =
     (let pr = peers s p; v = rx_vdevs s (rxp_vdev pr) in
      if fw_pn_check pr \<or> rxv_opmode v = wlan_op_mode_ibss then (msdu_list, s)
      else
        (let mcast = rd_mcast_bcast (m_desc (hd msdu_list));
             sec = peer_sec_type pr mcast
         in if rx_pn_len sec = 0 then (msdu_list, s)
            else
              (let (out, valid, last_pn, s') =
                     pn_check_loop e \<lparr>pc_sec = sec, pc_ucast = (\<not> mcast), pc_opmode = rxv_opmode v,
                                      pc_replay_type = replay_type_of sec\<rparr>
                       msdu_list (tids_last_pn_valid pr tid) (tids_last_pn pr tid) s
               in (out, upd_peer p (\<lambda>q. q\<lparr>tids_last_pn_valid := (tids_last_pn_valid q)(tid := valid),
                                          tids_last_pn := (tids_last_pn q)(tid := last_pn)\<rparr>) s'))))"

definition ol_rx_pn_check :: "rx_env \<Rightarrow> nat \<Rightarrow> nat \<Rightarrow> rx_msdu list \<Rightarrow> rx_pdev \<Rightarrow> rx_pdev" where
  "ol_rx_pn_check e p tid msdu_list s =
     (let (ms, s') = ol_rx_pn_check_base e p tid msdu_list s in ol_rx_fwd_check e p tid ms s')"

definition ol_rx_pn_check_only :: "rx_env \<Rightarrow> nat \<Rightarrow> nat \<Rightarrow> rx_msdu list \<Rightarrow> rx_pdev \<Rightarrow> rx_pdev" where
  "ol_rx_pn_check_only e p tid msdu_list s =
     (let (ms, s') = ol_rx_pn_check_base e p tid msdu_list s in ol_rx_deliver p tid ms s')"

text \<open>The configuration's choice of \<open>rx_opt_proc\<close>; \<open>None\<close> is the refused configuration.\<close>

definition rx_opt_proc_select :: "bool \<Rightarrow> bool \<Rightarrow> bool \<Rightarrow> bool \<Rightarrow> bool \<Rightarrow> rx_opt_proc_fn option" where
  "rx_opt_proc_select full_reorder monitor rx_pn_check rx_fwd_disabled rx_fwd_check =
     (if full_reorder then
        Some (if rx_fwd_disabled then OL_RX_IN_ORDER_DELIVER else OL_RX_FWD_CHECK)
      else if monitor then Some OL_RX_DELIVER
      else if rx_pn_check then
        (if rx_fwd_disabled then Some OL_RX_PN_CHECK_ONLY
         else if rx_fwd_check then Some OL_RX_PN_CHECK else None)
      else Some (if \<not> rx_fwd_disabled \<and> rx_fwd_check then OL_RX_FWD_CHECK else OL_RX_DELIVER))"

text \<open>A call through \<open>peer->rx_opt_proc\<close>.\<close>

definition call_rx_opt_proc :: "rx_env \<Rightarrow> nat \<Rightarrow> nat \<Rightarrow> rx_msdu list \<Rightarrow> rx_pdev \<Rightarrow> rx_pdev" where
  "call_rx_opt_proc e p tid ms s =
     (case rx_opt_proc (peers s p) of
        OL_RX_PN_CHECK \<Rightarrow> ol_rx_pn_check e p tid ms s
      | OL_RX_PN_CHECK_ONLY \<Rightarrow> ol_rx_pn_check_only e p tid ms s
      | OL_RX_FWD_CHECK \<Rightarrow> ol_rx_fwd_check e p tid ms s
      | OL_RX_DELIVER \<Rightarrow> ol_rx_deliver p tid ms s
      | OL_RX_IN_ORDER_DELIVER \<Rightarrow> ol_rx_in_order_deliver p tid ms s
      | OL_RX_DISCARD \<Rightarrow> ol_rx_discard p tid ms s)"

text \<open>
  \<open>ol_rx_sec_ind_handler\<close>: a new key. For WAPI the PN starts at the value the target sends, for
  multicast keys or when a WAPI unicast key is already there; other types start unchecked.
\<close>

definition ol_rx_sec_ind_handler ::
  "nat \<Rightarrow> htt_sec_type \<Rightarrow> bool \<Rightarrow> 8 word list \<Rightarrow> htt_rx_pn \<Rightarrow> rx_pdev \<Rightarrow> rx_pdev" where
  "ol_rx_sec_ind_handler peer_id sec is_unicast mkey rx_pn s =
     (case peer_id_map s peer_id of
        None \<Rightarrow> s
      | Some p \<Rightarrow>
          upd_peer p (\<lambda>pr.
            (let pr1 = (if is_unicast then pr\<lparr>sec_ucast := sec\<rparr> else pr\<lparr>sec_mcast := sec\<rparr>)
                         \<lparr>michael_key := (michael_key pr)(is_unicast := mkey)\<rparr>
             in if sec \<noteq> htt_sec_type_wapi then
                  pr1\<lparr>tids_last_pn_valid := (\<lambda>t. if t < OL_TXRX_NUM_EXT_TIDS then False
                                                   else tids_last_pn_valid pr t)\<rparr>
                else if \<not> is_unicast \<or> tids_last_pn_valid pr 0 then
                  pr1\<lparr>tids_last_pn_valid := (\<lambda>t. t < OL_TXRX_NUM_EXT_TIDS \<or> tids_last_pn_valid pr t),
                      tids_last_pn := (\<lambda>t. if t < OL_TXRX_NUM_EXT_TIDS then rx_pn
                                             else tids_last_pn pr t)\<rparr>
                else pr1)) s)"

section \<open>What the check passes on\<close>

lemma pn_drop_mpdu_fields [simp]:
  "rx_freed (pn_drop_mpdu rt x s) = rx_freed s @ x"
  "is_high_latency (pn_drop_mpdu rt x s) = is_high_latency s"
  "peers (pn_drop_mpdu rt x s) = peers s"
  "pn_replays (pn_drop_mpdu rt x s) = (pn_replays s)(rt := u32 (pn_replays s rt + length x))"
  by (simp_all add: pn_drop_mpdu_def ol_rx_frames_free_eq)

lemma desc_read_cong:
  assumes "is_high_latency s' = is_high_latency s"
  shows "htt_rx_mpdu_desc_pn s' = htt_rx_mpdu_desc_pn s"
    and "htt_rx_mpdu_is_encrypted s' = htt_rx_mpdu_is_encrypted s"
  using assms by (auto simp: fun_eq_iff htt_rx_mpdu_desc_pn_def htt_rx_mpdu_is_encrypted_def)

lemmas pn_drop_reads [simp] = desc_read_cong [OF pn_drop_mpdu_fields(2)]

text \<open>The MPDUs of a list of MSDUs.\<close>

function mpdus :: "rx_msdu list \<Rightarrow> rx_msdu list list" where
  "mpdus [] = []"
| "mpdus (m # ms) = (let (x, y) = ol_rx_mpdu_list_next (m # ms) in x # mpdus y)"
  by pat_completeness auto

termination
proof (relation "measure length", goal_cases)
  case (2 m ms x y ya)
  then show ?case using ol_rx_mpdu_list_next_shorter [of m ms y ya] by simp
qed simp

declare ol_rx_mpdu_list_next.simps(2) [simp del] mpdus.simps(2) [simp del]

lemma concat_mpdus: "concat (mpdus ms) = ms"
proof (induction ms rule: mpdus.induct)
  case (2 m ms)
  obtain x y where n: "ol_rx_mpdu_list_next (m # ms) = (x, y)" by fastforce
  then have "concat (mpdus (m # ms)) = x @ concat (mpdus y)"
    by (simp add: mpdus.simps)
  also have "\<dots> = m # ms"
    using 2 [OF n [symmetric] refl] ol_rx_mpdu_list_next_append [OF n] by simp
  finally show ?case .
qed simp

text \<open>
  Splitting is compatible with dropping whole MPDUs: an MPDU followed by anything is split off
  unless it is the incomplete last one.
\<close>

lemma ol_rx_mpdu_list_next_again:
  assumes "ol_rx_mpdu_list_next ms = (x, y)" and "x \<noteq> []" and "y \<noteq> [] \<or> z = []"
  shows "ol_rx_mpdu_list_next (x @ z) = (x, z)"
  using assms
proof (induction ms arbitrary: x y)
  case Nil
  then show ?case by simp
next
  case (Cons m ms)
  show ?case
  proof (cases "rd_last_msdu (m_desc m)")
    case True
    with Cons.prems show ?thesis by (auto simp: ol_rx_mpdu_list_next.simps)
  next
    case False
    then obtain x' where x': "ol_rx_mpdu_list_next ms = (x', y)" "x = m # x'"
      using Cons.prems(1) by (auto simp: ol_rx_mpdu_list_next.simps split: prod.splits)
    show ?thesis
    proof (cases "x' = []")
      case True
      with x' have "ms = [] \<and> y = []"
        by (cases ms) (auto simp: ol_rx_mpdu_list_next.simps split: if_splits prod.splits)
      with True False x' Cons.prems show ?thesis by (simp add: ol_rx_mpdu_list_next.simps)
    next
      case nonempty: False
      from Cons.IH [OF x'(1) nonempty Cons.prems(3)] False x'(2)
      show ?thesis by (simp add: ol_rx_mpdu_list_next.simps)
    qed
  qed
qed

text \<open>The MPDUs of a list that the check accepts, starting from the last accepted number.\<close>

definition mpdu_pn :: "rx_env \<Rightarrow> pn_ctx \<Rightarrow> rx_pdev \<Rightarrow> rx_msdu list \<Rightarrow> htt_rx_pn" where
  "mpdu_pn e c s x = htt_rx_mpdu_desc_pn s (m_desc (hd x)) (rx_pn_len (pc_sec c)) (stack_pn e)"

definition mpdu_enc :: "rx_pdev \<Rightarrow> rx_msdu list \<Rightarrow> bool" where
  "mpdu_enc s x = htt_rx_mpdu_is_encrypted s (m_desc (hd x))"

fun pn_accepted ::
  "rx_env \<Rightarrow> pn_ctx \<Rightarrow> rx_pdev \<Rightarrow> rx_msdu list list \<Rightarrow> htt_rx_pn option \<Rightarrow> rx_msdu list list" where
  "pn_accepted e c s [] lst = []"
| "pn_accepted e c s (x # xs) lst =
     (if \<not> mpdu_enc s x then x # pn_accepted e c s xs lst
      else if (case lst of None \<Rightarrow> False
              | Some l \<Rightarrow> rx_pn_cmp (pc_sec c) (mpdu_pn e c s x) l (pc_ucast c) (pc_opmode c))
      then pn_accepted e c s xs lst
      else x # pn_accepted e c s xs (Some (mpdu_pn e c s x)))"

definition accepted_pns :: "rx_env \<Rightarrow> pn_ctx \<Rightarrow> rx_pdev \<Rightarrow> rx_msdu list list \<Rightarrow> htt_rx_pn list" where
  "accepted_pns e c s xs = map (mpdu_pn e c s) (filter (mpdu_enc s) xs)"

lemma accepted_pns_simps [simp]:
  "accepted_pns e c s [] = []"
  "accepted_pns e c s (x # xs) =
     (if mpdu_enc s x then mpdu_pn e c s x # accepted_pns e c s xs else accepted_pns e c s xs)"
  by (simp_all add: accepted_pns_def)

lemma accepted_pns_append:
  "accepted_pns e c s (xs @ ys) = accepted_pns e c s xs @ accepted_pns e c s ys"
  by (simp add: accepted_pns_def)

lemma mpdu_reads_cong:
  assumes "is_high_latency s' = is_high_latency s"
  shows "mpdu_pn e c s' = mpdu_pn e c s" and "mpdu_enc s' = mpdu_enc s"
  using assms by (simp_all add: fun_eq_iff mpdu_pn_def mpdu_enc_def desc_read_cong [of s' s])

lemma accepted_pns_cong:
  "is_high_latency s' = is_high_latency s \<Longrightarrow> accepted_pns e c s' xs = accepted_pns e c s xs"
  by (simp only: accepted_pns_def mpdu_reads_cong [of s' s])

lemma pn_accepted_cong:
  assumes "is_high_latency s' = is_high_latency s"
  shows "pn_accepted e c s' xs l = pn_accepted e c s xs l"
  by (induction xs arbitrary: l) (simp_all only: pn_accepted.simps mpdu_reads_cong [OF assms])

lemma pn_accepted_seq:
  "accepted_pns e c s (pn_accepted e c s xs (Some l)) =
   replay_order.accept_seq (\<lambda>new old. rx_pn_cmp (pc_sec c) new old (pc_ucast c) (pc_opmode c))
     l (accepted_pns e c s xs)"
  by (induction xs arbitrary: l) (auto simp: rx_pn.accept_seq.simps)

text \<open>The code's relation between two accepted packet numbers: the later one is no replay.\<close>

abbreviation pn_newer :: "pn_ctx \<Rightarrow> htt_rx_pn \<Rightarrow> htt_rx_pn \<Rightarrow> bool" where
  "pn_newer c a b \<equiv> \<not> rx_pn_cmp (pc_sec c) b a (pc_ucast c) (pc_opmode c)"

lemma pn_accepted_increasing:
  "sorted_wrt (pn_newer c)
     ((case lst of None \<Rightarrow> [] | Some l \<Rightarrow> [l]) @ accepted_pns e c s (pn_accepted e c s xs lst))"
proof (induction xs arbitrary: lst)
  case Nil
  then show ?case by (cases lst) simp_all
next
  case (Cons x xs)
  show ?case
  proof (cases lst)
    case None
    then show ?thesis using Cons [of None] Cons [of "Some (mpdu_pn e c s x)"] by auto
  next
    case (Some l)
    then show ?thesis
      using rx_pn.accept_seq_increasing
        [of "pc_sec c" "pc_ucast c" "pc_opmode c" l "accepted_pns e c s (x # xs)"]
      by (simp only: pn_accepted_seq option.case append_Cons append_Nil)
  qed
qed


text \<open>One unfolding of the loop, in terms of the MPDU it splits off.\<close>

lemma pn_check_loop_Cons:
  assumes n: "ol_rx_mpdu_list_next (m # ms) = (x, y)"
  shows "pn_check_loop e c (m # ms) valid l s =
     (if \<not> mpdu_enc s x then (case pn_check_loop e c y valid l s of (out, r) \<Rightarrow> (x @ out, r))
      else if valid \<and> rx_pn_cmp (pc_sec c) (mpdu_pn e c s x) l (pc_ucast c) (pc_opmode c)
      then pn_check_loop e c y True l (pn_drop_mpdu (pc_replay_type c) x s)
      else (case pn_check_loop e c y True (mpdu_pn e c s x) s of (out, r) \<Rightarrow> (x @ out, r)))"
proof -
  obtain x' where x: "x = m # x'" using ol_rx_mpdu_list_next_nonempty [OF n] by blast
  show ?thesis
    by (auto simp add: n x mpdu_enc_def mpdu_pn_def Let_def split: prod.splits)
qed

declare pn_check_loop.simps(2) [simp del]

lemma pn_check_loop_induct [case_names Nil Cons]:
  assumes "\<And>valid l s. P [] valid l s"
    and "\<And>m ms x y valid l s.
      ol_rx_mpdu_list_next (m # ms) = (x, y) \<Longrightarrow> m # ms = x @ y \<Longrightarrow> mpdus (m # ms) = x # mpdus y \<Longrightarrow>
      (\<And>valid l s. P y valid l s) \<Longrightarrow> P (m # ms) valid l s"
  shows "P ms valid l s"
proof (induction "length ms" arbitrary: ms valid l s rule: less_induct)
  case less
  show ?case
  proof (cases ms)
    case Nil
    then show ?thesis by (simp add: assms(1))
  next
    case (Cons m ms')
    obtain x y where n: "ol_rx_mpdu_list_next (m # ms') = (x, y)" by fastforce
    then have "mpdus (m # ms') = x # mpdus y" by (simp add: mpdus.simps)
    with n ol_rx_mpdu_list_next_append [OF n] show ?thesis
      unfolding Cons by (rule assms(2)) (use less Cons ol_rx_mpdu_list_next_shorter [OF n] in simp)
  qed
qed

text \<open>The loop computes exactly the accepted MPDUs, in order, and the last accepted number.\<close>

definition last_pn_of :: "bool \<Rightarrow> htt_rx_pn \<Rightarrow> htt_rx_pn option" where
  "last_pn_of valid l = (if valid then Some l else None)"

definition newest_pn :: "htt_rx_pn option \<Rightarrow> htt_rx_pn list \<Rightarrow> htt_rx_pn option" where
  "newest_pn start ps = (if ps = [] then start else Some (last ps))"

lemma newest_pn_simps [simp]:
  "newest_pn start [] = start"
  "newest_pn start (p # ps) = newest_pn (Some p) ps"
  by (simp_all add: newest_pn_def)

lemma last_pn_of_simps [simp]: "last_pn_of True l = Some l" "last_pn_of False l = None"
  by (simp_all add: last_pn_of_def)

lemma pn_check_loop_accepted:
  assumes "pn_check_loop e c ms valid l s = (out, valid', l', s')"
  shows "out = concat (pn_accepted e c s (mpdus ms) (last_pn_of valid l)) \<and>
         last_pn_of valid' l' =
           newest_pn (last_pn_of valid l)
             (accepted_pns e c s (pn_accepted e c s (mpdus ms) (last_pn_of valid l)))"
  using assms
proof (induction ms valid l s arbitrary: out valid' l' s' rule: pn_check_loop_induct)
  case (Nil valid l s)
  then show ?case by simp
next
  case (Cons m ms x y valid l s)
  note eq = Cons.prems [unfolded pn_check_loop_Cons [OF Cons.hyps(1)]]
  consider (plain) "\<not> mpdu_enc s x"
    | (replay) "mpdu_enc s x" "valid" "rx_pn_cmp (pc_sec c) (mpdu_pn e c s x) l (pc_ucast c) (pc_opmode c)"
    | (ok) "mpdu_enc s x"
        "\<not> (valid \<and> rx_pn_cmp (pc_sec c) (mpdu_pn e c s x) l (pc_ucast c) (pc_opmode c))"
    by blast
  then show ?case
  proof cases
    case plain
    with eq obtain o' where "pn_check_loop e c y valid l s = (o', valid', l', s')" and "out = x @ o'"
      by (auto split: prod.splits)
    with Cons.IH [of valid l s] plain show ?thesis by (simp add: Cons.hyps(3))
  next
    case replay
    with eq have "pn_check_loop e c y True l (pn_drop_mpdu (pc_replay_type c) x s) = (out, valid', l', s')"
      by simp
    from Cons.IH [OF this] replay show ?thesis
      by (simp add: Cons.hyps(3) pn_accepted_cong [of "pn_drop_mpdu (pc_replay_type c) x s" s]
          accepted_pns_cong [of "pn_drop_mpdu (pc_replay_type c) x s" s])
  next
    case ok
    with eq obtain o' where
      "pn_check_loop e c y True (mpdu_pn e c s x) s = (o', valid', l', s')" and "out = x @ o'"
      by (auto split: prod.splits)
    with Cons.IH [of True "mpdu_pn e c s x" s] ok show ?thesis
      by (auto simp add: Cons.hyps(3) last_pn_of_def)
  qed
qed

text \<open>Every frame of the input is passed on or freed; only the log and the counter change.\<close>

lemma pn_check_loop_conserves:
  assumes "pn_check_loop e c ms valid l s = (out, valid', l', s')"
  shows "\<exists>fr. rx_freed s' = rx_freed s @ fr \<and> mset ms = mset out + mset fr \<and>
              (fr \<noteq> [] \<longrightarrow> pn_replays s' (pc_replay_type c) =
                 u32 (pn_replays s (pc_replay_type c) + length fr)) \<and>
              (fr = [] \<longrightarrow> pn_replays s' = pn_replays s) \<and>
              (\<forall>t. t \<noteq> pc_replay_type c \<longrightarrow> pn_replays s' t = pn_replays s t) \<and>
              s'\<lparr>rx_freed := rx_freed s, pn_replays := pn_replays s\<rparr> = s"
  using assms
proof (induction ms valid l s arbitrary: out valid' l' s' rule: pn_check_loop_induct)
  case (Nil valid l s)
  then show ?case by (auto intro!: exI [of _ "[]"])
next
  case (Cons m ms x y valid l s)
  note eq = Cons.prems [unfolded pn_check_loop_Cons [OF Cons.hyps(1)]]
  show ?case
  proof (cases "mpdu_enc s x \<and> valid \<and>
      rx_pn_cmp (pc_sec c) (mpdu_pn e c s x) l (pc_ucast c) (pc_opmode c)")
    case False
    with eq obtain o' v' k' where "pn_check_loop e c y v' k' s = (o', valid', l', s')" and "out = x @ o'"
      by (auto split: prod.splits if_splits)
    with Cons.IH [of v' k' s] show ?thesis by (auto simp add: Cons.hyps(2) ac_simps)
  next
    case True
    let ?t = "pn_drop_mpdu (pc_replay_type c) x s"
    from True eq have "pn_check_loop e c y True l ?t = (out, valid', l', s')" by simp
    from Cons.IH [OF this] obtain fr where fr:
      "rx_freed s' = rx_freed ?t @ fr" "mset y = mset out + mset fr"
      "fr \<noteq> [] \<longrightarrow> pn_replays s' (pc_replay_type c) = u32 (pn_replays ?t (pc_replay_type c) + length fr)"
      "fr = [] \<longrightarrow> pn_replays s' = pn_replays ?t"
      "\<forall>t. t \<noteq> pc_replay_type c \<longrightarrow> pn_replays s' t = pn_replays ?t t"
      "s'\<lparr>rx_freed := rx_freed ?t, pn_replays := pn_replays ?t\<rparr> = ?t" by blast
    have "x \<noteq> []" using ol_rx_mpdu_list_next_nonempty [OF Cons.hyps(1)] by auto
    moreover have "pn_replays s' (pc_replay_type c) =
        u32 (pn_replays s (pc_replay_type c) + length (x @ fr))"
      using fr(3,4) by (cases "fr = []") (simp_all add: mod_simps add.assoc)
    moreover have "s'\<lparr>rx_freed := rx_freed s, pn_replays := pn_replays s\<rparr> = s"
    proof -
      have "s'\<lparr>rx_freed := rx_freed s, pn_replays := pn_replays s\<rparr> =
          (s'\<lparr>rx_freed := rx_freed ?t, pn_replays := pn_replays ?t\<rparr>)
             \<lparr>rx_freed := rx_freed s, pn_replays := pn_replays s\<rparr>" by simp
      also have "\<dots> = s" unfolding fr(6) by (simp add: pn_drop_mpdu_def ol_rx_frames_free_eq)
      finally show ?thesis .
    qed
    ultimately show ?thesis
      using fr(1,2,5) by (intro exI [of _ "x @ fr"]) (simp add: Cons.hyps(2) ac_simps)
  qed
qed

section \<open>Whole batches\<close>

lemma subseq_concat: "subseq xs ys \<Longrightarrow> subseq (concat xs) (concat ys)"
proof (induction xs ys rule: list_emb.induct)
  case (list_emb_Cons xs ys y)
  then show ?case by (simp add: list_emb_append2)
qed (simp_all add: list_emb_append_mono)

lemma pn_accepted_subseq: "subseq (pn_accepted e c s xs l) xs"
  by (induction xs arbitrary: l) auto

lemma mpdus_of_subseq: "subseq xs (mpdus ms) \<Longrightarrow> mpdus (concat xs) = xs"
proof (induction "length ms" arbitrary: ms xs rule: less_induct)
  case less
  show ?case
  proof (cases ms)
    case Nil
    with less.prems show ?thesis by (cases xs) auto
  next
    case (Cons m ms')
    obtain x y where n: "ol_rx_mpdu_list_next (m # ms') = (x, y)" by fastforce
    have sub: "subseq xs (x # mpdus y)" using less.prems Cons n by (simp add: mpdus.simps)
    obtain x' where x: "x = m # x'" using ol_rx_mpdu_list_next_nonempty [OF n] by blast
    have IH: "mpdus (concat zs) = zs" if "subseq zs (mpdus y)" for zs
      using less.hyps [OF _ that] ol_rx_mpdu_list_next_shorter [OF n] Cons by simp
    show ?thesis
    proof (cases "subseq xs (mpdus y)")
      case True
      then show ?thesis by (rule IH)
    next
      case False
      then obtain zs where xs: "xs = x # zs" and zs: "subseq zs (mpdus y)"
        using sub by (cases xs) (auto split: if_splits)
      have "zs = []" if "y = []" using zs that by (cases zs) auto
      then have "y \<noteq> [] \<or> concat zs = []" by auto
      then have "ol_rx_mpdu_list_next (x @ concat zs) = (x, concat zs)"
        using ol_rx_mpdu_list_next_again [OF n] x by simp
      then show ?thesis using IH [OF zs] by (simp add: xs x mpdus.simps)
    qed
  qed
qed

text \<open>The check applies to a peer and to unicast or multicast frames.\<close>

definition pn_checked :: "nat \<Rightarrow> bool \<Rightarrow> rx_pdev \<Rightarrow> bool" where
  "pn_checked p mcast s \<longleftrightarrow>
     \<not> fw_pn_check (peers s p) \<and> rxv_opmode (rx_vdevs s (rxp_vdev (peers s p))) \<noteq> wlan_op_mode_ibss \<and>
     rx_pn_len (peer_sec_type (peers s p) mcast) \<noteq> 0"

definition pn_ctx_of :: "nat \<Rightarrow> bool \<Rightarrow> rx_pdev \<Rightarrow> pn_ctx" where
  "pn_ctx_of p mcast s =
     \<lparr>pc_sec = peer_sec_type (peers s p) mcast, pc_ucast = (\<not> mcast),
      pc_opmode = rxv_opmode (rx_vdevs s (rxp_vdev (peers s p))),
      pc_replay_type = replay_type_of (peer_sec_type (peers s p) mcast)\<rparr>"

definition peer_last_pn :: "nat \<Rightarrow> nat \<Rightarrow> rx_pdev \<Rightarrow> htt_rx_pn option" where
  "peer_last_pn p tid s =
     last_pn_of (tids_last_pn_valid (peers s p) tid) (tids_last_pn (peers s p) tid)"

lemma ol_rx_pn_check_base_checked:
  assumes "pn_checked p (rd_mcast_bcast (m_desc (hd ms))) s"
  shows "ol_rx_pn_check_base e p tid ms s =
     (case pn_check_loop e (pn_ctx_of p (rd_mcast_bcast (m_desc (hd ms))) s) ms
             (tids_last_pn_valid (peers s p) tid) (tids_last_pn (peers s p) tid) s of
        (out, valid, l, s') \<Rightarrow>
          (out, upd_peer p (\<lambda>q. q\<lparr>tids_last_pn_valid := (tids_last_pn_valid q)(tid := valid),
                                  tids_last_pn := (tids_last_pn q)(tid := l)\<rparr>) s'))"
  using assms by (simp add: pn_checked_def ol_rx_pn_check_base_def Let_def pn_ctx_of_def)

lemma ol_rx_pn_check_base_accepted:
  assumes ck: "pn_checked p mcast s" and mc: "rd_mcast_bcast (m_desc (hd ms)) = mcast"
    and run: "ol_rx_pn_check_base e p tid ms s = (out, s')"
  defines "acc \<equiv> pn_accepted e (pn_ctx_of p mcast s) s (mpdus ms) (peer_last_pn p tid s)"
  shows "mpdus out = acc"
    and "peer_last_pn p tid s' =
           newest_pn (peer_last_pn p tid s) (accepted_pns e (pn_ctx_of p mcast s) s acc)"
    and "pn_ctx_of p mcast s' = pn_ctx_of p mcast s" and "pn_checked p mcast s'"
    and "is_high_latency s' = is_high_latency s"
proof -
  let ?c = "pn_ctx_of p mcast s"
  obtain valid l s1 where loop: "pn_check_loop e ?c ms (tids_last_pn_valid (peers s p) tid)
      (tids_last_pn (peers s p) tid) s = (out, valid, l, s1)"
    and s': "s' = upd_peer p (\<lambda>q. q\<lparr>tids_last_pn_valid := (tids_last_pn_valid q)(tid := valid),
                                  tids_last_pn := (tids_last_pn q)(tid := l)\<rparr>) s1"
    using run ck by (simp add: ol_rx_pn_check_base_checked mc split: prod.splits)
  obtain fr where s1: "s1\<lparr>rx_freed := rx_freed s, pn_replays := pn_replays s\<rparr> = s"
    using pn_check_loop_conserves [OF loop] by blast
  have keep: "peers s1 = peers s" "rx_vdevs s1 = rx_vdevs s" "is_high_latency s1 = is_high_latency s"
    by (subst s1 [symmetric], simp)+
  note acc = pn_check_loop_accepted [OF loop, folded peer_last_pn_def, folded acc_def]
  show "mpdus out = acc"
    using acc mpdus_of_subseq [OF pn_accepted_subseq] unfolding acc_def by simp
  show "peer_last_pn p tid s' = newest_pn (peer_last_pn p tid s) (accepted_pns e ?c s acc)"
    using acc by (simp add: s' peer_last_pn_def)
  show "pn_ctx_of p mcast s' = ?c" "pn_checked p mcast s'" "is_high_latency s' = is_high_latency s"
    using ck by (auto simp: s' pn_ctx_of_def pn_checked_def keep peer_sec_type_def)
qed

text \<open>The check of one list after another, as the reorder code calls it for a peer and a TID.\<close>

fun pn_check_batches ::
  "rx_env \<Rightarrow> nat \<Rightarrow> nat \<Rightarrow> rx_msdu list list \<Rightarrow> rx_pdev \<Rightarrow> rx_msdu list list \<times> rx_pdev" where
  "pn_check_batches e p tid [] s = ([], s)"
| "pn_check_batches e p tid (b # bs) s =
     (let (out, s1) = ol_rx_pn_check_base e p tid b s;
          (outs, s2) = pn_check_batches e p tid bs s1
      in (out # outs, s2))"

lemma sorted_wrt_glue:
  assumes "sorted_wrt P ((case start of None \<Rightarrow> [] | Some l \<Rightarrow> [l]) @ xs)"
    and "sorted_wrt P ((case newest_pn start xs of None \<Rightarrow> [] | Some l \<Rightarrow> [l]) @ ys)"
    and trans: "\<And>a b c. P a b \<Longrightarrow> P b c \<Longrightarrow> P a c"
  shows "sorted_wrt P ((case start of None \<Rightarrow> [] | Some l \<Rightarrow> [l]) @ xs @ ys)"
proof (cases "xs = []")
  case True
  with assms(2) show ?thesis by simp
next
  case False
  then obtain us w where xs: "xs = us @ [w]" by (metis rev_exhaust)
  have sy: "sorted_wrt P (w # ys)" using assms(2) by (simp add: xs newest_pn_def)
  obtain zs where zs: "(case start of None \<Rightarrow> [] | Some l \<Rightarrow> [l]) @ us = zs" by blast
  have "sorted_wrt P (zs @ [w])" using assms(1) by (simp add: xs zs [symmetric])
  then have "sorted_wrt P zs" and "\<forall>z\<in>set zs. P z w" by (simp_all add: sorted_wrt_append)
  with sy have "sorted_wrt P (zs @ w # ys)"
    by (auto simp add: sorted_wrt_append intro: trans)
  then show ?thesis by (simp add: xs zs [symmetric])
qed


text \<open>Packet numbers as numbers: what the code compares for a security type.\<close>

definition pn_value :: "htt_sec_type \<Rightarrow> htt_rx_pn \<Rightarrow> nat" where
  "pn_value sec pn =
     (if sec = htt_sec_type_wapi then unat (pn128_1 pn) * 2 ^ 64 + unat (pn128_0 pn)
      else unat (pn128_0 pn AND 0xffffffffffff))"

lemma pn_newer_value:
  assumes "\<not> rx_pn_cmp sec b a uc opmode"
  shows "pn_value sec a < pn_value sec b"
proof (cases "sec = htt_sec_type_wapi")
  case False
  with assms show ?thesis
    by (simp add: rx_pn_cmp_def ol_rx_pn_cmp48_def pn_value_def word_less_nat_alt not_le)
next
  case True
  have "unat (pn128_0 a) < 2 ^ LENGTH(64)" by (rule unsigned_less)
  then have lo: "unat (pn128_0 a) < 2 ^ 64" by simp
  have "(if pn128_1 b = pn128_1 a then \<not> pn128_0 b \<le> pn128_0 a else \<not> pn128_1 b < pn128_1 a)"
    using assms True by (auto simp: rx_pn_cmp_def ol_rx_pn_wapi_cmp_def Let_def split: if_splits)
  then consider "pn128_1 b = pn128_1 a" "unat (pn128_0 a) < unat (pn128_0 b)"
    | "unat (pn128_1 a) < unat (pn128_1 b)"
    by (metis not_le order_le_less word_le_nat_alt word_less_nat_alt)
  then show ?thesis
  proof cases
    case 1
    then show ?thesis by (simp add: pn_value_def True)
  next
    case 2
    then have "(unat (pn128_1 a) + 1) * 2 ^ 64 \<le> unat (pn128_1 b) * 2 ^ 64" by (intro mult_right_mono) simp_all
    with lo show ?thesis by (simp add: pn_value_def True)
  qed
qed

lemma pn_check_batches_increasing:
  assumes "pn_checked p mcast s"
    and "\<And>b. b \<in> set bs \<Longrightarrow> rd_mcast_bcast (m_desc (hd b)) = mcast"
    and "pn_check_batches e p tid bs s = (outs, s')"
  shows "sorted_wrt (pn_newer (pn_ctx_of p mcast s))
           ((case peer_last_pn p tid s of None \<Rightarrow> [] | Some l \<Rightarrow> [l])
            @ accepted_pns e (pn_ctx_of p mcast s) s (concat (map mpdus outs)))"
  using assms
proof (induction bs arbitrary: s outs)
  case Nil
  then show ?case by (simp split: option.split)
next
  case (Cons b bs)
  let ?c = "pn_ctx_of p mcast s"
  obtain out s1 outs1 where r: "ol_rx_pn_check_base e p tid b s = (out, s1)"
    and r2: "pn_check_batches e p tid bs s1 = (outs1, s')" and o: "outs = out # outs1"
    using Cons.prems(3) by (auto split: prod.splits)
  have b: "rd_mcast_bcast (m_desc (hd b)) = mcast" using Cons.prems(2) by simp
  note base = ol_rx_pn_check_base_accepted [OF Cons.prems(1) b r]
  have IH: "sorted_wrt (pn_newer ?c) ((case peer_last_pn p tid s1 of None \<Rightarrow> [] | Some l \<Rightarrow> [l])
            @ accepted_pns e ?c s (concat (map mpdus outs1)))"
    using Cons.IH [OF base(4) Cons.prems(2) r2] by (simp add: base(3) accepted_pns_cong [OF base(5)])
  have first: "sorted_wrt (pn_newer ?c) ((case peer_last_pn p tid s of None \<Rightarrow> [] | Some l \<Rightarrow> [l])
      @ accepted_pns e ?c s (mpdus out))"
    using pn_accepted_increasing unfolding base(1) .
  have "sorted_wrt (pn_newer ?c) ((case peer_last_pn p tid s of None \<Rightarrow> [] | Some l \<Rightarrow> [l])
      @ accepted_pns e ?c s (mpdus out) @ accepted_pns e ?c s (concat (map mpdus outs1)))"
    using sorted_wrt_glue [OF first IH [unfolded base(2), folded base(1)]] rx_pn.accept_trans by blast
  then show ?case by (simp add: o accepted_pns_append)
qed

text \<open>
  Property C8. The replay check lets packet numbers through only in strictly increasing order.
  Whatever lists of MPDUs are checked one after another for a peer and TID, the numbers of the
  encrypted MPDUs that are passed on, starting with the last number accepted before, are strictly
  increasing: as 48-bit numbers for TKIP and CCMP, as 128-bit numbers for WAPI. In particular no
  encrypted MPDU is ever passed on twice.
\<close>

theorem rx_pn_check_strictly_increasing:
  assumes "pn_checked p mcast s"
    and "\<forall>b\<in>set bs. rd_mcast_bcast (m_desc (hd b)) = mcast"
    and "pn_check_batches e p tid bs s = (outs, s')"
  shows "sorted_wrt (<) (map (pn_value (peer_sec_type (peers s p) mcast))
           ((case peer_last_pn p tid s of None \<Rightarrow> [] | Some l \<Rightarrow> [l])
            @ accepted_pns e (pn_ctx_of p mcast s) s (concat (map mpdus outs))))"
proof -
  have "sorted_wrt (pn_newer (pn_ctx_of p mcast s))
           ((case peer_last_pn p tid s of None \<Rightarrow> [] | Some l \<Rightarrow> [l])
            @ accepted_pns e (pn_ctx_of p mcast s) s (concat (map mpdus outs)))"
    using pn_check_batches_increasing [OF assms(1) _ assms(3)] assms(2) by blast
  then show ?thesis
    unfolding sorted_wrt_map
    by (rule sorted_wrt_mono_rel [rotated]) (auto simp: pn_ctx_of_def intro: pn_newer_value)
qed

text \<open>
  Property C14. The check neither loses, duplicates nor reorders frames: what it passes on is a
  subsequence of its input, the other frames are freed, and each freed frame is counted as a
  replay of the security type, with the 32-bit counter's wrap-around; nothing else of the device
  changes except the peer's last packet number.
\<close>

theorem ol_rx_pn_check_base_partition:
  assumes "ol_rx_pn_check_base e p tid ms s = (out, s')"
  shows "subseq out ms \<and>
         (\<exists>fr rt. rx_freed s' = rx_freed s @ fr \<and> mset ms = mset out + mset fr \<and>
            (if fr = [] then pn_replays s' = pn_replays s
             else pn_replays s' = (pn_replays s)(rt := u32 (pn_replays s rt + length fr))) \<and>
            rx_osif s' = rx_osif s \<and> rx_fwd s' = rx_fwd s \<and>
            (\<forall>q. q \<noteq> p \<longrightarrow> peers s' q = peers s q))"
proof (cases "pn_checked p (rd_mcast_bcast (m_desc (hd ms))) s")
  case False
  with assms have "out = ms \<and> s' = s"
    by (auto simp: pn_checked_def ol_rx_pn_check_base_def Let_def split: if_splits)
  then show ?thesis by (intro conjI exI [of _ "[]"]) simp_all
next
  case True
  let ?c = "pn_ctx_of p (rd_mcast_bcast (m_desc (hd ms))) s"
  obtain valid l s1 where loop: "pn_check_loop e ?c ms (tids_last_pn_valid (peers s p) tid)
      (tids_last_pn (peers s p) tid) s = (out, valid, l, s1)"
    and s': "s' = upd_peer p (\<lambda>q. q\<lparr>tids_last_pn_valid := (tids_last_pn_valid q)(tid := valid),
                                  tids_last_pn := (tids_last_pn q)(tid := l)\<rparr>) s1"
    using assms True by (simp add: ol_rx_pn_check_base_checked split: prod.splits)
  have "subseq out ms"
    using pn_check_loop_accepted [OF loop] subseq_concat [OF pn_accepted_subseq] concat_mpdus by metis
  moreover obtain fr where fr: "rx_freed s1 = rx_freed s @ fr" "mset ms = mset out + mset fr"
    "fr \<noteq> [] \<longrightarrow> pn_replays s1 (pc_replay_type ?c) = u32 (pn_replays s (pc_replay_type ?c) + length fr)"
    "fr = [] \<longrightarrow> pn_replays s1 = pn_replays s"
    "\<forall>t. t \<noteq> pc_replay_type ?c \<longrightarrow> pn_replays s1 t = pn_replays s t"
    and s1: "s1\<lparr>rx_freed := rx_freed s, pn_replays := pn_replays s\<rparr> = s"
    using pn_check_loop_conserves [OF loop] by blast
  moreover have "peers s1 = peers s" "rx_osif s1 = rx_osif s" "rx_fwd s1 = rx_fwd s"
    by (subst s1 [symmetric], simp)+
  ultimately show ?thesis
    by (intro conjI exI [of _ fr] exI [of _ "pc_replay_type ?c"]) (auto simp: s' fun_eq_iff)
qed

section \<open>The dispatch\<close>

lemma ol_rx_pn_check_base_spec:
  assumes "ol_rx_pn_check_base e p tid ms s = (out, s')"
  shows "rx_core s' = rx_core s \<and> rx_logs s' + mset out = rx_logs s + mset ms"
proof (cases "pn_checked p (rd_mcast_bcast (m_desc (hd ms))) s")
  case False
  with assms have "out = ms \<and> s' = s"
    by (auto simp: pn_checked_def ol_rx_pn_check_base_def Let_def split: if_splits)
  then show ?thesis by simp
next
  case True
  let ?c = "pn_ctx_of p (rd_mcast_bcast (m_desc (hd ms))) s"
  obtain valid l s1 where loop: "pn_check_loop e ?c ms (tids_last_pn_valid (peers s p) tid)
      (tids_last_pn (peers s p) tid) s = (out, valid, l, s1)"
    and s': "s' = upd_peer p (\<lambda>q. q\<lparr>tids_last_pn_valid := (tids_last_pn_valid q)(tid := valid),
                                  tids_last_pn := (tids_last_pn q)(tid := l)\<rparr>) s1"
    using assms True by (simp add: ol_rx_pn_check_base_checked split: prod.splits)
  obtain fr where fr: "rx_freed s1 = rx_freed s @ fr" "mset ms = mset out + mset fr"
    and s1: "s1\<lparr>rx_freed := rx_freed s, pn_replays := pn_replays s\<rparr> = s"
    using pn_check_loop_conserves [OF loop] by blast
  have "rx_core s1 = rx_core (s1\<lparr>rx_freed := rx_freed s, pn_replays := pn_replays s\<rparr>)" by simp
  then have "rx_core s1 = rx_core s" by (simp only: s1)
  moreover have "rx_osif s1 = rx_osif s" "rx_fwd s1 = rx_fwd s" by (subst s1 [symmetric], simp)+
  ultimately show ?thesis using fr by (simp add: s' rx_logs_def osif_frames_def)
qed

text \<open>
  Whatever function \<open>rx_opt_proc\<close> points to, every frame it gets ends up freed, with the OS or with
  the tx path, and the reorder state is untouched.
\<close>

lemma call_rx_opt_proc_spec:
  "rx_core (call_rx_opt_proc e p tid ms s) = rx_core s"
  "tx_returns_own e \<Longrightarrow> rx_logs s + mset ms \<subseteq># rx_logs (call_rx_opt_proc e p tid ms s)"
proof -
  obtain out s' where b: "ol_rx_pn_check_base e p tid ms s = (out, s')"
    by (cases "ol_rx_pn_check_base e p tid ms s")
  note base = ol_rx_pn_check_base_spec [OF b]
  show "rx_core (call_rx_opt_proc e p tid ms s) = rx_core s"
    using base
    by (simp add: call_rx_opt_proc_def ol_rx_pn_check_def ol_rx_pn_check_only_def b
        ol_rx_fwd_check_spec ol_rx_deliver_spec ol_rx_in_order_deliver_def ol_rx_discard_def
        split: rx_opt_proc_fn.split)
  have "rx_logs s + mset ms \<subseteq># rx_logs (ol_rx_fwd_check e p tid out s')" if "tx_returns_own e"
    using base ol_rx_fwd_check_spec(2) [OF that, of s' out p tid] by simp
  then show "rx_logs s + mset ms \<subseteq># rx_logs (call_rx_opt_proc e p tid ms s)" if "tx_returns_own e"
    using base that ol_rx_fwd_check_spec(2) [OF that]
    by (simp add: call_rx_opt_proc_def ol_rx_pn_check_def ol_rx_pn_check_only_def b
        ol_rx_deliver_spec ol_rx_in_order_deliver_def ol_rx_discard_def
        split: rx_opt_proc_fn.split)
qed

section \<open>The state as the delivery stage sees it\<close>

text \<open>
  The delivery stage and the PN check neither read nor write the reorder arrays and their books.
  \<open>rx_view\<close> is the state without these; what stays is what was freed, delivered and forwarded, the
  replay and forwarding counters, the keys and packet numbers, and the configuration. Two states
  with the same view are treated alike.
\<close>

definition no_reorder :: ol_rx_reorder where
  "no_reorder = \<lparr>win_sz = 0, win_sz_mask = 0, num_mpdus = 0, ro_base = [], ro_array = None, ro_frag_rest = [],
     tm_active = False, tm_timestamp_ms = 0, ro_on_waitlist = False, defrag_timeout_ms = 0, ro_tid = 0\<rparr>"

definition peer_view :: "rx_peer \<Rightarrow> rx_peer" where
  "peer_view pr = pr\<lparr>tids_rx_reorder := (\<lambda>_. no_reorder), tids_last_seq := (\<lambda>_. 0),
     tids_next_rel_idx := (\<lambda>_. 0), reorder_history := None\<rparr>"

definition rx_view :: "rx_pdev \<Rightarrow> rx_pdev" where
  "rx_view s = s\<lparr>cur_seq_num_hl := 0, rx_desc_size_hl := 0, defrag_waitlist := [], vt_list := (\<lambda>_. []),
     peers := (\<lambda>p. peer_view (peers s p))\<rparr>"

lemma view_fields [simp]:
  "is_high_latency (rx_view s) = is_high_latency s" "native_wifi (rx_view s) = native_wifi s"
  "full_reorder_offload (rx_view s) = full_reorder_offload s" "rx_vdevs (rx_view s) = rx_vdevs s"
  "peers (rx_view s) = (\<lambda>p. peer_view (peers s p))" "rx_freed (rx_view s) = rx_freed s"
  "rx_osif (rx_view s) = rx_osif s" "rx_fwd (rx_view s) = rx_fwd s" "pn_replays (rx_view s) = pn_replays s"
  "rxp_vdev (peer_view pr) = rxp_vdev pr" "rx_opt_proc (peer_view pr) = rx_opt_proc pr"
  "fw_pn_check (peer_view pr) = fw_pn_check pr" "sec_ucast (peer_view pr) = sec_ucast pr"
  "sec_mcast (peer_view pr) = sec_mcast pr" "keyinstalled (peer_view pr) = keyinstalled pr"
  "tids_last_pn (peer_view pr) = tids_last_pn pr" "tids_last_pn_valid (peer_view pr) = tids_last_pn_valid pr"
  by (simp_all add: rx_view_def peer_view_def)

lemma view_logs [simp]:
  "(rx_view s)\<lparr>rx_freed := x\<rparr> = rx_view (s\<lparr>rx_freed := x\<rparr>)" "(rx_view s)\<lparr>rx_osif := y\<rparr> = rx_view (s\<lparr>rx_osif := y\<rparr>)"
  "(rx_view s)\<lparr>rx_fwd := z\<rparr> = rx_view (s\<lparr>rx_fwd := z\<rparr>)" "(rx_view s)\<lparr>pn_replays := w\<rparr> = rx_view (s\<lparr>pn_replays := w\<rparr>)"
  "(rx_view s)\<lparr>rx_vdevs := v\<rparr> = rx_view (s\<lparr>rx_vdevs := v\<rparr>)"
  by (simp_all add: rx_view_def)

lemma view_free [simp]:
  "ol_rx_frames_free ms (rx_view s) = rx_view (ol_rx_frames_free ms s)"
  "htt_rx_desc_frame_free m (rx_view s) = rx_view (htt_rx_desc_frame_free m s)"
  "osif_rx p ms (rx_view s) = rx_view (osif_rx p ms s)"
  by (simp_all add: ol_rx_frames_free_eq htt_rx_desc_frame_free_def osif_rx_def)

lemma view_filter:
  "ol_rx_filter v (peer_view pr) m (rx_view s) = ol_rx_filter v pr m s"
proof -
  have "filter_loop fs t b c (peer_view pr) = filter_loop fs t b c pr" for fs t b c
    by (induction fs) (simp_all split: privacy_filter.split)
  then show ?thesis by (simp add: ol_rx_filter_def htt_rx_mpdu_is_encrypted_def Let_def cong: option.case_cong)
qed

lemma view_deliver_loop:
  "ol_rx_deliver_loop v (peer_view pr) filt ms (rx_view s) = map_prod id rx_view (ol_rx_deliver_loop v pr filt ms s)"
  by (induction ms arbitrary: filt s) (simp_all add: view_filter Let_def split_beta)

lemma view_deliver: "ol_rx_deliver p tid ms (rx_view s) = rx_view (ol_rx_deliver p tid ms s)"
  by (simp add: ol_rx_deliver_def view_deliver_loop split_beta)

lemma view_fwd_to_tx [simp]: "ol_rx_fwd_to_tx e m (rx_view s) = rx_view (ol_rx_fwd_to_tx e m s)"
  by (simp add: ol_rx_fwd_to_tx_def split: option.split)

lemma view_fwd_loop:
  "ol_rx_fwd_check_loop e v ms (rx_view s) = map_prod id rx_view (ol_rx_fwd_check_loop e v ms s)"
  by (induction ms arbitrary: s) (simp_all add: Let_def split_beta split: option.split)

lemma view_fwd_check: "ol_rx_fwd_check e p tid ms (rx_view s) = rx_view (ol_rx_fwd_check e p tid ms s)"
  by (simp add: ol_rx_fwd_check_def view_fwd_loop split_beta ol_rx_in_order_deliver_def view_deliver)

lemma view_drop: "pn_drop_mpdu rt mpdu (rx_view s) = rx_view (pn_drop_mpdu rt mpdu s)"
  by (simp add: pn_drop_mpdu_def)

lemma view_pn_loop:
  "pn_check_loop e c ms valid l (rx_view s) =
    map_prod id (map_prod id (map_prod id rx_view)) (pn_check_loop e c ms valid l s)"
proof (induction ms arbitrary: valid l s rule: length_induct)
  case (1 ms)
  show ?case
  proof (cases ms)
    case (Cons m ns)
    obtain x y where n: "ol_rx_mpdu_list_next (m # ns) = (x, y)" by fastforce
    have IH: "pn_check_loop e c y v k (rx_view t) =
        map_prod id (map_prod id (map_prod id rx_view)) (pn_check_loop e c y v k t)" for v k t
      using 1 ol_rx_mpdu_list_next_shorter [OF n] Cons by (simp add: id_def)
    have r: "htt_rx_mpdu_desc_pn (rx_view s) = htt_rx_mpdu_desc_pn s"
      "htt_rx_mpdu_is_encrypted (rx_view s) = htt_rx_mpdu_is_encrypted s"
      by (rule desc_read_cong; simp)+
    show ?thesis unfolding Cons by (simp add: pn_check_loop.simps n r IH view_drop Let_def split_beta id_def)
  qed simp
qed

lemma view_upd_peer:
  assumes "\<And>pr. peer_view (f pr) = f (peer_view pr)"
  shows "upd_peer p f (rx_view s) = rx_view (upd_peer p f s)"
  using assms by (auto simp: rx_view_def fun_eq_iff intro!: rx_pdev.equality)

lemma view_pn_base:
  "ol_rx_pn_check_base e p tid ms (rx_view s) = map_prod id rx_view (ol_rx_pn_check_base e p tid ms s)"
proof -
  have up: "upd_peer p (\<lambda>q. q\<lparr>tids_last_pn_valid := (tids_last_pn_valid q)(tid := v), tids_last_pn := (tids_last_pn q)(tid := l)\<rparr>)
     (rx_view t) = rx_view (upd_peer p (\<lambda>q. q\<lparr>tids_last_pn_valid := (tids_last_pn_valid q)(tid := v),
       tids_last_pn := (tids_last_pn q)(tid := l)\<rparr>) t)" for v l t
    by (rule view_upd_peer) (simp add: peer_view_def)
  let ?pr = "peers s p"
  let ?sec = "peer_sec_type ?pr (rd_mcast_bcast (m_desc (hd ms)))"
  consider "fw_pn_check ?pr \<or> rxv_opmode (rx_vdevs s (rxp_vdev ?pr)) = wlan_op_mode_ibss"
    | "\<not> (fw_pn_check ?pr \<or> rxv_opmode (rx_vdevs s (rxp_vdev ?pr)) = wlan_op_mode_ibss)" "rx_pn_len ?sec = 0"
    | "\<not> (fw_pn_check ?pr \<or> rxv_opmode (rx_vdevs s (rxp_vdev ?pr)) = wlan_op_mode_ibss)" "rx_pn_len ?sec \<noteq> 0"
    by blast
  then show ?thesis
  proof cases
    case 3
    have sec: "peer_sec_type (peer_view ?pr) b = peer_sec_type ?pr b" for b by (simp add: peer_sec_type_def)
    obtain out v l t where run: "pn_check_loop e \<lparr>pc_sec = ?sec, pc_ucast = (\<not> rd_mcast_bcast (m_desc (hd ms))),
        pc_opmode = rxv_opmode (rx_vdevs s (rxp_vdev ?pr)), pc_replay_type = replay_type_of ?sec\<rparr>
        ms (tids_last_pn_valid ?pr tid) (tids_last_pn ?pr tid) s = (out, v, l, t)"
      by (metis prod_cases4)
    show ?thesis
      using 3 up [where v = v and l = l and t = t] by (simp add: ol_rx_pn_check_base_def Let_def sec view_pn_loop run)
  qed (simp_all add: ol_rx_pn_check_base_def Let_def peer_sec_type_def split: if_splits)
qed

lemma view_call: "call_rx_opt_proc e p tid ms (rx_view s) = rx_view (call_rx_opt_proc e p tid ms s)"
  by (simp add: call_rx_opt_proc_def ol_rx_pn_check_def ol_rx_pn_check_only_def view_pn_base split_beta view_fwd_check
      view_deliver ol_rx_in_order_deliver_def ol_rx_discard_def split: rx_opt_proc_fn.split)

lemma call_cong:
  assumes "rx_view t = rx_view s"
  shows "rx_view (call_rx_opt_proc e p tid ms t) = rx_view (call_rx_opt_proc e p tid ms s)"
  using assms by (metis view_call)

lemma view_out:
  assumes "rx_view t = rx_view s"
  shows "rx_freed t = rx_freed s" "rx_osif t = rx_osif s" "rx_fwd t = rx_fwd s" "pn_replays t = pn_replays s"
  using arg_cong [OF assms, of rx_freed] arg_cong [OF assms, of rx_osif] arg_cong [OF assms, of rx_fwd]
    arg_cong [OF assms, of pn_replays] by simp_all

text \<open>Updates of the books leave the view as it is.\<close>

lemma view_books [simp]:
  "rx_view (s\<lparr>cur_seq_num_hl := n\<rparr>) = rx_view s" "rx_view (s\<lparr>rx_desc_size_hl := n\<rparr>) = rx_view s"
  "rx_view (s\<lparr>defrag_waitlist := w\<rparr>) = rx_view s" "rx_view (s\<lparr>vt_list := t\<rparr>) = rx_view s"
  by (simp_all add: rx_view_def)

lemma view_set_peers [simp]:
  assumes "\<And>p. peer_view (g p) = peer_view (peers s p)"
  shows "rx_view (s\<lparr>peers := g\<rparr>) = rx_view s"
  using assms by (simp add: rx_view_def)

lemma view_peer_upds [simp]:
  "peer_view (pr\<lparr>tids_rx_reorder := a\<rparr>) = peer_view pr" "peer_view (pr\<lparr>tids_last_seq := b\<rparr>) = peer_view pr"
  "peer_view (pr\<lparr>tids_next_rel_idx := c\<rparr>) = peer_view pr" "peer_view (pr\<lparr>reorder_history := d\<rparr>) = peer_view pr"
  by (simp_all add: peer_view_def)

lemma view_seq_num_cached [simp]: "rx_view (seq_num_cached s d) = rx_view s"
  by (simp add: seq_num_cached_def)

end
