(* ===== verification/RxReorder.thy ===== *)
theory RxReorder
  imports RxPn
begin

unbundle bit_operations_syntax

text \<open>
  The reorder arrays of a peer's TIDs (\<open>ol_rx_reorder.c\<close>) and their virtual timers
  (\<open>ol_rx_reorder_timeout.c\<close>): store, release, flush, the search for the first hole, the set-up
  and tear-down of block-ack agreements, and the handlers HTT calls.

  Frames wait in the slots of the array; release and flush walk the slots from a start to an end
  index, wrapping with the window mask, chain their contents, and hand the chain to
  \<open>rx_opt_proc\<close>. The walk is \<open>reorder_walk\<close>: the list of the slots it visits, computed with the
  number of slots as fuel, which is enough whenever the mask is one less than a power of two
  (\<open>reorder_range_fuel\<close>).
\<close>

section \<open>Slots\<close>

definition ro_slots :: "ol_rx_reorder \<Rightarrow> rx_msdu list list" where
  "ro_slots r = (case ro_array r of None \<Rightarrow> [ro_base r] | Some a \<Rightarrow> a)"

definition ro_slot :: "ol_rx_reorder \<Rightarrow> nat \<Rightarrow> rx_msdu list" where
  "ro_slot r i = ro_slots r ! i"

definition ro_put :: "nat \<Rightarrow> rx_msdu list \<Rightarrow> ol_rx_reorder \<Rightarrow> ol_rx_reorder" where
  "ro_put i v r =
     (let rest = (if i = 0 then [] else ro_frag_rest r) in
      case ro_array r of
        None \<Rightarrow> r\<lparr>ro_base := ([ro_base r][i := v]) ! 0, ro_frag_rest := rest\<rparr>
      | Some a \<Rightarrow> r\<lparr>ro_array := Some (a[i := v]), ro_frag_rest := rest\<rparr>)"

abbreviation reorder_of :: "rx_pdev \<Rightarrow> nat \<Rightarrow> nat \<Rightarrow> ol_rx_reorder" where
  "reorder_of s p tid \<equiv> tids_rx_reorder (peers s p) tid"

text \<open>
  The slots a walk visits: from \<open>idx\<close>, stepping \<open>idx = (idx + 1) & mask\<close>, until \<open>idx_end\<close>.
\<close>

fun reorder_range :: "nat \<Rightarrow> nat \<Rightarrow> nat \<Rightarrow> nat \<Rightarrow> nat list" where
  "reorder_range 0 msk idx idx_end = []"
| "reorder_range (Suc fuel) msk idx idx_end =
     (if idx = idx_end then [] else idx # reorder_range fuel msk ((idx + 1) AND msk) idx_end)"

text \<open>The first slot is always visited; equal indices visit the whole array.\<close>

definition reorder_walk :: "nat \<Rightarrow> nat \<Rightarrow> nat \<Rightarrow> nat list" where
  "reorder_walk msk idx_start idx_end =
     (idx_start AND msk) #
       reorder_range (Suc msk) msk (((idx_start AND msk) + 1) AND msk) (idx_end AND msk)"

section \<open>Initialisation and history\<close>

definition ol_rx_reorder_init :: "nat \<Rightarrow> ol_rx_reorder \<Rightarrow> ol_rx_reorder" where
  "ol_rx_reorder_init tid r =
     r\<lparr>win_sz := 1, win_sz_mask := 0, ro_array := None, ro_base := [], ro_frag_rest := [], ro_tid := tid,
       defrag_timeout_ms := 0, ro_on_waitlist := False\<rparr>"

definition OL_MAX_RX_REORDER_HISTORY :: nat where "OL_MAX_RX_REORDER_HISTORY = 50"

definition ol_rx_reorder_update_history ::
  "nat \<Rightarrow> ol_rx_reorder_msg_type \<Rightarrow> nat \<Rightarrow> nat \<Rightarrow> nat \<Rightarrow> nat \<Rightarrow> rx_pdev \<Rightarrow> rx_pdev" where
  "ol_rx_reorder_update_history p msg_type tid start_seq end_seq reorder_idx s =
     (case reorder_history (peers s p) of
        None \<Rightarrow> s
      | Some h \<Rightarrow>
          (let index = rh_curr_index h;
               h1 = h\<lparr>rh_curr_index := u8 (index + 1),
                      rh_record := (rh_record h)[index :=
                        \<lparr>rr_msg_type = msg_type, rr_tid = u8 tid, rr_peer_id = rxp_local_id (peers s p),
                         rr_start_seq = u8 start_seq, rr_end_seq = u8 end_seq,
                         rr_reorder_idx = u8 reorder_idx\<rparr>]\<rparr>;
               h2 = (if rh_curr_index h1 \<ge> OL_MAX_RX_REORDER_HISTORY
                     then h1\<lparr>rh_curr_index := 0, rh_wrap_around := True\<rparr> else h1)
           in upd_peer p (\<lambda>pr. pr\<lparr>reorder_history := Some h2\<rparr>) s))"

section \<open>Duplicate and out-of-order detection\<close>

datatype htt_rx_status =
    htt_rx_status_unknown | htt_rx_status_ok | htt_rx_status_err_fcs | htt_rx_status_err_dup
  | htt_rx_status_err_replay | htt_rx_status_err_inv_peer | htt_rx_status_ctrl_mgmt_null
  | htt_rx_status_tkip_mic_err | htt_rx_status_err_misc

text \<open>Unsigned 32-bit arithmetic: \<open>seq_num - 1 - last_seq\<close> before the mask.\<close>

definition ol_rx_reorder_seq_num_check :: "nat \<Rightarrow> nat \<Rightarrow> nat \<Rightarrow> rx_pdev \<Rightarrow> htt_rx_status" where
  "ol_rx_reorder_seq_num_check p tid seq_num s =
     (if tids_last_seq (peers s p) tid = IEEE80211_SEQ_MAX then htt_rx_status_ok
      else
        (let seq_num_delta =
               usub 32 (usub 32 seq_num 1) (tids_last_seq (peers s p) tid) AND (IEEE80211_SEQ_MAX - 1)
         in if seq_num_delta > IEEE80211_SEQ_MAX div 2 then htt_rx_status_err_replay
            else htt_rx_status_ok))"

definition ol_rx_seq_num_check ::
  "nat \<Rightarrow> nat \<Rightarrow> hl_htt_rx_desc \<Rightarrow> rx_pdev \<Rightarrow> htt_rx_status \<times> rx_pdev" where
  "ol_rx_seq_num_check p tid d s =
     (let seq_num = htt_rx_mpdu_desc_seq_num s d;
          s0 = seq_num_cached s d
      in if tid = OL_RX_MCAST_TID then
           (let pkt_tid = htt_rx_mpdu_desc_tid s0 d in
            if pkt_tid \<ge> OL_TXRX_NUM_EXT_TIDS then (htt_rx_status_ok, s0)
            else if htt_rx_mpdu_desc_retry s0 d \<and> seq_num = tids_mcast_last_seq (peers s0 p) pkt_tid then
              (htt_rx_status_err_replay, s0\<lparr>msdu_mc_dup_drop := msdu_mc_dup_drop s0 + 1\<rparr>)
            else
              (htt_rx_status_ok,
               upd_peer p (\<lambda>pr. pr\<lparr>tids_mcast_last_seq := (tids_mcast_last_seq pr)(pkt_tid := seq_num)\<rparr>) s0))
         else (ol_rx_reorder_seq_num_check p tid seq_num s0, s0))"

text \<open>\<open>OL_RX_SEQ_NUM_CHECK\<close>: only without a block-ack window, and only when configured.\<close>

definition OL_RX_SEQ_NUM_CHECK ::
  "nat \<Rightarrow> nat \<Rightarrow> hl_htt_rx_desc \<Rightarrow> rx_pdev \<Rightarrow> htt_rx_status \<times> rx_pdev" where
  "OL_RX_SEQ_NUM_CHECK p tid d s =
     (if dup_check s \<and> win_sz_mask (reorder_of s p tid) = 0 then ol_rx_seq_num_check p tid d s
      else (htt_rx_status_ok, s))"

section \<open>Virtual timers\<close>

definition ol_rx_reorder_timeout_remove :: "nat \<Rightarrow> nat \<Rightarrow> rx_pdev \<Rightarrow> rx_pdev" where
  "ol_rx_reorder_timeout_remove p tid s =
     (if \<not> tm_active (reorder_of s p tid) then s
      else
        (let ac = TXRX_TID_TO_WMM_AC tid;
             s1 = upd_reorder p tid (\<lambda>r. r\<lparr>tm_active := False\<rparr>) s
         in s1\<lparr>vt_list := (vt_list s1)(ac := remove1 (p, tid) (vt_list s1 ac))\<rparr>))"

text \<open>Arming the timer of an access category for the head of its list.\<close>

definition ol_rx_reorder_timeout_start :: "ol_tx_cat \<Rightarrow> nat \<Rightarrow> rx_pdev \<Rightarrow> rx_pdev" where
  "ol_rx_reorder_timeout_start ac time_now_ms s =
     (case vt_list s ac of
        [] \<Rightarrow> s
      | (p, tid) # _ \<Rightarrow>
          s\<lparr>vt_timer := (vt_timer s)(ac := Some (usub 32 (tm_timestamp_ms (reorder_of s p tid)) time_now_ms))\<rparr>)"

definition ol_rx_reorder_timeout_add :: "rx_env \<Rightarrow> nat \<Rightarrow> nat \<Rightarrow> rx_pdev \<Rightarrow> rx_pdev" where
  "ol_rx_reorder_timeout_add e p tid s =
     (let ac = TXRX_TID_TO_WMM_AC tid;
          s1 = upd_reorder p tid (\<lambda>r. r\<lparr>tm_active := True,
                 tm_timestamp_ms := u32 (now_ms e + vt_duration_ms s ac)\<rparr>) s;
          s2 = s1\<lparr>vt_list := (vt_list s1)(ac := vt_list s1 ac @ [(p, tid)])\<rparr>
      in if vt_list s ac = [] then ol_rx_reorder_timeout_start ac (now_ms e) s2 else s2)"

definition ol_rx_reorder_timeout_update :: "rx_env \<Rightarrow> nat option \<Rightarrow> nat \<Rightarrow> rx_pdev \<Rightarrow> rx_pdev" where
  "ol_rx_reorder_timeout_update e po tid s =
     (case po of
        None \<Rightarrow> s
      | Some p \<Rightarrow>
          if num_mpdus (reorder_of s p tid) = 0 then s
          else if tm_active (reorder_of s p tid) then s
          else ol_rx_reorder_timeout_add e p tid s)"

section \<open>Store\<close>

definition ol_rx_reorder_store :: "nat \<Rightarrow> nat \<Rightarrow> nat \<Rightarrow> rx_msdu list \<Rightarrow> rx_pdev \<Rightarrow> rx_pdev" where
  "ol_rx_reorder_store p tid idx mpdu s =
     upd_reorder p tid (\<lambda>r. ro_put (idx AND win_sz_mask r) (ro_slot r (idx AND win_sz_mask r) @ mpdu) r) s"

section \<open>Release\<close>

text \<open>
  The loop over the slots after the first. \<open>OL_RX_REORDER_LIST_APPEND\<close> links a slot's frames
  behind the tail of the chain and never sets the chain's head: while the head is NULL the
  frames are taken out of the slot and are reachable from nowhere.
\<close>

fun release_loop :: "nat list \<Rightarrow> rx_msdu list \<Rightarrow> ol_rx_reorder \<Rightarrow> rx_msdu list \<times> ol_rx_reorder" where
  "release_loop [] chain r = (chain, r)"
| "release_loop (i # is) chain r =
     release_loop is (if chain = [] then [] else chain @ ro_slot r i) (ro_put i [] r)"

text \<open>
  A chain that is not empty is handed on; the sequence number of its first frame becomes the
  TID's last sequence number.
\<close>

definition hand_over ::
  "(rx_msdu list \<Rightarrow> rx_pdev \<Rightarrow> rx_pdev) \<Rightarrow> nat \<Rightarrow> nat \<Rightarrow> rx_msdu list \<Rightarrow> rx_pdev \<Rightarrow> rx_pdev" where
  "hand_over f p tid ms s =
     (if ms = [] then s
      else
        (let seq_num = htt_rx_mpdu_desc_seq_num s (m_desc (hd ms)) in
         f ms (upd_peer p (\<lambda>pr. pr\<lparr>tids_last_seq := (tids_last_seq pr)(tid := seq_num)\<rparr>)
                 (seq_num_cached s (m_desc (hd ms))))))"

definition ol_rx_reorder_release ::
  "rx_env \<Rightarrow> nat \<Rightarrow> nat \<Rightarrow> nat \<Rightarrow> nat \<Rightarrow> rx_pdev \<Rightarrow> rx_pdev" where
  "ol_rx_reorder_release e p tid idx_start idx_end s =
     (let s1 = upd_peer p (\<lambda>pr. pr\<lparr>tids_next_rel_idx := (tids_next_rel_idx pr)(tid := u16 idx_end)\<rparr>) s;
          r = reorder_of s1 p tid;
          walk = reorder_walk (win_sz_mask r) idx_start idx_end;
          (head_msdu, r') = release_loop (tl walk) (ro_slot r (hd walk)) (ro_put (hd walk) [] r);
          s2 = upd_reorder p tid (\<lambda>_. r') s1
      in ol_rx_reorder_timeout_remove p tid
           (hand_over (call_rx_opt_proc e p tid) p tid head_msdu s2))"

section \<open>Flush\<close>

datatype htt_rx_flush_action = htt_rx_flush_release | htt_rx_flush_discard

definition ol_rx_defrag_waitlist_remove :: "nat \<Rightarrow> nat \<Rightarrow> rx_pdev \<Rightarrow> rx_pdev" where
  "ol_rx_defrag_waitlist_remove p tid s =
     (if ro_on_waitlist (reorder_of s p tid) then
        (upd_reorder p tid (\<lambda>r. r\<lparr>ro_on_waitlist := False\<rparr>) s)
          \<lparr>defrag_waitlist := remove1 (p, tid) (defrag_waitlist s)\<rparr>
      else s)"

text \<open>Here the head is set by the first slot that is not empty.\<close>

fun flush_loop :: "nat list \<Rightarrow> rx_msdu list \<Rightarrow> ol_rx_reorder \<Rightarrow> rx_msdu list \<times> ol_rx_reorder" where
  "flush_loop [] chain r = (chain, r)"
| "flush_loop (i # is) chain r =
     (if ro_slot r i \<noteq> [] then flush_loop is (chain @ ro_slot r i) (ro_put i [] r)
      else flush_loop is chain r)"

definition flush_proc ::
  "rx_env \<Rightarrow> nat \<Rightarrow> nat \<Rightarrow> htt_rx_flush_action \<Rightarrow> rx_msdu list \<Rightarrow> rx_pdev \<Rightarrow> rx_pdev" where
  "flush_proc e p tid action ms s =
     (case action of htt_rx_flush_release \<Rightarrow> call_rx_opt_proc e p tid ms s
      | htt_rx_flush_discard \<Rightarrow> ol_rx_frames_free ms s)"

definition ol_rx_reorder_flush ::
  "rx_env \<Rightarrow> nat \<Rightarrow> nat \<Rightarrow> nat \<Rightarrow> nat \<Rightarrow> htt_rx_flush_action \<Rightarrow> rx_pdev \<Rightarrow> rx_pdev" where
  "ol_rx_reorder_flush e p tid idx_start idx_end action s =
     (let idx_end' = (if idx_end = 0xffff then idx_start else idx_end);
          rel_idx = (if idx_end = 0xffff then 0 else u16 idx_end);
          s1 = upd_peer p (\<lambda>pr. pr\<lparr>tids_next_rel_idx := (tids_next_rel_idx pr)(tid := rel_idx)\<rparr>) s;
          r = reorder_of s1 p tid;
          (head_msdu, r') = flush_loop (reorder_walk (win_sz_mask r) idx_start idx_end') [] r;
          s2 = ol_rx_defrag_waitlist_remove p tid (upd_reorder p tid (\<lambda>_. r') s1)
      in ol_rx_reorder_timeout_remove p tid
           (hand_over (flush_proc e p tid action) p tid head_msdu s2))"

section \<open>The first hole\<close>

text \<open>Two scans with the number of slots as fuel, from index 1 back to index 0.\<close>

fun skip_while :: "nat \<Rightarrow> bool \<Rightarrow> ol_rx_reorder \<Rightarrow> nat \<Rightarrow> nat" where
  "skip_while 0 full r idx = idx"
| "skip_while (Suc fuel) full r idx =
     (if idx \<noteq> 0 \<and> (ro_slot r idx \<noteq> []) = full
      then skip_while fuel full r ((idx + 1) AND win_sz_mask r) else idx)"

definition ol_rx_reorder_first_hole :: "nat \<Rightarrow> nat \<Rightarrow> rx_pdev \<Rightarrow> nat" where
  "ol_rx_reorder_first_hole p tid s =
     (let r = reorder_of s p tid;
          tmp1 = skip_while (Suc (win_sz_mask r)) False r (1 AND win_sz_mask r)
      in skip_while (Suc (win_sz_mask r)) True r tmp1)"

section \<open>The timer callback\<close>

text \<open>
  \<open>ol_rx_reorder_timeout\<close> for an access category. The traversal holds the next element, and the
  flush of a peer-TID cannot change the list (its own element is inactive by then), so it goes
  over the list as it was. \<open>0xffff\<close> as start index is passed on as it is.
\<close>

fun reorder_timeout_loop :: "rx_env \<Rightarrow> ol_tx_cat \<Rightarrow> (nat \<times> nat) list \<Rightarrow> rx_pdev \<Rightarrow> rx_pdev" where
  "reorder_timeout_loop e ac [] s = s"
| "reorder_timeout_loop e ac ((p, tid) # es) s =
     (if tm_timestamp_ms (reorder_of s p tid) > now_ms e then s
      else
        (let s1 = upd_reorder p tid (\<lambda>r. r\<lparr>tm_active := False\<rparr>) s;
             s2 = s1\<lparr>vt_list := (vt_list s1)(ac := remove1 (p, tid) (vt_list s1 ac))\<rparr>;
             idx_end = ol_rx_reorder_first_hole p tid s2
         in reorder_timeout_loop e ac es
              (ol_rx_reorder_flush e p tid 0xffff idx_end htt_rx_flush_release s2)))"

definition ol_rx_reorder_timeout :: "rx_env \<Rightarrow> ol_tx_cat \<Rightarrow> rx_pdev \<Rightarrow> rx_pdev" where
  "ol_rx_reorder_timeout e ac s =
     (let s1 = reorder_timeout_loop e ac (vt_list s ac) s
      in if vt_list s1 ac \<noteq> [] then ol_rx_reorder_timeout_start ac (now_ms e) s1 else s1)"

definition ol_rx_reorder_timeout_init :: "rx_pdev \<Rightarrow> rx_pdev" where
  "ol_rx_reorder_timeout_init s =
     (let wmm = [CAT_BE, CAT_BK, CAT_VI, CAT_VO] in
      s\<lparr>vt_list := (\<lambda>ac. if ac \<in> set wmm then [] else vt_list s ac),
        vt_timer := (\<lambda>ac. if ac \<in> set wmm then None else vt_timer s ac),
        vt_duration_ms := (vt_duration_ms s)(CAT_VO := 40, CAT_VI := 100, CAT_BE := 100, CAT_BK := 100)\<rparr>)"

fun ol_rx_reorder_timeout_peer_cleanup :: "nat \<Rightarrow> nat \<Rightarrow> rx_pdev \<Rightarrow> rx_pdev" where
  "ol_rx_reorder_timeout_peer_cleanup p 0 s = s"
| "ol_rx_reorder_timeout_peer_cleanup p (Suc n) s =
     (let tid = OL_TXRX_NUM_EXT_TIDS - Suc n;
          s1 = (if tm_active (reorder_of s p tid) then ol_rx_reorder_timeout_remove p tid s else s)
      in ol_rx_reorder_timeout_peer_cleanup p n s1)"

section \<open>Peers\<close>

text \<open>The loops over the TIDs count the TIDs that are left.\<close>

fun reorder_flush_tids :: "rx_env \<Rightarrow> nat \<Rightarrow> nat \<Rightarrow> rx_pdev \<Rightarrow> rx_pdev" where
  "reorder_flush_tids e p 0 s = s"
| "reorder_flush_tids e p (Suc n) s =
     reorder_flush_tids e p n
       (ol_rx_reorder_flush e p (OL_TXRX_NUM_EXT_TIDS - Suc n) 0 0 htt_rx_flush_discard s)"

definition ol_rx_reorder_peer_cleanup :: "rx_env \<Rightarrow> nat \<Rightarrow> rx_pdev \<Rightarrow> rx_pdev" where
  "ol_rx_reorder_peer_cleanup e p s =
     ol_rx_reorder_timeout_peer_cleanup p OL_TXRX_NUM_EXT_TIDS
       (reorder_flush_tids e p OL_TXRX_NUM_EXT_TIDS s)"

definition ol_rx_peer_init :: "nat \<Rightarrow> rx_pdev \<Rightarrow> rx_pdev" where
  "ol_rx_peer_init p s =
     upd_peer p (\<lambda>pr. pr\<lparr>
       tids_rx_reorder := (\<lambda>t. if t < OL_TXRX_NUM_EXT_TIDS then ol_rx_reorder_init t (tids_rx_reorder pr t)
                               else tids_rx_reorder pr t),
       tids_last_seq := (\<lambda>t. if t < OL_TXRX_NUM_EXT_TIDS then IEEE80211_SEQ_MAX else tids_last_seq pr t),
       tids_next_rel_idx := (\<lambda>t. if t < OL_TXRX_NUM_EXT_TIDS then INVALID_REORDER_INDEX
                                 else tids_next_rel_idx pr t),
       sec_ucast := htt_sec_type_none, sec_mcast := htt_sec_type_none,
       keyinstalled := False, fw_pn_check := False\<rparr>) s"

definition ol_rx_peer_cleanup :: "rx_env \<Rightarrow> nat \<Rightarrow> rx_pdev \<Rightarrow> rx_pdev" where
  "ol_rx_peer_cleanup e p s =
     upd_peer p (\<lambda>pr. pr\<lparr>reorder_history := None\<rparr>)
       (ol_rx_reorder_peer_cleanup e p (upd_peer p (\<lambda>pr. pr\<lparr>keyinstalled := False\<rparr>) s))"

section \<open>Block-ack agreements\<close>

definition g_log2ceil :: "nat list" where
  "g_log2ceil = [1, 1, 2] @ replicate 2 4 @ replicate 4 8 @ replicate 8 16 @ replicate 16 32 @ replicate 32 64"

definition ol_rx_addba_handler ::
  "nat \<Rightarrow> nat \<Rightarrow> nat \<Rightarrow> nat \<Rightarrow> bool \<Rightarrow> rx_pdev \<Rightarrow> rx_pdev" where
  "ol_rx_addba_handler peer_id tid win start_seq_num failed s =
     (if tid \<ge> OL_TXRX_NUM_EXT_TIDS then s
      else case peer_id_map s peer_id of
        None \<Rightarrow> s
      | Some p \<Rightarrow>
          if failed then s
          else
            (let round_pwr2_win_sz = g_log2ceil ! win in
             upd_peer p (\<lambda>pr. pr\<lparr>
               tids_last_seq := (tids_last_seq pr)(tid := IEEE80211_SEQ_MAX),
               tids_next_rel_idx := (tids_next_rel_idx pr)(tid := 0),
               tids_rx_reorder := (tids_rx_reorder pr)(tid := (tids_rx_reorder pr tid)\<lparr>
                 win_sz := win, ro_array := Some (replicate round_pwr2_win_sz []), ro_frag_rest := [],
                 win_sz_mask := round_pwr2_win_sz - 1, num_mpdus := 0\<rparr>)\<rparr>) s))"

definition ol_rx_delba_handler :: "nat \<Rightarrow> nat \<Rightarrow> rx_pdev \<Rightarrow> rx_pdev" where
  "ol_rx_delba_handler peer_id tid s =
     (if tid \<ge> OL_TXRX_NUM_EXT_TIDS then s
      else case peer_id_map s peer_id of
        None \<Rightarrow> s
      | Some p \<Rightarrow>
          upd_reorder p tid (ol_rx_reorder_init tid)
            (upd_peer p (\<lambda>pr. pr\<lparr>tids_next_rel_idx :=
                (tids_next_rel_idx pr)(tid := INVALID_REORDER_INDEX)\<rparr>) s))"

section \<open>Flush messages\<close>

text \<open>The fragments at a slot (\<open>ol_rx_reorder_flush_frag\<close>, \<open>ol_rx_defrag.c\<close>).\<close>

definition ol_rx_reorder_flush_frag :: "nat \<Rightarrow> nat \<Rightarrow> nat \<Rightarrow> rx_pdev \<Rightarrow> rx_pdev" where
  "ol_rx_reorder_flush_frag p tid seq_num s =
     (let r = reorder_of s p tid; sq = seq_num AND win_sz_mask r
      in if ro_slot r sq \<noteq> []
         then upd_reorder p tid (ro_put sq [])
                (ol_rx_frames_free (ro_slot r sq @ (if sq = 0 then ro_frag_rest r else [])) s)
         else s)"

text \<open>The size of a hole: \<open>int\<close> subtraction, masked.\<close>

definition ol_rx_reorder_detect_hole :: "nat \<Rightarrow> nat \<Rightarrow> nat \<Rightarrow> rx_pdev \<Rightarrow> rx_pdev" where
  "ol_rx_reorder_detect_hole p tid idx_start s =
     (let r = reorder_of s p tid;
          i = idx_start AND win_sz_mask r;
          next_rel = tids_next_rel_idx (peers s p) tid AND win_sz_mask r
      in if tid \<ge> OL_TXRX_NUM_EXT_TIDS \<or> tids_next_rel_idx (peers s p) tid = INVALID_REORDER_INDEX
            \<or> win_sz_mask r = 0 then s
         else if i \<noteq> next_rel
         then s\<lparr>rx_holes := rx_holes s @ [nat ((int i - int next_rel) AND int (win_sz_mask r))]\<rparr>
         else s)"

definition ol_rx_flush_handler ::
  "rx_env \<Rightarrow> nat \<Rightarrow> nat \<Rightarrow> nat \<Rightarrow> nat \<Rightarrow> htt_rx_flush_action \<Rightarrow> rx_pdev \<Rightarrow> rx_pdev" where
  "ol_rx_flush_handler e peer_id tid idx_start idx_end action s =
     (if tid \<ge> OL_TXRX_NUM_EXT_TIDS then s
      else case peer_id_map s peer_id of
        None \<Rightarrow> s
      | Some p \<Rightarrow>
          (let r = reorder_of s p tid; slot = ro_slot r (idx_start AND win_sz_mask r) in
           if slot \<noteq> [] \<and> htt_rx_msdu_is_frag s (m_desc (hd slot))
           then ol_rx_reorder_flush_frag p tid idx_start s
           else
             (let s1 = (if action = htt_rx_flush_release
                        then ol_rx_reorder_detect_hole p tid idx_start s else s);
                  s2 = ol_rx_reorder_flush e p tid idx_start idx_end action s1
              in ol_rx_reorder_timeout_update e (Some p) tid s2)))"

section \<open>PN indications\<close>

text \<open>
  The target has checked the packet numbers and names the slots that failed, in the order of the
  walk. The loop carries the names that are left.
\<close>

fun pn_ind_loop ::
  "nat list \<Rightarrow> nat list \<Rightarrow> rx_msdu list \<Rightarrow> ol_rx_reorder \<Rightarrow> rx_pdev \<Rightarrow>
   rx_msdu list \<times> ol_rx_reorder \<times> rx_pdev" where
  "pn_ind_loop [] ies chain r s = (chain, r, s)"
| "pn_ind_loop (i # is) ies chain r s =
     (if ro_slot r i \<noteq> [] then
        (case ies of
           [] \<Rightarrow> pn_ind_loop is [] (chain @ ro_slot r i) (ro_put i [] r) s
         | ie # ies' \<Rightarrow>
             if i = ie then pn_ind_loop is ies' chain (ro_put i [] r) (ol_rx_frames_free (ro_slot r i) s)
             else pn_ind_loop is ies (chain @ ro_slot r i) (ro_put i [] r) s)
      else pn_ind_loop is ies chain r s)"

definition find_rx_peer :: "nat \<Rightarrow> rx_pdev \<Rightarrow> nat option" where
  "find_rx_peer peer_id s = (case peer_id_map s peer_id of Some p \<Rightarrow> Some p | None \<Rightarrow> ocb_peer s)"

definition ol_rx_pn_ind_handler ::
  "rx_env \<Rightarrow> nat \<Rightarrow> nat \<Rightarrow> nat \<Rightarrow> nat \<Rightarrow> nat list \<Rightarrow> rx_pdev \<Rightarrow> rx_pdev" where
  "ol_rx_pn_ind_handler e peer_id tid seq_num_start seq_num_end pn_ie s =
     (if tid \<ge> OL_TXRX_NUM_EXT_TIDS then s
      else case find_rx_peer peer_id s of
        None \<Rightarrow> s
      | Some p \<Rightarrow>
          (let s1 = upd_peer p (\<lambda>pr. pr\<lparr>fw_pn_check := True\<rparr>) s;
               r = reorder_of s1 p tid;
               (head_msdu, r', s2) =
                 pn_ind_loop (reorder_walk (win_sz_mask r) seq_num_start seq_num_end) pn_ie [] r s1;
               s3 = upd_reorder p tid (\<lambda>_. r') s2
           in if head_msdu \<noteq> [] then call_rx_opt_proc e p tid head_msdu s3 else s3))"

end
