(* ===== verification/RxReorderInv.thy ===== *)
theory RxReorderInv
  imports RxReorder
begin

text \<open>
  Facts about the reorder arrays: the walk in closed form for the window sizes the code sets up,
  what the loops do to the slots, where the frames go, and the theorems on release and flush.
\<close>

section \<open>The walk\<close>

lemma and_mask_mod: "x AND (2 ^ k - 1) = x mod (2 ^ k :: nat)"
  by (metis take_bit_eq_mask mask_eq_exp_minus_1 take_bit_eq_mod)

lemma wrap_dist_Suc:
  fixes n :: nat
  assumes "i < n" and "e < n" and "i \<noteq> e"
  shows "(e + n - i) mod n = Suc ((e + n - (i + 1) mod n) mod n)"
proof (cases "i < e")
  case True
  with assms have "(i + 1) mod n = i + 1" by simp
  moreover have "(e + n - i) mod n = e - i" using assms True
    by (metis Nat.add_diff_assoc2 less_imp_diff_less less_or_eq_imp_le mod_add_self2 mod_less)
  moreover have "(e + n - (i + 1)) mod n = e - (i + 1)" using assms True
    by (metis Nat.add_diff_assoc2 Suc_eq_plus1 Suc_leI less_imp_diff_less mod_add_self2 mod_less)
  ultimately show ?thesis using True by simp
next
  case False
  with assms have gt: "e < i" by simp
  then have 1: "(e + n - i) mod n = e + n - i" using assms by (intro mod_less) linarith
  show ?thesis
  proof (cases "i + 1 = n")
    case True
    with 1 assms show ?thesis by simp
  next
    case False
    with assms have "(i + 1) mod n = i + 1" by simp
    moreover have "(e + n - (i + 1)) mod n = e + n - (i + 1)"
      using assms gt by (intro mod_less) linarith
    ultimately show ?thesis using 1 assms gt by simp
  qed
qed

lemma reorder_range_eq:
  fixes k :: nat
  defines "n \<equiv> 2 ^ k"
  assumes "i < n" and "e < n" and "(e + n - i) mod n \<le> fuel"
  shows "reorder_range fuel (n - 1) i e = map (\<lambda>j. (i + j) mod n) [0..<(e + n - i) mod n]"
  using assms(2-4)
proof (induction fuel arbitrary: i)
  case 0
  then show ?case by simp
next
  case (Suc fuel)
  show ?case
  proof (cases "i = e")
    case True
    with Suc.prems show ?thesis by simp
  next
    case False
    let ?i = "(i + 1) mod n"
    note d = wrap_dist_Suc [OF Suc.prems(1,2) False]
    have nz: "0 < n" using Suc.prems by linarith
    have "reorder_range fuel (n - 1) ?i e = map (\<lambda>j. (?i + j) mod n) [0..<(e + n - ?i) mod n]"
      using Suc.prems d nz by (intro Suc.IH) simp_all
    moreover have "(?i + j) mod n = (i + Suc j) mod n" for j by (simp add: mod_simps)
    moreover have "(i + 1) AND (n - 1) = ?i" unfolding n_def by (rule and_mask_mod)
    ultimately show ?thesis
      using False Suc.prems(1) by (simp add: d upt_conv_Cons map_Suc_upt [symmetric] del: upt_Suc)
  qed
qed

text \<open>The number of slots a walk visits, and the walk.\<close>

definition walk_len :: "nat \<Rightarrow> nat \<Rightarrow> nat \<Rightarrow> nat" where
  "walk_len n a b = (if a mod n = b mod n then n else (b mod n + n - a mod n) mod n)"

lemma map_mod_Suc: "map (\<lambda>j. (((a mod n + 1) mod n) + j) mod n) [0..<d] =
    map (\<lambda>j. (a + j) mod n) [1..<Suc d]" for n :: nat
proof -
  have "((a mod n + 1) mod n + j) mod n = (a + Suc j) mod n" for j by (simp add: mod_simps)
  then have "map (\<lambda>j. (((a mod n + 1) mod n) + j) mod n) [0..<d] = map (\<lambda>j. (a + Suc j) mod n) [0..<d]"
    by simp
  also have "\<dots> = map (\<lambda>j. (a + j) mod n) (map Suc [0..<d])" by simp
  also have "map Suc [0..<d] = [1..<Suc d]" by (simp only: map_Suc_upt One_nat_def)
  finally show ?thesis .
qed

lemma walk_len_step:
  assumes nz: "0 < n"
  shows "walk_len n a b = Suc ((b mod n + n - (a mod n + 1) mod n) mod n)"
proof (cases "a mod n = b mod n")
  case False
  with nz show ?thesis using wrap_dist_Suc [of "a mod n" n "b mod n"] by (simp add: walk_len_def)
next
  case True
  have "(a mod n + n - (a mod n + 1) mod n) mod n = n - 1"
  proof (cases "a mod n + 1 = n")
    case True
    then show ?thesis by simp
  next
    case False
    then have "a mod n + 1 < n" using nz mod_less_divisor [OF nz, of a] by linarith
    then show ?thesis by simp
  qed
  with True nz show ?thesis by (simp add: walk_len_def)
qed

lemma reorder_walk_eq:
  "reorder_walk (2 ^ k - 1) a b = map (\<lambda>j. (a + j) mod 2 ^ k) [0..<walk_len (2 ^ k) a b]"
proof -
  define n :: nat where "n = 2 ^ k"
  have nz: "0 < n" by (simp add: n_def)
  define i where "i = (a mod n + 1) mod n"
  define d where "d = (b mod n + n - i) mod n"
  have bd: "i < n" "b mod n < n" "d \<le> Suc (n - 1)"
    using nz by (simp_all add: i_def d_def order_less_imp_le)
  have "reorder_range (Suc (n - 1)) (n - 1) i (b mod n) = map (\<lambda>j. (i + j) mod n) [0..<d]"
    using reorder_range_eq [of i k "b mod n" "Suc (n - 1)", folded n_def, folded d_def] bd by simp
  also have "\<dots> = map (\<lambda>j. (a + j) mod n) [1..<Suc d]"
    unfolding i_def by (rule map_mod_Suc)
  finally have "reorder_walk (n - 1) a b = (a mod n) # map (\<lambda>j. (a + j) mod n) [1..<Suc d]"
    unfolding reorder_walk_def n_def and_mask_mod i_def by simp
  also have "\<dots> = map (\<lambda>j. (a + j) mod n) [0..<Suc d]"
    by (simp add: upt_conv_Cons del: upt_Suc)
  finally have "reorder_walk (n - 1) a b = map (\<lambda>j. (a + j) mod n) [0..<Suc d]" .
  moreover have "walk_len n a b = Suc d" unfolding i_def d_def by (rule walk_len_step [OF nz])
  ultimately show ?thesis by (simp only: n_def)
qed

lemma walk_len_bounds: "0 < n \<Longrightarrow> 0 < walk_len n a b \<and> walk_len n a b \<le> n"
proof -
  assume n: "0 < n"
  have "(b mod n + n - a mod n) mod n \<noteq> 0" if "a mod n \<noteq> b mod n"
    using wrap_dist_Suc [of "a mod n" n "b mod n"] that n by simp
  with n show ?thesis by (simp add: walk_len_def order_less_imp_le)
qed

lemma mod_shift_inj:
  fixes n :: nat
  assumes "x < n" and "y < n" and "(a + x) mod n = (a + y) mod n"
  shows "x = y"
proof (cases "x \<le> y")
  case True
  then have "n dvd (a + y) - (a + x)"
    using assms(3) by (subst mod_eq_dvd_iff_nat [symmetric]) simp_all
  then show ?thesis using True assms by (auto dest: dvd_imp_le)
next
  case False
  then have "n dvd (a + x) - (a + y)"
    using assms(3) by (subst mod_eq_dvd_iff_nat [symmetric]) simp_all
  then show ?thesis using False assms by (auto dest: dvd_imp_le)
qed

lemma mod_shift_eq:
  fixes n :: nat
  assumes "j < n"
  shows "(a + j) mod n = (if a mod n + j < n then a mod n + j else a mod n + j - n)"
proof -
  define c where "c = a mod n"
  have c: "c < n" using assms by (simp add: c_def)
  have eq: "(a + j) mod n = (c + j) mod n" unfolding c_def by (rule mod_add_left_eq [symmetric])
  show ?thesis
  proof (cases "c + j < n")
    case True
    then show ?thesis by (simp add: eq c_def [symmetric])
  next
    case False
    then have "(c + j) mod n = (c + j - n) mod n" by (simp add: le_mod_geq)
    also have "\<dots> = c + j - n" using c assms by (intro mod_less) linarith
    finally show ?thesis using False by (simp add: eq c_def [symmetric])
  qed
qed

lemma walk_len_shift:
  assumes "0 < m" and "m \<le> n"
  shows "walk_len n a (a + m) = m"
proof (cases "m = n")
  case True
  then show ?thesis by (simp add: walk_len_def)
next
  case False
  with assms have m: "m < n" by simp
  define c where "c = a mod n"
  have c: "c < n" using m by (simp add: c_def)
  have "(a + m) mod n \<noteq> c \<and> ((a + m) mod n + n - c) mod n = m"
  proof (cases "c + m < n")
    case True
    then have "(a + m) mod n = c + m" using mod_shift_eq [OF m, of a] by (simp add: c_def)
    then show ?thesis using m assms(1) by simp
  next
    case False
    then have "(a + m) mod n = c + m - n" using mod_shift_eq [OF m, of a] by (simp add: c_def)
    moreover have "c + m - n + n - c = m" using False by linarith
    ultimately show ?thesis using m c False by simp
  qed
  then show ?thesis by (simp add: walk_len_def c_def)
qed

lemma reorder_walk_distinct: "distinct (reorder_walk (2 ^ k - 1) a b)"
proof -
  have "inj_on (\<lambda>j. (a + j) mod 2 ^ k) {0..<walk_len (2 ^ k) a b}"
  proof (rule inj_onI)
    fix x y assume xy: "x \<in> {0..<walk_len (2 ^ k) a b}" "y \<in> {0..<walk_len (2 ^ k) a b}"
      and eq: "(a + x) mod 2 ^ k = (a + y) mod 2 ^ k"
    have "x < 2 ^ k" "y < 2 ^ k" using xy walk_len_bounds [of "2 ^ k" a b] by simp_all
    then show "x = y" using eq by (rule mod_shift_inj)
  qed
  then show ?thesis unfolding reorder_walk_eq by (simp add: distinct_map)
qed

lemma reorder_walk_bound: "i \<in> set (reorder_walk (2 ^ k - 1) a b) \<Longrightarrow> i < 2 ^ k"
  unfolding reorder_walk_eq by auto

text \<open>More fuel never changes a walk: the fuel chosen is enough for every window of the code.\<close>

lemma reorder_range_fuel:
  assumes "i < 2 ^ k" and "e < 2 ^ k"
  shows "reorder_range (2 ^ k + extra) (2 ^ k - 1) i e = reorder_range (2 ^ k) (2 ^ k - 1) i e"
proof -
  have "(e + 2 ^ k - i) mod 2 ^ k \<le> 2 ^ k" by (simp add: order_less_imp_le)
  then have "(e + 2 ^ k - i) mod 2 ^ k \<le> 2 ^ k + extra" by linarith
  with assms \<open>_ \<le> 2 ^ k\<close> show ?thesis
    using reorder_range_eq [of i k e "2 ^ k + extra"] reorder_range_eq [of i k e "2 ^ k"]
    by simp
qed

section \<open>Well-formed reorder state\<close>

text \<open>
  The array has one slot more than the mask, a power of two, and no fragments hang behind an
  empty slot.
\<close>

definition ro_ok :: "ol_rx_reorder \<Rightarrow> bool" where
  "ro_ok r \<longleftrightarrow> length (ro_slots r) = Suc (win_sz_mask r) \<and> (\<exists>k. Suc (win_sz_mask r) = 2 ^ k) \<and>
     (ro_slot r 0 = [] \<longrightarrow> ro_frag_rest r = [])"

lemma ro_okE:
  assumes "ro_ok r"
  obtains k where "win_sz_mask r = 2 ^ k - 1" and "length (ro_slots r) = 2 ^ k"
proof -
  obtain k where "Suc (win_sz_mask r) = 2 ^ k" and "length (ro_slots r) = Suc (win_sz_mask r)"
    using assms unfolding ro_ok_def by blast
  then show ?thesis by (intro that [of k]) linarith+
qed

lemma ro_put_slots: "ro_slots (ro_put i v r) = (ro_slots r)[i := v]"
  by (cases i) (auto simp: ro_put_def ro_slots_def split: option.split)

lemma ro_put_rest: "ro_frag_rest (ro_put i v r) = (if i = 0 then [] else ro_frag_rest r)"
  by (cases "ro_array r") (simp_all add: ro_put_def)

lemma ro_put_fields [simp]:
  "win_sz (ro_put i v r) = win_sz r" "win_sz_mask (ro_put i v r) = win_sz_mask r"
  "num_mpdus (ro_put i v r) = num_mpdus r" "tm_active (ro_put i v r) = tm_active r"
  "ro_on_waitlist (ro_put i v r) = ro_on_waitlist r"
  by (simp_all add: ro_put_def split: option.split)

lemma ro_slot_put:
  "i < length (ro_slots r) \<Longrightarrow> ro_slot (ro_put i v r) j = (if i = j then v else ro_slot r j)"
  by (simp add: ro_slot_def ro_put_slots nth_list_update)

lemma ro_put_ok: "ro_ok r \<Longrightarrow> i < length (ro_slots r) \<Longrightarrow> ro_ok (ro_put i v r)"
  by (auto simp: ro_ok_def ro_put_slots ro_put_rest ro_slot_put)

section \<open>The loops\<close>

text \<open>Emptying slots.\<close>

definition ro_clear :: "nat list \<Rightarrow> ol_rx_reorder \<Rightarrow> ol_rx_reorder" where
  "ro_clear is r = fold (\<lambda>i. ro_put i []) is r"

lemma ro_clear_simps [simp]: "ro_clear [] r = r" "ro_clear (i # is) r = ro_clear is (ro_put i [] r)"
  by (simp_all add: ro_clear_def)

lemma ro_clear_fields [simp]:
  "win_sz_mask (ro_clear is r) = win_sz_mask r" "num_mpdus (ro_clear is r) = num_mpdus r"
  "tm_active (ro_clear is r) = tm_active r" "ro_on_waitlist (ro_clear is r) = ro_on_waitlist r"
  "length (ro_slots (ro_clear is r)) = length (ro_slots r)"
  by (induction "is" arbitrary: r) (simp_all add: ro_put_slots)

lemma ro_slot_clear:
  assumes "\<And>i. i \<in> set is \<Longrightarrow> i < length (ro_slots r)"
  shows "ro_slot (ro_clear is r) j = (if j \<in> set is then [] else ro_slot r j)"
  using assms
proof (induction "is" arbitrary: r)
  case (Cons i "is")
  have "ro_slot (ro_clear is (ro_put i [] r)) j = (if j \<in> set is then [] else ro_slot (ro_put i [] r) j)"
    using Cons.prems by (intro Cons.IH) (simp add: ro_put_slots)
  then show ?case using Cons.prems by (simp add: ro_slot_put)
qed simp

lemma ro_clear_ok:
  "ro_ok r \<Longrightarrow> (\<And>i. i \<in> set is \<Longrightarrow> i < length (ro_slots r)) \<Longrightarrow> ro_ok (ro_clear is r)"
  by (induction "is" arbitrary: r) (simp_all add: ro_put_ok ro_put_slots)

lemma ro_clear_rest: "ro_frag_rest r = [] \<Longrightarrow> ro_frag_rest (ro_clear is r) = []"
  by (induction "is" arbitrary: r) (simp_all add: ro_put_rest)

lemma ro_put_same:
  assumes "i < length (ro_slots r)" and "i = 0 \<Longrightarrow> ro_frag_rest r = []"
  shows "ro_put i (ro_slot r i) r = r"
  using assms by (auto simp: ro_put_def ro_slot_def ro_slots_def split: option.splits)

lemma flush_loop_eq:
  assumes "distinct is" and "\<And>i. i \<in> set is \<Longrightarrow> i < length (ro_slots r)"
    and "ro_slot r 0 = [] \<Longrightarrow> ro_frag_rest r = []"
  shows "flush_loop is chain r = (chain @ concat (map (ro_slot r) is), ro_clear is r)"
  using assms
proof (induction "is" arbitrary: chain r)
  case (Cons i "is")
  have len: "i < length (ro_slots r)" using Cons.prems by simp
  have IH: "flush_loop is c (ro_put i [] r) = (c @ concat (map (ro_slot r) is), ro_clear is (ro_put i [] r))" for c
  proof -
    have m: "map (ro_slot (ro_put i [] r)) is = map (ro_slot r) is"
      using Cons.prems(1) len by (auto simp: ro_slot_put)
    have "ro_slot (ro_put i [] r) 0 = [] \<Longrightarrow> ro_frag_rest (ro_put i [] r) = []"
      using Cons.prems(3) len by (simp add: ro_put_rest ro_slot_put split: if_splits)
    then show ?thesis using Cons.IH [of "ro_put i [] r" c, unfolded m] Cons.prems(1,2)
      by (simp add: ro_put_slots)
  qed
  show ?case
  proof (cases "ro_slot r i = []")
    case False
    then show ?thesis by (simp add: IH)
  next
    case True
    then have "ro_put i [] r = r" using ro_put_same [OF len] Cons.prems(3) by auto
    then show ?thesis using IH True by simp
  qed
qed simp

lemma release_loop_eq:
  assumes "distinct is" and "\<And>i. i \<in> set is \<Longrightarrow> i < length (ro_slots r)"
  shows "release_loop is chain r =
    (if chain = [] then [] else chain @ concat (map (ro_slot r) is), ro_clear is r)"
  using assms
proof (induction "is" arbitrary: chain r)
  case (Cons i "is")
  have len: "i < length (ro_slots r)" using Cons.prems by simp
  have m: "map (ro_slot (ro_put i [] r)) is = map (ro_slot r) is"
    using Cons.prems(1) len by (auto simp: ro_slot_put)
  show ?case using Cons.IH [of "ro_put i [] r", unfolded m] Cons.prems by (simp add: ro_put_slots)
qed simp

section \<open>Release and flush in closed form\<close>

definition reorder_frames :: "ol_rx_reorder \<Rightarrow> nat list \<Rightarrow> rx_msdu list" where
  "reorder_frames r is = concat (map (ro_slot r) is)"

text \<open>The walk of a well-formed array stays inside it and visits no slot twice.\<close>

lemma ro_walk_ok:
  assumes "ro_ok r"
  shows "distinct (reorder_walk (win_sz_mask r) a b)"
    and "i \<in> set (reorder_walk (win_sz_mask r) a b) \<Longrightarrow> i < length (ro_slots r)"
proof -
  obtain k where k: "win_sz_mask r = 2 ^ k - 1" "length (ro_slots r) = 2 ^ k"
    using assms by (rule ro_okE)
  show "distinct (reorder_walk (win_sz_mask r) a b)"
    unfolding k(1) by (rule reorder_walk_distinct)
  show "i < length (ro_slots r)" if "i \<in> set (reorder_walk (win_sz_mask r) a b)"
    using that unfolding k by (rule reorder_walk_bound)
qed

lemma ro_flush_loop:
  assumes "ro_ok r"
  shows "flush_loop (reorder_walk (win_sz_mask r) a b) [] r =
    (reorder_frames r (reorder_walk (win_sz_mask r) a b), ro_clear (reorder_walk (win_sz_mask r) a b) r)"
  using flush_loop_eq [of "reorder_walk (win_sz_mask r) a b" r "[]"] ro_walk_ok [OF assms] assms
  by (simp add: reorder_frames_def ro_ok_def)

lemma ol_rx_reorder_flush_eq:
  fixes s :: rx_pdev and p tid idx_start idx_end :: nat
  defines "r \<equiv> reorder_of s p tid"
  assumes ok: "ro_ok r"
  defines "walk \<equiv> reorder_walk (win_sz_mask r) idx_start (if idx_end = 0xffff then idx_start else idx_end)"
  defines "rel \<equiv> (if idx_end = 0xffff then 0 else u16 idx_end)"
  shows "ol_rx_reorder_flush e p tid idx_start idx_end action s =
    ol_rx_reorder_timeout_remove p tid
      (hand_over (flush_proc e p tid action) p tid (reorder_frames r walk)
        (ol_rx_defrag_waitlist_remove p tid (upd_reorder p tid (\<lambda>_. ro_clear walk r)
          (upd_peer p (\<lambda>pr. pr\<lparr>tids_next_rel_idx := (tids_next_rel_idx pr)(tid := rel)\<rparr>) s))))"
proof -
  have r: "reorder_of (upd_peer p (\<lambda>pr. pr\<lparr>tids_next_rel_idx := (tids_next_rel_idx pr)(tid := rel)\<rparr>) s) p tid = r"
    by (simp add: r_def)
  have fl: "flush_loop walk [] r = (reorder_frames r walk, ro_clear walk r)"
    unfolding walk_def by (rule ro_flush_loop [OF ok])
  show ?thesis
    unfolding ol_rx_reorder_flush_def Let_def rel_def [symmetric] r walk_def [symmetric] fl prod.case ..
qed

text \<open>Release: the same, except that an empty first slot leaves nothing to hand over.\<close>

lemma ol_rx_reorder_release_eq:
  fixes s :: rx_pdev and p tid idx_start idx_end :: nat
  defines "r \<equiv> reorder_of s p tid"
  assumes ok: "ro_ok r"
  defines "walk \<equiv> reorder_walk (win_sz_mask r) idx_start idx_end"
  shows "ol_rx_reorder_release e p tid idx_start idx_end s =
    ol_rx_reorder_timeout_remove p tid
      (hand_over (call_rx_opt_proc e p tid) p tid
         (if ro_slot r (hd walk) = [] then [] else reorder_frames r walk)
        (upd_reorder p tid (\<lambda>_. ro_clear walk r)
          (upd_peer p (\<lambda>pr. pr\<lparr>tids_next_rel_idx := (tids_next_rel_idx pr)(tid := u16 idx_end)\<rparr>) s)))"
proof -
  have r: "reorder_of (upd_peer p (\<lambda>pr. pr\<lparr>tids_next_rel_idx := (tids_next_rel_idx pr)(tid := u16 idx_end)\<rparr>) s) p tid = r"
    by (simp add: r_def)
  obtain i w where w: "walk = i # w" by (simp add: walk_def reorder_walk_def)
  have i: "i < length (ro_slots r)" "i \<notin> set w" "distinct w"
    and "\<And>j. j \<in> set w \<Longrightarrow> j < length (ro_slots (ro_put i [] r))"
    using ro_walk_ok(1) [OF ok, of idx_start idx_end, folded walk_def]
      ro_walk_ok(2) [OF ok, where a = idx_start and b = idx_end, folded walk_def]
    by (simp_all add: w ro_put_slots)
  then have "release_loop w (ro_slot r i) (ro_put i [] r) = (let c = ro_slot r i in
      (if c = [] then [] else c @ concat (map (ro_slot (ro_put i [] r)) w), ro_clear w (ro_put i [] r)))"
    unfolding Let_def by (intro release_loop_eq)
  moreover have "map (ro_slot (ro_put i [] r)) w = map (ro_slot r) w"
    using i by (auto simp: ro_slot_put)
  ultimately have "release_loop w (ro_slot r i) (ro_put i [] r) =
      (if ro_slot r i = [] then [] else ro_slot r i @ concat (map (ro_slot r) w), ro_clear w (ro_put i [] r))"
    by (simp only: Let_def)
  then have rl: "release_loop (tl walk) (ro_slot r (hd walk)) (ro_put (hd walk) [] r) =
      (if ro_slot r (hd walk) = [] then [] else reorder_frames r walk, ro_clear walk r)"
    by (simp add: w reorder_frames_def)
  show ?thesis
    unfolding ol_rx_reorder_release_def Let_def r walk_def [symmetric] rl prod.case ..
qed

section \<open>Where the frames go\<close>

definition held :: "nat \<Rightarrow> nat \<Rightarrow> rx_pdev \<Rightarrow> rx_msdu multiset" where
  "held p tid s = mset (concat (ro_slots (reorder_of s p tid))) + mset (ro_frag_rest (reorder_of s p tid))"

lemma mset_concat_update:
  "i < length xs \<Longrightarrow> mset (concat (xs[i := []])) + mset (xs ! i) = mset (concat xs)"
proof (induction xs arbitrary: i)
  case (Cons x xs)
  then show ?case by (cases i) (auto simp: add.commute add.left_commute)
qed simp

lemma ro_clear_held:
  assumes "distinct is" and "\<And>i. i \<in> set is \<Longrightarrow> i < length (ro_slots r)"
  shows "mset (concat (ro_slots (ro_clear is r))) + mset (reorder_frames r is) = mset (concat (ro_slots r))"
  using assms
proof (induction "is" arbitrary: r)
  case (Cons i "is")
  have len: "i < length (ro_slots r)" using Cons.prems by simp
  have m: "map (ro_slot (ro_put i [] r)) is = map (ro_slot r) is"
    using Cons.prems(1) len by (auto simp: ro_slot_put)
  have "mset (concat (ro_slots (ro_clear is (ro_put i [] r)))) + mset (reorder_frames r is) =
      mset (concat (ro_slots (ro_put i [] r)))"
    using Cons.IH [of "ro_put i [] r"] Cons.prems
    by (simp add: ro_put_slots reorder_frames_def m)
  moreover have "mset (concat (ro_slots (ro_put i [] r))) + mset (ro_slot r i) = mset (concat (ro_slots r))"
    using mset_concat_update [OF len] by (simp add: ro_put_slots ro_slot_def)
  ultimately show ?case by (simp add: reorder_frames_def ac_simps)
qed (simp add: reorder_frames_def)

lemma ro_slots_upd [simp]:
  "ro_slots (r\<lparr>tm_active := b\<rparr>) = ro_slots r" "ro_slots (r\<lparr>ro_on_waitlist := b\<rparr>) = ro_slots r"
  "ro_slots (r\<lparr>tm_timestamp_ms := n\<rparr>) = ro_slots r" "ro_slots (r\<lparr>defrag_timeout_ms := n\<rparr>) = ro_slots r"
  by (cases "ro_array r"; simp add: ro_slots_def)+

lemma timeout_remove_keeps:
  "rx_logs (ol_rx_reorder_timeout_remove p tid s) = rx_logs s"
  "ro_slots (reorder_of (ol_rx_reorder_timeout_remove p tid s) q t) = ro_slots (reorder_of s q t)"
  "ro_frag_rest (reorder_of (ol_rx_reorder_timeout_remove p tid s) q t) = ro_frag_rest (reorder_of s q t)"
  "win_sz_mask (reorder_of (ol_rx_reorder_timeout_remove p tid s) q t) = win_sz_mask (reorder_of s q t)"
  by (simp_all add: ol_rx_reorder_timeout_remove_def Let_def rx_logs_def osif_frames_def)

lemma waitlist_remove_keeps:
  "rx_logs (ol_rx_defrag_waitlist_remove p tid s) = rx_logs s"
  "ro_slots (reorder_of (ol_rx_defrag_waitlist_remove p tid s) q t) = ro_slots (reorder_of s q t)"
  "ro_frag_rest (reorder_of (ol_rx_defrag_waitlist_remove p tid s) q t) = ro_frag_rest (reorder_of s q t)"
  "win_sz_mask (reorder_of (ol_rx_defrag_waitlist_remove p tid s) q t) = win_sz_mask (reorder_of s q t)"
  "rx_freed (ol_rx_defrag_waitlist_remove p tid s) = rx_freed s"
  "rx_osif (ol_rx_defrag_waitlist_remove p tid s) = rx_osif s"
  "rx_fwd (ol_rx_defrag_waitlist_remove p tid s) = rx_fwd s"
  by (simp_all add: ol_rx_defrag_waitlist_remove_def rx_logs_def osif_frames_def)

lemma seq_num_cached_keeps [simp]:
  "peers (seq_num_cached s d) = peers s" "rx_logs (seq_num_cached s d) = rx_logs s"
  "rx_freed (seq_num_cached s d) = rx_freed s" "rx_osif (seq_num_cached s d) = rx_osif s"
  "rx_fwd (seq_num_cached s d) = rx_fwd s" "vt_list (seq_num_cached s d) = vt_list s"
  "vt_timer (seq_num_cached s d) = vt_timer s" "defrag_waitlist (seq_num_cached s d) = defrag_waitlist s"
  "peer_id_map (seq_num_cached s d) = peer_id_map s"
  by (simp_all add: seq_num_cached_def rx_logs_def osif_frames_def)

lemma hand_over_reorder:
  assumes "\<And>t. rx_core (f ms t) = rx_core t"
  shows "reorder_of (hand_over f p tid ms s) q = reorder_of s q"
    and "reorder_history (peers (hand_over f p tid ms s) q) = reorder_history (peers s q)"
    and "vt_list (hand_over f p tid ms s) = vt_list s"
    and "vt_timer (hand_over f p tid ms s) = vt_timer s"
    and "defrag_waitlist (hand_over f p tid ms s) = defrag_waitlist s"
  by (simp_all add: hand_over_def Let_def rx_core_fields [OF assms])

lemma hand_over_logs:
  assumes "\<And>t. rx_logs t + mset ms \<subseteq># rx_logs (f ms t)"
  shows "rx_logs s + mset ms \<subseteq># rx_logs (hand_over f p tid ms s)"
proof (cases "ms = []")
  case False
  let ?d = "m_desc (hd ms)"
  let ?t = "upd_peer p (\<lambda>pr. pr\<lparr>tids_last_seq :=
      (tids_last_seq pr)(tid := htt_rx_mpdu_desc_seq_num s ?d)\<rparr>) (seq_num_cached s ?d)"
  have "rx_logs ?t = rx_logs s" by (simp only: rx_logs_upd_peers seq_num_cached_keeps)
  moreover have "hand_over f p tid ms s = f ms ?t" using False by (simp add: hand_over_def Let_def)
  ultimately show ?thesis using assms [of ?t] by simp
qed (simp add: hand_over_def)

lemma flush_proc_spec:
  "rx_core (flush_proc e p tid action ms s) = rx_core s"
  "tx_returns_own e \<Longrightarrow> rx_logs s + mset ms \<subseteq># rx_logs (flush_proc e p tid action ms s)"
  by (simp_all add: flush_proc_def call_rx_opt_proc_spec split: htt_rx_flush_action.split)

text \<open>What the reorder code itself does, apart from the hand-over, is invisible behind it.\<close>

lemma view_keeps [simp]:
  "rx_view (ol_rx_reorder_timeout_remove p tid s) = rx_view s"
  "rx_view (ol_rx_defrag_waitlist_remove p tid s) = rx_view s"
  "rx_view (ol_rx_reorder_update_history p ty tid a b i s) = rx_view s"
  "rx_view (ol_rx_reorder_store p tid idx ms s) = rx_view s"
proof -
  show "rx_view (ol_rx_reorder_timeout_remove p tid s) = rx_view s"
    by (simp add: ol_rx_reorder_timeout_remove_def Let_def)
  show "rx_view (ol_rx_defrag_waitlist_remove p tid s) = rx_view s"
    by (simp add: ol_rx_defrag_waitlist_remove_def)
  show "rx_view (ol_rx_reorder_store p tid idx ms s) = rx_view s"
    by (simp add: ol_rx_reorder_store_def)
  show "rx_view (ol_rx_reorder_update_history p ty tid a b i s) = rx_view s"
    by (cases "reorder_history (peers s p)") (simp_all add: ol_rx_reorder_update_history_def Let_def)
qed

lemma view_hand_over:
  "rx_view (hand_over (call_rx_opt_proc e p tid) p tid ms s) =
     (if ms = [] then rx_view s else rx_view (call_rx_opt_proc e p tid ms s))"
proof (cases "ms = []")
  case False
  let ?d = "m_desc (hd ms)"
  let ?t = "upd_peer p (\<lambda>pr. pr\<lparr>tids_last_seq :=
      (tids_last_seq pr)(tid := htt_rx_mpdu_desc_seq_num s ?d)\<rparr>) (seq_num_cached s ?d)"
  have "rx_view ?t = rx_view s" by simp
  then have "rx_view (call_rx_opt_proc e p tid ms ?t) = rx_view (call_rx_opt_proc e p tid ms s)" by (rule call_cong)
  then show ?thesis using False by (simp add: hand_over_def Let_def)
qed (simp add: hand_over_def)

text \<open>The slots a window range covers, and the frames in them, from the window's start on.\<close>

definition window_frames :: "ol_rx_reorder \<Rightarrow> nat \<Rightarrow> nat \<Rightarrow> rx_msdu list" where
  "window_frames r a b =
     (let n = Suc (win_sz_mask r)
      in concat (map (\<lambda>j. ro_slot r ((a + j) mod n)) [0..<walk_len n a b]))"

definition in_window :: "ol_rx_reorder \<Rightarrow> nat \<Rightarrow> nat \<Rightarrow> nat \<Rightarrow> bool" where
  "in_window r a b i = (let n = Suc (win_sz_mask r) in (i + n - a mod n) mod n < walk_len n a b)"

lemma walk_frames:
  assumes "ro_ok r"
  shows "reorder_frames r (reorder_walk (win_sz_mask r) a b) = window_frames r a b"
proof -
  obtain k where k: "win_sz_mask r = 2 ^ k - 1" "length (ro_slots r) = 2 ^ k"
    using assms by (rule ro_okE)
  then have "Suc (win_sz_mask r) = 2 ^ k" by simp
  then show ?thesis
    unfolding reorder_frames_def window_frames_def Let_def k(1) reorder_walk_eq
    by (simp add: o_def)
qed

lemma window_index:
  fixes n :: nat
  assumes n: "0 < n" and i: "i < n" and w: "w \<le> n"
  shows "(\<exists>j<w. i = (a + j) mod n) \<longleftrightarrow> (i + n - a mod n) mod n < w"
proof -
  define c where "c = a mod n"
  have c: "c < n" using n by (simp add: c_def)
  note eq = mod_shift_eq [of _ n a, folded c_def]
  have inv: "(i + n - c) mod n = (if c \<le> i then i - c else i + n - c)"
  proof (cases "c \<le> i")
    case True
    then have "i + n - c = (i - c) + n" by simp
    then have "(i + n - c) mod n = (i - c) mod n" by (simp only: mod_add_self2)
    then show ?thesis using True i by simp
  next
    case False
    then show ?thesis using i by simp
  qed
  show ?thesis
  proof
    assume "\<exists>j<w. i = (a + j) mod n"
    then obtain j where j: "j < w" "i = (a + j) mod n" by blast
    then have "j < n" using w by linarith
    with j eq [of j] inv c show "(i + n - a mod n) mod n < w"
      by (auto simp: c_def [symmetric] split: if_splits)
  next
    assume less: "(i + n - a mod n) mod n < w"
    let ?j = "(i + n - c) mod n"
    have "(a + ?j) mod n = i" using eq [of ?j] inv i c n by (auto split: if_splits)
    with less show "\<exists>j<w. i = (a + j) mod n" by (intro exI [of _ ?j]) (simp add: c_def)
  qed
qed

lemma walk_in_window:
  assumes "ro_ok r" and "i < length (ro_slots r)"
  shows "i \<in> set (reorder_walk (win_sz_mask r) a b) \<longleftrightarrow> in_window r a b i"
proof -
  obtain k where k: "win_sz_mask r = 2 ^ k - 1" "length (ro_slots r) = 2 ^ k"
    using assms(1) by (rule ro_okE)
  have suc: "Suc (win_sz_mask r) = 2 ^ k" using k by simp
  have "i \<in> set (reorder_walk (win_sz_mask r) a b) \<longleftrightarrow> (\<exists>j<walk_len (2 ^ k) a b. i = (a + j) mod 2 ^ k)"
    unfolding k(1) reorder_walk_eq by auto
  also have "\<dots> \<longleftrightarrow> (i + 2 ^ k - a mod 2 ^ k) mod 2 ^ k < walk_len (2 ^ k) a b"
    using assms(2) k(2) walk_len_bounds [of "2 ^ k" a b] by (intro window_index) simp_all
  finally show ?thesis unfolding in_window_def Let_def suc .
qed

end
