(* ===== verification/RxDefrag.thy ===== *)
theory RxDefrag
  imports RxReorderInv
begin

unbundle bit_operations_syntax

text \<open>
  Defragmentation (\<open>ol_rx_defrag.c\<close>): the list of fragments of an MSDU, the wait list with its
  time-out, the per-cipher removal of headers and trailers, the Michael MIC, recombination, and
  the conversion to an 802.3 frame.

  \<open>m_data\<close> is the frame behind the rx descriptor; the moves that keep the high-latency descriptor
  in front of the data have no counterpart. Byte offsets are those of \<open>struct ieee80211_frame\<close>:
  frame control at 0 and 1, addresses at 4, 10 and 16, sequence control at 22, then address 4 or
  the QoS field at 24.
\<close>

section \<open>Header fields\<close>

definition fc_byte :: "8 word list \<Rightarrow> nat \<Rightarrow> 8 word" where
  "fc_byte d i = word_of_nat (byte_at d i)"

definition i_seq :: "8 word list \<Rightarrow> nat" where
  "i_seq d = byte_at d 22 + 256 * byte_at d 23"

definition frag_no :: "8 word list \<Rightarrow> nat" where
  "frag_no d = i_seq d AND 0xf"

definition frag_rxseq :: "8 word list \<Rightarrow> nat" where
  "frag_rxseq d = i_seq d div 2 ^ 4"

definition more_frag :: "8 word list \<Rightarrow> bool" where
  "more_frag d \<longleftrightarrow> fc_byte d 1 AND 0x04 \<noteq> 0"

definition fc1_dir :: "8 word list \<Rightarrow> 8 word" where
  "fc1_dir d = fc_byte d 1 AND 0x03"

definition i_addr :: "nat \<Rightarrow> 8 word list \<Rightarrow> 8 word list" where
  "i_addr n d = take 6 (drop (if n = 1 then 4 else if n = 2 then 10 else if n = 3 then 16 else 24) d)"

definition DEFRAG_IEEE80211_QOS_HAS_SEQ :: "8 word list \<Rightarrow> bool" where
  "DEFRAG_IEEE80211_QOS_HAS_SEQ d \<longleftrightarrow> fc_byte d 0 AND (0x0c OR 0x80) = 0x08 OR 0x80"

definition ol_rx_frag_hdrsize :: "8 word list \<Rightarrow> nat" where
  "ol_rx_frag_hdrsize d =
     24 + (if fc1_dir d = 0x03 then 6 else 0) +
     (if DEFRAG_IEEE80211_QOS_HAS_SEQ d
      then 2 + (if fc_byte d 1 AND 0x80 \<noteq> 0 then 4 else 0) else 0)"

section \<open>The list of fragments\<close>

text \<open>
  The search loop of \<open>ol_rx_fraglist_insert\<close>: it passes over the elements with a smaller number
  and stops behind the first one that is not smaller. The result is what it has passed, the
  element it stopped at included, and the rest.
\<close>

fun frag_walk :: "nat \<Rightarrow> rx_msdu list \<Rightarrow> rx_msdu list \<times> rx_msdu list" where
  "frag_walk fragno [] = ([], [])"
| "frag_walk fragno (c # cs) =
     (if fragno > frag_no (m_data c) then (let (xs, ys) = frag_walk fragno cs in (c # xs, ys))
      else ([c], cs))"

text \<open>Counting the elements after the head: 1, 2, and so on.\<close>

fun frag_count :: "nat \<Rightarrow> rx_msdu list \<Rightarrow> bool" where
  "frag_count cnt [] = True"
| "frag_count cnt (m # ms) =
     (if frag_no (m_data m) \<noteq> u8 (cnt + 1) then False else frag_count (u8 (cnt + 1)) ms)"

text \<open>
  \<open>ol_rx_fraglist_insert\<close>. The state is the chain up to the tail pointer and what is linked behind
  it; the result adds the flag and the frames freed. \<open>present\<close> is the flag's value before.
\<close>

record fraglist =
  fl_chain :: "rx_msdu list"
  fl_rest :: "rx_msdu list"

definition frag_all_present :: "fraglist \<Rightarrow> bool" where
  "frag_all_present fl =
     (if \<not> more_frag (m_data (last (fl_chain fl))) then frag_count 0 (tl (fl_chain fl @ fl_rest fl))
      else False)"

definition ol_rx_fraglist_insert ::
  "fraglist \<Rightarrow> rx_msdu \<Rightarrow> bool \<Rightarrow> fraglist \<times> bool \<times> rx_msdu list" where
  "ol_rx_fraglist_insert fl frag present =
     (if fl_chain fl = [] then (\<lparr>fl_chain = [frag], fl_rest = []\<rparr>, present, [])
      else if frag_no (m_data frag) > frag_no (m_data (last (fl_chain fl))) then
        (let fl' = \<lparr>fl_chain = fl_chain fl @ [frag], fl_rest = []\<rparr>
         in (fl', frag_all_present fl', []))
      else
        (let (passed, behind) = frag_walk (frag_no (m_data frag)) (fl_chain fl)
         in if frag_no (m_data frag) = frag_no (m_data (last passed)) then (fl, False, [frag])
            else
              (let fl' = (if behind = [] then fl\<lparr>fl_rest := frag # fl_rest fl\<rparr>
                          else fl\<lparr>fl_chain := passed @ [frag] @ behind\<rparr>)
               in (fl', frag_all_present fl', []))))"

section \<open>The wait list\<close>

definition ol_rx_defrag_waitlist_add :: "nat \<Rightarrow> nat \<Rightarrow> rx_pdev \<Rightarrow> rx_pdev" where
  "ol_rx_defrag_waitlist_add p tid s =
     (upd_reorder p tid (\<lambda>r. r\<lparr>ro_on_waitlist := True\<rparr>) s)
       \<lparr>defrag_waitlist := defrag_waitlist s @ [(p, tid)]\<rparr>"

fun waitlist_flush_loop :: "nat \<Rightarrow> (nat \<times> nat) list \<Rightarrow> rx_pdev \<Rightarrow> rx_pdev" where
  "waitlist_flush_loop now [] s = s"
| "waitlist_flush_loop now ((p, tid) # es) s =
     (if defrag_timeout_ms (reorder_of s p tid) > now then s
      else if ro_tid (reorder_of s p tid) \<ge> OL_TXRX_NUM_EXT_TIDS then waitlist_flush_loop now es s
      else waitlist_flush_loop now es
             (ol_rx_reorder_flush_frag p tid 0 (ol_rx_defrag_waitlist_remove p tid s)))"

definition ol_rx_defrag_waitlist_flush :: "rx_env \<Rightarrow> rx_pdev \<Rightarrow> rx_pdev" where
  "ol_rx_defrag_waitlist_flush e s = waitlist_flush_loop (now_ms e) (defrag_waitlist s) s"

section \<open>Ciphers\<close>

text \<open>Taking \<open>n\<close> bytes out behind the header, and off the end.\<close>

definition strip_behind :: "nat \<Rightarrow> nat \<Rightarrow> 8 word list \<Rightarrow> 8 word list" where
  "strip_behind hdrlen n d = take hdrlen d @ drop (hdrlen + n) d"

definition trim_tail :: "nat \<Rightarrow> 8 word list \<Rightarrow> 8 word list" where
  "trim_tail n d = take (length d - n) d"

record ol_rx_defrag_cipher =
  ic_header :: nat
  ic_trailer :: nat
  ic_miclen :: nat

definition f_ccmp :: ol_rx_defrag_cipher where
  "f_ccmp = \<lparr>ic_header = 8, ic_trailer = 8, ic_miclen = 0\<rparr>"
definition f_tkip :: ol_rx_defrag_cipher where
  "f_tkip = \<lparr>ic_header = 8, ic_trailer = 4, ic_miclen = 8\<rparr>"
definition f_wep :: ol_rx_defrag_cipher where
  "f_wep = \<lparr>ic_header = 4, ic_trailer = 4, ic_miclen = 0\<rparr>"

definition has_extiv :: "nat \<Rightarrow> 8 word list \<Rightarrow> bool" where
  "has_extiv hdrlen d \<longleftrightarrow> fc_byte d (hdrlen + 3) AND 0x20 \<noteq> 0"

definition ol_rx_frag_tkip_decap :: "nat \<Rightarrow> 8 word list \<Rightarrow> 8 word list option" where
  "ol_rx_frag_tkip_decap hdrlen d =
     (if \<not> has_extiv hdrlen d then None
      else Some (trim_tail (ic_trailer f_tkip) (strip_behind hdrlen (ic_header f_tkip) d)))"

definition ol_rx_frag_wep_decap :: "nat \<Rightarrow> 8 word list \<Rightarrow> 8 word list option" where
  "ol_rx_frag_wep_decap hdrlen d =
     Some (trim_tail (ic_trailer f_wep) (strip_behind hdrlen (ic_header f_wep) d))"

definition ol_rx_frag_ccmp_demic :: "nat \<Rightarrow> 8 word list \<Rightarrow> 8 word list option" where
  "ol_rx_frag_ccmp_demic hdrlen d =
     (if \<not> has_extiv hdrlen d then None else Some (trim_tail (ic_trailer f_ccmp) d))"

definition ol_rx_frag_ccmp_decap :: "nat \<Rightarrow> 8 word list \<Rightarrow> 8 word list option" where
  "ol_rx_frag_ccmp_decap hdrlen d =
     (if \<not> has_extiv hdrlen d then None else Some (strip_behind hdrlen (ic_header f_ccmp) d))"

section \<open>The Michael MIC\<close>

definition rotl :: "32 word \<Rightarrow> nat \<Rightarrow> 32 word" where
  "rotl val bits = push_bit bits val OR drop_bit (32 - bits) val"

definition rotr :: "32 word \<Rightarrow> nat \<Rightarrow> 32 word" where
  "rotr val bits = drop_bit bits val OR push_bit (32 - bits) val"

definition xswap :: "32 word \<Rightarrow> 32 word" where
  "xswap val = push_bit 8 (val AND 0x00ff00ff) OR drop_bit 8 (val AND 0xff00ff00)"

definition get_le32_split :: "8 word \<Rightarrow> 8 word \<Rightarrow> 8 word \<Rightarrow> 8 word \<Rightarrow> 32 word" where
  "get_le32_split b0 b1 b2 b3 =
     ucast b0 OR push_bit 8 (ucast b1) OR push_bit 16 (ucast b2) OR push_bit 24 (ucast b3)"

definition get_le32 :: "8 word list \<Rightarrow> 32 word" where
  "get_le32 p = get_le32_split (p ! 0) (p ! 1) (p ! 2) (p ! 3)"

definition put_le32 :: "32 word \<Rightarrow> 8 word list" where
  "put_le32 v = [ucast v, ucast (drop_bit 8 v), ucast (drop_bit 16 v), ucast (drop_bit 24 v)]"

definition michael_block :: "32 word \<times> 32 word \<Rightarrow> 32 word \<times> 32 word" where
  "michael_block lr =
     (let (l, r) = lr;
          r = r XOR rotl l 17; l = l + r;
          r = r XOR xswap l; l = l + r;
          r = r XOR rotl l 3; l = l + r;
          r = r XOR rotr l 2; l = l + r
      in (l, r))"

text \<open>One step: a word into \<open>l\<close>, then the block function.\<close>

definition michael_step :: "32 word \<Rightarrow> 32 word \<times> 32 word \<Rightarrow> 32 word \<times> 32 word" where
  "michael_step w lr = michael_block (fst lr XOR w, snd lr)"

text \<open>
  The pseudo header. For a QoS frame the priority is read behind the three-address header, also
  when a fourth address is there.
\<close>

definition ol_rx_defrag_michdr :: "8 word list \<Rightarrow> 8 word list" where
  "ol_rx_defrag_michdr d =
     (let dir = fc1_dir d;
          da = (if dir = 0x00 \<or> dir = 0x02 then i_addr 1 d else i_addr 3 d);
          sa = (if dir = 0x00 \<or> dir = 0x01 then i_addr 2 d
                else if dir = 0x02 then i_addr 3 d else i_addr 4 d);
          prio = (if fc_byte d 0 AND 0x80 \<noteq> 0 then fc_byte d 24 AND 0x0f else 0)
      in da @ sa @ [prio, 0, 0, 0])"

text \<open>
  \<open>ol_rx_defrag_mic\<close> on a buffer that is not followed by another one, which is how it is called
  (after recombination). \<open>space\<close> and \<open>data_len\<close> count down together while whole words are there;
  \<open>space\<close> is a \<open>u_int32_t\<close> and wraps for a frame shorter than the offset. \<open>None\<close> is the error for
  data that runs past the buffer.
\<close>

function mic_words ::
  "nat \<Rightarrow> nat \<Rightarrow> 8 word list \<Rightarrow> 32 word \<times> 32 word \<Rightarrow> 8 word list \<times> nat \<times> (32 word \<times> 32 word)" where
  "mic_words space data_len data lr =
     (if space \<ge> 4 then mic_words (space - 4) (data_len - 4) (drop 4 data) (michael_step (get_le32 data) lr)
      else (data, data_len, lr))"
  by pat_completeness auto

termination
  by (relation "measure fst") auto

definition mic_last :: "8 word list \<Rightarrow> nat \<Rightarrow> 32 word" where
  "mic_last data n =
     (if n = 0 then get_le32_split 0x5a 0 0 0
      else if n = 1 then get_le32_split (data ! 0) 0x5a 0 0
      else if n = 2 then get_le32_split (data ! 0) (data ! 1) 0x5a 0
      else get_le32_split (data ! 0) (data ! 1) (data ! 2) 0x5a)"

definition ol_rx_defrag_mic :: "8 word list \<Rightarrow> 8 word list \<Rightarrow> nat \<Rightarrow> nat \<Rightarrow> 8 word list option" where
  "ol_rx_defrag_mic key d off data_len =
     (let hdr = ol_rx_defrag_michdr d;
          lr0 = (get_le32 key, get_le32 (drop 4 key));
          lr1 = michael_step (get_le32 hdr) lr0;
          lr2 = michael_step (get_le32 (drop 4 hdr)) lr1;
          lr3 = michael_step (get_le32 (drop 8 hdr)) lr2;
          lr4 = michael_step (get_le32 (drop 12 hdr)) lr3;
          space = min (if off \<le> length d then length d - off else usub 32 (length d) off) data_len;
          (data, left, lr5) = mic_words space data_len (drop off d) lr4
      in if left \<ge> 4 then None
         else (let (l, r) = michael_block (michael_step (mic_last data left) lr5)
               in Some (put_le32 l @ put_le32 r)))"

text \<open>\<open>data_len\<close> is a \<open>u_int16_t\<close> computed from 32-bit lengths.\<close>

definition ol_rx_frag_tkip_demic :: "8 word list \<Rightarrow> nat \<Rightarrow> 8 word list \<Rightarrow> 8 word list option" where
  "ol_rx_frag_tkip_demic key hdrlen d =
     (let pktlen = length d in
      case ol_rx_defrag_mic key d hdrlen (u16 (usub 32 pktlen (hdrlen + ic_miclen f_tkip))) of
        None \<Rightarrow> None
      | Some mic \<Rightarrow>
          if mic \<noteq> take 8 (drop (pktlen - ic_miclen f_tkip) d) then None
          else Some (trim_tail (ic_miclen f_tkip) d))"

section \<open>Recombination and conversion\<close>

definition set_data :: "8 word list \<Rightarrow> rx_msdu \<Rightarrow> rx_msdu" where
  "set_data d m = m\<lparr>m_data := d\<rparr>"

definition upd_byte :: "nat \<Rightarrow> (8 word \<Rightarrow> 8 word) \<Rightarrow> 8 word list \<Rightarrow> 8 word list" where
  "upd_byte i f d = d[i := f (fc_byte d i)]"

text \<open>
  \<open>ol_rx_defrag_decap_recombine\<close>: each following fragment loses its header and is appended; the
  appended buffer is freed by the append. A failed append frees everything.
\<close>

fun recombine_loop ::
  "rx_env \<Rightarrow> nat \<Rightarrow> rx_msdu \<Rightarrow> rx_msdu list \<Rightarrow> rx_pdev \<Rightarrow> rx_msdu option \<times> rx_pdev" where
  "recombine_loop e hdrsize rx_nbuf [] s = (Some rx_nbuf, s)"
| "recombine_loop e hdrsize rx_nbuf (m # tmp) s =
     (let m' = set_data (drop hdrsize (m_data m)) m
      in if \<not> nbuf_cat_ok e rx_nbuf m' then
           (None, htt_rx_desc_frame_free m' (htt_rx_desc_frame_free rx_nbuf (ol_rx_frames_free tmp s)))
         else recombine_loop e hdrsize (set_data (m_data rx_nbuf @ m_data m') rx_nbuf) tmp
                (htt_rx_desc_frame_free m' s))"

definition ol_rx_defrag_decap_recombine ::
  "rx_env \<Rightarrow> rx_msdu list \<Rightarrow> nat \<Rightarrow> rx_pdev \<Rightarrow> rx_msdu option \<times> rx_pdev" where
  "ol_rx_defrag_decap_recombine e frag_list hdrsize s =
     (let (r, s') = recombine_loop e hdrsize (hd frag_list) (tl frag_list) s
      in case r of
           None \<Rightarrow> (None, s')
         | Some m \<Rightarrow>
             (Some (set_data (upd_byte 22 (\<lambda>b. b AND 0xf0) (upd_byte 1 (\<lambda>b. b AND 0xfb) (m_data m))) m), s'))"

definition ol_rx_defrag_qos_decap :: "nat \<Rightarrow> 8 word list \<Rightarrow> 8 word list" where
  "ol_rx_defrag_qos_decap hdrlen d =
     (if DEFRAG_IEEE80211_QOS_HAS_SEQ d then
        (let qoslen = 2 + (if fc_byte d 1 AND 0x80 \<noteq> 0 then 4 else 0)
         in upd_byte 0 (\<lambda>b. b AND 0x7f) (strip_behind (hdrlen - qoslen) qoslen d))
      else d)"

definition ol_rx_defrag_nwifi_to_8023 :: "8 word list \<Rightarrow> 8 word list" where
  "ol_rx_defrag_nwifi_to_8023 d =
     (let dir = fc1_dir d;
          addrs = (if dir = 0x00 then i_addr 1 d @ i_addr 2 d
                   else if dir = 0x01 then i_addr 3 d @ i_addr 2 d
                   else if dir = 0x02 then i_addr 1 d @ i_addr 3 d
                   else take 12 (drop 18 d))
      in addrs @ take 2 (drop 30 d) @ drop 32 d)"

section \<open>The whole of defragmentation\<close>

text \<open>
  The PN check goes fragment by fragment; each one that passes loses its FCS. When one fails (the
  check has freed it), those before and behind it are freed.
\<close>

fun defrag_pn_loop ::
  "rx_env \<Rightarrow> nat \<Rightarrow> nat \<Rightarrow> rx_msdu list \<Rightarrow> rx_msdu list \<Rightarrow> rx_pdev \<Rightarrow> rx_msdu list option \<times> rx_pdev" where
  "defrag_pn_loop e p tid passed [] s = (Some passed, s)"
| "defrag_pn_loop e p tid passed (m # tmp_next) s =
     (let (out, s') = ol_rx_pn_check_base e p tid [m] s
      in if out = [] then (None, ol_rx_frames_free tmp_next (ol_rx_frames_free passed s'))
         else defrag_pn_loop e p tid (passed @ [set_data (trim_tail 4 (m_data m)) m]) tmp_next s')"

text \<open>The loops over the fragments; the flag says whether all were accepted.\<close>

fun decap_loop :: "(8 word list \<Rightarrow> bool \<times> 8 word list) \<Rightarrow> rx_msdu list \<Rightarrow> bool \<times> rx_msdu list" where
  "decap_loop f [] = (True, [])"
| "decap_loop f (m # ms) =
     (let (ok, d) = f (m_data m) in
      if \<not> ok then (False, set_data d m # ms)
      else (let (ok', ms') = decap_loop f ms in (ok', set_data d m # ms')))"

definition decap_step ::
  "(8 word list \<Rightarrow> 8 word list option) \<Rightarrow> 8 word list \<Rightarrow> bool \<times> 8 word list" where
  "decap_step f d = (case f d of None \<Rightarrow> (False, d) | Some d' \<Rightarrow> (True, d'))"

definition defrag_decap :: "htt_sec_type \<Rightarrow> nat \<Rightarrow> rx_msdu list \<Rightarrow> bool \<times> rx_msdu list" where
  "defrag_decap sec hdr_space ms =
     (case sec of
        htt_sec_type_tkip \<Rightarrow> decap_loop (decap_step (ol_rx_frag_tkip_decap hdr_space)) ms
      | htt_sec_type_tkip_nomic \<Rightarrow> decap_loop (decap_step (ol_rx_frag_tkip_decap hdr_space)) ms
      | htt_sec_type_aes_ccmp \<Rightarrow>
          decap_loop (\<lambda>d. let (ok, d') = decap_step (ol_rx_frag_ccmp_demic hdr_space) d
                          in if \<not> ok then (False, d')
                             else decap_step (ol_rx_frag_ccmp_decap hdr_space) d') ms
      | htt_sec_type_wep40 \<Rightarrow> decap_loop (decap_step (ol_rx_frag_wep_decap hdr_space)) ms
      | htt_sec_type_wep104 \<Rightarrow> decap_loop (decap_step (ol_rx_frag_wep_decap hdr_space)) ms
      | htt_sec_type_wep128 \<Rightarrow> decap_loop (decap_step (ol_rx_frag_wep_decap hdr_space)) ms
      | _ \<Rightarrow> (True, ms))"

text \<open>
  \<open>ol_rx_defrag\<close> behind the PN check, in two parts: up to the reassembled MSDU, and its conversion.
\<close>

definition defrag_convert :: "bool \<Rightarrow> nat \<Rightarrow> 8 word list \<Rightarrow> 8 word list" where
  "defrag_convert nwifi hdr_space d =
     (let d1 = (if DEFRAG_IEEE80211_QOS_HAS_SEQ d then ol_rx_defrag_qos_decap hdr_space d else d)
      in if \<not> nwifi then ol_rx_defrag_nwifi_to_8023 d1 else d1)"

definition defrag_msdu :: "rx_env \<Rightarrow> nat \<Rightarrow> rx_msdu list \<Rightarrow> rx_pdev \<Rightarrow> rx_msdu option \<times> rx_pdev" where
  "defrag_msdu e p frag_list s =
     (let hdr_space = ol_rx_frag_hdrsize (m_data (hd frag_list));
          mcast = rd_mcast_bcast (m_desc (hd frag_list));
          sec = peer_sec_type (peers s p) mcast;
          (ok, fl) = defrag_decap sec hdr_space frag_list
      in if \<not> ok then (None, ol_rx_frames_free fl s)
         else
           (let (r, s1) = ol_rx_defrag_decap_recombine e fl hdr_space s in
            case r of
              None \<Rightarrow> (None, s1)
            | Some msdu \<Rightarrow>
                if sec = htt_sec_type_tkip then
                  (case ol_rx_frag_tkip_demic (michael_key (peers s p) mcast) hdr_space (m_data msdu) of
                     None \<Rightarrow> (None, htt_rx_desc_frame_free msdu s1)
                   | Some d \<Rightarrow> (Some (set_data (defrag_convert (native_wifi s) hdr_space d) msdu), s1))
                else (Some (set_data (defrag_convert (native_wifi s) hdr_space (m_data msdu)) msdu), s1)))"

definition ol_rx_defrag :: "rx_env \<Rightarrow> nat \<Rightarrow> nat \<Rightarrow> rx_msdu list \<Rightarrow> rx_pdev \<Rightarrow> rx_pdev" where
  "ol_rx_defrag e p tid frag_list s =
     (if rxv_safemode (rx_vdevs s (rxp_vdev (peers s p))) then
        (if full_reorder_offload s then ol_rx_in_order_deliver p tid frag_list s
         else ol_rx_deliver p tid frag_list s)
      else
        (let (r, s1) = defrag_pn_loop e p tid [] frag_list s in
         case r of
           None \<Rightarrow> s1
         | Some fl \<Rightarrow>
             (let (r', s2) = defrag_msdu e p fl s1 in
              case r' of None \<Rightarrow> s2 | Some msdu \<Rightarrow> ol_rx_fwd_check e p tid [msdu] s2)))"

section \<open>Storing a fragment\<close>

text \<open>
  A slot as a list of fragments. Fragments are stored at slot 0 (the code asserts that the masked
  sequence number is 0), which is the slot \<open>ro_frag_rest\<close> belongs to.
\<close>

definition get_frags :: "nat \<Rightarrow> ol_rx_reorder \<Rightarrow> fraglist" where
  "get_frags i r = \<lparr>fl_chain = ro_slot r i, fl_rest = (if i = 0 then ro_frag_rest r else [])\<rparr>"

definition put_frags :: "nat \<Rightarrow> fraglist \<Rightarrow> ol_rx_reorder \<Rightarrow> ol_rx_reorder" where
  "put_frags i fl r =
     (let r' = ro_put i (fl_chain fl) r in if i = 0 then r'\<lparr>ro_frag_rest := fl_rest fl\<rparr> else r')"

definition frag_mismatch :: "8 word list \<Rightarrow> 8 word list \<Rightarrow> bool" where
  "frag_mismatch d f \<longleftrightarrow>
     frag_rxseq d \<noteq> frag_rxseq f \<or> i_addr 1 d \<noteq> i_addr 1 f \<or> i_addr 2 d \<noteq> i_addr 2 f"

definition ol_rx_reorder_store_frag ::
  "rx_env \<Rightarrow> nat \<Rightarrow> nat \<Rightarrow> nat \<Rightarrow> rx_msdu \<Rightarrow> rx_pdev \<Rightarrow> rx_pdev" where
  "ol_rx_reorder_store_frag e p tid seq_num frag s =
     (let sq = seq_num AND win_sz_mask (reorder_of s p tid);
          fl = get_frags sq (reorder_of s p tid);
          d = m_data frag
      in if \<not> more_frag d \<and> frag_no d = 0 \<and> fl_chain fl = [] then
           upd_reorder p tid (put_frags sq \<lparr>fl_chain = [], fl_rest = []\<rparr>) (ol_rx_defrag e p tid [frag] s)
         else
           (let (fl1, s1) =
                  (if fl_chain fl \<noteq> [] \<and> frag_mismatch d (m_data (hd (fl_chain fl)))
                   then (\<lparr>fl_chain = [], fl_rest = []\<rparr>, ol_rx_frames_free (fl_chain fl @ fl_rest fl) s)
                   else (fl, s));
                (fl2, present, fr) = ol_rx_fraglist_insert fl1 frag False;
                s2 = ol_rx_frames_free fr (upd_reorder p tid (put_frags sq fl2) s1);
                s3 = (if defrag_timeout_check s2 then ol_rx_defrag_waitlist_remove p tid s2 else s2)
            in if present then
                 (let s4 = upd_reorder p tid (\<lambda>r. (put_frags sq \<lparr>fl_chain = [], fl_rest = []\<rparr> r)
                                                    \<lparr>defrag_timeout_ms := 0\<rparr>)
                             (ol_rx_defrag e p tid (fl_chain fl2 @ fl_rest fl2) s3)
                  in upd_peer p (\<lambda>pr. pr\<lparr>tids_last_seq := (tids_last_seq pr)(tid := seq_num)\<rparr>) s4)
               else if defrag_timeout_check s3 then
                 ol_rx_defrag_waitlist_add p tid
                   (upd_reorder p tid (\<lambda>r. r\<lparr>defrag_timeout_ms :=
                      u32 (now_ms e + defrag_cfg_timeout_ms s3)\<rparr>) s3)
               else s3))"

section \<open>The fragment indication\<close>

text \<open>
  \<open>ol_rx_frag_indication_handler\<close>: \<open>flush\<close> is the start of the flush range when the message carries
  one, \<open>head_msdu\<close> the fragment that is popped. A high-latency frame carries its own descriptor.
\<close>

definition ol_rx_frag_indication_handler ::
  "rx_env \<Rightarrow> nat \<Rightarrow> nat \<Rightarrow> nat option \<Rightarrow> rx_msdu \<Rightarrow> rx_pdev \<Rightarrow> rx_pdev" where
  "ol_rx_frag_indication_handler e peer_id tid flush head_msdu s =
     (if tid \<ge> OL_TXRX_NUM_EXT_TIDS then s
      else case peer_id_map s peer_id of
        None \<Rightarrow> htt_rx_desc_frame_free head_msdu s
      | Some p \<Rightarrow>
          (let s1 = (case flush of
                Some seq_num_start \<Rightarrow>
                  if \<not> full_reorder_offload s then ol_rx_reorder_flush_frag p tid seq_num_start s else s
              | None \<Rightarrow> s);
               seq_num = htt_rx_mpdu_desc_seq_num s1 (m_desc head_msdu)
           in ol_rx_reorder_store_frag e p tid seq_num head_msdu (seq_num_cached s1 (m_desc head_msdu))))"

end
