(* ===== verification/RxInd.thy ===== *)
theory RxInd
  imports RxDefrag
begin

unbundle bit_operations_syntax

text \<open>
  The handler of rx indications (\<open>ol_rx_indication_handler\<close>, \<open>ol_rx.c\<close>), which drives the reorder
  code: flush, store every MPDU of the message, release, reorder time-out, and the wait list of the
  defragmentation.

  HTT's message is the record \<open>rx_ind\<close>: the flush and release ranges when present, and the MPDU
  ranges with their status. An MPDU is what \<open>htt_rx_amsdu_pop\<close> returns: its MSDUs (never none), the
  chaining flag, and the size of the rx descriptor in front of it, which HTT remembers. The rx
  descriptor of the MPDU is that of its first MSDU. The radio measurements the handler copies into
  the peer, the statistics, the packet log and the error reports have no counterpart.
\<close>

definition HTT_INVALID_TID :: nat where "HTT_INVALID_TID = 31"

record rx_mpdu =
  pm_msdus :: "rx_msdu list"
  pm_chaining :: bool
  pm_desc_size :: nat

record rx_ind =
  ri_flush :: "(nat \<times> nat) option"
  ri_release :: "(nat \<times> nat) option"
  ri_ranges :: "(htt_rx_status \<times> rx_mpdu list) list"

text \<open>
  One MPDU of a range with status OK. The flag is \<open>rx_ind_release\<close>. The reorder index is the
  sequence number (\<open>htt_rx_mpdu_desc_reorder_idx\<close> is another name of
  \<open>htt_rx_mpdu_desc_seq_num\<close>).
\<close>

definition rx_ind_mpdu :: "nat \<Rightarrow> nat \<Rightarrow> rx_mpdu \<Rightarrow> bool \<Rightarrow> rx_pdev \<Rightarrow> bool \<times> rx_pdev" where
  "rx_ind_mpdu p tid m rel s =
     (let s0 = s\<lparr>rx_desc_size_hl := pm_desc_size m\<rparr>;
          d = m_desc (hd (pm_msdus m))
      in if pm_chaining m then (rel, ol_rx_frames_free (pm_msdus m) s0)
         else
           (let reorder_idx = htt_rx_mpdu_desc_seq_num s0 d;
                (mpdu_status, s1) = OL_RX_SEQ_NUM_CHECK p tid d (seq_num_cached s0 d)
            in if mpdu_status \<noteq> htt_rx_status_ok then (False, ol_rx_frames_free (pm_msdus m) s1)
               else
                 (let s2 = ol_rx_reorder_store p tid reorder_idx (pm_msdus m) s1;
                      s3 = ol_rx_reorder_update_history p reorder_store tid 0 0 reorder_idx s2
                  in (rel,
                      if win_sz_mask (reorder_of s3 p tid) = 0
                      then upd_peer p (\<lambda>pr. pr\<lparr>tids_last_seq :=
                             (tids_last_seq pr)(tid := htt_rx_mpdu_desc_seq_num s3 d)\<rparr>) s3
                      else s3))))"

fun rx_ind_mpdus :: "nat \<Rightarrow> nat \<Rightarrow> rx_mpdu list \<Rightarrow> bool \<Rightarrow> rx_pdev \<Rightarrow> bool \<times> rx_pdev" where
  "rx_ind_mpdus p tid [] rel s = (rel, s)"
| "rx_ind_mpdus p tid (m # ms) rel s =
     (let (rel', s') = rx_ind_mpdu p tid m rel s in rx_ind_mpdus p tid ms rel' s')"

fun rx_ind_discard :: "rx_mpdu list \<Rightarrow> rx_pdev \<Rightarrow> rx_pdev" where
  "rx_ind_discard [] s = s"
| "rx_ind_discard (m # ms) s =
     rx_ind_discard ms (ol_rx_frames_free (pm_msdus m) (s\<lparr>rx_desc_size_hl := pm_desc_size m\<rparr>))"

fun rx_ind_ranges ::
  "nat option \<Rightarrow> nat \<Rightarrow> (htt_rx_status \<times> rx_mpdu list) list \<Rightarrow> bool \<Rightarrow> rx_pdev \<Rightarrow> bool \<times> rx_pdev" where
  "rx_ind_ranges po tid [] rel s = (rel, s)"
| "rx_ind_ranges po tid ((status, ms) # rs) rel s =
     (case po of
        Some p \<Rightarrow>
          if status = htt_rx_status_ok
          then (let (rel', s') = rx_ind_mpdus p tid ms rel s in rx_ind_ranges po tid rs rel' s')
          else rx_ind_ranges po tid rs rel (rx_ind_discard ms s)
      | None \<Rightarrow> rx_ind_ranges po tid rs rel (rx_ind_discard ms s))"

text \<open>The flush and the release of the message; both need a peer.\<close>

definition rx_ind_flush ::
  "rx_env \<Rightarrow> nat option \<Rightarrow> nat \<Rightarrow> (nat \<times> nat) option \<Rightarrow> rx_pdev \<Rightarrow> rx_pdev" where
  "rx_ind_flush e po tid fl s =
     (case po of
        None \<Rightarrow> s
      | Some p \<Rightarrow>
          (case fl of
             None \<Rightarrow> s
           | Some (seq_num_start, seq_num_end) \<Rightarrow>
               if tid = HTT_INVALID_TID then ol_rx_reorder_peer_cleanup e p s
               else ol_rx_reorder_update_history p reorder_flush tid seq_num_start seq_num_end 0
                      (ol_rx_reorder_flush e p tid seq_num_start seq_num_end htt_rx_flush_release s)))"

definition rx_ind_release ::
  "rx_env \<Rightarrow> nat option \<Rightarrow> nat \<Rightarrow> (nat \<times> nat) option \<Rightarrow> bool \<Rightarrow> rx_pdev \<Rightarrow> rx_pdev" where
  "rx_ind_release e po tid rl rel s =
     (case po of
        None \<Rightarrow> s
      | Some p \<Rightarrow>
          (case rl of
             None \<Rightarrow> s
           | Some (seq_num_start, seq_num_end) \<Rightarrow>
               if rel then
                 ol_rx_reorder_update_history p reorder_release tid seq_num_start seq_num_end 0
                   (ol_rx_reorder_release e p tid seq_num_start seq_num_end s)
               else s))"

definition ol_rx_indication_handler :: "rx_env \<Rightarrow> nat \<Rightarrow> nat \<Rightarrow> rx_ind \<Rightarrow> rx_pdev \<Rightarrow> rx_pdev" where
  "ol_rx_indication_handler e peer_id tid ind s =
     (let po = find_rx_peer peer_id s;
          s1 = rx_ind_flush e po tid (ri_flush ind) s;
          (rel, s2) = rx_ind_ranges po tid (ri_ranges ind) (ri_release ind \<noteq> None) s1;
          s3 = rx_ind_release e po tid (ri_release ind) rel s2;
          s4 = ol_rx_reorder_timeout_update e po tid s3
      in if defrag_timeout_check s4 then ol_rx_defrag_waitlist_flush e s4 else s4)"

end
