(* ===== verification/RxReorderProps.thy ===== *)
theory RxReorderProps
  imports RxReorderInv
begin

text \<open>
  The properties of the reorder arrays: flush hands on the frames of the window range in sequence
  order, frames stored in any order come out in order, no frame is lost by a flush, what a release
  with an empty first slot does, and what the duplicate check accepts.
\<close>

section \<open>Flush\<close>

text \<open>
  Property C15. Flushing a range of the window hands the frames of exactly the slots in the range
  to the receive function (or frees them, when discarding), in window order starting at the start
  index and wrapping at the window size, empties these slots and no others, and passes nothing on
  when they are empty. \<open>idx_end = 0xffff\<close> covers the whole window.
\<close>

theorem ol_rx_reorder_flush_in_window_order:
  fixes s :: rx_pdev and p tid idx_start idx_end :: nat
  defines "r \<equiv> reorder_of s p tid"
  assumes "ro_ok r"
  defines "e_idx \<equiv> (if idx_end = 0xffff then idx_start else idx_end)"
  shows "\<exists>t. rx_freed t = rx_freed s \<and> rx_osif t = rx_osif s \<and> rx_fwd t = rx_fwd s \<and> rx_view t = rx_view s \<and>
    ol_rx_reorder_flush e p tid idx_start idx_end action s =
      ol_rx_reorder_timeout_remove p tid
        (if window_frames r idx_start e_idx = [] then t
         else flush_proc e p tid action (window_frames r idx_start e_idx) t) \<and>
    (\<forall>i<Suc (win_sz_mask r).
       ro_slot (reorder_of (ol_rx_reorder_flush e p tid idx_start idx_end action s) p tid) i =
         (if in_window r idx_start e_idx i then [] else ro_slot r i))"
proof -
  define walk where "walk = reorder_walk (win_sz_mask r) idx_start e_idx"
  define w where "w = ol_rx_defrag_waitlist_remove p tid (upd_reorder p tid (\<lambda>_. ro_clear walk r)
          (upd_peer p (\<lambda>pr. pr\<lparr>tids_next_rel_idx :=
             (tids_next_rel_idx pr)(tid := (if idx_end = 0xffff then 0 else u16 idx_end))\<rparr>) s))"
  let ?ms = "window_frames r idx_start e_idx"
  have fr: "reorder_frames r walk = ?ms" unfolding walk_def by (rule walk_frames [OF assms(2)])
  have eq: "ol_rx_reorder_flush e p tid idx_start idx_end action s =
      ol_rx_reorder_timeout_remove p tid (hand_over (flush_proc e p tid action) p tid ?ms w)"
    unfolding fr [symmetric] unfolding w_def walk_def e_idx_def r_def
    by (rule ol_rx_reorder_flush_eq [OF assms(2) [unfolded r_def]])
  have w: "rx_freed w = rx_freed s" "rx_osif w = rx_osif s" "rx_fwd w = rx_fwd s"
    by (simp_all add: w_def waitlist_remove_keeps)
  have view_w: "rx_view w = rx_view s" by (simp add: w_def)
  have slots: "ro_slots (reorder_of w p tid) = ro_slots (ro_clear walk r)"
    by (simp add: w_def waitlist_remove_keeps)
  define t where "t = (if ?ms = [] then w else upd_peer p (\<lambda>pr. pr\<lparr>tids_last_seq :=
      (tids_last_seq pr)(tid := htt_rx_mpdu_desc_seq_num w (m_desc (hd ?ms)))\<rparr>)
        (seq_num_cached w (m_desc (hd ?ms))))"
  have "ol_rx_reorder_flush e p tid idx_start idx_end action s =
      ol_rx_reorder_timeout_remove p tid (if ?ms = [] then t else flush_proc e p tid action ?ms t)"
    unfolding eq t_def hand_over_def Let_def by simp
  moreover have "ro_slot (reorder_of (ol_rx_reorder_flush e p tid idx_start idx_end action s) p tid) i =
         (if in_window r idx_start e_idx i then [] else ro_slot r i)" if "i < Suc (win_sz_mask r)" for i
  proof -
    have "i < length (ro_slots r)" using that assms(2) by (simp add: ro_ok_def)
    then have "ro_slot (ro_clear walk r) i = (if in_window r idx_start e_idx i then [] else ro_slot r i)"
      using ro_slot_clear [of walk r i] ro_walk_ok(2) [OF assms(2)] walk_in_window [OF assms(2)]
      by (simp add: walk_def)
    then show ?thesis
      unfolding eq ro_slot_def timeout_remove_keeps hand_over_reorder(1) [OF flush_proc_spec(1)] slots .
  qed
  ultimately show ?thesis
    using w view_w by (intro exI [of _ t]) (simp add: t_def)
qed

text \<open>
  No flush loses a frame: as long as no fragments were linked behind a slot's tail
  pointer, every frame that was in the array is afterwards still in it, or has been freed,
  delivered to the OS or passed to the tx path.
\<close>

theorem ol_rx_reorder_flush_loses_nothing:
  assumes "ro_ok (reorder_of s p tid)" and "tx_returns_own e"
    and rest: "ro_frag_rest (reorder_of s p tid) = []"
  shows "rx_logs s + held p tid s \<subseteq>#
     rx_logs (ol_rx_reorder_flush e p tid idx_start idx_end action s) +
     held p tid (ol_rx_reorder_flush e p tid idx_start idx_end action s)"
proof -
  define r where "r = reorder_of s p tid"
  define walk where "walk = reorder_walk (win_sz_mask r) idx_start (if idx_end = 0xffff then idx_start else idx_end)"
  define w where "w = ol_rx_defrag_waitlist_remove p tid (upd_reorder p tid (\<lambda>_. ro_clear walk r)
          (upd_peer p (\<lambda>pr. pr\<lparr>tids_next_rel_idx :=
             (tids_next_rel_idx pr)(tid := (if idx_end = 0xffff then 0 else u16 idx_end))\<rparr>) s))"
  let ?s' = "ol_rx_reorder_flush e p tid idx_start idx_end action s"
  let ?h = "hand_over (flush_proc e p tid action) p tid (reorder_frames r walk) w"
  have eq: "?s' = ol_rx_reorder_timeout_remove p tid ?h"
    unfolding w_def walk_def r_def by (rule ol_rx_reorder_flush_eq [OF assms(1)])
  have "rx_logs w + mset (reorder_frames r walk) \<subseteq># rx_logs ?h"
    by (rule hand_over_logs) (rule flush_proc_spec(2) [OF assms(2)])
  moreover have "rx_logs w = rx_logs s" by (simp add: w_def waitlist_remove_keeps)
  moreover have "rx_logs ?s' = rx_logs ?h" unfolding eq by (rule timeout_remove_keeps)
  moreover have "held p tid ?s' = mset (concat (ro_slots (ro_clear walk r)))"
    unfolding held_def eq timeout_remove_keeps hand_over_reorder(1) [OF flush_proc_spec(1)]
    using rest by (simp add: w_def waitlist_remove_keeps ro_clear_rest r_def)
  moreover have "held p tid s = mset (concat (ro_slots (ro_clear walk r))) + mset (reorder_frames r walk)"
    using ro_clear_held [of walk r] ro_walk_ok [OF assms(1) [folded r_def]] rest
    by (simp add: held_def walk_def r_def)
  ultimately show ?thesis by (simp add: ac_simps)
qed

section \<open>Release\<close>

text \<open>
  Property C17. What a release does with the frames of its range. The slots of the range are emptied
  and no others. If the slot at the start of the range holds a frame, all frames of the range go to
  the peer's receive function, in one call and in window order, and apart from the books of the
  reorder code the device is then as after that call. If the first slot is empty, every frame in the
  rest of the range is taken out of its slot and nothing else happens: it is neither freed nor handed
  on, the buffers are leaked.
\<close>

theorem ol_rx_reorder_release_frames:
  fixes s :: rx_pdev and e :: rx_env and p tid idx_start idx_end :: nat
  defines "r \<equiv> reorder_of s p tid"
  defines "s' \<equiv> ol_rx_reorder_release e p tid idx_start idx_end s"
  assumes "ro_ok r" and "ro_frag_rest r = []"
  shows "(\<forall>i<Suc (win_sz_mask r). ro_slot (reorder_of s' p tid) i =
         (if in_window r idx_start idx_end i then [] else ro_slot r i)) \<and>
    held p tid s = held p tid s' + mset (window_frames r idx_start idx_end) \<and>
    rx_view s' = (if ro_slot r (idx_start mod Suc (win_sz_mask r)) \<noteq> []
      then rx_view (call_rx_opt_proc e p tid (window_frames r idx_start idx_end) s) else rx_view s)"
proof -
  define walk where "walk = reorder_walk (win_sz_mask r) idx_start idx_end"
  obtain k where k: "win_sz_mask r = 2 ^ k - 1" using assms(3) by (rule ro_okE)
  have hd: "hd walk = idx_start mod Suc (win_sz_mask r)" "hd walk \<in> set walk"
    by (simp_all add: walk_def reorder_walk_def k and_mask_mod [unfolded One_nat_def])
  have fr: "reorder_frames r walk = window_frames r idx_start idx_end"
    unfolding walk_def by (rule walk_frames [OF assms(3)])
  define ms where "ms = (if ro_slot r (hd walk) = [] then [] else reorder_frames r walk)"
  define w where "w = upd_reorder p tid (\<lambda>_. ro_clear walk r)
          (upd_peer p (\<lambda>pr. pr\<lparr>tids_next_rel_idx := (tids_next_rel_idx pr)(tid := u16 idx_end)\<rparr>) s)"
  have eq: "s' = ol_rx_reorder_timeout_remove p tid (hand_over (call_rx_opt_proc e p tid) p tid ms w)"
    unfolding s'_def w_def ms_def walk_def r_def
    by (rule ol_rx_reorder_release_eq [OF assms(3) [unfolded r_def]])
  have slots: "ro_slots (reorder_of s' p tid) = ro_slots (ro_clear walk r)"
    unfolding eq timeout_remove_keeps hand_over_reorder(1) [OF call_rx_opt_proc_spec(1)] by (simp add: w_def)
  have "ro_slot (reorder_of s' p tid) i = (if in_window r idx_start idx_end i then [] else ro_slot r i)"
    if "i < Suc (win_sz_mask r)" for i
  proof -
    have "i < length (ro_slots r)" using that assms(3) by (simp add: ro_ok_def)
    then have "ro_slot (ro_clear walk r) i = (if in_window r idx_start idx_end i then [] else ro_slot r i)"
      using ro_slot_clear [of walk r i] ro_walk_ok(2) [OF assms(3)] walk_in_window [OF assms(3)]
      by (simp add: walk_def)
    then show ?thesis by (simp add: ro_slot_def slots)
  qed
  moreover have "held p tid s' = mset (concat (ro_slots (ro_clear walk r)))"
    unfolding held_def eq timeout_remove_keeps hand_over_reorder(1) [OF call_rx_opt_proc_spec(1)]
    using assms(4) by (simp add: w_def ro_clear_rest)
  then have "held p tid s = held p tid s' + mset (window_frames r idx_start idx_end)"
    using ro_clear_held [of walk r] ro_walk_ok [OF assms(3)] fr assms(4)
    by (simp add: held_def walk_def r_def)
  moreover have "rx_view w = rx_view s" by (simp add: w_def)
  then have "rx_view s' = (if ms = [] then rx_view s else rx_view (call_rx_opt_proc e p tid ms s))"
    using call_cong [of w s e p tid ms] unfolding eq view_keeps view_hand_over by presburger
  moreover have "ms = [] \<longleftrightarrow> ro_slot r (hd walk) = []"
    using hd(2) by (auto simp: ms_def reorder_frames_def)
  ultimately show ?thesis by (simp add: ms_def fr hd(1))
qed

section \<open>Sequence order\<close>

fun store_all :: "nat \<Rightarrow> nat \<Rightarrow> (nat \<times> rx_msdu list) list \<Rightarrow> rx_pdev \<Rightarrow> rx_pdev" where
  "store_all p tid [] s = s"
| "store_all p tid ((idx, mpdu) # xs) s = store_all p tid xs (ol_rx_reorder_store p tid idx mpdu s)"

lemma store_slot:
  assumes "ro_ok (reorder_of s p tid)"
  defines "n \<equiv> Suc (win_sz_mask (reorder_of s p tid))"
  shows "ro_ok (reorder_of (ol_rx_reorder_store p tid idx mpdu s) p tid)"
    and "win_sz_mask (reorder_of (ol_rx_reorder_store p tid idx mpdu s) p tid) = win_sz_mask (reorder_of s p tid)"
    and "i < n \<Longrightarrow> ro_slot (reorder_of (ol_rx_reorder_store p tid idx mpdu s) p tid) i =
           ro_slot (reorder_of s p tid) i @ (if idx mod n = i then mpdu else [])"
    and "rx_logs (ol_rx_reorder_store p tid idx mpdu s) = rx_logs s"
    and "rx_freed (ol_rx_reorder_store p tid idx mpdu s) = rx_freed s"
    and "rx_osif (ol_rx_reorder_store p tid idx mpdu s) = rx_osif s"
    and "rx_fwd (ol_rx_reorder_store p tid idx mpdu s) = rx_fwd s"
proof -
  obtain k where k: "win_sz_mask (reorder_of s p tid) = 2 ^ k - 1" "length (ro_slots (reorder_of s p tid)) = 2 ^ k"
    using assms(1) by (rule ro_okE)
  have n: "n = 2 ^ k" by (simp add: n_def k)
  have idx: "idx AND win_sz_mask (reorder_of s p tid) = idx mod n"
    unfolding k(1) n by (rule and_mask_mod)
  have "idx mod n < length (ro_slots (reorder_of s p tid))" by (simp add: k n)
  then show "i < n \<Longrightarrow> ro_slot (reorder_of (ol_rx_reorder_store p tid idx mpdu s) p tid) i =
           ro_slot (reorder_of s p tid) i @ (if idx mod n = i then mpdu else [])"
    by (simp add: ol_rx_reorder_store_def idx ro_slot_put)
  show "ro_ok (reorder_of (ol_rx_reorder_store p tid idx mpdu s) p tid)"
    using ro_put_ok [OF assms(1)] \<open>idx mod n < _\<close> by (simp add: ol_rx_reorder_store_def idx)
qed (simp_all add: ol_rx_reorder_store_def)

lemma store_all_slot:
  assumes "ro_ok (reorder_of s p tid)"
  defines "n \<equiv> Suc (win_sz_mask (reorder_of s p tid))"
  shows "ro_ok (reorder_of (store_all p tid xs s) p tid) \<and>
    win_sz_mask (reorder_of (store_all p tid xs s) p tid) = win_sz_mask (reorder_of s p tid) \<and>
    rx_freed (store_all p tid xs s) = rx_freed s \<and> rx_osif (store_all p tid xs s) = rx_osif s \<and>
    rx_fwd (store_all p tid xs s) = rx_fwd s \<and>
    (\<forall>i<n. ro_slot (reorder_of (store_all p tid xs s) p tid) i =
       ro_slot (reorder_of s p tid) i @ concat (map snd (filter (\<lambda>x. fst x mod n = i) xs)))"
  unfolding n_def using assms(1)
proof (induction xs arbitrary: s)
  case (Cons x xs)
  obtain idx mpdu where x: "x = (idx, mpdu)" by fastforce
  note st = store_slot [OF Cons.prems, where idx = idx and mpdu = mpdu]
  from Cons.IH [OF st(1)] st show ?case by (simp add: x)
qed simp

lemma store_all_view: "rx_view (store_all p tid xs s) = rx_view s"
  by (induction p tid xs s rule: store_all.induct) simp_all

lemma filter_eq_upt: "j < m \<Longrightarrow> filter (\<lambda>i. i = j) [0..<m] = [j]"
  by (induction m) (auto simp: less_Suc_eq filter_empty_conv)

text \<open>
  Property C9. MPDUs that arrive out of order leave the window in order. Let a window of size
  \<open>n\<close> be empty and let MPDUs with consecutive indices \<open>a, a + 1, ...\<close> (at most \<open>n\<close>, wrapping in
  the array) be stored in any order of arrival: flushing their range then hands on exactly these
  MPDUs, ordered by index, in one chain.
\<close>

theorem reorder_restores_sequence_order:
  fixes s :: rx_pdev and p tid a :: nat and ms :: "rx_msdu list list"
  defines "n \<equiv> Suc (win_sz_mask (reorder_of s p tid))"
  assumes ok: "ro_ok (reorder_of s p tid)"
    and empty: "\<forall>i<n. ro_slot (reorder_of s p tid) i = []"
    and len: "length ms \<le> n" and small: "a + length ms < 0xffff"
    and arrive: "mset xs = mset (map (\<lambda>j. (a + j, ms ! j)) [0..<length ms])"
  shows "\<exists>t. rx_freed t = rx_freed s \<and> rx_osif t = rx_osif s \<and> rx_fwd t = rx_fwd s \<and> rx_view t = rx_view s \<and>
     ol_rx_reorder_flush e p tid a (a + length ms) htt_rx_flush_release (store_all p tid xs s) =
       ol_rx_reorder_timeout_remove p tid
         (if concat ms = [] then t else call_rx_opt_proc e p tid (concat ms) t)"
proof -
  define u where "u = store_all p tid xs s"
  define r where "r = reorder_of u p tid"
  note st = store_all_slot [OF ok, of xs, folded n_def u_def, folded r_def]
  have nz: "0 < n" by (simp add: n_def)
  have slot: "ro_slot r ((a + j) mod n) = ms ! j" if "j < length ms" for j
  proof -
    have "mset (filter (\<lambda>x. fst x mod n = (a + j) mod n) xs) =
        filter_mset (\<lambda>x. fst x mod n = (a + j) mod n) (mset (map (\<lambda>j. (a + j, ms ! j)) [0..<length ms]))"
      unfolding arrive [symmetric] by (rule mset_filter)
    also have "\<dots> = mset (filter (\<lambda>x. fst x mod n = (a + j) mod n) (map (\<lambda>j. (a + j, ms ! j)) [0..<length ms]))"
      by (rule mset_filter [symmetric])
    also have "filter (\<lambda>x. fst x mod n = (a + j) mod n) (map (\<lambda>j. (a + j, ms ! j)) [0..<length ms]) =
        map (\<lambda>j. (a + j, ms ! j)) (filter (\<lambda>i. (a + i) mod n = (a + j) mod n) [0..<length ms])"
      by (simp add: filter_map o_def)
    also have "filter (\<lambda>i. (a + i) mod n = (a + j) mod n) [0..<length ms] = [j]"
    proof -
      have "(a + i) mod n = (a + j) mod n \<longleftrightarrow> i = j" if "i < length ms" for i
      proof -
        have "i < n" "j < n" using that \<open>j < length ms\<close> len by simp_all
        then show ?thesis using mod_shift_inj [of i n j a] by blast
      qed
      then have "filter (\<lambda>i. (a + i) mod n = (a + j) mod n) [0..<length ms] = filter (\<lambda>i. i = j) [0..<length ms]"
        by (intro filter_cong) auto
      also have "\<dots> = [j]" using that by (rule filter_eq_upt)
      finally show ?thesis .
    qed
    finally have "mset (filter (\<lambda>x. fst x mod n = (a + j) mod n) xs) = {#(a + j, ms ! j)#}"
      by (simp only: list.map mset.simps)
    then have "filter (\<lambda>x. fst x mod n = (a + j) mod n) xs = [(a + j, ms ! j)]"
      by (simp only: mset_single_iff)
    then show ?thesis using st empty nz by (simp add: r_def)
  qed
  have frames: "window_frames r a (a + length ms) = concat ms"
  proof -
    have m: "Suc (win_sz_mask r) = n" using st by (simp add: n_def)
    show ?thesis
    proof (cases "ms = []")
      case True
      then have "xs = []" using arrive by simp
      then have "ro_slot r i = []" if "i < n" for i using st empty that by simp
      then show ?thesis using True nz by (simp add: window_frames_def m concat_eq_Nil_conv)
    next
      case False
      then have "walk_len n a (a + length ms) = length ms" using len by (intro walk_len_shift) simp_all
      moreover have "map (\<lambda>j. ro_slot r ((a + j) mod n)) [0..<length ms] = map ((!) ms) [0..<length ms]"
        using slot by simp
      ultimately show ?thesis by (simp add: window_frames_def m map_nth)
    qed
  qed
  have ok_r: "ro_ok (reorder_of u p tid)" using st by (simp add: r_def)
  note eq = ol_rx_reorder_flush_eq [OF ok_r, of e a "a + length ms" htt_rx_flush_release, folded r_def]
  have ne: "a + length ms \<noteq> 0xffff" using small by simp
  define w where "w = ol_rx_defrag_waitlist_remove p tid
     (upd_reorder p tid (\<lambda>_. ro_clear (reorder_walk (win_sz_mask r) a (a + length ms)) r)
          (upd_peer p (\<lambda>pr. pr\<lparr>tids_next_rel_idx := (tids_next_rel_idx pr)(tid := u16 (a + length ms))\<rparr>) u))"
  have w: "rx_freed w = rx_freed s" "rx_osif w = rx_osif s" "rx_fwd w = rx_fwd s"
    using st by (simp_all add: w_def waitlist_remove_keeps)
  have view_w: "rx_view w = rx_view s" by (simp add: w_def u_def store_all_view)
  have run: "ol_rx_reorder_flush e p tid a (a + length ms) htt_rx_flush_release u =
      ol_rx_reorder_timeout_remove p tid
        (hand_over (flush_proc e p tid htt_rx_flush_release) p tid (concat ms) w)"
    using eq unfolding if_not_P [OF ne] walk_frames [OF ok_r [folded r_def]] frames w_def .
  show ?thesis
    unfolding u_def [symmetric] run hand_over_def Let_def flush_proc_def htt_rx_flush_action.case
    by (intro exI [of _ "if concat ms = [] then w else upd_peer p (\<lambda>pr. pr\<lparr>tids_last_seq :=
      (tids_last_seq pr)(tid := htt_rx_mpdu_desc_seq_num w (m_desc (hd (concat ms))))\<rparr>)
        (seq_num_cached w (m_desc (hd (concat ms))))"]) (simp add: w view_w)
qed

section \<open>Duplicates\<close>

lemma usub_mod:
  assumes "b \<le> 2 ^ 32"
  shows "usub 32 a b mod 4096 = (a + (2 ^ 32 - b)) mod 4096"
proof -
  have "(2 ^ 32 - b mod 2 ^ 32) mod 4096 = (2 ^ 32 - b) mod (4096 :: nat)"
    using assms by (cases "b = 2 ^ 32") simp_all
  moreover have "usub 32 a b mod 4096 = (a + (2 ^ 32 - b mod 2 ^ 32)) mod 4096"
    unfolding usub_def by (rule mod_mod_cancel) simp
  ultimately show ?thesis by (metis mod_add_right_eq)
qed

lemma seq_delta:
  assumes "seq < 4096" and "lst < 4096"
  shows "usub 32 (usub 32 seq 1) lst AND 4095 = (seq + 4095 - lst) mod 4096"
proof -
  have "usub 32 (usub 32 seq 1) lst AND 4095 = usub 32 (usub 32 seq 1) lst mod 4096"
    using and_mask_mod [of _ 12] by simp
  also have "\<dots> = (usub 32 seq 1 mod 4096 + (2 ^ 32 - lst)) mod 4096"
    using assms by (subst usub_mod) (simp, simp only: mod_add_left_eq)
  also have "\<dots> = (seq + (2 ^ 32 - 1) + (2 ^ 32 - lst)) mod 4096"
    by (subst usub_mod) (simp, simp only: mod_add_left_eq)
  also have "seq + (2 ^ 32 - 1) + (2 ^ 32 - lst) = (seq + 4095 - lst) + 4096 * (2 ^ 21 - 1)"
    using assms by simp
  also have "((seq + 4095 - lst) + 4096 * (2 ^ 21 - 1)) mod 4096 = (seq + 4095 - lst) mod 4096"
    by (rule mod_mult_self2)
  finally show ?thesis .
qed

text \<open>
  Property C16. The duplicate check accepts exactly the sequence numbers that are 1 to 2049 ahead
  of the last one, modulo 4096: the last number itself and the 2046 before it are rejected, and
  without a valid last number everything is accepted.
\<close>

theorem ol_rx_reorder_seq_num_check_accepts:
  assumes "seq < 4096" and "tids_last_seq (peers s p) tid \<le> 4096"
  shows "ol_rx_reorder_seq_num_check p tid seq s =
    (if tids_last_seq (peers s p) tid = 4096 \<or>
        (seq + 4096 - tids_last_seq (peers s p) tid) mod 4096 \<in> {1..2049}
     then htt_rx_status_ok else htt_rx_status_err_replay)"
proof (cases "tids_last_seq (peers s p) tid = 4096")
  case True
  then show ?thesis by (simp add: ol_rx_reorder_seq_num_check_def IEEE80211_SEQ_MAX_def)
next
  case False
  define l where "l = tids_last_seq (peers s p) tid"
  have l: "l < 4096" using assms(2) False by (simp add: l_def)
  have "(seq + 4095 - l) mod 4096 \<le> 2048 \<longleftrightarrow> (seq + 4096 - l) mod 4096 \<in> {1..2049}"
  proof (cases "seq = l")
    case True
    then show ?thesis using l by simp
  next
    case False
    then have "(seq + 4096 - l) mod 4096 = Suc ((seq + 4096 - (l + 1) mod 4096) mod 4096)"
      using wrap_dist_Suc [of l 4096 seq] l assms(1) by simp
    moreover have "(seq + 4096 - (l + 1) mod 4096) mod 4096 = (seq + 4095 - l) mod 4096"
    proof (cases "l = 4095")
      case True
      then show ?thesis using assms(1) by simp
    next
      case False
      with l have "l + 1 < 4096" by simp
      then show ?thesis by (simp add: add.commute)
    qed
    ultimately show ?thesis by auto
  qed
  then show ?thesis
    using seq_delta [OF assms(1) l] False
    by (auto simp: ol_rx_reorder_seq_num_check_def IEEE80211_SEQ_MAX_def l_def [symmetric] not_less)
qed

end
