(* ===== verification/RxDefragProps.thy ===== *)
theory RxDefragProps
  imports RxDefrag
begin

unbundle bit_operations_syntax

text \<open>
  What defragmentation does: the MIC code against the definition of Michael, the removal of the
  ciphers' headers and trailers, the list of fragments for fragments that arrive in order and for
  those that do not, recombination, and the wait list.
\<close>

section \<open>Michael\<close>

text \<open>
  The reference: the message is padded with \<open>0x5a\<close> and four to seven zero bytes to whole words,
  which are read little endian and fed to the block function one by one.
\<close>

fun le_words :: "8 word list \<Rightarrow> 32 word list" where
  "le_words (a # b # c # d # xs) = get_le32_split a b c d # le_words xs"
| "le_words _ = []"

definition michael_pad :: "8 word list \<Rightarrow> 8 word list" where
  "michael_pad m = m @ [0x5a] @ replicate (7 - length m mod 4) 0"

definition michael :: "8 word list \<Rightarrow> 8 word list \<Rightarrow> 8 word list" where
  "michael key m =
     (let (l, r) = fold michael_step (le_words (michael_pad m)) (get_le32 key, get_le32 (drop 4 key))
      in put_le32 l @ put_le32 r)"

lemma le_words_append: "length xs mod 4 = 0 \<Longrightarrow> le_words (xs @ ys) = le_words xs @ le_words ys"
proof (induction xs rule: le_words.induct)
  case (1 a b c d xs)
  have "length (a # b # c # d # xs) = length xs + 4" by simp
  then have "length xs mod 4 = 0" using 1(2) by (metis mod_add_self2)
  with 1(1) show ?case by simp
qed simp_all

lemma le_words_4:
  assumes "length xs = 4"
  shows "le_words xs = [get_le32 xs]"
proof -
  from assms obtain a b c d where "xs = [a, b, c, d]"
    by (auto simp: numeral_eq_Suc length_Suc_conv)
  then show ?thesis by (simp add: get_le32_def)
qed

lemma get_le32_take: "get_le32 (take 4 xs) = get_le32 xs"
  by (simp add: get_le32_def)

lemma le_words_peel:
  assumes "4 \<le> length h"
  shows "le_words (h @ xs) = get_le32 h # le_words (drop 4 h @ xs)"
proof -
  have "le_words (take 4 h @ (drop 4 h @ xs)) = le_words (take 4 h) @ le_words (drop 4 h @ xs)"
    using assms by (intro le_words_append) (simp add: min_def)
  moreover have "le_words (take 4 h) = [get_le32 h]"
    using assms by (simp add: le_words_4 min_def get_le32_take)
  ultimately show ?thesis by (simp only: append_assoc [symmetric] append_take_drop_id) simp
qed

lemma mic_words_eq:
  assumes "4 * (space div 4) \<le> length data"
  shows "mic_words space dl data lr =
    (drop (4 * (space div 4)) data, dl - 4 * (space div 4),
     fold michael_step (le_words (take (4 * (space div 4)) data)) lr)"
  using assms
proof (induction space arbitrary: dl data lr rule: less_induct)
  case (less space)
  show ?case
  proof (cases "space \<ge> 4")
    case False
    then have "space div 4 = 0" by simp
    moreover have "mic_words space dl data lr = (data, dl, lr)"
      using False by (subst mic_words.simps) simp
    ultimately show ?thesis by simp
  next
    case True
    define n where "n = (space - 4) div 4"
    have n: "space div 4 = Suc n" using True by (simp add: n_def le_div_geq)
    have len: "4 + 4 * n \<le> length data" using less.prems n by simp
    have "mic_words space dl data lr =
        mic_words (space - 4) (dl - 4) (drop 4 data) (michael_step (get_le32 data) lr)"
      using True by (subst mic_words.simps) simp
    also have "\<dots> = (drop (4 * n) (drop 4 data), dl - 4 - 4 * n,
        fold michael_step (le_words (take (4 * n) (drop 4 data))) (michael_step (get_le32 data) lr))"
      using True len unfolding n_def by (intro less.IH) simp_all
    also have "fold michael_step (le_words (take (4 * n) (drop 4 data))) (michael_step (get_le32 data) lr) =
        fold michael_step (le_words (take 4 data @ take (4 * n) (drop 4 data))) lr"
      using len by (simp add: le_words_append le_words_4 get_le32_take)
    also have "take 4 data @ take (4 * n) (drop 4 data) = take (4 + 4 * n) data"
      by (simp add: take_add)
    finally show ?thesis by (simp add: n add.commute)
  qed
qed

lemma michael_step_0: "michael_step (get_le32_split 0 0 0 0) lr = michael_block lr"
  by (simp add: michael_step_def get_le32_split_def)

lemma length_less_4E:
  assumes "length xs < 4"
  obtains "xs = []" | a where "xs = [a]" | a b where "xs = [a, b]" | a b c where "xs = [a, b, c]"
proof -
  have "length xs = 0 \<or> length xs = 1 \<or> length xs = 2 \<or> length xs = 3" using assms by linarith
  then show ?thesis using that by (auto simp: numeral_eq_Suc length_Suc_conv)
qed

lemma michael_pad_short:
  "michael_pad [] = [0x5a, 0, 0, 0, 0, 0, 0, 0]"
  "michael_pad [a] = [a, 0x5a, 0, 0, 0, 0, 0, 0]"
  "michael_pad [a, b] = [a, b, 0x5a, 0, 0, 0, 0, 0]"
  "michael_pad [a, b, c] = [a, b, c, 0x5a, 0, 0, 0, 0]"
proof -
  have r: "replicate 4 0 = [0, 0, 0, 0 :: 8 word]" "replicate 5 0 = [0, 0, 0, 0, 0 :: 8 word]"
    "replicate 6 0 = [0, 0, 0, 0, 0, 0 :: 8 word]" "replicate 7 0 = [0, 0, 0, 0, 0, 0, 0 :: 8 word]"
    by (simp_all add: numeral_eq_Suc)
  show "michael_pad [] = [0x5a, 0, 0, 0, 0, 0, 0, 0]" by (simp add: michael_pad_def r)
  show "michael_pad [a] = [a, 0x5a, 0, 0, 0, 0, 0, 0]" by (simp add: michael_pad_def r)
  show "michael_pad [a, b] = [a, b, 0x5a, 0, 0, 0, 0, 0]" by (simp add: michael_pad_def r)
  show "michael_pad [a, b, c] = [a, b, c, 0x5a, 0, 0, 0, 0]" by (simp add: michael_pad_def r)
qed

lemma mic_last_eq:
  assumes "length xs < 4"
  shows "fold michael_step (le_words (michael_pad xs)) lr =
    michael_block (michael_step (mic_last xs (length xs)) lr)"
  using assms
  by (cases rule: length_less_4E)
    (simp_all only: michael_pad_short le_words.simps fold.simps comp_def id_def michael_step_0,
      simp_all add: mic_last_def)

lemma mic_last_take: "n < 4 \<Longrightarrow> n \<le> length xs \<Longrightarrow> mic_last xs n = mic_last (take n xs) n"
  by (simp add: mic_last_def)

lemma michael_pad_append: "length xs mod 4 = 0 \<Longrightarrow> michael_pad (xs @ ys) = xs @ michael_pad ys"
proof -
  assume "length xs mod 4 = 0"
  then have "(length xs + length ys) mod 4 = length ys mod 4" by (metis add_0 mod_add_left_eq)
  then show ?thesis by (simp add: michael_pad_def)
qed

lemma length_michdr: "30 \<le> length d \<Longrightarrow> length (ol_rx_defrag_michdr d) = 16"
  by (simp add: ol_rx_defrag_michdr_def i_addr_def Let_def)

lemma michael_hdr:
  assumes "length h = 16"
  shows "fold michael_step (le_words (h @ xs)) lr = fold michael_step (le_words xs)
    (michael_step (get_le32 (drop 12 h)) (michael_step (get_le32 (drop 8 h))
      (michael_step (get_le32 (drop 4 h)) (michael_step (get_le32 h) lr))))"
  using assms by (simp add: le_words_peel)

lemma ol_rx_defrag_mic_eq:
  assumes "30 \<le> length d" and "off + data_len \<le> length d"
  shows "ol_rx_defrag_mic key d off data_len =
    Some (michael key (ol_rx_defrag_michdr d @ take data_len (drop off d)))"
proof -
  define h where "h = ol_rx_defrag_michdr d"
  define x where "x = take data_len (drop off d)"
  define n where "n = 4 * (data_len div 4)"
  define lr0 where "lr0 = (get_le32 key, get_le32 (drop 4 key))"
  define lr4 where "lr4 = michael_step (get_le32 (drop 12 h)) (michael_step (get_le32 (drop 8 h))
      (michael_step (get_le32 (drop 4 h)) (michael_step (get_le32 h) lr0)))"
  have lh: "length h = 16" using assms(1) by (simp add: h_def length_michdr)
  have lx: "length x = data_len" using assms(2) by (simp add: x_def)
  have nle: "n \<le> data_len" by (simp add: n_def)
  have left: "data_len - n = data_len mod 4" by (simp add: n_def minus_mult_div_eq_mod)
  have mw: "mic_words data_len data_len (drop off d) lr4 =
      (drop n (drop off d), data_len - n, fold michael_step (le_words (take n (drop off d))) lr4)"
    using assms(2) nle unfolding n_def by (intro mic_words_eq) simp
  have tl: "take (data_len - n) (drop n (drop off d)) = drop n x"
    by (simp add: x_def drop_take)
  have "mic_last (drop n (drop off d)) (data_len - n) =
      mic_last (take (data_len - n) (drop n (drop off d))) (data_len - n)"
    by (rule mic_last_take) (use left assms(2) nle in simp_all)
  then have ml: "mic_last (drop n (drop off d)) (data_len - n) = mic_last (drop n x) (length (drop n x))"
    by (simp only: tl length_drop lx)
  have tnx: "take n x = take n (drop off d)" using nle by (simp add: x_def min_def)
  define y where "y = fold michael_step (le_words (take n (drop off d))) lr4"
  have 1: "fold michael_step (le_words (michael_pad (h @ x))) lr0 = fold michael_step (le_words (michael_pad x)) lr4"
    unfolding lr4_def using lh by (simp add: michael_pad_append michael_hdr)
  have 2: "michael_pad x = take n x @ michael_pad (drop n x)"
    using lx nle michael_pad_append [of "take n x" "drop n x"] by (simp add: n_def)
  have 3: "le_words (take n x @ michael_pad (drop n x)) = le_words (take n x) @ le_words (michael_pad (drop n x))"
    using lx nle by (intro le_words_append) (simp add: n_def)
  have 4: "fold michael_step (le_words (michael_pad (drop n x))) y =
      michael_block (michael_step (mic_last (drop n x) (length (drop n x))) y)"
    by (rule mic_last_eq) (use lx left in simp)
  have f: "fold michael_step (le_words (michael_pad (h @ x))) lr0 =
      michael_block (michael_step (mic_last (drop n (drop off d)) (data_len - n)) y)"
    unfolding 1 2 unfolding 3 fold_append comp_apply ml unfolding tnx unfolding y_def [symmetric] by (rule 4)
  have lt: "\<not> 4 \<le> data_len - n" using left by simp
  have "min (if off \<le> length d then length d - off else usub 32 (length d) off) data_len = data_len"
    using assms(2) by simp
  then have "ol_rx_defrag_mic key d off data_len =
      (let (l, r) = michael_block (michael_step (mic_last (drop n (drop off d)) (data_len - n)) y)
       in Some (put_le32 l @ put_le32 r))"
    using lt by (simp only: ol_rx_defrag_mic_def Let_def h_def [symmetric] lr0_def [symmetric]
        lr4_def [symmetric] mw y_def [symmetric] prod.case if_False)
  then show ?thesis
    by (simp only: michael_def h_def [symmetric] x_def [symmetric] lr0_def [symmetric] f) (simp split: prod.splits)
qed

text \<open>
  Property C10. The MIC code computes Michael: for any key and any frame with room for the addresses,
  over any range of bytes inside the frame, the result is the reference definition applied to
  the pseudo header followed by these bytes. The incremental loop, its bookkeeping of the space
  left and its four cases for the last word add up to padding and folding.
\<close>

theorem ol_rx_defrag_mic_is_michael:
  assumes "30 \<le> length d" and "off + data_len \<le> length d"
  shows "ol_rx_defrag_mic key d off data_len =
    Some (michael key (ol_rx_defrag_michdr d @ take data_len (drop off d)))"
  using assms by (rule ol_rx_defrag_mic_eq)

section \<open>TKIP's MIC on the reassembled frame\<close>

lemma michdr_append: "30 \<le> length d \<Longrightarrow> ol_rx_defrag_michdr (d @ t) = ol_rx_defrag_michdr d"
proof -
  assume l: "30 \<le> length d"
  then have "d \<noteq> []" by auto
  with l show ?thesis
    by (simp add: ol_rx_defrag_michdr_def fc1_dir_def fc_byte_def byte_at_def i_addr_def nth_append Let_def)
qed

lemma length_michael: "length (michael key m) = 8"
  by (simp add: michael_def put_le32_def split: prod.splits)

lemma demic_sealed:
  assumes "30 \<le> length d" and "h \<le> length d" and "length d < 2 ^ 16" and "length t = 8"
  shows "ol_rx_frag_tkip_demic key h (d @ t) =
    (if t = michael key (ol_rx_defrag_michdr d @ drop h d) then Some d else None)"
proof -
  have "usub 32 (length (d @ t)) (h + ic_miclen f_tkip) = length d - h"
    using assms by (subst usub_exact) (simp_all add: f_tkip_def)
  then have n: "u16 (usub 32 (length (d @ t)) (h + ic_miclen f_tkip)) = length d - h"
    using assms(2,3) by (metis less_imp_diff_less mod_less)
  have "ol_rx_defrag_mic key (d @ t) h (length d - h) =
      Some (michael key (ol_rx_defrag_michdr (d @ t) @ take (length d - h) (drop h (d @ t))))"
    using assms(1,2) ol_rx_defrag_mic_eq [of "d @ t" h "length d - h"] by simp
  also have "take (length d - h) (drop h (d @ t)) = drop h d" using assms(2) by simp
  finally have m: "ol_rx_defrag_mic key (d @ t) h (length d - h) =
      Some (michael key (ol_rx_defrag_michdr d @ drop h d))"
    using assms(1) by (simp add: michdr_append)
  show ?thesis
    using assms(4) unfolding ol_rx_frag_tkip_demic_def Let_def n m
    by (auto simp add: f_tkip_def trim_tail_def length_michael)
qed

text \<open>
  Property C13. On a frame with eight bytes behind it, the TKIP check returns the frame without these
  bytes when they are the Michael MIC over the pseudo header and everything behind the 802.11 header,
  and fails for any other eight bytes. So what the sender seals is what the receiver gets, and
  nothing else passes.
\<close>

theorem ol_rx_frag_tkip_demic_exact:
  assumes "30 \<le> length d" and "h \<le> length d" and "length d < 2 ^ 16" and "length t = 8"
  shows "ol_rx_frag_tkip_demic key h (d @ t) =
    (if t = michael key (ol_rx_defrag_michdr d @ drop h d) then Some d else None)"
  using assms by (rule demic_sealed)

section \<open>Headers and trailers of the ciphers\<close>

text \<open>
  What a cipher adds to a fragment: bytes behind the header, and a trailer. A frame without cipher
  has neither. The code's switch does not name WAPI, so its fragments are taken as they are; the
  table has no entry for it.
\<close>

definition cipher_of :: "htt_sec_type \<Rightarrow> ol_rx_defrag_cipher option" where
  "cipher_of sec = (case sec of
      htt_sec_type_tkip \<Rightarrow> Some f_tkip | htt_sec_type_tkip_nomic \<Rightarrow> Some f_tkip
    | htt_sec_type_aes_ccmp \<Rightarrow> Some f_ccmp
    | htt_sec_type_wep40 \<Rightarrow> Some f_wep | htt_sec_type_wep104 \<Rightarrow> Some f_wep | htt_sec_type_wep128 \<Rightarrow> Some f_wep
    | htt_sec_type_none \<Rightarrow> Some \<lparr>ic_header = 0, ic_trailer = 0, ic_miclen = 0\<rparr>
    | htt_sec_type_wapi \<Rightarrow> None)"

definition encapsulated :: "htt_sec_type \<Rightarrow> nat \<Rightarrow> rx_msdu \<Rightarrow> rx_msdu \<Rightarrow> bool" where
  "encapsulated sec h m c \<longleftrightarrow> h \<le> length (m_data m) \<and>
     (\<exists>ic iv tr. cipher_of sec = Some ic \<and> c = set_data (take h (m_data m) @ iv @ drop h (m_data m) @ tr) m \<and>
              length iv = ic_header ic \<and> length tr = ic_trailer ic \<and>
              (length iv = 8 \<longrightarrow> iv ! 3 AND 0x20 \<noteq> 0))"

lemma set_data_id [simp]: "set_data (m_data m) m = m" "set_data d (set_data d' m) = set_data d m"
  "m_data (set_data d m) = d" "m_desc (set_data d m) = m_desc m" "m_id (set_data d m) = m_id m"
  by (simp_all add: set_data_def)

lemma decap_loop_all:
  assumes "list_all2 (\<lambda>m c. f (m_data c) = (True, m_data m) \<and> set_data (m_data m) c = m) ms cs"
  shows "decap_loop f cs = (True, ms)"
  using assms by (induction ms cs rule: list_all2_induct) (auto simp: Let_def)

lemma trim_tail_append: "n = length ys \<Longrightarrow> trim_tail n (xs @ ys) = xs"
  by (simp add: trim_tail_def)

lemma strip_behind_append:
  "h = length xs \<Longrightarrow> n = length ys \<Longrightarrow> strip_behind h n (xs @ ys @ zs) = xs @ zs"
  by (simp add: strip_behind_def)

lemma has_extiv_append:
  "h = length xs \<Longrightarrow> length iv = 8 \<Longrightarrow> has_extiv h (xs @ iv @ zs) = (iv ! 3 AND 0x20 \<noteq> 0)"
  by (simp add: has_extiv_def fc_byte_def byte_at_def nth_append)

lemma decap_parts:
  assumes "h = length x" and "length iv = 8" and "iv ! 3 AND 0x20 \<noteq> 0"
  shows "length tr = 4 \<Longrightarrow> ol_rx_frag_tkip_decap h (x @ iv @ y @ tr) = Some (x @ y)"
    and "length tr = 8 \<Longrightarrow> ol_rx_frag_ccmp_demic h (x @ iv @ y @ tr) = Some (x @ iv @ y)"
    and "ol_rx_frag_ccmp_decap h (x @ iv @ y) = Some (x @ y)"
proof -
  note ivs = has_extiv_append [OF assms(1,2)] strip_behind_append [OF assms(1), of 8 iv]
  show "length tr = 4 \<Longrightarrow> ol_rx_frag_tkip_decap h (x @ iv @ y @ tr) = Some (x @ y)"
    using assms(2,3) trim_tail_append [of 4 tr "x @ y"]
    by (simp add: ol_rx_frag_tkip_decap_def f_tkip_def ivs)
  show "length tr = 8 \<Longrightarrow> ol_rx_frag_ccmp_demic h (x @ iv @ y @ tr) = Some (x @ iv @ y)"
    using assms(2,3) trim_tail_append [of 8 tr "x @ iv @ y"]
    by (simp add: ol_rx_frag_ccmp_demic_def f_ccmp_def ivs)
  show "ol_rx_frag_ccmp_decap h (x @ iv @ y) = Some (x @ y)"
    using assms(2,3) by (simp add: ol_rx_frag_ccmp_decap_def f_ccmp_def ivs)
qed

lemma wep_decap_parts:
  assumes "h = length x" and "length iv = 4" and "length tr = 4"
  shows "ol_rx_frag_wep_decap h (x @ iv @ y @ tr) = Some (x @ y)"
  using assms strip_behind_append [OF assms(1), of 4 iv] trim_tail_append [of 4 tr "x @ y"]
  by (simp add: ol_rx_frag_wep_decap_def f_wep_def)

lemma defrag_decap_encapsulated:
  assumes "list_all2 (encapsulated sec h) ms cs"
  shows "defrag_decap sec h cs = (True, ms)"
proof -
  have dl: "decap_loop f cs = (True, ms)"
    if ic: "cipher_of sec = Some ic" and f: "\<And>x y iv tr. h = length x \<Longrightarrow> length iv = ic_header ic \<Longrightarrow>
          length tr = ic_trailer ic \<Longrightarrow> (length iv = 8 \<longrightarrow> iv ! 3 AND 0x20 \<noteq> 0) \<Longrightarrow>
          f (x @ iv @ y @ tr) = (True, x @ y)" for f ic
    using assms
  proof (intro decap_loop_all, elim list_all2_mono)
    fix m c assume "encapsulated sec h m c"
    then obtain iv tr where "h \<le> length (m_data m)"
      and c: "c = set_data (take h (m_data m) @ iv @ drop h (m_data m) @ tr) m"
      and "length iv = ic_header ic" "length tr = ic_trailer ic"
      "length iv = 8 \<longrightarrow> iv ! 3 AND 0x20 \<noteq> 0"
      using ic unfolding encapsulated_def by auto
    then show "f (m_data c) = (True, m_data m) \<and> set_data (m_data m) c = m"
      using f [of "take h (m_data m)" iv tr "drop h (m_data m)"] by simp
  qed
  have plain: "cs = ms" if "\<And>m c. encapsulated sec h m c \<Longrightarrow> c = m"
    using assms that by (auto simp: list_all2_conv_all_nth intro!: nth_equalityI)
  show ?thesis
  proof (cases sec)
    case htt_sec_type_none
    then have "cs = ms" by (intro plain) (auto simp: encapsulated_def cipher_of_def)
    with htt_sec_type_none show ?thesis by (simp add: defrag_decap_def)
  next
    case htt_sec_type_wapi
    then have "cs = ms" by (intro plain) (auto simp: encapsulated_def cipher_of_def)
    with htt_sec_type_wapi show ?thesis by (simp add: defrag_decap_def)
  next
    case htt_sec_type_wep128
    then have "decap_loop (decap_step (ol_rx_frag_wep_decap h)) cs = (True, ms)"
      by (intro dl [of f_wep]) (simp_all add: decap_step_def cipher_of_def f_wep_def wep_decap_parts)
    with htt_sec_type_wep128 show ?thesis by (simp add: defrag_decap_def)
  next
    case htt_sec_type_wep104
    then have "decap_loop (decap_step (ol_rx_frag_wep_decap h)) cs = (True, ms)"
      by (intro dl [of f_wep]) (simp_all add: decap_step_def cipher_of_def f_wep_def wep_decap_parts)
    with htt_sec_type_wep104 show ?thesis by (simp add: defrag_decap_def)
  next
    case htt_sec_type_wep40
    then have "decap_loop (decap_step (ol_rx_frag_wep_decap h)) cs = (True, ms)"
      by (intro dl [of f_wep]) (simp_all add: decap_step_def cipher_of_def f_wep_def wep_decap_parts)
    with htt_sec_type_wep40 show ?thesis by (simp add: defrag_decap_def)
  next
    case htt_sec_type_tkip
    then have "decap_loop (decap_step (ol_rx_frag_tkip_decap h)) cs = (True, ms)"
      by (intro dl [of f_tkip]) (simp_all add: decap_step_def cipher_of_def f_tkip_def decap_parts)
    with htt_sec_type_tkip show ?thesis by (simp add: defrag_decap_def)
  next
    case htt_sec_type_tkip_nomic
    then have "decap_loop (decap_step (ol_rx_frag_tkip_decap h)) cs = (True, ms)"
      by (intro dl [of f_tkip]) (simp_all add: decap_step_def cipher_of_def f_tkip_def decap_parts)
    with htt_sec_type_tkip_nomic show ?thesis by (simp add: defrag_decap_def)
  next
    case htt_sec_type_aes_ccmp
    then have "decap_loop (\<lambda>d. let (ok, d') = decap_step (ol_rx_frag_ccmp_demic h) d
        in if \<not> ok then (False, d') else decap_step (ol_rx_frag_ccmp_decap h) d') cs = (True, ms)"
      by (intro dl [of f_ccmp]) (simp_all add: decap_step_def cipher_of_def f_ccmp_def decap_parts)
    with htt_sec_type_aes_ccmp show ?thesis by (simp add: defrag_decap_def)
  qed
qed

section \<open>Recombination\<close>

lemma recombine_loop_ok:
  assumes "\<And>a b. nbuf_cat_ok e a b"
  shows "fst (recombine_loop e h m ms s) = Some (set_data (m_data m @ concat (map (drop h \<circ> m_data) ms)) m)"
  using assms by (induction ms arbitrary: m s) (simp_all add: Let_def)

definition clear_frag_bits :: "8 word list \<Rightarrow> 8 word list" where
  "clear_frag_bits d = upd_byte 22 (\<lambda>b. b AND 0xf0) (upd_byte 1 (\<lambda>b. b AND 0xfb) d)"


section \<open>The list of fragments\<close>

text \<open>Storing a sequence of fragments; the flag is that of the last insertion.\<close>

fun insert_all :: "fraglist \<Rightarrow> rx_msdu list \<Rightarrow> fraglist \<times> bool \<times> rx_msdu list" where
  "insert_all fl [] = (fl, False, [])"
| "insert_all fl (f # fs) =
     (let (fl1, pres, fr) = ol_rx_fraglist_insert fl f False;
          (fl2, pres2, fr2) = insert_all fl1 fs
      in (fl2, if fs = [] then pres else pres2, fr @ fr2))"

abbreviation no_frags :: fraglist where "no_frags \<equiv> \<lparr>fl_chain = [], fl_rest = []\<rparr>"

abbreviation frag_nos :: "rx_msdu list \<Rightarrow> nat list" where
  "frag_nos ms \<equiv> map (\<lambda>m. frag_no (m_data m)) ms"

lemma frag_no_less: "frag_no d < 16"
  by (simp add: frag_no_def and_nat_numerals(3) less_Suc_eq_le and_mask_mod [where k = 4, simplified]
      del: take_bit_numeral_1)

lemma frag_count_iff:
  assumes "c + length ms < 256"
  shows "frag_count c ms = (frag_nos ms = [Suc c..<Suc c + length ms])"
  using assms
proof (induction ms arbitrary: c)
  case (Cons m ms)
  then have "u8 (c + 1) = Suc c" by simp
  moreover have "frag_count (Suc c) ms = (frag_nos ms = [Suc (Suc c)..<Suc (Suc c) + length ms])"
    using Cons.prems by (intro Cons.IH) simp
  ultimately show ?case by (auto simp: upt_conv_Cons simp del: upt_Suc)
qed simp

lemma increasing_length:
  assumes "sorted_wrt (<) (frag_nos fs)"
  shows "length fs \<le> 16"
proof -
  have "distinct (frag_nos fs)" using assms strict_sorted_iff by blast
  moreover have "set (frag_nos fs) \<subseteq> {..<16}" using frag_no_less by auto
  ultimately have "length (frag_nos fs) \<le> card {..<16::nat}"
    by (metis card_mono distinct_card finite_lessThan)
  then show ?thesis by simp
qed

lemma insert_all_snoc:
  "insert_all fl (fs @ [f]) =
    (let (fl1, pres, fr) = insert_all fl fs; (fl2, pres2, fr2) = ol_rx_fraglist_insert fl1 f False
     in (fl2, pres2, fr @ fr2))"
  by (induction fs arbitrary: fl) (auto simp: Let_def split: prod.splits)

lemma insert_all_increasing:
  assumes "sorted_wrt (<) (frag_nos fs)"
  shows "\<exists>b. insert_all no_frags fs = (\<lparr>fl_chain = fs, fl_rest = []\<rparr>, b, [])"
  using assms
proof (induction fs rule: rev_induct)
  case Nil
  then show ?case by (intro exI [of _ False]) simp
next
  case (snoc f fs)
  then obtain b where b: "insert_all no_frags fs = (\<lparr>fl_chain = fs, fl_rest = []\<rparr>, b, [])"
    by (auto simp: sorted_wrt_append)
  show ?case
  proof (cases "fs = []")
    case True
    then show ?thesis by (intro exI [of _ False]) (simp add: ol_rx_fraglist_insert_def)
  next
    case False
    then have "last fs \<in> set fs" by simp
    then have "frag_no (m_data (last fs)) < frag_no (m_data f)"
      using snoc.prems by (auto simp: sorted_wrt_append)
    with False b show ?thesis
      by (intro exI [of _ "frag_all_present \<lparr>fl_chain = fs @ [f], fl_rest = []\<rparr>"])
        (simp add: insert_all_snoc ol_rx_fraglist_insert_def Let_def)
  qed
qed

text \<open>
  Property C18. Fragments that arrive in increasing order, with or without gaps, are collected in
  that order, none is dropped, and after the last one the list is declared complete exactly when the
  numbers are \<open>0, 1, 2, \<dots>\<close> without a gap and the last fragment has no successor.
\<close>

theorem increasing_fragments_complete_exactly:
  assumes "sorted_wrt (<) (frag_nos fs)" and "2 \<le> length fs"
  shows "insert_all no_frags fs =
    (\<lparr>fl_chain = fs, fl_rest = []\<rparr>,
     frag_nos fs = [0..<length fs] \<and> \<not> more_frag (m_data (last fs)), [])"
proof -
  from assms(2) obtain gs f where fs: "fs = gs @ [f]" by (cases fs rule: rev_cases) auto
  with assms(2) have gs: "gs \<noteq> []" by auto
  obtain g rest where g: "gs = g # rest" using gs by (cases gs) auto
  have "sorted_wrt (<) (frag_nos gs)" using assms(1) fs by (simp add: sorted_wrt_append)
  then obtain b where b: "insert_all no_frags gs = (\<lparr>fl_chain = gs, fl_rest = []\<rparr>, b, [])"
    using insert_all_increasing by blast
  have "last gs \<in> set gs" using gs by simp
  then have lt: "frag_no (m_data (last gs)) < frag_no (m_data f)"
    using assms(1) fs by (auto simp: sorted_wrt_append)
  have "frag_all_present \<lparr>fl_chain = fs, fl_rest = []\<rparr> =
      (\<not> more_frag (m_data f) \<and> frag_nos (rest @ [f]) = [1..<1 + length (rest @ [f])])"
    using frag_count_iff [of 0 "rest @ [f]"] increasing_length [OF assms(1)]
    by (simp add: frag_all_present_def fs g)
  also have "\<dots> = (frag_nos fs = [0..<length fs] \<and> \<not> more_frag (m_data f))"
  proof -
    have "frag_no (m_data g) < hd (frag_nos (rest @ [f]))"
      using assms(1) by (cases rest) (auto simp: fs g)
    then have "frag_no (m_data g) = 0" if "frag_nos (rest @ [f]) = [1..<1 + length (rest @ [f])]"
      using that by (simp only:) (simp add: upt_conv_Cons del: upt_Suc)
    moreover have "[0..<length fs] = 0 # [1..<1 + length (rest @ [f])]"
      by (simp add: fs g upt_conv_Cons del: upt_Suc)
    ultimately show ?thesis by (auto simp: fs g simp del: upt_Suc)
  qed
  finally show ?thesis
    using lt gs b by (simp add: fs insert_all_snoc ol_rx_fraglist_insert_def Let_def)
qed

text \<open>
  Property C20. A fragment that arrives after one with a larger number is lost when the next larger
  one follows: it is linked behind the tail without the tail pointer moving, so the next append
  overwrites the link. It is then neither in the list nor freed, and the MSDU is not complete.
\<close>

theorem late_fragment_is_lost:
  assumes "frag_no (m_data f) < frag_no (m_data c)" and "frag_no (m_data c) < frag_no (m_data g)"
  shows "insert_all \<lparr>fl_chain = [c], fl_rest = []\<rparr> [f, g] = (\<lparr>fl_chain = [c, g], fl_rest = []\<rparr>, False, [])"
proof -
  have "u8 (0 + 1) = (1 :: nat)" by simp
  then have "\<not> frag_count 0 [g]" using assms by simp
  then show ?thesis
    using assms by (simp add: ol_rx_fraglist_insert_def frag_all_present_def Let_def)
qed

text \<open>
  Property C19. When fragment 2, the last one, is followed by fragment 1, the two are declared a
  complete MSDU: the count starts behind the head of the list, whose own number is never looked at.
  The frame that is reassembled has the payload of fragment 2 in front of that of fragment 1, and
  fragment 0 is missing.
\<close>

theorem incomplete_msdu_declared_complete:
  assumes "frag_no (m_data a) = 2" and "\<not> more_frag (m_data a)" and "frag_no (m_data b) = 1"
  shows "insert_all no_frags [a, b] = (\<lparr>fl_chain = [a], fl_rest = [b]\<rparr>, True, [])"
  using assms by (simp add: ol_rx_fraglist_insert_def frag_all_present_def Let_def)

section \<open>The wait list\<close>

definition waiting :: "rx_pdev \<Rightarrow> bool" where
  "waiting s \<longleftrightarrow> distinct (defrag_waitlist s) \<and>
     (\<forall>(p, tid)\<in>set (defrag_waitlist s). ro_on_waitlist (reorder_of s p tid) \<and>
        ro_tid (reorder_of s p tid) < OL_TXRX_NUM_EXT_TIDS)"

definition expired :: "rx_env \<Rightarrow> rx_pdev \<Rightarrow> nat \<times> nat \<Rightarrow> bool" where
  "expired e s = (\<lambda>(p, tid). defrag_timeout_ms (reorder_of s p tid) \<le> now_ms e)"

definition waiting_frags :: "rx_pdev \<Rightarrow> nat \<times> nat \<Rightarrow> rx_msdu list" where
  "waiting_frags s = (\<lambda>(p, tid). if ro_slot (reorder_of s p tid) 0 = [] then []
     else ro_slot (reorder_of s p tid) 0 @ ro_frag_rest (reorder_of s p tid))"

definition flush_waiter :: "nat \<times> nat \<Rightarrow> rx_pdev \<Rightarrow> rx_pdev" where
  "flush_waiter = (\<lambda>(p, tid) s. ol_rx_reorder_flush_frag p tid 0 (ol_rx_defrag_waitlist_remove p tid s))"

lemma ro_slot_waitlist [simp]: "ro_slot (r\<lparr>ro_on_waitlist := b\<rparr>) i = ro_slot r i"
  by (simp add: ro_slot_def ro_slots_def split: option.split)

lemma flush_waiter:
  assumes "ro_on_waitlist (reorder_of s p tid)"
  shows "defrag_waitlist (flush_waiter (p, tid) s) = remove1 (p, tid) (defrag_waitlist s)"
    and "rx_freed (flush_waiter (p, tid) s) = rx_freed s @ waiting_frags s (p, tid)"
    and "(q, t) \<noteq> (p, tid) \<Longrightarrow> reorder_of (flush_waiter (p, tid) s) q t = reorder_of s q t"
  using assms
  by (auto simp add: flush_waiter_def ol_rx_reorder_flush_frag_def ol_rx_defrag_waitlist_remove_def
      waiting_frags_def Let_def ol_rx_frames_free_eq)

lemma waitlist_flush_loop_eq:
  assumes "waiting s" and "defrag_waitlist s = es"
  shows "defrag_waitlist (waitlist_flush_loop (now_ms e) es s) = dropWhile (expired e s) es \<and>
    rx_freed (waitlist_flush_loop (now_ms e) es s) =
      rx_freed s @ concat (map (waiting_frags s) (takeWhile (expired e s) es))"
  using assms
proof (induction es arbitrary: s)
  case Nil
  then show ?case by simp
next
  case (Cons x es)
  obtain p tid where x: "x = (p, tid)" by (cases x)
  have on: "ro_on_waitlist (reorder_of s p tid)" "ro_tid (reorder_of s p tid) < OL_TXRX_NUM_EXT_TIDS"
    and dist: "distinct ((p, tid) # es)"
    using Cons.prems by (auto simp: waiting_def x)
  note f = flush_waiter [OF on(1)]
  show ?case
  proof (cases "expired e s x")
    case False
    then show ?thesis using Cons.prems(2) by (simp add: expired_def x)
  next
    case True
    define t where "t = flush_waiter (p, tid) s"
    have same: "reorder_of t q u = reorder_of s q u" if "(q, u) \<in> set es" for q u
      unfolding t_def by (rule f(3)) (use that dist in auto)
    have wl: "defrag_waitlist t = es" using f(1) Cons.prems(2) by (simp add: t_def x)
    have "waiting t"
      using Cons.prems(1) same dist by (auto simp: waiting_def wl Cons.prems(2) x)
    from Cons.IH [OF this wl]
    have "defrag_waitlist (waitlist_flush_loop (now_ms e) es t) = dropWhile (expired e t) es \<and>
      rx_freed (waitlist_flush_loop (now_ms e) es t) =
        rx_freed t @ concat (map (waiting_frags t) (takeWhile (expired e t) es))" .
    moreover have ex: "expired e t y = expired e s y" if "y \<in> set es" for y
      using same that by (auto simp: expired_def split: prod.split)
    have wf: "waiting_frags t y = waiting_frags s y" if "y \<in> set es" for y
      using same that by (auto simp: waiting_frags_def split: prod.split)
    have "dropWhile (expired e t) es = dropWhile (expired e s) es"
      by (rule dropWhile_cong [OF refl]) (rule ex)
    moreover have "takeWhile (expired e t) es = takeWhile (expired e s) es"
      by (rule takeWhile_cong [OF refl]) (rule ex)
    moreover have "map (waiting_frags t) (takeWhile (expired e s) es) = map (waiting_frags s) (takeWhile (expired e s) es)"
      by (rule map_cong [OF refl]) (rule wf, blast dest: set_takeWhileD)
    moreover have "waitlist_flush_loop (now_ms e) (x # es) s = waitlist_flush_loop (now_ms e) es t"
      using True on(2) by (simp add: x t_def flush_waiter_def expired_def)
    moreover have "rx_freed t = rx_freed s @ waiting_frags s x" using f(2) by (simp add: t_def x)
    ultimately show ?thesis using True by (simp only: dropWhile.simps takeWhile.simps if_True list.map concat.simps append_assoc)
  qed
qed

text \<open>
  The flush of the wait list takes off exactly the TIDs in front whose time has come,
  frees every fragment they had collected, in order, and nothing else.
\<close>

theorem ol_rx_defrag_waitlist_flush_exact:
  assumes "waiting s"
  shows "defrag_waitlist (ol_rx_defrag_waitlist_flush e s) = dropWhile (expired e s) (defrag_waitlist s) \<and>
    rx_freed (ol_rx_defrag_waitlist_flush e s) =
      rx_freed s @ concat (map (waiting_frags s) (takeWhile (expired e s) (defrag_waitlist s)))"
  unfolding ol_rx_defrag_waitlist_flush_def by (rule waitlist_flush_loop_eq [OF assms refl])

end
