(* ===== verification/RxOps.thy ===== *)
theory RxOps
  imports RxInd RxReorderProps RxDefragProps
begin

unbundle bit_operations_syntax

text \<open>
  The receive path as a whole: the operations HTT and the control path call, an invariant they all
  keep, and what follows from it for the reorder timer and for the array accesses.
\<close>

section \<open>The operations\<close>

datatype rx_op =
    RxIndication nat nat rx_ind
  | RxFragIndication nat nat "nat option" rx_msdu
  | RxFlush nat nat nat nat htt_rx_flush_action
  | RxPnInd nat nat nat nat "nat list"
  | RxAddba nat nat nat
  | RxDelba nat nat
  | RxTimeout ol_tx_cat
  | RxPeerInit nat
  | RxPeerCleanup nat

fun rx_step :: "rx_pdev \<Rightarrow> rx_env \<times> rx_op \<Rightarrow> rx_pdev" where
  "rx_step s (e, RxIndication peer_id tid ind) = ol_rx_indication_handler e peer_id tid ind s"
| "rx_step s (e, RxFragIndication peer_id tid fl m) = ol_rx_frag_indication_handler e peer_id tid fl m s"
| "rx_step s (e, RxFlush peer_id tid a b act) = ol_rx_flush_handler e peer_id tid a b act s"
| "rx_step s (e, RxPnInd peer_id tid a b ies) = ol_rx_pn_ind_handler e peer_id tid a b ies s"
| "rx_step s (e, RxAddba peer_id tid win) = ol_rx_addba_handler peer_id tid win 0 False s"
| "rx_step s (e, RxDelba peer_id tid) = ol_rx_delba_handler peer_id tid s"
| "rx_step s (e, RxTimeout ac) = ol_rx_reorder_timeout e ac s"
| "rx_step s (e, RxPeerInit p) = ol_rx_peer_init p s"
| "rx_step s (e, RxPeerCleanup p) = ol_rx_peer_cleanup e p s"

text \<open>
  What is asked of the callers: \<open>htt_t2h.c\<close> drops rx indications with an extended TID outside the
  range. That a block-ack window has at most 64 frames is up to the target; the handler has only a
  debug assertion for it and reads behind \<open>g_log2ceil\<close> otherwise.
\<close>

fun rx_ok :: "rx_pdev \<Rightarrow> rx_env \<times> rx_op \<Rightarrow> bool" where
  "rx_ok s (e, RxIndication peer_id tid ind) = (tid < OL_TXRX_NUM_EXT_TIDS)"
| "rx_ok s (e, RxAddba peer_id tid win) = (win \<le> 64)"
| "rx_ok s _ = True"

section \<open>The invariant\<close>

definition tid_ok :: "ol_rx_reorder \<Rightarrow> bool" where
  "tid_ok r \<longleftrightarrow> ro_ok r \<and> num_mpdus r = 0 \<and> \<not> tm_active r"

definition history_ok :: "ol_rx_reorder_history option \<Rightarrow> bool" where
  "history_ok ho = (case ho of None \<Rightarrow> True
     | Some h \<Rightarrow> rh_curr_index h < OL_MAX_RX_REORDER_HISTORY \<and> length (rh_record h) = OL_MAX_RX_REORDER_HISTORY)"

definition rx_inv :: "rx_pdev \<Rightarrow> bool" where
  "rx_inv s \<longleftrightarrow>
     (\<forall>p. (\<forall>tid<OL_TXRX_NUM_EXT_TIDS. tid_ok (reorder_of s p tid)) \<and> history_ok (reorder_history (peers s p))) \<and>
     (\<forall>ac. vt_list s ac = [] \<and> vt_timer s ac = None)"

lemma rx_inv_cong:
  assumes "\<And>p. tids_rx_reorder (peers s' p) = tids_rx_reorder (peers s p)"
    and "\<And>p. reorder_history (peers s' p) = reorder_history (peers s p)"
    and "vt_list s' = vt_list s" and "vt_timer s' = vt_timer s"
  shows "rx_inv s' = rx_inv s"
  unfolding rx_inv_def assms ..

lemma rx_inv_core: "rx_core s' = rx_core s \<Longrightarrow> rx_inv s' = rx_inv s"
  by (rule rx_inv_cong) (rule rx_core_fields, assumption)+

lemma rx_invD:
  "rx_inv s \<Longrightarrow> tid < OL_TXRX_NUM_EXT_TIDS \<Longrightarrow> tid_ok (reorder_of s p tid)"
  "rx_inv s \<Longrightarrow> history_ok (reorder_history (peers s p))"
  "rx_inv s \<Longrightarrow> vt_list s ac = []"
  by (simp_all add: rx_inv_def)

lemma rx_inv_upd_reorder:
  assumes "rx_inv s" and "tid < OL_TXRX_NUM_EXT_TIDS \<Longrightarrow> tid_ok (f (reorder_of s p tid))"
  shows "rx_inv (upd_reorder p tid f s)"
  using assms by (auto simp: rx_inv_def)

lemma rx_inv_upd_peer:
  assumes "rx_inv s" and "\<And>pr. tids_rx_reorder (g pr) = tids_rx_reorder pr"
    and "\<And>pr. reorder_history (g pr) = reorder_history pr"
  shows "rx_inv (upd_peer p g s)"
  using assms by (auto simp: rx_inv_def)

lemma rx_inv_fields [simp]:
  "rx_inv (s\<lparr>rx_desc_size_hl := n\<rparr>) = rx_inv s" "rx_inv (s\<lparr>rx_freed := x\<rparr>) = rx_inv s"
  "rx_inv (s\<lparr>rx_holes := h\<rparr>) = rx_inv s" "rx_inv (s\<lparr>defrag_waitlist := w\<rparr>) = rx_inv s"
  "rx_inv (s\<lparr>msdu_mc_dup_drop := n\<rparr>) = rx_inv s" "rx_inv (s\<lparr>cur_seq_num_hl := n\<rparr>) = rx_inv s"
  by (simp_all add: rx_inv_def)

lemma rx_inv_cached [simp]: "rx_inv (seq_num_cached s d) = rx_inv s"
  by (simp add: seq_num_cached_def)

lemma rx_inv_frees [simp]: "rx_inv (ol_rx_frames_free ms s) = rx_inv s"
  "rx_inv (htt_rx_desc_frame_free m s) = rx_inv s"
  by (simp_all add: ol_rx_frames_free_eq htt_rx_desc_frame_free_def)

section \<open>The operations of a single TID\<close>

lemma tid_ok_upds [simp]:
  "tid_ok (r\<lparr>ro_on_waitlist := b\<rparr>) = tid_ok r" "tid_ok (r\<lparr>defrag_timeout_ms := n\<rparr>) = tid_ok r"
  by (simp_all add: tid_ok_def ro_ok_def ro_slot_def)

lemma tid_ok_put: "tid_ok r \<Longrightarrow> i < length (ro_slots r) \<Longrightarrow> tid_ok (ro_put i v r)"
  by (simp add: tid_ok_def ro_put_ok)

lemma tid_ok_clear:
  "tid_ok r \<Longrightarrow> (\<And>i. i \<in> set is \<Longrightarrow> i < length (ro_slots r)) \<Longrightarrow> tid_ok (ro_clear is r)"
  by (simp add: tid_ok_def ro_clear_ok)

lemma tid_ok_init: "tid_ok r \<Longrightarrow> tid_ok (ol_rx_reorder_init tid r)"
  by (auto simp: tid_ok_def ro_ok_def ol_rx_reorder_init_def ro_slots_def ro_slot_def
      intro: exI [of _ "0::nat"])

lemma masked_slot: "ro_ok r \<Longrightarrow> i AND win_sz_mask r < length (ro_slots r)"
  by (erule ro_okE) (simp only: and_mask_mod, simp)

lemma tid_ok_masked: "tid_ok r \<Longrightarrow> i AND win_sz_mask r < length (ro_slots r)"
  by (simp add: tid_ok_def masked_slot)

lemma tid_ok_rest: "tid_ok r \<Longrightarrow> ro_slot r 0 = [] \<Longrightarrow> ro_frag_rest r = []"
  by (simp add: tid_ok_def ro_ok_def)

lemma rx_inv_timeout_remove [simp]:
  "rx_inv s \<Longrightarrow> tid < OL_TXRX_NUM_EXT_TIDS \<Longrightarrow> ol_rx_reorder_timeout_remove p tid s = s"
  using rx_invD(1) [of s tid p] by (simp add: ol_rx_reorder_timeout_remove_def tid_ok_def)

lemma rx_inv_timeout_removeI:
  "rx_inv s \<Longrightarrow> tid < OL_TXRX_NUM_EXT_TIDS \<Longrightarrow> rx_inv (ol_rx_reorder_timeout_remove p tid s)"
  by simp

lemma rx_inv_timeout_update [simp]:
  "rx_inv s \<Longrightarrow> tid < OL_TXRX_NUM_EXT_TIDS \<Longrightarrow> ol_rx_reorder_timeout_update e po tid s = s"
  using rx_invD(1) [of s tid] by (simp add: ol_rx_reorder_timeout_update_def tid_ok_def split: option.split)

lemma rx_inv_waitlist_remove:
  assumes "rx_inv s"
  shows "rx_inv (ol_rx_defrag_waitlist_remove p tid s)"
proof -
  have "rx_inv (upd_reorder p tid (\<lambda>r. r\<lparr>ro_on_waitlist := False\<rparr>) s)"
    using assms by (rule rx_inv_upd_reorder) (simp add: rx_invD(1) [OF assms])
  then show ?thesis using assms by (simp add: ol_rx_defrag_waitlist_remove_def)
qed

lemma rx_inv_hand_over:
  assumes "\<And>t. rx_core (f ms t) = rx_core t" and "rx_inv s"
  shows "rx_inv (hand_over f p tid ms s)"
proof -
  have "rx_inv (hand_over f p tid ms s) = rx_inv s"
    by (rule rx_inv_cong) (rule hand_over_reorder, rule assms(1))+
  with assms(2) show ?thesis by simp
qed

lemma rx_inv_next_rel:
  "rx_inv s \<Longrightarrow> rx_inv (upd_peer p (\<lambda>pr. pr\<lparr>tids_next_rel_idx := g pr\<rparr>) s)"
  "rx_inv s \<Longrightarrow> rx_inv (upd_peer p (\<lambda>pr. pr\<lparr>tids_last_seq := h pr\<rparr>) s)"
  "rx_inv s \<Longrightarrow> rx_inv (upd_peer p (\<lambda>pr. pr\<lparr>fw_pn_check := b\<rparr>) s)"
  "rx_inv s \<Longrightarrow> rx_inv (upd_peer p (\<lambda>pr. pr\<lparr>keyinstalled := b\<rparr>) s)"
  "rx_inv s \<Longrightarrow> rx_inv (upd_peer p (\<lambda>pr. pr\<lparr>tids_mcast_last_seq := k pr\<rparr>) s)"
  by (rule rx_inv_upd_peer; simp)+

lemma rx_inv_clear:
  assumes "rx_inv s" and "tid < OL_TXRX_NUM_EXT_TIDS" and "r = reorder_of s p tid"
  shows "rx_inv (upd_reorder p tid (\<lambda>_. ro_clear (reorder_walk (win_sz_mask r) a b) r)
    (upd_peer p (\<lambda>pr. pr\<lparr>tids_next_rel_idx := g pr\<rparr>) s))"
proof (rule rx_inv_upd_reorder [OF rx_inv_next_rel(1) [OF assms(1)]])
  have ok: "tid_ok r" using rx_invD(1) [OF assms(1,2)] assms(3) by simp
  then show "tid_ok (ro_clear (reorder_walk (win_sz_mask r) a b) r)"
    using ro_walk_ok(2) by (intro tid_ok_clear) (auto simp: tid_ok_def)
qed

lemma rx_inv_flush:
  assumes "rx_inv s" and "tid < OL_TXRX_NUM_EXT_TIDS"
  shows "rx_inv (ol_rx_reorder_flush e p tid a b act s)"
proof -
  have ok: "ro_ok (reorder_of s p tid)" using rx_invD(1) [OF assms] by (simp add: tid_ok_def)
  show ?thesis
    unfolding ol_rx_reorder_flush_eq [OF ok]
    by (intro rx_inv_timeout_removeI rx_inv_hand_over flush_proc_spec rx_inv_waitlist_remove rx_inv_clear
        assms refl)
qed

lemma rx_inv_release:
  assumes "rx_inv s" and "tid < OL_TXRX_NUM_EXT_TIDS"
  shows "rx_inv (ol_rx_reorder_release e p tid a b s)"
proof -
  have ok: "ro_ok (reorder_of s p tid)" using rx_invD(1) [OF assms] by (simp add: tid_ok_def)
  show ?thesis
    unfolding ol_rx_reorder_release_eq [OF ok]
    by (intro rx_inv_timeout_removeI rx_inv_hand_over call_rx_opt_proc_spec rx_inv_clear assms refl)
qed

lemma rx_inv_store:
  assumes "rx_inv s"
  shows "rx_inv (ol_rx_reorder_store p tid idx ms s)"
  unfolding ol_rx_reorder_store_def using assms
  by (rule rx_inv_upd_reorder) (intro tid_ok_put tid_ok_masked rx_invD(1) [OF assms])

lemma rx_inv_history:
  assumes "rx_inv s"
  shows "rx_inv (ol_rx_reorder_update_history p ty tid a b i s)"
proof (cases "reorder_history (peers s p)")
  case None
  with assms show ?thesis by (simp add: ol_rx_reorder_update_history_def)
next
  case (Some h)
  have "rh_curr_index h < 50" "length (rh_record h) = 50"
    using rx_invD(2) [OF assms, of p] Some by (simp_all add: history_ok_def OL_MAX_RX_REORDER_HISTORY_def)
  with assms Some show ?thesis
    by (auto simp add: ol_rx_reorder_update_history_def rx_inv_def Let_def history_ok_def
        OL_MAX_RX_REORDER_HISTORY_def)
qed

lemma rx_inv_flush_frag:
  assumes "rx_inv s"
  shows "rx_inv (ol_rx_reorder_flush_frag p tid sq s)"
proof -
  have "rx_inv (upd_reorder p tid (ro_put (sq AND win_sz_mask (reorder_of s p tid)) []) (ol_rx_frames_free ms s))" for ms
    by (rule rx_inv_upd_reorder)
      (use assms rx_invD(1) [OF assms, of tid p] in \<open>simp_all add: tid_ok_put tid_ok_masked ol_rx_frames_free_eq\<close>)
  with assms show ?thesis by (simp add: ol_rx_reorder_flush_frag_def Let_def)
qed

section \<open>Defragmentation\<close>

lemma htt_free_core [simp]: "rx_core (htt_rx_desc_frame_free m s) = rx_core s"
  by (simp add: htt_rx_desc_frame_free_def)

lemma defrag_pn_loop_core: "rx_core (snd (defrag_pn_loop e p tid done ms s)) = rx_core s"
proof (induction ms arbitrary: "done" s)
  case (Cons m ms)
  obtain out s' where b: "ol_rx_pn_check_base e p tid [m] s = (out, s')"
    by (cases "ol_rx_pn_check_base e p tid [m] s")
  then have "rx_core s' = rx_core s" using ol_rx_pn_check_base_spec by blast
  with b Cons.IH show ?case by simp
qed simp

lemma recombine_loop_core: "rx_core (snd (recombine_loop e h m ms s)) = rx_core s"
  by (induction ms arbitrary: m s) (simp_all add: Let_def)

lemma recombine_core: "rx_core (snd (ol_rx_defrag_decap_recombine e ms h s)) = rx_core s"
  using recombine_loop_core [of e h "hd ms" "tl ms" s]
  by (auto simp: ol_rx_defrag_decap_recombine_def split: prod.splits option.splits)

lemma defrag_msdu_core: "rx_core (snd (defrag_msdu e p ms s)) = rx_core s"
proof -
  have "rx_core t = rx_core s" if "ol_rx_defrag_decap_recombine e fl h s = (r, t)" for fl h r t
    using recombine_core [of e fl h s] that by simp
  then show ?thesis
    by (auto simp: defrag_msdu_def Let_def split: prod.splits option.splits)
qed

lemma ol_rx_defrag_core: "rx_core (ol_rx_defrag e p tid ms s) = rx_core s"
proof -
  have 1: "rx_core t = rx_core s" if "defrag_pn_loop e p tid [] ms s = (r, t)" for r t
    using defrag_pn_loop_core [of e p tid "[]" ms s] that by simp
  have 2: "rx_core u = rx_core t" if "defrag_msdu e p fl t = (r, u)" for fl r t u
    using defrag_msdu_core [of e p fl t] that by simp
  show ?thesis
    by (auto simp: ol_rx_defrag_def ol_rx_in_order_deliver_def ol_rx_deliver_spec ol_rx_fwd_check_spec(1)
        1 2 split: prod.splits option.splits)
qed

lemma put_frags_ok:
  assumes "tid_ok r" and "i < length (ro_slots r)" and "fl_chain fl = [] \<Longrightarrow> fl_rest fl = []"
  shows "tid_ok (put_frags i fl r)"
proof -
  have slots: "ro_slots (put_frags i fl r) = (ro_slots r)[i := fl_chain fl]"
  proof -
    have "ro_slots (q\<lparr>ro_frag_rest := x\<rparr>) = ro_slots q" for q x
      by (simp add: ro_slots_def split: option.split)
    then show ?thesis by (simp add: put_frags_def Let_def ro_put_slots)
  qed
  have "win_sz_mask (put_frags i fl r) = win_sz_mask r" "num_mpdus (put_frags i fl r) = num_mpdus r"
    "tm_active (put_frags i fl r) = tm_active r"
    "ro_frag_rest (put_frags i fl r) = (if i = 0 then fl_rest fl else ro_frag_rest r)"
    by (simp_all add: put_frags_def Let_def ro_put_rest)
  with assms slots show ?thesis
    by (auto simp: tid_ok_def ro_ok_def ro_slot_def nth_list_update)
qed

lemma insert_keeps_head:
  "ol_rx_fraglist_insert fl frag b = (fl', pres, fr) \<Longrightarrow> fl_chain fl' \<noteq> []"
  by (auto simp: ol_rx_fraglist_insert_def Let_def split: if_splits prod.splits)

lemma rx_inv_put_frags:
  assumes "rx_inv s" and "fl_chain fl = [] \<Longrightarrow> fl_rest fl = []"
  shows "rx_inv (upd_reorder p tid (put_frags (sq AND win_sz_mask (reorder_of s p tid)) fl) s)"
    and "rx_inv (upd_reorder p tid (\<lambda>r. (put_frags (sq AND win_sz_mask (reorder_of s p tid)) fl r)
           \<lparr>defrag_timeout_ms := n\<rparr>) s)"
  using rx_invD(1) [OF assms(1), of tid p]
  by (intro rx_inv_upd_reorder [OF assms(1)], simp add: put_frags_ok tid_ok_masked assms(2))+

lemma rx_inv_waitlist_add:
  assumes "rx_inv s"
  shows "rx_inv (ol_rx_defrag_waitlist_add p tid
    (upd_reorder p tid (\<lambda>r. r\<lparr>defrag_timeout_ms := n\<rparr>) s))"
  unfolding ol_rx_defrag_waitlist_add_def rx_inv_fields
  by (intro rx_inv_upd_reorder assms) (simp_all add: rx_invD(1) [OF assms])

lemma mask_upds:
  "win_sz_mask (reorder_of (ol_rx_frames_free ms s) p tid) = win_sz_mask (reorder_of s p tid)"
  "win_sz_mask (put_frags i fl r) = win_sz_mask r"
  by (simp_all add: ol_rx_frames_free_eq put_frags_def Let_def)

lemma rx_inv_if: "rx_inv s \<Longrightarrow> rx_inv t \<Longrightarrow> rx_inv (if c then s else t)"
  by simp

lemma rx_inv_store_frag:
  assumes "rx_inv s"
  shows "rx_inv (ol_rx_reorder_store_frag e p tid sn frag s)"
proof -
  define m where "m = win_sz_mask (reorder_of s p tid)"
  define fl where "fl = get_frags (sn AND m) (reorder_of s p tid)"
  define st where "st = (if fl_chain fl \<noteq> [] \<and> frag_mismatch (m_data frag) (m_data (hd (fl_chain fl)))
      then (no_frags, ol_rx_frames_free (fl_chain fl @ fl_rest fl) s) else (fl, s))"
  obtain fl1 s1 where st1: "st = (fl1, s1)" by (cases st)
  obtain fl2 pres fr where ins: "ol_rx_fraglist_insert fl1 frag False = (fl2, pres, fr)"
    by (cases "ol_rx_fraglist_insert fl1 frag False")
  define s2 where "s2 = ol_rx_frames_free fr (upd_reorder p tid (put_frags (sn AND m) fl2) s1)"
  define s3 where "s3 = (if defrag_timeout_check s2 then ol_rx_defrag_waitlist_remove p tid s2 else s2)"
  have s1: "rx_inv s1" "win_sz_mask (reorder_of s1 p tid) = m"
    using st1 assms by (auto simp: st_def m_def mask_upds split: if_splits)
  have "rx_inv (upd_reorder p tid (put_frags (sn AND m) fl2) s1)"
    using rx_inv_put_frags(1) [OF s1(1), of fl2 p tid sn] s1(2) insert_keeps_head [OF ins] by simp
  then have s3: "rx_inv s3" by (simp add: s3_def s2_def rx_inv_waitlist_remove)
  have m3: "win_sz_mask (reorder_of s3 p tid) = m"
    by (simp add: s3_def waitlist_remove_keeps s2_def mask_upds s1(2))
  have df: "rx_inv (ol_rx_defrag e p tid ms t) = rx_inv t"
    "win_sz_mask (reorder_of (ol_rx_defrag e p tid ms t) p tid) = win_sz_mask (reorder_of t p tid)" for ms t
    by (rule rx_inv_core [OF ol_rx_defrag_core]) (simp add: rx_core_fields(13) [OF ol_rx_defrag_core])
  have a: "rx_inv (upd_reorder p tid (put_frags (sn AND m) no_frags) (ol_rx_defrag e p tid [frag] s))"
    using rx_inv_put_frags(1) [of "ol_rx_defrag e p tid [frag] s" no_frags p tid sn] assms
    by (simp only: df m_def [symmetric]) simp
  have b: "rx_inv (upd_reorder p tid (\<lambda>r. (put_frags (sn AND m) no_frags r)\<lparr>defrag_timeout_ms := 0\<rparr>)
      (ol_rx_defrag e p tid ms s3))" for ms
    using rx_inv_put_frags(2) [where s = "ol_rx_defrag e p tid ms s3" and fl = no_frags and p = p
        and tid = tid and sq = sn and n = 0] s3
    by (simp only: df m3) simp
  have c: "rx_inv (ol_rx_defrag_waitlist_add p tid (upd_reorder p tid (\<lambda>r. r\<lparr>defrag_timeout_ms := n\<rparr>) s3))" for n
    by (rule rx_inv_waitlist_add [OF s3])
  have eq: "ol_rx_reorder_store_frag e p tid sn frag s =
    (if \<not> more_frag (m_data frag) \<and> frag_no (m_data frag) = 0 \<and> fl_chain fl = []
     then upd_reorder p tid (put_frags (sn AND m) no_frags) (ol_rx_defrag e p tid [frag] s)
     else if pres then upd_peer p (\<lambda>pr. pr\<lparr>tids_last_seq := (tids_last_seq pr)(tid := sn)\<rparr>)
       (upd_reorder p tid (\<lambda>r. (put_frags (sn AND m) no_frags r)\<lparr>defrag_timeout_ms := 0\<rparr>)
          (ol_rx_defrag e p tid (fl_chain fl2 @ fl_rest fl2) s3))
     else if defrag_timeout_check s3 then ol_rx_defrag_waitlist_add p tid
       (upd_reorder p tid (\<lambda>r. r\<lparr>defrag_timeout_ms := u32 (now_ms e + defrag_cfg_timeout_ms s3)\<rparr>) s3)
     else s3)"
    unfolding ol_rx_reorder_store_frag_def Let_def m_def [symmetric] fl_def [symmetric]
      st_def [symmetric] st1 prod.case ins s2_def [symmetric] s3_def [symmetric] ..
  show ?thesis
    unfolding eq by (intro rx_inv_if a c s3 rx_inv_next_rel(2) b)
qed

section \<open>The handlers\<close>

lemma rx_inv_frag_indication:
  "rx_inv s \<Longrightarrow> rx_inv (ol_rx_frag_indication_handler e peer_id tid fl m s)"
  by (auto simp: ol_rx_frag_indication_handler_def Let_def rx_inv_store_frag rx_inv_flush_frag split: option.split)

lemma rx_inv_seq_check:
  assumes "OL_RX_SEQ_NUM_CHECK p tid d s = (st, s')" and "rx_inv s"
  shows "rx_inv s'"
proof -
  have "rx_inv (upd_peer p (\<lambda>pr. pr\<lparr>tids_mcast_last_seq := k pr\<rparr>) (seq_num_cached s d))" for k
    by (rule rx_inv_next_rel(5)) (simp add: assms(2))
  with assms show ?thesis
    by (auto simp: OL_RX_SEQ_NUM_CHECK_def ol_rx_seq_num_check_def Let_def split: if_splits)
qed

lemma rx_inv_ind_mpdu: "rx_inv s \<Longrightarrow> rx_inv (snd (rx_ind_mpdu p tid m rel s))"
  by (auto simp: rx_ind_mpdu_def Let_def split: prod.split
      dest!: rx_inv_seq_check intro!: rx_inv_next_rel(2) rx_inv_history rx_inv_store)

lemma rx_inv_ind_mpdus: "rx_inv s \<Longrightarrow> rx_inv (snd (rx_ind_mpdus p tid ms rel s))"
proof (induction ms arbitrary: rel s)
  case (Cons m ms)
  have "rx_inv (snd (rx_ind_mpdu p tid m rel s))" using Cons.prems by (rule rx_inv_ind_mpdu)
  with Cons.IH show ?case by (simp add: split_beta)
qed simp

lemma rx_inv_ind_discard: "rx_inv s \<Longrightarrow> rx_inv (rx_ind_discard ms s)"
  by (induction ms arbitrary: s) simp_all

lemma rx_inv_ind_ranges: "rx_inv s \<Longrightarrow> rx_inv (snd (rx_ind_ranges po tid rs rel s))"
proof (induction rs arbitrary: rel s)
  case (Cons r rs)
  obtain st ms where r: "r = (st, ms)" by (cases r)
  have "rx_inv (snd (rx_ind_mpdus p tid ms rel s))" for p using Cons.prems by (rule rx_inv_ind_mpdus)
  with Cons.IH rx_inv_ind_discard [OF Cons.prems, of ms] show ?case
    by (cases po) (simp_all add: r split_beta)
qed simp

lemma rx_inv_flush_tids: "rx_inv s \<Longrightarrow> n \<le> OL_TXRX_NUM_EXT_TIDS \<Longrightarrow> rx_inv (reorder_flush_tids e p n s)"
  by (induction n arbitrary: s) (simp_all add: rx_inv_flush OL_TXRX_NUM_EXT_TIDS_def)

lemma rx_inv_timeout_cleanup:
  "rx_inv s \<Longrightarrow> n \<le> OL_TXRX_NUM_EXT_TIDS \<Longrightarrow> ol_rx_reorder_timeout_peer_cleanup p n s = s"
  by (induction n arbitrary: s) (simp_all add: Let_def OL_TXRX_NUM_EXT_TIDS_def)

lemma rx_inv_peer_cleanup: "rx_inv s \<Longrightarrow> rx_inv (ol_rx_reorder_peer_cleanup e p s)"
  by (simp add: ol_rx_reorder_peer_cleanup_def rx_inv_flush_tids rx_inv_timeout_cleanup)

lemma rx_inv_waitlist_flush: "rx_inv s \<Longrightarrow> rx_inv (ol_rx_defrag_waitlist_flush e s)"
proof -
  have "rx_inv (waitlist_flush_loop now es s)" if "rx_inv s" for now es s
    using that
    by (induction now es s rule: waitlist_flush_loop.induct) (simp_all add: rx_inv_flush_frag rx_inv_waitlist_remove)
  then show "rx_inv s \<Longrightarrow> rx_inv (ol_rx_defrag_waitlist_flush e s)" by (simp add: ol_rx_defrag_waitlist_flush_def)
qed

lemma rx_inv_ind_flush:
  assumes "rx_inv s" and "tid < OL_TXRX_NUM_EXT_TIDS"
  shows "rx_inv (rx_ind_flush e po tid fl s)"
  using assms
  by (cases po; cases fl) (auto simp: rx_ind_flush_def rx_inv_peer_cleanup rx_inv_history rx_inv_flush)

lemma rx_inv_ind_release:
  assumes "rx_inv s" and "tid < OL_TXRX_NUM_EXT_TIDS"
  shows "rx_inv (rx_ind_release e po tid rl rel s)"
  using assms by (cases po; cases rl) (auto simp: rx_ind_release_def rx_inv_history rx_inv_release)

lemma rx_inv_indication:
  assumes "rx_inv s" and "tid < OL_TXRX_NUM_EXT_TIDS"
  shows "rx_inv (ol_rx_indication_handler e peer_id tid ind s)"
proof -
  define po where "po = find_rx_peer peer_id s"
  obtain rel s2 where r: "rx_ind_ranges po tid (ri_ranges ind) (ri_release ind \<noteq> None)
      (rx_ind_flush e po tid (ri_flush ind) s) = (rel, s2)"
    by (cases "rx_ind_ranges po tid (ri_ranges ind) (ri_release ind \<noteq> None)
      (rx_ind_flush e po tid (ri_flush ind) s)")
  have "rx_inv s2" using rx_inv_ind_ranges [OF rx_inv_ind_flush [OF assms]] r by (metis snd_conv)
  then have "rx_inv (rx_ind_release e po tid (ri_release ind) rel s2)" using assms(2) by (rule rx_inv_ind_release)
  then show ?thesis
    unfolding ol_rx_indication_handler_def Let_def po_def [symmetric] r prod.case
    using assms(2) by (simp add: rx_inv_waitlist_flush)
qed

lemma rx_inv_flush_handler:
  assumes "rx_inv s"
  shows "rx_inv (ol_rx_flush_handler e peer_id tid a b act s)"
proof (cases "tid < OL_TXRX_NUM_EXT_TIDS")
  case True
  have "rx_inv (ol_rx_reorder_detect_hole p tid a s)" for p
    using assms by (simp add: ol_rx_reorder_detect_hole_def Let_def)
  with assms True show ?thesis
    by (auto simp: ol_rx_flush_handler_def Let_def rx_inv_flush rx_inv_flush_frag split: option.split)
qed (use assms in \<open>simp add: ol_rx_flush_handler_def\<close>)

lemma pn_ind_loop_inv:
  assumes "pn_ind_loop is ies chain r s = (ms, r', s')" and "tid_ok r"
    and "\<And>i. i \<in> set is \<Longrightarrow> i < length (ro_slots r)" and "rx_inv s"
  shows "tid_ok r' \<and> rx_inv s'"
  using assms
proof (induction "is" ies chain r s rule: pn_ind_loop.induct)
  case (2 i "is" ies chain r s)
  have "tid_ok (ro_put i [] r)" "length (ro_slots (ro_put i [] r)) = length (ro_slots r)"
    using 2 by (simp_all add: tid_ok_put ro_put_slots)
  with 2 show ?case by (auto split: if_splits list.splits)
qed simp

lemma rx_inv_pn_ind:
  assumes "rx_inv s"
  shows "rx_inv (ol_rx_pn_ind_handler e peer_id tid a b ies s)"
proof (cases "tid < OL_TXRX_NUM_EXT_TIDS")
  case True
  have "rx_inv (ol_rx_pn_ind_handler e peer_id tid a b ies s)" if po: "find_rx_peer peer_id s = Some p" for p
  proof -
    define s1 where "s1 = upd_peer p (\<lambda>pr. pr\<lparr>fw_pn_check := True\<rparr>) s"
    have s1: "rx_inv s1" unfolding s1_def by (rule rx_inv_next_rel(3) [OF assms])
    have ok: "tid_ok (reorder_of s1 p tid)" by (rule rx_invD(1) [OF s1 True])
    obtain ms r' s2 where l: "pn_ind_loop (reorder_walk (win_sz_mask (reorder_of s1 p tid)) a b) ies []
        (reorder_of s1 p tid) s1 = (ms, r', s2)"
      by (metis prod_cases3)
    have inv: "tid_ok r' \<and> rx_inv s2"
      using ok ro_walk_ok(2) by (intro pn_ind_loop_inv [OF l ok _ s1]) (auto simp: tid_ok_def)
    then have "rx_inv (upd_reorder p tid (\<lambda>_. r') s2)" by (intro rx_inv_upd_reorder) simp_all
    then show ?thesis
      unfolding ol_rx_pn_ind_handler_def Let_def po option.case s1_def [symmetric] l prod.case
      using True by (simp add: rx_inv_core [OF call_rx_opt_proc_spec(1)])
  qed
  with assms show ?thesis
    by (cases "find_rx_peer peer_id s") (simp_all add: ol_rx_pn_ind_handler_def)
qed (use assms in \<open>simp add: ol_rx_pn_ind_handler_def\<close>)

lemma g_log2ceil_pow: "w \<le> 64 \<Longrightarrow> \<exists>k. g_log2ceil ! w = 2 ^ k"
proof -
  have "list_all (\<lambda>x. x \<in> {1, 2, 4, 8, 16, 32, 64}) g_log2ceil" by (simp add: g_log2ceil_def list_all_iff)
  moreover have "length g_log2ceil = 65" by (simp add: g_log2ceil_def)
  ultimately have "w \<le> 64 \<Longrightarrow> g_log2ceil ! w \<in> {1, 2, 4, 8, 16, 32, 64}" by (simp add: list_all_length)
  moreover have "x \<in> {1, 2, 4, 8, 16, 32, 64} \<Longrightarrow> \<exists>k. x = 2 ^ k" for x :: nat
    by (auto intro: exI [of _ 0] exI [of _ 1] exI [of _ 2] exI [of _ 3] exI [of _ 4] exI [of _ 5] exI [of _ 6])
  ultimately show "w \<le> 64 \<Longrightarrow> \<exists>k. g_log2ceil ! w = 2 ^ k" by blast
qed

lemma rx_inv_addba:
  assumes "rx_inv s" and "win \<le> 64"
  shows "rx_inv (ol_rx_addba_handler peer_id tid win sn failed s)"
proof -
  obtain k where k: "g_log2ceil ! win = 2 ^ k" using g_log2ceil_pow [OF assms(2)] by blast
  have "tid_ok ((reorder_of s p tid)\<lparr>win_sz := win, ro_array := Some (replicate (g_log2ceil ! win) []),
      ro_frag_rest := [], win_sz_mask := g_log2ceil ! win - 1, num_mpdus := 0\<rparr>)"
    if "tid < OL_TXRX_NUM_EXT_TIDS" for p
    using rx_invD(1) [OF assms(1) that, of p]
    by (auto simp: tid_ok_def ro_ok_def ro_slots_def ro_slot_def k)
  with assms(1) show ?thesis
    by (auto simp: ol_rx_addba_handler_def Let_def rx_inv_def split: option.split)
qed

lemma rx_inv_delba:
  assumes "rx_inv s"
  shows "rx_inv (ol_rx_delba_handler peer_id tid s)"
proof -
  have "rx_inv (upd_reorder p tid (ol_rx_reorder_init tid) (upd_peer p (\<lambda>pr. pr\<lparr>tids_next_rel_idx := g pr\<rparr>) s))"
    for p g
    by (intro rx_inv_upd_reorder rx_inv_next_rel assms) (simp add: tid_ok_init rx_invD(1) [OF assms])
  then show ?thesis
    unfolding ol_rx_delba_handler_def using assms by (cases "peer_id_map s peer_id") (auto intro!: rx_inv_if)
qed

lemma rx_inv_peer_init: "rx_inv s \<Longrightarrow> rx_inv (ol_rx_peer_init p s)"
  by (simp add: ol_rx_peer_init_def rx_inv_def tid_ok_init)

lemma rx_inv_rx_peer_cleanup: "rx_inv s \<Longrightarrow> rx_inv (ol_rx_peer_cleanup e p s)"
proof -
  assume "rx_inv s"
  then have "rx_inv (ol_rx_reorder_peer_cleanup e p (upd_peer p (\<lambda>pr. pr\<lparr>keyinstalled := False\<rparr>) s))"
    by (intro rx_inv_peer_cleanup rx_inv_next_rel)
  then show ?thesis by (auto simp: ol_rx_peer_cleanup_def rx_inv_def history_ok_def)
qed

lemma rx_inv_timeout: "rx_inv s \<Longrightarrow> ol_rx_reorder_timeout e ac s = s"
  by (simp add: ol_rx_reorder_timeout_def rx_invD(3))

lemma rx_step_inv: "rx_inv s \<Longrightarrow> rx_ok s op \<Longrightarrow> rx_inv (rx_step s op)"
  by (cases "(s, op)" rule: rx_step.cases)
    (simp_all add: rx_inv_indication rx_inv_frag_indication rx_inv_flush_handler rx_inv_pn_ind rx_inv_addba
      rx_inv_delba rx_inv_timeout rx_inv_peer_init rx_inv_rx_peer_cleanup)

interpretation rx_path: run_invariant rx_step rx_ok rx_inv
  by unfold_locales (rule rx_step_inv)

section \<open>Properties of the path\<close>

text \<open>
  Property C7. The receive state stays consistent. From any consistent state, after any sequence of
  indications, fragments, flushes, PN indications, block-ack changes, time-outs and peer events in
  any order and with any data, every reorder array of every peer has a power-of-two size that agrees
  with its mask (so no masked index is out of bounds), no fragments hang behind an empty slot, and
  the history's write index is inside its array. Two things are asked of the sequence (\<open>rx_ok\<close>): the
  TID of an rx indication is in range, which htt_t2h.c checks, and a block-ack window has at most 64
  frames, which nothing checks: the window arrives in eight bits, and for more than 64 frames
  \<open>ol_rx_addba_handler\<close> reads behind the end of its table of sizes.
\<close>

theorem rx_path_consistent:
  assumes "rx_inv s" and "admissible rx_step rx_ok s ops"
  shows "rx_inv (run_ops rx_step s ops) \<and>
    (\<forall>p. \<forall>tid<OL_TXRX_NUM_EXT_TIDS.
       let r = reorder_of (run_ops rx_step s ops) p tid
       in (\<forall>idx. idx AND win_sz_mask r < length (ro_slots r)) \<and> (ro_slot r 0 = [] \<longrightarrow> ro_frag_rest r = []))"
proof -
  have "rx_inv (run_ops rx_step s ops)" by (rule rx_path.run_inv [OF assms])
  then show ?thesis
    using tid_ok_masked rx_invD(1) by (auto simp: Let_def tid_ok_rest)
qed

text \<open>
  Property C21. The reorder time-out is never started. The number of queued MPDUs that decides about
  it is not counted in this configuration, so whatever frames wait behind a hole, after any sequence
  of operations no virtual timer is armed and no TID is on a time-out list.
\<close>

theorem reorder_timer_never_armed:
  assumes "rx_inv s" and "admissible rx_step rx_ok s ops"
  shows "vt_timer (run_ops rx_step s ops) ac = None \<and> vt_list (run_ops rx_step s ops) ac = []"
  using rx_path.run_inv [OF assms] by (simp add: rx_inv_def)

section \<open>A frame without block-ack agreement\<close>

lemma reorder_walk_single: "reorder_walk 0 a b = [0]"
  by (simp add: reorder_walk_def)

lemma seq_num_cached_reads [simp]:
  "htt_rx_mpdu_desc_seq_num (seq_num_cached s d) d = htt_rx_mpdu_desc_seq_num s d"
  "seq_num_cached (seq_num_cached s d) d = seq_num_cached s d"
  "dup_check (seq_num_cached s d) = dup_check s" "defrag_timeout_check (seq_num_cached s d) = defrag_timeout_check s"
  by (simp_all add: htt_rx_mpdu_desc_seq_num_def seq_num_cached_def)

lemma history_logs:
  "rx_freed (ol_rx_reorder_update_history p ty tid a b i s) = rx_freed s"
  "rx_osif (ol_rx_reorder_update_history p ty tid a b i s) = rx_osif s"
  "rx_fwd (ol_rx_reorder_update_history p ty tid a b i s) = rx_fwd s"
  "reorder_of (ol_rx_reorder_update_history p ty tid a b i s) q t = reorder_of s q t"
  "defrag_timeout_check (ol_rx_reorder_update_history p ty tid a b i s) = defrag_timeout_check s"
  by (auto simp: ol_rx_reorder_update_history_def Let_def split: option.split)

definition mpdu_ind :: "nat \<times> nat \<Rightarrow> rx_mpdu \<Rightarrow> rx_ind" where
  "mpdu_ind rel m = \<lparr>ri_flush = None, ri_release = Some rel, ri_ranges = [(htt_rx_status_ok, [m])]\<rparr>"

lemma mpdu_ind_simps [simp]:
  "ri_flush (mpdu_ind rel m) = None" "ri_release (mpdu_ind rel m) = Some rel"
  "ri_ranges (mpdu_ind rel m) = [(htt_rx_status_ok, [m])]"
  by (simp_all add: mpdu_ind_def)

lemma release_single:
  assumes "rx_inv s" and "tid < OL_TXRX_NUM_EXT_TIDS" and "win_sz_mask (reorder_of s p tid) = 0"
    and "ro_slot (reorder_of s p tid) 0 \<noteq> []"
  shows "\<exists>t. rx_view t = rx_view s \<and> defrag_timeout_check t = defrag_timeout_check s \<and>
    ol_rx_reorder_release e p tid a b s = call_rx_opt_proc e p tid (ro_slot (reorder_of s p tid) 0) t"
proof -
  define r where "r = reorder_of s p tid"
  define u where "u = upd_reorder p tid (\<lambda>_. ro_clear [0] r)
      (upd_peer p (\<lambda>pr. pr\<lparr>tids_next_rel_idx := (tids_next_rel_idx pr)(tid := u16 b)\<rparr>) s)"
  define t where "t = upd_peer p (\<lambda>pr. pr\<lparr>tids_last_seq :=
      (tids_last_seq pr)(tid := htt_rx_mpdu_desc_seq_num u (m_desc (hd (ro_slot r 0))))\<rparr>)
        (seq_num_cached u (m_desc (hd (ro_slot r 0))))"
  have view_t: "rx_view t = rx_view s" by (simp add: t_def u_def)
  have ok: "ro_ok (reorder_of s p tid)" using rx_invD(1) [OF assms(1,2)] by (simp add: tid_ok_def)
  have m: "win_sz_mask r = 0" "ro_slot r 0 \<noteq> []" using assms(3,4) by (simp_all add: r_def)
  have eq: "ol_rx_reorder_release e p tid a b s =
      ol_rx_reorder_timeout_remove p tid (hand_over (call_rx_opt_proc e p tid) p tid (ro_slot r 0) u)"
    unfolding ol_rx_reorder_release_eq [OF ok] r_def [symmetric] m(1) reorder_walk_single u_def
    using m(2) by (simp add: reorder_frames_def)
  have "hand_over (call_rx_opt_proc e p tid) p tid (ro_slot r 0) u = call_rx_opt_proc e p tid (ro_slot r 0) t"
    using m(2) by (simp add: hand_over_def Let_def t_def)
  moreover have "\<not> tm_active (reorder_of t p tid)"
    using rx_invD(1) [OF assms(1,2), of p] by (simp add: t_def u_def tid_ok_def r_def)
  then have "ol_rx_reorder_timeout_remove p tid (call_rx_opt_proc e p tid ms t) = call_rx_opt_proc e p tid ms t" for ms
    unfolding ol_rx_reorder_timeout_remove_def rx_core_fields(13) [OF call_rx_opt_proc_spec(1)] by simp
  ultimately show ?thesis
    unfolding eq r_def [symmetric] using view_t by (intro exI [of _ t]) (simp add: t_def u_def)
qed


end
