(* ===== verification/TxInv.thy ===== *)
theory TxInv
  imports TxSched
begin

text \<open>
  The consistency invariant of the tx queues and the scheduler: the counters of a queue agree
  with its list, the counters of a category agree with the queues on its list, and a queue is
  on the list of its category exactly while it is active. Every operation of the scheduler
  keeps it.
\<close>

section \<open>The invariant\<close>

text \<open>
  The tid under which a queue is known to the scheduler: a peer's queue is indexed by its tid;
  the two queues of a virtual device use \<open>HTT_TX_EXT_TID_NON_QOS_MCAST_BCAST\<close> and
  \<open>HTT_TX_EXT_TID_MGMT\<close> (ol_tx_classify.c, ol_tx_queue_vdev_flush).
\<close>

fun txq_tid :: "txq_id \<Rightarrow> nat" where
  "txq_tid (Peer_txq p t) = t"
| "txq_tid (Vdev_txq v i) = (if i = 0 then 16 else 17)"

definition qcat :: "ol_txrx_pdev \<Rightarrow> txq_id \<Rightarrow> ol_tx_cat" where
  "qcat pdev q = tid_to_ac pdev (txq_tid q)"

abbreviation desc_bytes :: "ol_tx_desc list \<Rightarrow> nat" where
  "desc_bytes ds \<equiv> sum_list (map netbuf_len ds)"

definition txq_ok :: "ol_tx_frms_queue \<Rightarrow> bool" where
  "txq_ok t \<longleftrightarrow>
     txq_frms t = length (txq_head t) \<and> txq_frms t < 2 ^ 16 \<and>
     txq_bytes t = desc_bytes (txq_head t) \<and> txq_bytes t < 2 ^ 32 \<and>
     (txq_flag t = ol_tx_queue_active \<longrightarrow> txq_head t \<noteq> []) \<and>
     (txq_flag t = ol_tx_queue_empty \<longrightarrow> txq_head t = []) \<and>
     (txq_flag t = ol_tx_queue_paused \<longleftrightarrow> paused_total t > 0) \<and> paused_total t < 2 ^ 8"

definition cat_ok ::
    "(txq_id \<Rightarrow> ol_tx_frms_queue) \<Rightarrow> (txq_id \<Rightarrow> ol_tx_cat) \<Rightarrow> ol_tx_cat \<Rightarrow> ol_tx_cat_info \<Rightarrow> bool" where
  "cat_ok qs qc c i \<longleftrightarrow>
     distinct (cat_head i) \<and>
     (\<forall>q. q \<in> set (cat_head i) \<longleftrightarrow> txq_flag (qs q) = ol_tx_queue_active \<and> qc q = c) \<and>
     cat_frms i = (\<Sum>q\<in>set (cat_head i). int (txq_frms (qs q))) \<and>
     cat_bytes i = (\<Sum>q\<in>set (cat_head i). int (txq_bytes (qs q))) \<and>
     cat_active i = (cat_head i \<noteq> [])"

definition tx_inv :: "ol_txrx_pdev \<Rightarrow> bool" where
  "tx_inv pdev \<longleftrightarrow>
     sched_attached pdev \<and> (\<forall>q. txq_ok (txqs pdev q)) \<and>
     mset (order (scheduler pdev)) = mset all_cats \<and>
     (\<forall>c. cat_ok (txqs pdev) (qcat pdev) c (cat_of pdev c))"

lemma tx_invD:
  assumes "tx_inv pdev"
  shows "sched_attached pdev" and "txq_ok (txqs pdev q)"
    and "mset (order (scheduler pdev)) = mset all_cats"
    and "cat_ok (txqs pdev) (qcat pdev) c (cat_of pdev c)"
  using assms by (auto simp: tx_inv_def)

lemma cat_okD:
  assumes "cat_ok qs qc c i"
  shows "distinct (cat_head i)"
    and "q \<in> set (cat_head i) \<longleftrightarrow> txq_flag (qs q) = ol_tx_queue_active \<and> qc q = c"
    and "cat_frms i = (\<Sum>q\<in>set (cat_head i). int (txq_frms (qs q)))"
    and "cat_bytes i = (\<Sum>q\<in>set (cat_head i). int (txq_bytes (qs q)))"
    and "cat_active i = (cat_head i \<noteq> [])"
  using assms by (auto simp: cat_ok_def)

text \<open>What a queue contributes to the counters of its category.\<close>

definition contrib_frms :: "ol_tx_frms_queue \<Rightarrow> int" where
  "contrib_frms t = (if txq_flag t = ol_tx_queue_active then int (txq_frms t) else 0)"

definition contrib_bytes :: "ol_tx_frms_queue \<Rightarrow> int" where
  "contrib_bytes t = (if txq_flag t = ol_tx_queue_active then int (txq_bytes t) else 0)"

text \<open>
  The step lemma: one queue changes and the information of its category changes with it. All
  preservation proofs below are instances.
\<close>

lemma cat_ok_change:
  fixes qs qc q t i i'
  defines "S \<equiv> set (cat_head i) - {q}"
  assumes ok: "cat_ok qs qc (qc q) i"
    and dist: "distinct (cat_head i')"
    and hd: "set (cat_head i') = (if txq_flag t = ol_tx_queue_active then insert q S else S)"
    and frms: "cat_frms i' = cat_frms i - contrib_frms (qs q) + contrib_frms t"
    and bytes: "cat_bytes i' = cat_bytes i - contrib_bytes (qs q) + contrib_bytes t"
    and act: "cat_active i' = (cat_head i' \<noteq> [])"
  shows "cat_ok (qs(q := t)) qc (qc q) i'"
proof -
  note c = cat_okD [OF ok]
  have qin: "q \<in> set (cat_head i) \<longleftrightarrow> txq_flag (qs q) = ol_tx_queue_active"
    using c(2) by blast
  have out: "(\<Sum>x\<in>set (cat_head i). g (qs x)) =
      (\<Sum>x\<in>S. g (qs x)) + (if txq_flag (qs q) = ol_tx_queue_active then g (qs q) else 0)"
    for g :: "ol_tx_frms_queue \<Rightarrow> int"
    unfolding S_def using qin
    by (cases "q \<in> set (cat_head i)") (auto simp: sum.remove)
  have into: "(\<Sum>x\<in>set (cat_head i'). g ((qs(q := t)) x)) =
      (\<Sum>x\<in>S. g (qs x)) + (if txq_flag t = ol_tx_queue_active then g t else 0)"
    for g :: "ol_tx_frms_queue \<Rightarrow> int"
  proof -
    have "(\<Sum>x\<in>S. g ((qs(q := t)) x)) = (\<Sum>x\<in>S. g (qs x))"
      by (rule sum.cong) (auto simp: S_def)
    moreover have "q \<notin> S" "finite S" by (auto simp: S_def)
    ultimately show ?thesis using hd by simp
  qed
  show ?thesis
    unfolding cat_ok_def
    using dist act frms bytes c(2) hd out [of "\<lambda>t. int (txq_frms t)"] out [of "\<lambda>t. int (txq_bytes t)"]
      into [of "\<lambda>t. int (txq_frms t)"] into [of "\<lambda>t. int (txq_bytes t)"] c(3,4)
    by (auto simp: contrib_frms_def contrib_bytes_def S_def)
qed

lemma cat_ok_other:
  assumes "cat_ok qs qc c i" and "qc q \<noteq> c"
  shows "cat_ok (qs(q := t)) qc c i"
proof -
  have "q \<notin> set (cat_head i)" using cat_okD(2) [OF assms(1)] assms(2) by blast
  then have eq: "(\<Sum>x\<in>set (cat_head i). g ((qs(q := t)) x)) = (\<Sum>x\<in>set (cat_head i). g (qs x))"
    for g :: "ol_tx_frms_queue \<Rightarrow> int"
    by (intro sum.cong) auto
  show ?thesis
    using assms eq [of "\<lambda>t. int (txq_frms t)"] eq [of "\<lambda>t. int (txq_bytes t)"]
    unfolding cat_ok_def by auto
qed

text \<open>The state agrees with another one except for one queue and its category.\<close>

definition same_but :: "txq_id \<Rightarrow> ol_txrx_pdev \<Rightarrow> ol_txrx_pdev \<Rightarrow> bool" where
  "same_but q p p' \<longleftrightarrow>
     sched_attached p' = sched_attached p \<and> tid_to_ac p' = tid_to_ac p \<and>
     (\<forall>r. r \<noteq> q \<longrightarrow> txqs p' r = txqs p r) \<and>
     (\<forall>c. c \<noteq> qcat p q \<longrightarrow> cat_of p' c = cat_of p c) \<and>
     mset (order (scheduler p')) = mset (order (scheduler p))"

lemma tx_inv_change:
  assumes inv: "tx_inv p"
    and same: "same_but q p p'"
    and t: "txq_ok (txqs p' q)"
    and dist: "distinct (cat_head (cat_of p' (qcat p q)))"
    and hd: "set (cat_head (cat_of p' (qcat p q))) =
      (if txq_flag (txqs p' q) = ol_tx_queue_active
       then insert q (set (cat_head (cat_of p (qcat p q))) - {q})
       else set (cat_head (cat_of p (qcat p q))) - {q})"
    and frms: "cat_frms (cat_of p' (qcat p q)) =
      cat_frms (cat_of p (qcat p q)) - contrib_frms (txqs p q) + contrib_frms (txqs p' q)"
    and bytes: "cat_bytes (cat_of p' (qcat p q)) =
      cat_bytes (cat_of p (qcat p q)) - contrib_bytes (txqs p q) + contrib_bytes (txqs p' q)"
    and act: "cat_active (cat_of p' (qcat p q)) = (cat_head (cat_of p' (qcat p q)) \<noteq> [])"
  shows "tx_inv p'"
proof -
  have att: "sched_attached p'" and tid: "tid_to_ac p' = tid_to_ac p"
    and other: "\<And>r. r \<noteq> q \<Longrightarrow> txqs p' r = txqs p r"
    and cats: "\<And>c. c \<noteq> qcat p q \<Longrightarrow> cat_of p' c = cat_of p c"
    and ord: "mset (order (scheduler p')) = mset all_cats"
    using same tx_invD(1,3) [OF inv] by (auto simp: same_but_def)
  have qs: "txqs p' = (txqs p)(q := txqs p' q)"
    using other by (simp add: fun_eq_iff)
  have qc: "qcat p' = qcat p"
    using tid by (simp add: fun_eq_iff qcat_def)
  have "cat_ok (txqs p') (qcat p') c (cat_of p' c)" for c
  proof (cases "c = qcat p q")
    case True
    have "cat_ok ((txqs p)(q := txqs p' q)) (qcat p) (qcat p q) (cat_of p' (qcat p q))"
      using tx_invD(4) [OF inv] dist hd frms bytes act by (rule cat_ok_change)
    then show ?thesis unfolding True qc by (subst qs)
  next
    case False
    have "cat_ok ((txqs p)(q := txqs p' q)) (qcat p) c (cat_of p c)"
      by (rule cat_ok_other [OF tx_invD(4) [OF inv]]) (use False in auto)
    then show ?thesis unfolding qc cats [OF False] by (subst qs)
  qed
  moreover have "txq_ok (txqs p' r)" for r
    using t tx_invD(2) [OF inv, of r] other by (cases "r = q") auto
  ultimately show ?thesis
    unfolding tx_inv_def using att ord by blast
qed

text \<open>A category's frame counter is zero exactly when its list is empty.\<close>

lemma cat_frms_zero_iff:
  assumes "\<And>q. q \<in> set (cat_head i) \<Longrightarrow> txq_frms (qs q) > 0"
    and "cat_frms i = (\<Sum>q\<in>set (cat_head i). int (txq_frms (qs q)))"
  shows "cat_frms i = 0 \<longleftrightarrow> cat_head i = []"
  using assms by (cases "cat_head i") (auto simp: sum_nonneg_eq_0_iff)

lemma active_txq_frms:
  assumes "tx_inv pdev" and "txq_flag (txqs pdev q) = ol_tx_queue_active"
  shows "txq_frms (txqs pdev q) > 0"
  using tx_invD(2) [OF assms(1), of q] assms(2) by (auto simp: txq_ok_def)

lemma cat_member:
  assumes "tx_inv pdev"
  shows "q \<in> set (cat_head (cat_of pdev c)) \<longleftrightarrow>
    txq_flag (txqs pdev q) = ol_tx_queue_active \<and> qcat pdev q = c"
  using cat_okD(2) [OF tx_invD(4) [OF assms]] by blast

lemma cat_frms_zero:
  assumes "tx_inv pdev"
  shows "cat_frms (cat_of pdev c) = 0 \<longleftrightarrow> cat_head (cat_of pdev c) = []"
proof (rule cat_frms_zero_iff)
  fix q assume "q \<in> set (cat_head (cat_of pdev c))"
  then show "txq_frms (txqs pdev q) > 0"
    using assms active_txq_frms cat_member by blast
next
  show "cat_frms (cat_of pdev c) = (\<Sum>q\<in>set (cat_head (cat_of pdev c)). int (txq_frms (txqs pdev q)))"
    using cat_okD(3) [OF tx_invD(4) [OF assms]] .
qed

section \<open>Dequeueing\<close>

lemma dequeue_loop_eq:
  assumes "k = min (length ds) (min (m - n) (credit - n))"
  shows "ol_tx_dequeue_loop m credit n n bs ds out =
    (n + k, n + k, bs + desc_bytes (take k ds), drop k ds, out @ take k ds, k = length ds \<and> n + k < m)"
  using assms
proof (induction ds arbitrary: n bs out k)
  case Nil
  then show ?case by simp
next
  case (Cons d ds)
  show ?case
  proof (cases "n < m \<and> n < credit")
    case True
    then have "m - n = Suc (m - Suc n) \<and> credit - n = Suc (credit - Suc n)"
      by (simp add: Suc_diff_Suc)
    then have "k = Suc (min (length ds) (min (m - Suc n) (credit - Suc n)))"
      using Cons.prems by simp
    then show ?thesis
      using True Cons.IH [of _ "Suc n" "bs + netbuf_len d" "out @ [d]"]
      by (simp add: htt_tx_msdu_credit_def)
  next
    case False
    then show ?thesis using Cons.prems by (auto simp: htt_tx_msdu_credit_def)
  qed
qed

lemma desc_bytes_split: "desc_bytes ds = desc_bytes (take k ds) + desc_bytes (drop k ds)"
  by (metis append_take_drop_id map_append sum_list_append)

text \<open>
  On a consistent queue the call moves \<open>k\<close> frames from its front to the end of the output list,
  where \<open>k\<close> is the least of the queue length, the frame limit and the credit.
\<close>

definition dequeued :: "nat \<Rightarrow> ol_tx_frms_queue \<Rightarrow> ol_tx_frms_queue" where
  "dequeued k t = t\<lparr>txq_head := drop k (txq_head t), txq_frms := txq_frms t - k,
     txq_bytes := desc_bytes (drop k (txq_head t)),
     txq_flag := (if txq_frms t \<le> k \<and> txq_flag t = ol_tx_queue_active then ol_tx_queue_empty
                  else txq_flag t)\<rparr>"

lemma dequeue_eq:
  assumes ok: "txq_ok (txqs pdev q)" and k: "k = min (txq_frms (txqs pdev q)) (min m credit)"
  shows "ol_tx_dequeue pdev q out m credit =
    (upd_txq q (dequeued k) pdev, out @ take k (txq_head (txqs pdev q)), k, k,
     desc_bytes (take k (txq_head (txqs pdev q))))"
proof -
  let ?t = "txqs pdev q"
  let ?m = "if txq_frms ?t < m then txq_frms ?t else m"
  have len: "length (txq_head ?t) = txq_frms ?t" and f16: "txq_frms ?t < 2 ^ 16"
    and b32: "txq_bytes ?t < 2 ^ 32" and bytes: "txq_bytes ?t = desc_bytes (txq_head ?t)"
    using ok by (auto simp: txq_ok_def)
  have "k = min (length (txq_head ?t)) (min (?m - 0) (credit - 0))"
    using k len by auto
  from dequeue_loop_eq [OF this, of 0 out]
  have lp: "ol_tx_dequeue_loop ?m credit 0 0 0 (txq_head ?t) out =
    (k, k, desc_bytes (take k (txq_head ?t)), drop k (txq_head ?t), out @ take k (txq_head ?t), False)"
    using k len by auto
  have kle: "k \<le> txq_frms ?t" using k by simp
  have fr: "usub 16 (txq_frms ?t) k = txq_frms ?t - k"
    using kle f16 by (rule usub_exact)
  have "usub 32 (txq_bytes ?t) (desc_bytes (take k (txq_head ?t))) =
      txq_bytes ?t - desc_bytes (take k (txq_head ?t))"
    using b32 bytes desc_bytes_split [of "txq_head ?t" k] by (intro usub_exact) simp_all
  then have by32: "usub 32 (txq_bytes ?t) (desc_bytes (take k (txq_head ?t))) = desc_bytes (drop k (txq_head ?t))"
    using bytes desc_bytes_split [of "txq_head ?t" k] by simp
  show ?thesis
    unfolding ol_tx_dequeue_def Let_def lp
    by (simp add: fr by32 upd_txq_def dequeued_def)
qed

lemma dequeued_ok:
  assumes "txq_ok t"
  shows "txq_ok (dequeued k t)"
proof -
  have "desc_bytes (drop k (txq_head t)) < 2 ^ 32"
    using assms desc_bytes_split [of "txq_head t" k] by (simp add: txq_ok_def)
  then show ?thesis using assms by (auto simp: txq_ok_def dequeued_def)
qed

section \<open>The order list\<close>

lemma rotate_shift_eq:
  assumes "idx < NUM_CATEGORIES" and "length ord = NUM_CATEGORIES"
  shows "rotate_shift ord idx = (take idx ord @ drop (Suc idx) ord @ [last ord], NUM_CATEGORIES - 1)"
  using assms
proof (induction ord idx rule: rotate_shift.induct)
  case (1 ord idx)
  show ?case
  proof (cases "idx < NUM_CATEGORIES - 1")
    case True
    let ?o = "ord[idx := ord ! (idx + 1)]"
    have "rotate_shift ?o (idx + 1) =
        (take (idx + 1) ?o @ drop (Suc (idx + 1)) ?o @ [last ?o], NUM_CATEGORIES - 1)"
      using True 1 by (intro 1(1)) auto
    moreover have "last ?o = last ord"
      using True 1 by (cases "ord = []") (auto simp: last_list_update)
    moreover have "take (idx + 1) ?o = take idx ord @ [ord ! (idx + 1)]"
      using True 1 by (simp add: take_Suc_conv_app_nth)
    moreover have "drop (Suc idx) ord = ord ! (idx + 1) # drop (Suc (idx + 1)) ord"
      using True 1 by (simp add: Cons_nth_drop_Suc)
    ultimately show ?thesis
      using True by (subst rotate_shift.simps) simp
  next
    case False
    then have "idx = NUM_CATEGORIES - 1" using 1 by simp
    moreover from this have "ord = take idx ord @ [last ord]"
      using 1 by (metis append_butlast_last_id butlast_conv_take length_0_conv not_less_zero)
    moreover have "drop (Suc idx) ord = []" using False 1 by simp
    ultimately show ?thesis
      using False by (subst rotate_shift.simps) simp
  qed
qed

lemma rotate_eq:
  assumes "idx < NUM_CATEGORIES" and "length ord = NUM_CATEGORIES"
  shows "ol_tx_sched_wrr_adv_rotate_order_list_tail ord idx =
    take idx ord @ drop (Suc idx) ord @ [ord ! idx]"
proof -
  have len: "length (take idx ord @ drop (Suc idx) ord) = NUM_CATEGORIES - 1"
    using assms by simp
  have "((take idx ord @ drop (Suc idx) ord) @ [last ord])[NUM_CATEGORIES - 1 := ord ! idx] =
      (take idx ord @ drop (Suc idx) ord) @ [ord ! idx]"
    unfolding len [symmetric] by (rule list_update_length)
  then show ?thesis
    unfolding ol_tx_sched_wrr_adv_rotate_order_list_tail_def Let_def rotate_shift_eq [OF assms]
    by (simp only: append_assoc prod.case)
qed

lemma rotate_mset [simp]:
  assumes "idx < NUM_CATEGORIES" and "length ord = NUM_CATEGORIES"
  shows "mset (ol_tx_sched_wrr_adv_rotate_order_list_tail ord idx) = mset ord"
proof -
  have "mset ord = mset (take idx ord @ ord ! idx # drop (Suc idx) ord)"
    using assms by (metis id_take_nth_drop)
  then show ?thesis by (simp add: rotate_eq [OF assms])
qed

lemma order_length:
  assumes "mset ord = mset all_cats"
  shows "length ord = NUM_CATEGORIES"
  using assms length_all_cats by (metis size_mset)

section \<open>Selecting a category\<close>

text \<open>The selection loop touches the order list and the WRR counters, nothing else.\<close>

definition wrr_only :: "ol_txrx_pdev \<Rightarrow> ol_txrx_pdev \<Rightarrow> bool" where
  "wrr_only p p' \<longleftrightarrow> (\<exists>ord cs. p' = p\<lparr>scheduler := (scheduler p)\<lparr>order := ord, categories := cs\<rparr>\<rparr> \<and>
     mset ord = mset (order (scheduler p)) \<and>
     (\<forall>c. \<exists>w. cs c = (cat_of p c)\<lparr>wrr_count := w\<rparr>))"

lemma wrr_onlyI:
  assumes "p' = p\<lparr>scheduler := (scheduler p)\<lparr>order := ord, categories := cs\<rparr>\<rparr>"
    and "mset ord = mset (order (scheduler p))"
    and "\<And>c. \<exists>w. cs c = (cat_of p c)\<lparr>wrr_count := w\<rparr>"
  shows "wrr_only p p'"
  using assms unfolding wrr_only_def by blast

lemma same_wrr: "\<exists>w. i = i\<lparr>wrr_count := w\<rparr>"
  by (rule exI [of _ "wrr_count i"]) simp

lemma wrr_only_refl: "wrr_only p p"
  by (rule wrr_onlyI [where ord = "order (scheduler p)" and cs = "categories (scheduler p)"])
    (auto intro: same_wrr)

lemma wrr_only_trans:
  assumes "wrr_only p p'" and "wrr_only p' p''"
  shows "wrr_only p p''"
proof -
  obtain o1 c1 where 1: "p' = p\<lparr>scheduler := (scheduler p)\<lparr>order := o1, categories := c1\<rparr>\<rparr>"
    "mset o1 = mset (order (scheduler p))" "\<And>c. \<exists>w. c1 c = (cat_of p c)\<lparr>wrr_count := w\<rparr>"
    using assms(1) unfolding wrr_only_def by blast
  obtain o2 c2 where 2: "p'' = p'\<lparr>scheduler := (scheduler p')\<lparr>order := o2, categories := c2\<rparr>\<rparr>"
    "mset o2 = mset (order (scheduler p'))" "\<And>c. \<exists>w. c2 c = (cat_of p' c)\<lparr>wrr_count := w\<rparr>"
    using assms(2) unfolding wrr_only_def by blast
  show ?thesis
  proof (rule wrr_onlyI)
    show "p'' = p\<lparr>scheduler := (scheduler p)\<lparr>order := o2, categories := c2\<rparr>\<rparr>"
      using 1(1) 2(1) by simp
    show "mset o2 = mset (order (scheduler p))" using 1(1,2) 2(2) by simp
    fix c
    obtain w1 where w1: "c1 c = (cat_of p c)\<lparr>wrr_count := w1\<rparr>" using 1(3) by blast
    obtain w2 where w2: "c2 c = (cat_of p' c)\<lparr>wrr_count := w2\<rparr>" using 2(3) by blast
    have "c2 c = (cat_of p c)\<lparr>wrr_count := w2\<rparr>"
      using w1 w2 1(1) by simp
    then show "\<exists>w. c2 c = (cat_of p c)\<lparr>wrr_count := w\<rparr>" by blast
  qed
qed

lemma wrr_only_count: "wrr_only p (upd_cat c (\<lambda>i. i\<lparr>wrr_count := f i\<rparr>) p)"
  by (rule wrr_onlyI [where ord = "order (scheduler p)" and
        cs = "(categories (scheduler p))(c := (cat_of p c)\<lparr>wrr_count := f (cat_of p c)\<rparr>)"])
    (auto simp: upd_cat_def intro: same_wrr)

lemma wrr_only_order:
  assumes "mset ord = mset (order (scheduler p))"
  shows "wrr_only p (set_order ord p)"
  by (rule wrr_onlyI [where ord = ord and cs = "categories (scheduler p)"])
    (use assms in \<open>auto simp: set_order_def intro: same_wrr\<close>)

lemma wrr_only_cat:
  assumes "wrr_only p p'"
  obtains w where "cat_of p' c = (cat_of p c)\<lparr>wrr_count := w\<rparr>"
  using assms unfolding wrr_only_def by force

lemma select_loop_spec:
  assumes "mset (order (scheduler pdev)) = mset all_cats"
    and "wrr_select_loop pdev index = (pdev', i)"
  shows "wrr_only pdev pdev' \<and>
    (i < NUM_CATEGORIES \<longrightarrow> cat_active (cat_of pdev' (order (scheduler pdev') ! i)))"
  using assms
proof (induction pdev index rule: wrr_select_loop.induct)
  case (1 pdev index)
  let ?c = "order (scheduler pdev) ! index"
  let ?p = "upd_cat ?c (\<lambda>i. i\<lparr>wrr_count := wrr_count i + 1\<rparr>) pdev"
  let ?ord = "ol_tx_sched_wrr_adv_rotate_order_list_tail (order (scheduler ?p)) index"
  have ord: "order (scheduler ?p) = order (scheduler pdev)" by (simp add: upd_cat_def)
  consider (stop) "\<not> index < NUM_CATEGORIES"
    | (skip_inactive) "index < NUM_CATEGORIES" "\<not> cat_active (cat_of pdev ?c)"
    | (skip_weight) "index < NUM_CATEGORIES" "cat_active (cat_of pdev ?c)"
        "wrr_count (cat_of pdev ?c) + 1 < wrr_skip_weight (specs (cat_of pdev ?c))"
    | (found) "index < NUM_CATEGORIES" "cat_active (cat_of pdev ?c)"
        "\<not> wrr_count (cat_of pdev ?c) + 1 < wrr_skip_weight (specs (cat_of pdev ?c))"
    by blast
  then show ?case
  proof cases
    case stop
    then have "pdev' = pdev" and "i = index"
      using "1.prems"(2) by (simp_all add: wrr_select_loop.simps [of pdev index])
    with stop show ?thesis by (simp add: wrr_only_refl)
  next
    case skip_inactive
    then have "wrr_select_loop pdev (index + 1) = (pdev', i)"
      using "1.prems"(2) by (subst (asm) wrr_select_loop.simps) simp
    then show ?thesis
      using "1.IH"(1) [OF skip_inactive(1) refl skip_inactive(2)] "1.prems"(1) by blast
  next
    case skip_weight
    have rot: "mset ?ord = mset (order (scheduler ?p))"
      using "1.prems"(1) skip_weight(1) by (simp add: ord order_length)
    have rec: "wrr_select_loop (set_order ?ord ?p) index = (pdev', i)"
      using "1.prems"(2) skip_weight by (subst (asm) wrr_select_loop.simps) (simp add: Let_def)
    have m: "mset (order (scheduler (set_order ?ord ?p))) = mset all_cats"
      using rot "1.prems"(1) by (simp add: ord set_order_def)
    have step: "wrr_only pdev (set_order ?ord ?p)"
      using wrr_only_trans [OF wrr_only_count wrr_only_order [OF rot]] .
    have "\<not> \<not> cat_active (cat_of pdev ?c)" using skip_weight(2) by simp
    from "1.IH"(2) [OF skip_weight(1) refl this refl skip_weight(3) m rec]
    show ?thesis using wrr_only_trans [OF step] by blast
  next
    case found
    then have "wrr_select_loop pdev index = (?p, index)"
      by (subst wrr_select_loop.simps) (simp add: Let_def)
    then have eq: "pdev' = ?p" "i = index" using "1.prems"(2) by (metis Pair_inject)+
    have "cat_active (cat_of pdev' (order (scheduler pdev') ! i))"
      using found(2) unfolding eq by (simp add: upd_cat_def)
    then show ?thesis unfolding eq by (intro conjI impI wrr_only_count)
  qed
qed

section \<open>The selection keeps the invariant\<close>

lemma wrr_only_inv:
  assumes "tx_inv p" and w: "wrr_only p p'"
  shows "tx_inv p'"
proof -
  obtain ord cs where p': "p' = p\<lparr>scheduler := (scheduler p)\<lparr>order := ord, categories := cs\<rparr>\<rparr>"
    and ord: "mset ord = mset (order (scheduler p))"
    and cs: "\<And>c. \<exists>w. cs c = (cat_of p c)\<lparr>wrr_count := w\<rparr>"
    using w unfolding wrr_only_def by blast
  have "cat_ok (txqs p') (qcat p') c (cat_of p' c)" for c
  proof -
    obtain w where "cs c = (cat_of p c)\<lparr>wrr_count := w\<rparr>" using cs by blast
    moreover have "qcat p' = qcat p" by (simp add: p' fun_eq_iff qcat_def)
    ultimately show ?thesis
      using tx_invD(4) [OF assms(1), of c] by (simp add: p' cat_ok_def)
  qed
  then show ?thesis
    using assms(1) ord by (simp add: tx_inv_def p')
qed

lemma set_index_inv [simp]: "tx_inv (set_index i p) = tx_inv p"
  by (simp add: tx_inv_def set_index_def qcat_def [abs_def])

lemma last_used_inv [simp]: "tx_inv (p\<lparr>last_used_txq := l\<rparr>) = tx_inv p"
  by (simp add: tx_inv_def qcat_def [abs_def])

lemma credit_inv [simp]: "tx_inv (p\<lparr>target_tx_credit := n\<rparr>) = tx_inv p"
  by (simp add: tx_inv_def qcat_def [abs_def])

lemma status_inv [simp]: "tx_inv (p\<lparr>tx_sched_status := n\<rparr>) = tx_inv p"
  by (simp add: tx_inv_def qcat_def [abs_def])

lemma grp_inv [simp]: "tx_inv (p\<lparr>grp_credit := n\<rparr>) = tx_inv p"
  by (simp add: tx_inv_def qcat_def [abs_def])

lemma target_descs_inv [simp]: "tx_inv (p\<lparr>target_descs := n\<rparr>) = tx_inv p"
  by (simp add: tx_inv_def qcat_def [abs_def])

lemma pool_inv [simp]:
  "tx_inv (p\<lparr>freelist := l\<rparr>) = tx_inv p"
  "tx_inv (p\<lparr>num_free := n\<rparr>) = tx_inv p"
  "tx_inv (p\<lparr>nbuf_events := es\<rparr>) = tx_inv p"
  "tx_inv (p\<lparr>rsrc_cnt := r\<rparr>) = tx_inv p"
  "tx_inv (p\<lparr>tx_slots := sl\<rparr>) = tx_inv p"
  "tx_inv (upd_slot i f p) = tx_inv p"
  by (simp_all add: tx_inv_def qcat_def [abs_def])

lemma cat_frms_rest:
  assumes "tx_inv p" and "q \<in> set (cat_head (cat_of p c))"
  shows "cat_frms (cat_of p c) - int (txq_frms (txqs p q)) = 0 \<longleftrightarrow> set (cat_head (cat_of p c)) - {q} = {}"
proof -
  have "cat_frms (cat_of p c) =
      int (txq_frms (txqs p q)) + (\<Sum>x\<in>set (cat_head (cat_of p c)) - {q}. int (txq_frms (txqs p x)))"
    using cat_okD(3) [OF tx_invD(4) [OF assms(1)], of c] assms(2) by (simp add: sum.remove)
  moreover have "txq_frms (txqs p x) > 0" if "x \<in> set (cat_head (cat_of p c))" for x
    using that assms(1) active_txq_frms cat_member by blast
  ultimately show ?thesis
    by (auto simp: sum_nonneg_eq_0_iff dest!: bspec) (metis DiffI singletonD less_irrefl)
qed

text \<open>Reordering the list of a category changes nothing the invariant speaks of.\<close>

lemma cat_head_perm_inv:
  assumes "tx_inv p" and "mset h = mset (cat_head (cat_of p c))"
  shows "tx_inv (upd_cat c (\<lambda>i. i\<lparr>cat_head := h\<rparr>) p)"
proof -
  have eqs: "set h = set (cat_head (cat_of p c))" "distinct h = distinct (cat_head (cat_of p c))"
    "h = [] \<longleftrightarrow> cat_head (cat_of p c) = []"
    using assms(2) by (auto dest: mset_eq_setD mset_eq_imp_distinct_iff)
  have "cat_ok (txqs p) (qcat p) c ((cat_of p c)\<lparr>cat_head := h\<rparr>)"
    using tx_invD(4) [OF assms(1), of c] by (simp add: cat_ok_def eqs)
  then show ?thesis
    using assms(1) by (auto simp: tx_inv_def upd_cat_def qcat_def [abs_def])
qed

text \<open>The descriptor pool and the frames at the target are not touched.\<close>

definition pool_same :: "ol_txrx_pdev \<Rightarrow> ol_txrx_pdev \<Rightarrow> bool" where
  "pool_same p p' \<longleftrightarrow>
     pool_size p' = pool_size p \<and> freelist p' = freelist p \<and> num_free p' = num_free p \<and> tx_slots p' = tx_slots p \<and>
     rsrc_cnt p' = rsrc_cnt p \<and> nbuf_events p' = nbuf_events p \<and> target_descs p' = target_descs p \<and>
     tid_to_ac p' = tid_to_ac p \<and> tx_sched_status p' = tx_sched_status p \<and>
     tx_data_callback p' = tx_data_callback p \<and> ota_ack_cb p' = ota_ack_cb p"

lemma pool_same_refl: "pool_same p p"
  by (simp add: pool_same_def)

lemma pool_same_trans: "pool_same p p' \<Longrightarrow> pool_same p' p'' \<Longrightarrow> pool_same p p''"
  by (simp add: pool_same_def)

lemma pool_same_upd:
  "pool_same p (upd_cat c f p)" "pool_same p (upd_txq q g p)" "pool_same p (set_order ord p)"
  "pool_same p (set_index i p)" "pool_same p (p\<lparr>last_used_txq := l\<rparr>)" "pool_same p (p\<lparr>target_tx_credit := n\<rparr>)"
  "pool_same p (p\<lparr>grp_credit := gc\<rparr>)"
  by (simp_all add: pool_same_def upd_cat_def upd_txq_def set_order_def set_index_def)

lemma wrr_only_pool: "wrr_only p p' \<Longrightarrow> pool_same p p' \<and> txqs p' = txqs p \<and> grp_credit p' = grp_credit p \<and>
    last_used_txq p' = last_used_txq p \<and> target_tx_credit p' = target_tx_credit p"
  by (auto simp: wrr_only_def pool_same_def)

text \<open>The result of serving a queue.\<close>

lemma serve_spec:
  assumes inv: "tx_inv p" and hd: "cat_head (cat_of p c) = q # rest"
    and k: "k = min (txq_frms (txqs p q)) (min (send_limit (specs (cat_of p c))) credit)"
    and sv: "wrr_serve_txq (upd_cat c (\<lambda>i. i\<lparr>cat_head := rest\<rparr>) p) sctx c q credit = (p', sctx', n)"
  shows "n = k" and "tx_inv p'" and "txqs p' = (txqs p)(q := dequeued k (txqs p q))"
    and "sctx' = sctx\<lparr>ctx_head := ctx_head sctx @ take k (txq_head (txqs p q)), ctx_frms := ctx_frms sctx + k\<rparr>"
    and "sched_index (scheduler p') = sched_index (scheduler p)"
    and "last_used_txq p' = Some q" and "pool_same p p'"
proof -
  let ?t = "txqs p q"
  let ?i = "cat_of p c"
  note ok = tx_invD(2) [OF inv, of q]
  have q: "txq_flag ?t = ol_tx_queue_active" "qcat p q = c"
    using cat_member [OF inv, of q c] hd by auto
  have len: "length (txq_head ?t) = txq_frms ?t" and byt: "txq_bytes ?t = desc_bytes (txq_head ?t)"
    using ok by (auto simp: txq_ok_def)
  define p3 where "p3 = (upd_cat c (\<lambda>i. i\<lparr>cat_head := rest\<rparr>) p)\<lparr>last_used_txq := Some q\<rparr>"
  have p3: "txqs p3 = txqs p" "specs (cat_of p3 c) = specs ?i"
    by (simp_all add: p3_def upd_cat_def)
  have dq: "ol_tx_dequeue p3 q (ctx_head sctx) (send_limit (specs (cat_of p3 c))) credit =
    (upd_txq q (dequeued k) p3, ctx_head sctx @ take k (txq_head ?t), k, k,
     desc_bytes (take k (txq_head ?t)))"
    using ok k by (subst dequeue_eq) (auto simp: p3)
  define i1 where "i1 = ?i\<lparr>cat_head := rest, stat_dispatched := stat_dispatched ?i + int k,
      cat_frms := cat_frms ?i - int k, cat_bytes := cat_bytes ?i - int (desc_bytes (take k (txq_head ?t)))\<rparr>"
  define i2 where "i2 = (if txq_frms ?t - k > 0 then i1\<lparr>cat_head := rest @ [q]\<rparr>
      else if cat_frms ?i - int k = 0 then i1\<lparr>cat_active := False\<rparr> else i1)"
  define p4 where "p4 = upd_cat c (\<lambda>_. i2) (upd_txq q (dequeued k) (p\<lparr>last_used_txq := Some q\<rparr>))"
  let ?s = "sctx\<lparr>ctx_head := ctx_head sctx @ take k (txq_head ?t), ctx_frms := ctx_frms sctx + k\<rparr>"
  have "wrr_serve_txq (upd_cat c (\<lambda>i. i\<lparr>cat_head := rest\<rparr>) p) sctx c q credit =
      (ol_tx_txq_group_credit_update p4 q (- int k) False, ?s, k)"
    unfolding wrr_serve_txq_def Let_def p3_def [symmetric] dq
    by (simp add: p4_def i2_def i1_def p3_def upd_cat_def upd_txq_def dequeued_def)
  then have res: "p' = ol_tx_txq_group_credit_update p4 q (- int k) False" "sctx' = ?s" "n = k"
    using sv by simp_all
  show "n = k" and "sctx' = sctx\<lparr>ctx_head := ctx_head sctx @ take k (txq_head (txqs p q)), ctx_frms := ctx_frms sctx + k\<rparr>"
    by (fact res)+
  show "txqs p' = (txqs p)(q := dequeued k (txqs p q))"
    "sched_index (scheduler p') = sched_index (scheduler p)" "last_used_txq p' = Some q"
    "pool_same p p'"
    unfolding res(1)
    by (simp_all add: ol_tx_txq_group_credit_update_def ol_txrx_update_group_credit_def
        p4_def upd_cat_def upd_txq_def pool_same_def split: option.splits)
  have kle: "k \<le> txq_frms ?t" using k by simp
  have dist: "distinct (q # rest)" and act: "cat_active ?i"
    using cat_okD(1,5) [OF tx_invD(4) [OF inv, of c]] hd by auto
  have rest0: "cat_frms ?i - int (txq_frms ?t) = 0 \<longleftrightarrow> rest = []"
    using cat_frms_rest [OF inv, of q c] hd dist by (cases rest) auto
  have P: "cat_of p4 (qcat p q) = i2" "txqs p4 q = dequeued k ?t"
    by (simp_all add: p4_def upd_cat_def upd_txq_def q)
  have "tx_inv p4"
  proof (rule tx_inv_change [OF inv, of q], unfold P)
    show "same_but q p p4" by (simp add: same_but_def p4_def upd_cat_def upd_txq_def q)
    show "txq_ok (dequeued k ?t)" using ok by (rule dequeued_ok)
    show "distinct (cat_head i2)" using dist by (simp add: i2_def i1_def)
    show "set (cat_head i2) = (if txq_flag (dequeued k ?t) = ol_tx_queue_active
        then insert q (set (cat_head (cat_of p (qcat p q))) - {q})
        else set (cat_head (cat_of p (qcat p q))) - {q})"
      using dist hd kle q(1) unfolding q(2) by (auto simp: i2_def i1_def dequeued_def)
    show "cat_frms i2 = cat_frms (cat_of p (qcat p q)) - contrib_frms ?t + contrib_frms (dequeued k ?t)"
      using kle q(1) unfolding q(2) by (simp add: i2_def i1_def dequeued_def contrib_frms_def)
    show "cat_bytes i2 = cat_bytes (cat_of p (qcat p q)) - contrib_bytes ?t + contrib_bytes (dequeued k ?t)"
    proof -
      have "cat_bytes i2 = cat_bytes ?i - int (desc_bytes (take k (txq_head ?t)))"
        by (simp add: i2_def i1_def)
      moreover have "contrib_bytes ?t = int (desc_bytes (take k (txq_head ?t)) + desc_bytes (drop k (txq_head ?t)))"
        using q(1) byt desc_bytes_split [of "txq_head ?t" k] by (simp only: contrib_bytes_def refl if_True)
      moreover have "contrib_bytes (dequeued k ?t) = int (desc_bytes (drop k (txq_head ?t)))"
        using q(1) kle len by (simp add: contrib_bytes_def dequeued_def)
      ultimately show ?thesis unfolding q(2) by simp
    qed
    show "cat_active i2 = (cat_head i2 \<noteq> [])"
      using kle act rest0 by (simp add: i2_def i1_def)
  qed
  then show "tx_inv p'"
    unfolding res(1) ol_tx_txq_group_credit_update_def ol_txrx_update_group_credit_def
    by (simp split: option.splits)
qed

lemma dequeued_0:
  assumes "txq_ok t"
  shows "dequeued 0 t = t"
  using assms by (auto simp: dequeued_def txq_ok_def)

text \<open>
  One call of the selection: it moves \<open>n\<close> frames from the front of one active queue to the end
  of the context's list and reports \<open>n\<close> credits used (\<open>n = 0\<close>: nothing is moved).
\<close>

definition moved ::
    "ol_txrx_pdev \<Rightarrow> ol_tx_sched_ctx \<Rightarrow> nat \<Rightarrow> ol_txrx_pdev \<Rightarrow> ol_tx_sched_ctx \<Rightarrow> txq_id \<Rightarrow> bool" where
  "moved p sctx n p' sctx' q \<longleftrightarrow>
     (0 < n \<longrightarrow> txq_flag (txqs p q) = ol_tx_queue_active) \<and> n \<le> txq_frms (txqs p q) \<and>
     txqs p' = (txqs p)(q := dequeued n (txqs p q)) \<and>
     sctx' = sctx\<lparr>ctx_head := ctx_head sctx @ take n (txq_head (txqs p q)),
                  ctx_frms := ctx_frms sctx + n\<rparr>"

definition sel_ok ::
    "ol_txrx_pdev \<Rightarrow> ol_tx_sched_ctx \<Rightarrow> nat \<Rightarrow> ol_txrx_pdev \<times> ol_tx_sched_ctx \<times> nat \<Rightarrow> bool" where
  "sel_ok p sctx credit r = (case r of (p', sctx', n) \<Rightarrow>
     tx_inv p' \<and> pool_same p p' \<and> n \<le> credit \<and> (\<exists>q. moved p sctx n p' sctx' q))"

lemma sel_ok_idle:
  assumes "tx_inv p" and "tx_inv p'" and "pool_same p p'" and "txqs p' = txqs p"
  shows "sel_ok p sctx credit (p', sctx, 0)"
  using assms tx_invD(2) [OF assms(1)] by (auto simp: sel_ok_def moved_def dequeued_0)

lemma group_limit_le: "ol_tx_txq_group_credit_limit p q credit \<le> credit"
  by (auto simp: ol_tx_txq_group_credit_limit_def Let_def min_def split: option.splits)

lemma offer_credit_spec:
  assumes inv: "tx_inv p"
  shows "sel_ok p sctx credit (wrr_offer_credit p sctx c credit)"
proof (cases "cat_head (cat_of p c)")
  case Nil
  then show ?thesis using inv by (simp add: wrr_offer_credit_def sel_ok_idle pool_same_refl)
next
  case (Cons q rest)
  let ?p1 = "upd_cat c (\<lambda>i. i\<lparr>cat_head := rest\<rparr>) p"
  let ?cr = "ol_tx_txq_group_credit_limit ?p1 q credit"
  let ?rs = "credit_reserve (specs (cat_of ?p1 c))"
  have put: "upd_cat c (\<lambda>i. i\<lparr>cat_head := h i\<rparr>) ?p1 =
      upd_cat c (\<lambda>i. i\<lparr>cat_head := h ((cat_of p c)\<lparr>cat_head := rest\<rparr>)\<rparr>) p" for h
    by (simp add: upd_cat_def)
  have perm: "tx_inv (upd_cat c (\<lambda>i. i\<lparr>cat_head := h\<rparr>) p)" if "mset h = mset (q # rest)" for h
    using cat_head_perm_inv [OF inv, of h c] that Cons by simp
  show ?thesis
  proof (cases "?cr > ?rs")
    case True
    then have "wrr_offer_credit p sctx c credit = wrr_serve_txq ?p1 sctx c q (?cr - ?rs)"
      using Cons by (simp add: wrr_offer_credit_def Let_def)
    moreover obtain p' sctx' n where sv: "wrr_serve_txq ?p1 sctx c q (?cr - ?rs) = (p', sctx', n)"
      by (metis prod_cases3)
    moreover have "txq_flag (txqs p q) = ol_tx_queue_active"
      using cat_member [OF inv, of q c] Cons by simp
    ultimately show ?thesis
      using serve_spec [OF inv Cons refl sv] group_limit_le [of ?p1 q credit]
      by (auto simp: sel_ok_def moved_def)
  next
    case False
    then have eq: "wrr_offer_credit p sctx c credit =
        (if last_used_txq ?p1 = Some q
         then (upd_cat c (\<lambda>i. i\<lparr>cat_head := q # rest\<rparr>) p, sctx, 0)
         else let p2 = upd_cat c (\<lambda>i. i\<lparr>cat_head := rest @ [q]\<rparr>) p
              in (if last_used_txq p2 = None then p2\<lparr>last_used_txq := Some q\<rparr> else p2, sctx, 0))"
      using Cons put [of "\<lambda>i. q # cat_head i"] put [of "\<lambda>i. cat_head i @ [q]"]
      by (simp add: wrr_offer_credit_def Let_def)
    show ?thesis
      unfolding eq Let_def using inv
      by (auto intro!: sel_ok_idle simp: perm pool_same_upd)
        (auto simp: upd_cat_def pool_same_def)
  qed
qed

lemma wrr_commit_only:
  assumes "mset (order (scheduler p)) = mset all_cats" and "i < NUM_CATEGORIES"
  shows "\<exists>r. wrr_only p r \<and> wrr_commit p i = set_index i r"
proof -
  let ?p = "upd_cat (order (scheduler p) ! i) (\<lambda>i. i\<lparr>wrr_count := 0\<rparr>) p"
  let ?ord = "ol_tx_sched_wrr_adv_rotate_order_list_tail (order (scheduler ?p)) i"
  have "mset ?ord = mset (order (scheduler ?p))"
    using assms by (simp add: upd_cat_def order_length)
  then have "wrr_only p (set_order ?ord ?p)"
    by (intro wrr_only_trans [OF wrr_only_count [where f = "\<lambda>_. 0"] wrr_only_order])
  then show ?thesis unfolding wrr_commit_def Let_def by blast
qed

lemma sel_ok_after:
  assumes "sel_ok p1 sctx credit r" and "pool_same p p1" and "txqs p1 = txqs p"
  shows "sel_ok p sctx credit r"
  using assms pool_same_trans by (fastforce simp: sel_ok_def moved_def)

lemma select_batch_spec:
  assumes inv: "tx_inv p"
  shows "sel_ok p sctx credit (ol_tx_sched_select_batch_wrr_adv p sctx credit)"
proof -
  obtain p1 i where sl: "wrr_select_loop p (sched_index (scheduler p)) = (p1, i)" by fastforce
  have w1: "wrr_only p p1" using select_loop_spec [OF tx_invD(3) [OF inv] sl] by blast
  have wb: "wrr_only p (upd_cat c (\<lambda>i. i\<lparr>wrr_count := wrr_count i - 1\<rparr>) p1)" for c
    using wrr_only_trans [OF w1 wrr_only_count] .
  have idle: "sel_ok p sctx credit (r, sctx, 0)" if "wrr_only p r" for r
    using inv wrr_only_inv [OF inv that] wrr_only_pool [OF that] by (auto intro: sel_ok_idle)
  have "sel_ok p sctx credit (wrr_offer_credit (wrr_commit p1 i) sctx c credit)"
    if "i < NUM_CATEGORIES" for c
  proof -
    note inv1 = wrr_only_inv [OF inv w1]
    obtain r where r: "wrr_only p1 r" "wrr_commit p1 i = set_index i r"
      using wrr_commit_only [OF tx_invD(3) [OF inv1] \<open>i < NUM_CATEGORIES\<close>] by blast
    have w: "wrr_only p r" using w1 r(1) by (rule wrr_only_trans)
    have "sel_ok (set_index i r) sctx credit (wrr_offer_credit (set_index i r) sctx c credit)"
      using wrr_only_inv [OF inv w] by (intro offer_credit_spec) simp
    moreover have "pool_same p (set_index i r)" "txqs (set_index i r) = txqs p"
      using wrr_only_pool [OF w] pool_same_trans [OF _ pool_same_upd(4)] by (auto simp: set_index_def)
    ultimately show ?thesis unfolding r(2) by (rule sel_ok_after)
  qed
  then show ?thesis
    using idle [OF w1] idle [OF wb]
    by (simp add: ol_tx_sched_select_batch_wrr_adv_def sl Let_def)
qed

end
