(* ===== verification/TxDownload.thy ===== *)
theory TxDownload
  imports TxInv
begin

text \<open>
  Correctness of a whole run of \<open>ol_tx_sched\<close>: what the selection loop collects, what the
  dispatch hands to HTT or gives back, and how credit and descriptors are accounted for.
\<close>

section \<open>Dispatch\<close>

text \<open>
  The free list in memory, its head and the first words of the descriptors, and what pushing a
  descriptor does to it. A freed descriptor loses the pointer to its netbuf.
\<close>

definition free_pool :: "ol_txrx_pdev \<Rightarrow> desc_word \<times> (nat \<Rightarrow> desc_word)" where
  "free_pool p = (freelist p, first_words p)"

fun push_free :: "nat \<Rightarrow> desc_word \<times> (nat \<Rightarrow> desc_word) \<Rightarrow> desc_word \<times> (nat \<Rightarrow> desc_word)" where
  "push_free i (h, w) = (Elem i, w(i := h))"

lemma push_free_chain:
  "free_chain w h fl \<Longrightarrow> distinct (fs @ fl) \<Longrightarrow> fold push_free fs (h, w) = (h', w') \<Longrightarrow> free_chain w' h' (rev fs @ fl)"
proof (induction fs arbitrary: h w fl)
  case (Cons i fs)
  have "free_chain (w(i := h)) (Elem i) (i # fl)" and "distinct (fs @ (i # fl))"
    using Cons.prems(1,2) by auto
  from Cons.IH [OF this] Cons.prems(3) show ?case by (simp del: fun_upd_apply)
qed simp

lemma free_pool_fields [simp]:
  "free_pool (p\<lparr>target_descs := t\<rparr>) = free_pool p" "free_pool (p\<lparr>tx_sched_status := st\<rparr>) = free_pool p"
  by (simp_all add: free_pool_def)

lemma returned_descs:
  assumes "desc_pool_inv p" and "distinct fs" and "set fs \<subseteq> descs_used p"
    and "free_pool p' = fold push_free fs (free_pool p)" and "pool_size p' = pool_size p"
  shows "free_descs p' = rev fs @ free_descs p"
proof -
  note inv = pool_invD [OF assms(1)]
  have d: "distinct (fs @ free_descs p)" using assms(2,3) inv(2) by (auto simp: descs_used_def)
  have ch: "free_chain (first_words p') (freelist p') (rev fs @ free_descs p)"
    using push_free_chain [OF inv(1) d] assms(4) by (simp add: free_pool_def)
  have "card (set (rev fs @ free_descs p)) \<le> card {..<pool_size p}"
    using assms(3) inv(3) by (intro card_mono) (auto simp: descs_used_def)
  then have "length (rev fs @ free_descs p) \<le> pool_size p'"
    using d assms(5) distinct_card [of "rev fs @ free_descs p"] by simp
  from free_chain_walk [OF ch this] show ?thesis by (simp add: free_descs_def [of p'])
qed

text \<open>
  \<open>dispatched env ds p p'\<close>: between \<open>p\<close> and \<open>p'\<close> the frames \<open>ds\<close> were offered to HTT in this
  order. Those it accepted are appended to the frames at the target; each of the others gives
  one credit back and returns its descriptor to the pool.
\<close>

definition dispatched :: "htt_env \<Rightarrow> ol_tx_desc list \<Rightarrow> ol_txrx_pdev \<Rightarrow> ol_txrx_pdev \<Rightarrow> bool" where
  "dispatched env ds p p' \<longleftrightarrow>
     target_descs p' = target_descs p @ filter (\<lambda>d. \<not> pkt_alloc_fails env d) ds \<and>
     target_tx_credit p' = target_tx_credit p + int (length (filter (pkt_alloc_fails env) ds)) \<and>
     (\<exists>fs. mset fs = mset (map desc_id (filter (pkt_alloc_fails env) ds)) \<and>
        free_pool p' = fold push_free fs (free_pool p)) \<and>
     num_free p' mod 2 ^ 16 = (num_free p + length (filter (pkt_alloc_fails env) ds)) mod 2 ^ 16 \<and>
     txqs p' = txqs p \<and> scheduler p' = scheduler p \<and> sched_attached p' = sched_attached p \<and>
     tid_to_ac p' = tid_to_ac p \<and> rsrc_cnt p' = rsrc_cnt p \<and> pool_size p' = pool_size p \<and>
     tx_sched_status p' = tx_sched_status p \<and> grp_credit p' = grp_credit p"

lemma dispatched_Nil: "dispatched env [] p p"
  by (simp add: dispatched_def)

lemma dispatched_append:
  assumes "dispatched env ds p p'" and "dispatched env es p' p''"
  shows "dispatched env (ds @ es) p p''"
proof -
  have m: "c mod m = (b + (x + y)) mod m"
    if "a mod m = (b + x) mod m" and "c mod m = (a + y) mod m" for a b c x y m :: nat
    using that by (metis add.assoc mod_add_left_eq)
  have "num_free p'' mod 2 ^ 16 = (num_free p + (length (filter (pkt_alloc_fails env) ds) +
      length (filter (pkt_alloc_fails env) es))) mod 2 ^ 16"
    by (rule m [of "num_free p'"]) (use assms in \<open>simp_all add: dispatched_def\<close>)
  moreover obtain fs gs where
    "mset fs = mset (map desc_id (filter (pkt_alloc_fails env) ds))" "free_pool p' = fold push_free fs (free_pool p)"
    "mset gs = mset (map desc_id (filter (pkt_alloc_fails env) es))" "free_pool p'' = fold push_free gs (free_pool p')"
    using assms by (auto simp: dispatched_def)
  then have "\<exists>fs. mset fs = mset (map desc_id (filter (pkt_alloc_fails env) (ds @ es))) \<and>
      free_pool p'' = fold push_free fs (free_pool p)"
    by (intro exI [of _ "fs @ gs"]) simp
  ultimately show ?thesis
    using assms unfolding dispatched_def by (simp only: filter_append length_append map_append
        mset_append of_nat_add append_assoc add.assoc simp_thms)
qed

text \<open>A frame freed by \<open>ol_tx_desc_frame_free_nonstd\<close>: only the pool and the event log change.\<close>

definition free_events :: "ol_txrx_pdev \<Rightarrow> ol_tx_desc \<Rightarrow> bool \<Rightarrow> nbuf_event list" where
  "free_events p d e =
     (let nb = first_words p (desc_id d) in
      if pkt_type d = ol_tx_frm_no_free \<and> tx_data_callback p then [Nbuf_data_callback nb e]
      else if pkt_type d = ol_tx_frm_tso \<or> pkt_type d < OL_TXRX_MGMT_TYPE_BASE \<or> pkt_type d = ol_tx_frm_freed
      then [Nbuf_tx_free nb e]
      else (if ota_ack_cb p (pkt_type d - OL_TXRX_MGMT_TYPE_BASE)
            then [Nbuf_ota_ack (pkt_type d - OL_TXRX_MGMT_TYPE_BASE) nb e] else []) @
           [Nbuf_mgmt_free nb])"

lemma free_nonstd_eq:
  "ol_tx_desc_frame_free_nonstd p d e =
     p\<lparr>nbuf_events := nbuf_events p @ free_events p d e, freelist := Elem (desc_id d),
       num_free := u16 (num_free p + 1),
       tx_slots := (tx_slots p)(desc_id d :=
         (tx_slots p (desc_id d))\<lparr>ref_cnt := 0, first_word := freelist p, sl_vdev := None\<rparr>)\<rparr>"
  by (simp add: upd_slot_def ol_tx_desc_frame_free_nonstd_def ol_tx_desc_free_def ol_tx_desc_push_free_def
      nbuf_log_def Let_def free_events_def)

lemma send_failed_eq:
  "send_failed d p =
     p\<lparr>target_tx_credit := target_tx_credit p + 1, nbuf_events := nbuf_events p @ free_events p d True,
       freelist := Elem (desc_id d), num_free := u16 (num_free p + 1),
       tx_slots := (tx_slots p)(desc_id d :=
         (tx_slots p (desc_id d))\<lparr>ref_cnt := 0, first_word := freelist p, sl_vdev := None\<rparr>)\<rparr>"
  by (simp add: send_failed_def free_nonstd_eq OL_TX_TARGET_CREDIT_INCR_def htt_tx_msdu_credit_def
      free_events_def Let_def)

lemma dispatched_failed:
  assumes "pkt_alloc_fails env d"
  shows "dispatched env [d] p (send_failed d p)"
proof -
  have "free_pool (send_failed d p) = push_free (desc_id d) (free_pool p)"
    by (auto simp: send_failed_eq free_pool_def)
  then show ?thesis using assms
    by (auto simp: dispatched_def send_failed_eq intro!: exI [of _ "[desc_id d]"])
qed

lemma dispatched_fold_failed:
  assumes "\<And>d. d \<in> set ds \<Longrightarrow> pkt_alloc_fails env d"
  shows "dispatched env ds p (fold send_failed ds p)"
  using assms
proof (induction ds arbitrary: p)
  case Nil
  then show ?case by (simp add: dispatched_Nil)
next
  case (Cons d ds)
  have "dispatched env ([d] @ ds) p (fold send_failed ds (send_failed d p))"
    by (rule dispatched_append [OF dispatched_failed Cons.IH]) (use Cons.prems in auto)
  then show ?case by simp
qed

lemma htt_batch_eq:
  assumes "n \<le> length ds"
  shows "htt_tx_send_batch env p ds n rej =
    (p\<lparr>target_descs := target_descs p @ filter (\<lambda>d. \<not> pkt_alloc_fails env d) (take n ds)\<rparr>,
     rev (filter (pkt_alloc_fails env) (take n ds)) @ rej)"
  using assms
proof (induction env p ds n rej rule: htt_tx_send_batch.induct)
  case (3 env p d ds n rej)
  then show ?case
    by (cases "pkt_alloc_fails env d") (simp_all add: htt_tx_send_std_def)
qed simp_all

lemma send_batch_dispatched:
  assumes "n \<le> length ds"
  shows "dispatched env (take n ds) p (ol_tx_send_batch env p ds n)"
proof -
  let ?ok = "filter (\<lambda>d. \<not> pkt_alloc_fails env d) (take n ds)"
  let ?bad = "filter (pkt_alloc_fails env) (take n ds)"
  let ?p1 = "p\<lparr>target_descs := target_descs p @ ?ok\<rparr>"
  have "dispatched env (rev ?bad) ?p1 (fold send_failed (rev ?bad) ?p1)"
    by (rule dispatched_fold_failed) auto
  moreover have "filter (pkt_alloc_fails env) (rev ?bad) = rev ?bad"
    and "filter (\<lambda>d. \<not> pkt_alloc_fails env d) (rev ?bad) = []"
    by (simp_all add: rev_filter [symmetric] filter_empty_conv)
  ultimately show ?thesis
    unfolding dispatched_def ol_tx_send_batch_def Let_def htt_batch_eq [OF assms]
    by (simp add: rev_map [symmetric])
qed

lemma single_dispatched:
  "dispatched env [d] p (let (p, failed) = htt_tx_send_std env p d in if failed then send_failed d p else p)"
  by (cases "pkt_alloc_fails env d")
    (simp_all add: htt_tx_send_std_def dispatched_failed, simp add: dispatched_def)

lemma dispatched_slot [simp]:
  "dispatched env ds (upd_slot i (\<lambda>sl. sl\<lparr>sl_frame := d, ref_cnt := n\<rparr>) p) p' = dispatched env ds p p'"
proof -
  have "free_pool (upd_slot i (\<lambda>sl. sl\<lparr>sl_frame := d, ref_cnt := n\<rparr>) p) = free_pool p"
    by (auto simp: free_pool_def)
  then show ?thesis by (simp add: dispatched_def)
qed

lemma dispatch_loop_dispatched:
  assumes "n = length ds"
  shows "dispatched env (chain @ ds) p (ol_tx_sched_dispatch_loop env p ds n chain (length chain))"
  using assms
proof (induction ds arbitrary: p n chain)
  case Nil
  have "dispatched env (take (length chain) chain) p (ol_tx_send_batch env p chain (length chain))"
    by (rule send_batch_dispatched) simp
  then show ?case using Nil by (cases chain) (auto simp: dispatched_Nil)
next
  case (Cons d ds)
  show ?case
  proof (cases "storage_err env d")
    case True
    let ?p0 = "upd_slot (desc_id d) (\<lambda>sl. sl\<lparr>sl_frame := d, ref_cnt := 2\<rparr>) p"
    let ?p1 = "ol_tx_send_batch env ?p0 (chain @ [d]) (length chain)"
    let ?p2 = "let (p, failed) = htt_tx_send_std env ?p1 d in if failed then send_failed d p else p"
    have "dispatched env (take (length chain) (chain @ [d])) ?p0 ?p1"
      by (rule send_batch_dispatched) simp
    then have "dispatched env chain p ?p1" by simp
    moreover have "dispatched env [d] ?p1 ?p2" by (rule single_dispatched)
    moreover have "dispatched env ds ?p2 (ol_tx_sched_dispatch_loop env ?p2 ds (length ds) [] 0)"
      using Cons.IH [of "length ds" "[]" ?p2] by simp
    ultimately have "dispatched env (chain @ ([d] @ ds)) p (ol_tx_sched_dispatch_loop env ?p2 ds (length ds) [] 0)"
      by (blast intro: dispatched_append)
    then show ?thesis
      using True Cons.prems by (simp add: Let_def case_prod_beta split: if_splits)
  next
    case False
    then show ?thesis
      using Cons.IH [of "length ds" "chain @ [d]" "upd_slot (desc_id d) (\<lambda>sl. sl\<lparr>sl_frame := d, ref_cnt := 2\<rparr>) p"]
        Cons.prems by simp
  qed
qed

lemma dispatch_dispatched:
  assumes "ctx_frms sctx = length (ctx_head sctx)"
  shows "dispatched env (ctx_head sctx) p (ol_tx_sched_dispatch env p sctx)"
  using dispatch_loop_dispatched [OF assms, of env "[]" p] by (simp add: ol_tx_sched_dispatch_def)

lemma dispatched_inv: "dispatched env ds p p' \<Longrightarrow> tx_inv p' = tx_inv p"
  by (simp add: dispatched_def tx_inv_def qcat_def [abs_def])

section \<open>The selection loop\<close>

text \<open>
  What a run collects is a sequence of batches, each taken from the front of one queue. The
  frames of a queue leave it in order: its list before the run is what its batches hold,
  followed by its list after the run.
\<close>

definition batches_of :: "txq_id \<Rightarrow> (txq_id \<times> ol_tx_desc list) list \<Rightarrow> ol_tx_desc list" where
  "batches_of q bs = concat (map snd (filter (\<lambda>b. fst b = q) bs))"

definition collected ::
    "ol_txrx_pdev \<Rightarrow> (txq_id \<times> ol_tx_desc list) list \<Rightarrow> ol_txrx_pdev \<Rightarrow> bool" where
  "collected p bs p' \<longleftrightarrow>
     (\<forall>q. txq_head (txqs p q) = batches_of q bs @ txq_head (txqs p' q)) \<and>
     (\<forall>(q, ds) \<in> set bs. ds \<noteq> [] \<and> txq_flag (txqs p q) = ol_tx_queue_active)"

lemma batches_of_Cons: "batches_of r (b # bs) = batches_of r [b] @ batches_of r bs"
  by (simp add: batches_of_def)

lemma collected_Nil: "collected p [] p"
  by (simp add: collected_def batches_of_def)

lemma moved_head:
  assumes "moved p sctx n p' sctx' q"
  shows "txq_head (txqs p r) = batches_of r [(q, take n (txq_head (txqs p q)))] @ txq_head (txqs p' r)"
  using assms by (cases "r = q") (auto simp: moved_def batches_of_def dequeued_def)

lemma collected_Cons:
  assumes inv: "tx_inv p" and m: "moved p sctx n p' sctx' q" and "0 < n" and "collected p' bs p''"
  shows "collected p ((q, take n (txq_head (txqs p q))) # bs) p''"
proof -
  have act: "txq_flag (txqs p q) = ol_tx_queue_active" and n: "n \<le> length (txq_head (txqs p q))"
    using m \<open>0 < n\<close> tx_invD(2) [OF inv, of q] by (auto simp: moved_def txq_ok_def)
  have flag: "txq_flag (txqs p r) = ol_tx_queue_active" if "txq_flag (txqs p' r) = ol_tx_queue_active" for r
  proof (cases "r = q")
    case False
    then have "txqs p' r = txqs p r" using m by (simp add: moved_def)
    then show ?thesis using that by simp
  qed (simp add: act)
  have ne: "take n (txq_head (txqs p q)) \<noteq> []" using n \<open>0 < n\<close> by auto
  have heads: "txq_head (txqs p r) =
      batches_of r ((q, take n (txq_head (txqs p q))) # bs) @ txq_head (txqs p'' r)" for r
  proof -
    have "txq_head (txqs p' r) = batches_of r bs @ txq_head (txqs p'' r)"
      using assms(4) by (simp add: collected_def)
    from moved_head [OF m, of r, unfolded this] show ?thesis
      by (subst batches_of_Cons) (simp only: append_assoc)
  qed
  have "ds \<noteq> [] \<and> txq_flag (txqs p r) = ol_tx_queue_active" if "(r, ds) \<in> set bs" for r ds
    using assms(4) that flag [of r] unfolding collected_def by blast
  then have "\<forall>(r, ds) \<in> set ((q, take n (txq_head (txqs p q))) # bs).
      ds \<noteq> [] \<and> txq_flag (txqs p r) = ol_tx_queue_active"
    using ne act by auto
  with heads show ?thesis unfolding collected_def by blast
qed

definition loop_ok ::
    "ol_txrx_pdev \<Rightarrow> ol_tx_sched_ctx \<Rightarrow> ol_txrx_pdev \<Rightarrow> ol_tx_sched_ctx \<Rightarrow> (txq_id \<times> ol_tx_desc list) list \<Rightarrow> bool" where
  "loop_ok p sctx p' sctx' bs \<longleftrightarrow>
     tx_inv p' \<and> pool_same p p' \<and> collected p bs p' \<and>
     ctx_head sctx' = ctx_head sctx @ concat (map snd bs) \<and>
     ctx_frms sctx' = ctx_frms sctx + length (concat (map snd bs)) \<and>
     target_tx_credit p' = target_tx_credit p - int (length (concat (map snd bs))) \<and>
     (target_tx_credit p \<ge> 0 \<longrightarrow> target_tx_credit p' \<ge> 0)"

lemma loop_ok_stop:
  assumes inv: "tx_inv p" and "moved p sctx 0 p1 s1 q"
    and "tx_inv p1" and "pool_same p p1" and "target_tx_credit p1 = target_tx_credit p"
  shows "loop_ok p sctx p1 s1 []"
proof -
  have "txqs p1 = txqs p" "s1 = sctx"
    using assms(2) tx_invD(2) [OF inv, of q] by (auto simp: moved_def dequeued_0)
  then show ?thesis using assms by (simp add: loop_ok_def collected_def batches_of_def)
qed

lemma loop_ok_step:
  assumes inv: "tx_inv p" and mv: "moved p sctx n p1 s1 q" and n: "0 < n"
    and pool: "pool_same p p1" and cr: "target_tx_credit p1 = target_tx_credit p"
    and le: "int n \<le> target_tx_credit p"
    and rest: "loop_ok (p1\<lparr>target_tx_credit := target_tx_credit p1 - int n\<rparr>) s1 p' sctx' bs"
  shows "loop_ok p sctx p' sctx' ((q, take n (txq_head (txqs p q))) # bs)"
proof -
  let ?p2 = "p1\<lparr>target_tx_credit := target_tx_credit p1 - int n\<rparr>"
  have mv2: "moved p sctx n ?p2 s1 q" using mv by (simp add: moved_def)
  have "collected p ((q, take n (txq_head (txqs p q))) # bs) p'"
    using collected_Cons [OF inv mv2 n] rest by (simp add: loop_ok_def)
  moreover have "int (length (take n (txq_head (txqs p q)) @ xs)) = int n + int (length xs)" for xs :: "ol_tx_desc list"
    using mv tx_invD(2) [OF inv, of q] by (simp add: moved_def txq_ok_def)
  moreover have "pool_same p p'"
    using rest pool by (simp add: loop_ok_def pool_same_def)
  moreover have "s1 = sctx\<lparr>ctx_head := ctx_head sctx @ take n (txq_head (txqs p q)), ctx_frms := ctx_frms sctx + n\<rparr>"
    using mv by (simp add: moved_def)
  ultimately show ?thesis
    using rest le cr by (simp add: loop_ok_def)
qed

lemma sched_loop_spec:
  assumes "tx_inv p"
  shows "\<exists>bs. loop_ok p sctx (fst (ol_tx_sched_loop p sctx)) (snd (ol_tx_sched_loop p sctx)) bs"
  using assms
proof (induction p sctx rule: ol_tx_sched_loop.induct)
  case (1 p sctx)
  show ?case
  proof (cases "target_tx_credit p > 0")
    case False
    then have "ol_tx_sched_loop p sctx = (p, sctx)" by (simp add: ol_tx_sched_loop.simps [of p])
    then show ?thesis
      using "1.prems" by (auto intro!: exI [of _ "[]"] simp: loop_ok_def collected_Nil pool_same_refl)
  next
    case cr: True
    obtain p1 s1 n where sel: "ol_tx_sched_select_batch_wrr_adv p sctx (nat (target_tx_credit p)) = (p1, s1, n)"
      by (metis prod_cases3)
    obtain q where inv1: "tx_inv p1" and pool1: "pool_same p p1" and ncr: "int n \<le> target_tx_credit p"
      and mv: "moved p sctx n p1 s1 q"
      using select_batch_spec [OF "1.prems"(1), of sctx "nat (target_tx_credit p)"] cr
      by (auto simp: sel sel_ok_def)
    have c1: "target_tx_credit p1 = target_tx_credit p"
      using select_batch_credit [of p sctx "nat (target_tx_credit p)"] by (simp add: sel)
    let ?p2 = "p1\<lparr>target_tx_credit := target_tx_credit p1 - int n\<rparr>"
    show ?thesis
    proof (cases "n = 0")
      case True
      then have "ol_tx_sched_loop p sctx = (p1, s1)"
        using cr by (simp add: ol_tx_sched_loop.simps [of p] sel)
      then show ?thesis
        using loop_ok_stop [OF "1.prems" _ inv1 pool1 c1] mv True by auto
    next
      case False
      then have eq: "ol_tx_sched_loop p sctx = ol_tx_sched_loop ?p2 s1"
        using cr by (simp add: ol_tx_sched_loop.simps [of p] sel)
      have "n > 0" using False by simp
      have "\<exists>bs. loop_ok ?p2 s1 (fst (ol_tx_sched_loop ?p2 s1)) (snd (ol_tx_sched_loop ?p2 s1)) bs"
        using "1.IH" [OF cr sel [symmetric] refl refl refl False] \<open>n > 0\<close> inv1 by simp
      then show ?thesis
        unfolding eq using loop_ok_step [OF "1.prems" mv \<open>n > 0\<close> pool1 c1 ncr] by blast
    qed
  qed
qed

section \<open>A whole run\<close>

definition sched_run ::
    "htt_env \<Rightarrow> ol_txrx_pdev \<Rightarrow> (txq_id \<times> ol_tx_desc list) list \<Rightarrow> ol_txrx_pdev \<Rightarrow> ol_txrx_pdev \<Rightarrow> bool" where
  "sched_run env p bs p1 p2 \<longleftrightarrow>
     collected p bs p1 \<and> tx_inv p1 \<and> pool_same (p\<lparr>tx_sched_status := ol_tx_scheduler_running\<rparr>) p1 \<and>
     target_tx_credit p1 = target_tx_credit p - int (length (concat (map snd bs))) \<and>
     (target_tx_credit p \<ge> 0 \<longrightarrow> target_tx_credit p1 \<ge> 0) \<and>
     dispatched env (concat (map snd bs)) p1 p2 \<and>
     ol_tx_sched env p = p2\<lparr>tx_sched_status := ol_tx_scheduler_idle\<rparr>"

lemma ol_tx_sched_run:
  assumes inv: "tx_inv p" and idle: "tx_sched_status p = ol_tx_scheduler_idle"
  shows "\<exists>bs p1 p2. sched_run env p bs p1 p2"
proof -
  let ?p0 = "ol_tx_sched_select_init_wrr_adv (p\<lparr>tx_sched_status := ol_tx_scheduler_running\<rparr>)"
  let ?s0 = "\<lparr>ctx_head = [], ctx_frms = 0\<rparr>"
  obtain p1 s1 where lp: "ol_tx_sched_loop ?p0 ?s0 = (p1, s1)" by fastforce
  have inv0: "tx_inv ?p0" using inv by (simp add: ol_tx_sched_select_init_wrr_adv_def)
  obtain bs where bs: "loop_ok ?p0 ?s0 p1 s1 bs"
    using sched_loop_spec [OF inv0, of ?s0] by (auto simp: lp)
  have p0: "txqs ?p0 = txqs p" "target_tx_credit ?p0 = target_tx_credit p"
    "pool_same (p\<lparr>tx_sched_status := ol_tx_scheduler_running\<rparr>) ?p0"
    by (simp_all add: ol_tx_sched_select_init_wrr_adv_def set_index_def pool_same_def)
  have "ctx_frms s1 = length (ctx_head s1)" "ctx_head s1 = concat (map snd bs)"
    using bs by (simp_all add: loop_ok_def)
  then have "dispatched env (concat (map snd bs)) p1 (ol_tx_sched_dispatch env p1 s1)"
    using dispatch_dispatched [of s1 env p1] by simp
  moreover have "ol_tx_sched env p = (ol_tx_sched_dispatch env p1 s1)\<lparr>tx_sched_status := ol_tx_scheduler_idle\<rparr>"
    using idle by (simp add: ol_tx_sched_def Let_def lp)
  moreover have "collected p bs p1"
    using bs p0(1) by (simp add: loop_ok_def collected_def)
  moreover have "pool_same (p\<lparr>tx_sched_status := ol_tx_scheduler_running\<rparr>) p1"
    using bs p0(3) pool_same_trans by (auto simp: loop_ok_def)
  ultimately have "sched_run env p bs p1 (ol_tx_sched_dispatch env p1 s1)"
    using bs p0(2) unfolding loop_ok_def sched_run_def by (intro conjI) auto
  then show ?thesis by blast
qed

lemma sched_busy: "tx_sched_status p \<noteq> ol_tx_scheduler_idle \<Longrightarrow> ol_tx_sched env p = p"
  by (simp add: ol_tx_sched_def)

lemma sched_inv: "tx_inv p \<Longrightarrow> tx_inv (ol_tx_sched env p)"
proof (cases "tx_sched_status p = ol_tx_scheduler_idle")
  case True
  assume "tx_inv p"
  then obtain bs p1 p2 where "sched_run env p bs p1 p2" using ol_tx_sched_run [OF _ True] by blast
  then show ?thesis by (auto simp: sched_run_def dispatched_inv)
qed (simp add: sched_busy)

text \<open>
  Property C2. One run of the scheduler keeps the order within every tx queue and loses no
  frame: there is a sequence of batches, each taken from an active queue, such that a queue's
  frames before the run are its batches followed by its frames afterwards; the frames at the
  target grow by exactly the batches' frames that HTT accepted, in that order; and the
  descriptors of the frames HTT refused, and no others, are pushed on the free list in memory, which
  is afterwards these descriptors and the old list when none of them was on it.
\<close>

theorem ol_tx_sched_fifo_conservation:
  assumes "tx_inv p" and "tx_sched_status p = ol_tx_scheduler_idle"
  shows "\<exists>bs. (\<forall>q. txq_head (txqs p q) = batches_of q bs @ txq_head (txqs (ol_tx_sched env p) q)) \<and>
    (\<forall>(q, ds) \<in> set bs. ds \<noteq> [] \<and> txq_flag (txqs p q) = ol_tx_queue_active) \<and>
    target_descs (ol_tx_sched env p) =
      target_descs p @ filter (\<lambda>d. \<not> pkt_alloc_fails env d) (concat (map snd bs)) \<and>
    (\<exists>fs. mset fs = mset (map desc_id (filter (pkt_alloc_fails env) (concat (map snd bs)))) \<and>
       free_pool (ol_tx_sched env p) = fold push_free fs (free_pool p) \<and>
       (desc_pool_inv p \<and> distinct fs \<and> set fs \<subseteq> descs_used p \<longrightarrow>
          free_descs (ol_tx_sched env p) = rev fs @ free_descs p))"
proof -
  obtain bs p1 p2 where run: "sched_run env p bs p1 p2" using ol_tx_sched_run [OF assms] by blast
  have p1: "free_pool p1 = free_pool p" "pool_size p1 = pool_size p"
    using run by (simp_all add: sched_run_def pool_same_def free_pool_def)
  obtain fs where fs: "mset fs = mset (map desc_id (filter (pkt_alloc_fails env) (concat (map snd bs))))"
    "free_pool (ol_tx_sched env p) = fold push_free fs (free_pool p)"
    using run p1(1) by (auto simp: sched_run_def dispatched_def)
  have "pool_size (ol_tx_sched env p) = pool_size p"
    using run p1(2) by (simp add: sched_run_def dispatched_def)
  then show ?thesis
    using run fs returned_descs [OF _ _ _ fs(2)]
    by (intro exI [of _ bs]) (auto simp: sched_run_def collected_def pool_same_def dispatched_def)
qed

text \<open>
  Property C4. A run never overdraws the target: the credit of the target stays non-negative,
  and it drops by exactly the number of frames that reached the target, because a frame HTT
  refused gives its credit back. The scheduler is idle again afterwards.
\<close>

theorem ol_tx_sched_credit:
  assumes "tx_inv p" and "tx_sched_status p = ol_tx_scheduler_idle" and "target_tx_credit p \<ge> 0"
  shows "target_tx_credit (ol_tx_sched env p) =
      target_tx_credit p - int (length (target_descs (ol_tx_sched env p)) - length (target_descs p)) \<and>
    target_tx_credit (ol_tx_sched env p) \<ge> 0 \<and>
    tx_sched_status (ol_tx_sched env p) = ol_tx_scheduler_idle"
proof -
  obtain bs p1 p2 where run: "sched_run env p bs p1 p2" using ol_tx_sched_run [OF assms(1,2)] by blast
  let ?ds = "concat (map snd bs)"
  have "length ?ds = length (filter (pkt_alloc_fails env) ?ds) + length (filter (\<lambda>d. \<not> pkt_alloc_fails env d) ?ds)"
    using sum_length_filter_compl by metis
  then show ?thesis
    using run assms(3) by (simp add: sched_run_def dispatched_def pool_same_def)
qed

end
