(* ===== verification/TxQueue.thy ===== *)
theory TxQueue
  imports TxDownload
begin

text \<open>
  The tx queues (ol_tx_queue.c): enqueueing with congestion discard, freeing, flushing, and the
  pausing of queues, peers and virtual devices. Every operation keeps the consistency invariant
  of \<open>TxInv\<close>, with one exception that is proved to be real: freeing a paused queue.
\<close>

unbundle bit_operations_syntax

section \<open>Congestion discard\<close>

lemma dequeue_loop_bound:
  "n \<le> m \<Longrightarrow> fst (ol_tx_dequeue_loop m credit n cs bs ds out) \<le> m"
  by (induction m credit n cs bs ds out rule: ol_tx_dequeue_loop.induct) auto

lemma dequeue_bound: "fst (snd (snd (ol_tx_dequeue p q out m credit))) \<le> m"
proof -
  let ?m = "if txq_frms (txqs p q) < m then txq_frms (txqs p q) else m"
  obtain n cs bs ds o' fl where
    lp: "ol_tx_dequeue_loop ?m credit 0 0 0 (txq_head (txqs p q)) out = (n, cs, bs, ds, o', fl)"
    by (metis prod_cases6)
  have "n \<le> ?m" using dequeue_loop_bound [of 0 ?m credit 0 0 "txq_head (txqs p q)" out] lp by simp
  then show ?thesis
    unfolding ol_tx_dequeue_def Let_def lp by (auto simp: case_prod_beta split: if_splits)
qed

lemma discard_select_bound:
  "snd (snd (ol_tx_sched_discard_select p num ds force)) \<le> num"
proof (cases "ol_tx_sched_discard_select_txq p
    (cat_head (cat_of p (ol_tx_sched_discard_select_category_wrr_adv p)))")
  case None
  then show ?thesis by (simp add: ol_tx_sched_discard_select_def)
next
  case (Some q)
  let ?m = "if force then num
    else let f = if OL_TX_DISCARD_QUANTUM < num then OL_TX_DISCARD_QUANTUM else num
         in if txq_frms (txqs p q) > 1 \<and> f \<ge> txq_frms (txqs p q) div 2 then txq_frms (txqs p q) div 2 else f"
  have "?m \<le> num" by (auto simp: Let_def)
  then show ?thesis
    using dequeue_bound [of p q ds ?m 10000] Some
    by (simp add: ol_tx_sched_discard_select_def Let_def case_prod_beta)
qed

text \<open>The loop of \<open>ol_tx_queue_discard\<close>; the last component counts what was discarded.\<close>

function discard_loop ::
    "ol_txrx_pdev \<Rightarrow> nat \<Rightarrow> ol_tx_desc list \<Rightarrow> bool \<Rightarrow> nat \<Rightarrow> ol_txrx_pdev \<times> nat \<times> ol_tx_desc list \<times> nat" where
  "discard_loop pdev num tx_descs flush_all actual =
     (if num > 0 then
        let (pdev', tx_descs', discarded) = ol_tx_sched_discard_select pdev num tx_descs flush_all
        in if discarded = 0 then (pdev', num, tx_descs', actual)
           else discard_loop pdev' (usub 16 num discarded) tx_descs' flush_all (u16 (actual + discarded))
      else (pdev, num, tx_descs, actual))"
  by pat_completeness auto
termination
proof (relation "measure (\<lambda>(pdev, num, tx_descs, flush_all, actual). num)", goal_cases)
  case (2 pdev num tx_descs flush_all actual x p' y ds' k)
  have "k \<le> num"
    using discard_select_bound [of pdev num tx_descs flush_all] 2(2-4) by (metis snd_conv)
  then have "usub 16 num k < num"
    using 2 usub_bound [of 16 num k] by (cases "num < 2 ^ 16") (auto simp: usub_exact)
  then show ?case by simp
qed simp

declare discard_loop.simps [simp del]

section \<open>Freeing and flushing\<close>

definition ol_tx_queue_free :: "ol_txrx_pdev \<Rightarrow> txq_id \<Rightarrow> nat \<Rightarrow> ol_txrx_pdev" where
  "ol_tx_queue_free pdev q tid =
     (let pdev = ol_tx_sched_notify pdev q (OL_TX_DELETE_QUEUE tid);
          txq = txqs pdev q;
          frms = txq_frms txq;
          bytes = sum_list (map netbuf_len (take frms (txq_head txq)));
          tx_tmp_list = txq_head txq;
          pdev = upd_txq q (\<lambda>t. t\<lparr>txq_frms := 0, txq_bytes := usub 32 (txq_bytes t) bytes,
                                  txq_flag := ol_tx_queue_empty, txq_head := []\<rparr>) pdev;
          pdev = pdev\<lparr>rsrc_cnt := rsrc_cnt pdev + int frms\<rparr>
      in fold (\<lambda>d pdev. ol_tx_desc_frame_free_nonstd pdev d False) (take frms tx_tmp_list) pdev)"

definition OL_TX_NUM_TIDS :: nat where "OL_TX_NUM_TIDS = 18"
definition OL_TX_MGMT_TID :: nat where "OL_TX_MGMT_TID = 17"
definition PEER_ARRAY_COUNT :: nat where "PEER_ARRAY_COUNT = 10"

definition peer_has_frames :: "ol_txrx_pdev \<Rightarrow> nat \<Rightarrow> bool" where
  "peer_has_frames pdev peer =
     list_ex (\<lambda>tid. txq_frms (txqs pdev (Peer_txq peer tid)) \<noteq> 0) [0..<OL_TX_NUM_TIDS]"

definition flush_peer :: "nat \<Rightarrow> ol_txrx_pdev \<Rightarrow> ol_txrx_pdev" where
  "flush_peer peer pdev =
     fold (\<lambda>tid pdev. if txq_frms (txqs pdev (Peer_txq peer tid)) \<noteq> 0
                      then ol_tx_queue_free pdev (Peer_txq peer tid) tid else pdev)
       [0..<OL_TX_NUM_TIDS] pdev"

lemma fold_free_txqs:
  "txqs (fold (\<lambda>d p. ol_tx_desc_frame_free_nonstd p d e) ds p) = txqs p"
  by (induction ds arbitrary: p) (simp_all add: free_nonstd_eq)

lemma upd_cat_txqs [simp]: "txqs (upd_cat c f p) = txqs p"
  by (simp add: upd_cat_def)

lemma notify_txqs [simp]: "txqs (ol_tx_sched_notify p q ev) = txqs p"
  by (simp add: ol_tx_sched_notify_def ol_tx_sched_txq_enqueue_wrr_adv_def
      ol_tx_sched_txq_deactivate_wrr_adv_def ol_tx_sched_txq_discard_wrr_adv_def Let_def
      split: ol_tx_sched_notify_event.splits)

lemma queue_free_txqs:
  "txqs (ol_tx_queue_free p q tid) =
    (txqs p)(q := (txqs p q)\<lparr>txq_frms := 0,
      txq_bytes := usub 32 (txq_bytes (txqs p q)) (sum_list (map netbuf_len (take (txq_frms (txqs p q)) (txq_head (txqs p q))))),
      txq_flag := ol_tx_queue_empty, txq_head := []\<rparr>)"
  by (simp add: ol_tx_queue_free_def Let_def fold_free_txqs upd_txq_def)

lemma flush_tids_frms:
  defines "step \<equiv> \<lambda>peer tid p. if txq_frms (txqs p (Peer_txq peer tid)) \<noteq> 0
      then ol_tx_queue_free p (Peer_txq peer tid) tid else p"
  shows "txq_frms (txqs (fold (step peer) tids p) (Peer_txq r t)) =
    (if r = peer \<and> t \<in> set tids then 0 else txq_frms (txqs p (Peer_txq r t)))"
proof (induction tids arbitrary: p)
  case (Cons tid tids)
  have "txq_frms (txqs (step peer tid p) (Peer_txq r t)) =
      (if r = peer \<and> t = tid then 0 else txq_frms (txqs p (Peer_txq r t)))"
    by (auto simp: step_def queue_free_txqs)
  then show ?case using Cons.IH [of "step peer tid p"] by auto
qed simp

lemma flush_peer_frms:
  "txq_frms (txqs (flush_peer peer p) (Peer_txq r t)) =
    (if r = peer \<and> t < OL_TX_NUM_TIDS then 0 else txq_frms (txqs p (Peer_txq r t)))"
  unfolding flush_peer_def flush_tids_frms by auto

lemma flush_peer_has: "peer_has_frames (flush_peer peer p) r \<longleftrightarrow> r \<noteq> peer \<and> peer_has_frames p r"
  unfolding peer_has_frames_def list_ex_iff flush_peer_frms by auto

lemma fold_flush_has:
  "peer_has_frames (fold flush_peer ps p) r \<longleftrightarrow> r \<notin> set ps \<and> peer_has_frames p r"
  by (induction ps arbitrary: p) (auto simp: flush_peer_has)

lemma flush_round_decreases:
  assumes "cand = take PEER_ARRAY_COUNT (filter (peer_has_frames p) peers)" and "cand \<noteq> []"
  shows "length (filter (peer_has_frames (fold flush_peer cand p)) peers)
       < length (filter (peer_has_frames p) peers)"
proof -
  have c: "c \<in> set peers" "peer_has_frames p c" if "c \<in> set cand" for c
    using assms(1) that by (auto dest: in_set_takeD)
  obtain c where "c \<in> set cand" using assms(2) by (cases cand) auto
  then have "length (filter (\<lambda>r. r \<notin> set cand) (filter (peer_has_frames p) peers))
      < length (filter (peer_has_frames p) peers)"
    using c by (intro length_filter_less [of c]) auto
  moreover have "peer_has_frames (fold flush_peer cand p) = (\<lambda>r. peer_has_frames p r \<and> r \<notin> set cand)"
    by (auto simp: fun_eq_iff fold_flush_has)
  ultimately show ?thesis by simp
qed

text \<open>
  The do-while loop over the peers of a virtual device: at most ten candidates are picked per
  round, and the loop ends with the first round that picks fewer.
\<close>

function flush_peers_loop :: "nat list \<Rightarrow> ol_txrx_pdev \<Rightarrow> ol_txrx_pdev" where
  "flush_peers_loop peers pdev =
     (let cand = take PEER_ARRAY_COUNT (filter (peer_has_frames pdev) peers);
          pdev' = fold flush_peer cand pdev
      in if length cand \<ge> PEER_ARRAY_COUNT then flush_peers_loop peers pdev' else pdev')"
  by pat_completeness auto
termination
proof (relation "measure (\<lambda>(peers, p). length (filter (peer_has_frames p) peers))", goal_cases)
  case (2 peers p cand p')
  then have "cand \<noteq> []" by (auto simp: PEER_ARRAY_COUNT_def)
  then show ?case using flush_round_decreases [OF 2(1)] 2(2) by simp
qed simp

declare flush_peers_loop.simps [simp del]

definition ol_tx_queue_vdev_flush :: "ol_txrx_vdev \<Rightarrow> ol_txrx_pdev \<Rightarrow> ol_txrx_pdev" where
  "ol_tx_queue_vdev_flush vdev pdev =
     (let pdev = ol_tx_queue_free pdev (Vdev_txq (vdev_id vdev) 0) 16;
          pdev = ol_tx_queue_free pdev (Vdev_txq (vdev_id vdev) 1) 17
      in flush_peers_loop (peer_list vdev) pdev)"

definition ol_tx_queue_flush :: "ol_txrx_pdev \<Rightarrow> ol_txrx_pdev" where
  "ol_tx_queue_flush pdev = fold ol_tx_queue_vdev_flush (vdev_list pdev) pdev"

definition ol_tx_queue_discard ::
    "ol_txrx_pdev \<Rightarrow> bool \<Rightarrow> ol_tx_desc list \<Rightarrow> ol_txrx_pdev \<times> ol_tx_desc list" where
  "ol_tx_queue_discard pdev flush_all tx_descs =
     (let num = (if flush_all then nat ((int (pool_size pdev) - rsrc_cnt pdev) mod 2 ^ 16)
                 else usub 16 (rsrc_threshold_hi pdev) (rsrc_threshold_lo pdev));
          (pdev, num, tx_descs, actual) = discard_loop pdev num tx_descs flush_all 0;
          pdev = pdev\<lparr>rsrc_cnt := rsrc_cnt pdev + int actual\<rparr>;
          pdev = (if flush_all \<and> num > 0 then ol_tx_queue_flush pdev else pdev)
      in (pdev, tx_descs))"

section \<open>Enqueueing\<close>

definition ol_tx_enqueue :: "ol_txrx_pdev \<Rightarrow> txq_id \<Rightarrow> ol_tx_desc \<Rightarrow> nat \<Rightarrow> ol_txrx_pdev" where
  "ol_tx_enqueue pdev q d ext_tid =
     (let pdev = (if rsrc_cnt pdev \<le> int (rsrc_threshold_lo pdev)
                  then let (pdev, tx_descs) = ol_tx_queue_discard pdev False []
                       in ol_tx_desc_frame_list_free pdev tx_descs True
                  else pdev);
          bytes = netbuf_len d;
          pdev = upd_txq q (\<lambda>t. t\<lparr>txq_head := txq_head t @ [d], txq_frms := u16 (txq_frms t + 1),
                                  txq_bytes := u32 (txq_bytes t + bytes)\<rparr>) pdev
      in if txq_flag (txqs pdev q) \<noteq> ol_tx_queue_paused
         then upd_txq q (\<lambda>t. t\<lparr>txq_flag := ol_tx_queue_active\<rparr>)
                (ol_tx_sched_notify pdev q (OL_TX_ENQUEUE_FRAME ext_tid bytes))
         else pdev)"

section \<open>Pausing\<close>

definition ol_txrx_peer_tid_pause_base :: "nat \<Rightarrow> nat \<Rightarrow> ol_txrx_pdev \<Rightarrow> ol_txrx_pdev" where
  "ol_txrx_peer_tid_pause_base peer tid pdev =
     (let q = Peer_txq peer tid;
          total = paused_total (txqs pdev q);
          pdev = upd_txq q (\<lambda>t. t\<lparr>paused_total := u8 (total + 1)\<rparr>) pdev
      in if total = 0
         then upd_txq q (\<lambda>t. t\<lparr>txq_flag := ol_tx_queue_paused\<rparr>)
                (ol_tx_sched_notify pdev q (OL_TX_PAUSE_QUEUE tid))
         else pdev)"

definition ol_txrx_peer_pause_but_no_mgmt_q_base :: "nat \<Rightarrow> ol_txrx_pdev \<Rightarrow> ol_txrx_pdev" where
  "ol_txrx_peer_pause_but_no_mgmt_q_base peer pdev =
     fold (ol_txrx_peer_tid_pause_base peer) [0..<OL_TX_MGMT_TID] pdev"

definition ol_txrx_peer_pause_base :: "nat \<Rightarrow> ol_txrx_pdev \<Rightarrow> ol_txrx_pdev" where
  "ol_txrx_peer_pause_base peer pdev =
     fold (ol_txrx_peer_tid_pause_base peer) [0..<OL_TX_NUM_TIDS] pdev"

definition ol_txrx_peer_tid_unpause_base :: "htt_env \<Rightarrow> nat \<Rightarrow> nat \<Rightarrow> ol_txrx_pdev \<Rightarrow> ol_txrx_pdev" where
  "ol_txrx_peer_tid_unpause_base env peer tid pdev =
     (let q = Peer_txq peer tid;
          total = paused_total (txqs pdev q)
      in if total = 0 then pdev
         else
           let pdev = upd_txq q (\<lambda>t. t\<lparr>paused_total := total - 1\<rparr>) pdev
           in if total - 1 = 0 then
                let pdev = ol_tx_sched_notify pdev q (OL_TX_UNPAUSE_QUEUE tid)
                in if txq_frms (txqs pdev q) = 0
                   then upd_txq q (\<lambda>t. t\<lparr>txq_flag := ol_tx_queue_empty\<rparr>) pdev
                   else ol_tx_sched env (upd_txq q (\<lambda>t. t\<lparr>txq_flag := ol_tx_queue_active\<rparr>) pdev)
              else pdev)"

definition ol_txrx_peer_unpause_but_no_mgmt_q_base :: "htt_env \<Rightarrow> nat \<Rightarrow> ol_txrx_pdev \<Rightarrow> ol_txrx_pdev" where
  "ol_txrx_peer_unpause_but_no_mgmt_q_base env peer pdev =
     fold (ol_txrx_peer_tid_unpause_base env peer) [0..<OL_TX_MGMT_TID] pdev"

text \<open>\<open>tid = -1\<close> stands for all queues of the peer.\<close>

definition ol_txrx_peer_tid_unpause :: "htt_env \<Rightarrow> nat \<Rightarrow> int \<Rightarrow> ol_txrx_pdev \<Rightarrow> ol_txrx_pdev" where
  "ol_txrx_peer_tid_unpause env peer tid pdev =
     (if tid = -1 then fold (ol_txrx_peer_tid_unpause_base env peer) [0..<OL_TX_NUM_TIDS] pdev
      else ol_txrx_peer_tid_unpause_base env peer (nat tid) pdev)"

definition upd_vdev :: "nat \<Rightarrow> (ol_txrx_vdev \<Rightarrow> ol_txrx_vdev) \<Rightarrow> ol_txrx_pdev \<Rightarrow> ol_txrx_pdev" where
  "upd_vdev i f pdev = pdev\<lparr>vdev_list := map (\<lambda>v. if vdev_id v = i then f v else v) (vdev_list pdev)\<rparr>"

definition ol_txrx_vdev_pause :: "32 word \<Rightarrow> ol_txrx_vdev \<Rightarrow> ol_txrx_pdev \<Rightarrow> ol_txrx_pdev" where
  "ol_txrx_vdev_pause reason vdev pdev =
     (if hl_paused_reason vdev AND reason = 0
      then fold ol_txrx_peer_pause_base (peer_list vdev)
             (upd_vdev (vdev_id vdev) (\<lambda>v. v\<lparr>hl_paused_reason := hl_paused_reason v OR reason\<rparr>) pdev)
      else pdev)"

definition ol_txrx_vdev_unpause :: "htt_env \<Rightarrow> 32 word \<Rightarrow> ol_txrx_vdev \<Rightarrow> ol_txrx_pdev \<Rightarrow> ol_txrx_pdev" where
  "ol_txrx_vdev_unpause env reason vdev pdev =
     (if hl_paused_reason vdev AND reason \<noteq> 0
      then fold (\<lambda>peer. fold (ol_txrx_peer_tid_unpause_base env peer) [0..<OL_TX_NUM_TIDS]) (peer_list vdev)
             (upd_vdev (vdev_id vdev) (\<lambda>v. v\<lparr>hl_paused_reason := hl_paused_reason v AND NOT reason\<rparr>) pdev)
      else pdev)"

definition ol_txrx_pdev_pause :: "32 word \<Rightarrow> ol_txrx_pdev \<Rightarrow> ol_txrx_pdev" where
  "ol_txrx_pdev_pause reason pdev = fold (ol_txrx_vdev_pause reason) (vdev_list pdev) pdev"

definition ol_txrx_pdev_unpause :: "htt_env \<Rightarrow> 32 word \<Rightarrow> ol_txrx_pdev \<Rightarrow> ol_txrx_pdev" where
  "ol_txrx_pdev_unpause env reason pdev = fold (ol_txrx_vdev_unpause env reason) (vdev_list pdev) pdev"

definition ol_txrx_pdev_pause_other_vdev :: "32 word \<Rightarrow> nat \<Rightarrow> ol_txrx_pdev \<Rightarrow> ol_txrx_pdev" where
  "ol_txrx_pdev_pause_other_vdev reason current_id pdev =
     fold (\<lambda>v p. if vdev_id v \<noteq> current_id then ol_txrx_vdev_pause reason v p else p) (vdev_list pdev) pdev"

definition ol_txrx_pdev_unpause_other_vdev ::
    "htt_env \<Rightarrow> 32 word \<Rightarrow> nat \<Rightarrow> ol_txrx_pdev \<Rightarrow> ol_txrx_pdev" where
  "ol_txrx_pdev_unpause_other_vdev env reason current_id pdev =
     fold (\<lambda>v p. if vdev_id v \<noteq> current_id then ol_txrx_vdev_unpause env reason v p else p) (vdev_list pdev) pdev"

definition ol_txrx_vdev_flush :: "ol_txrx_vdev \<Rightarrow> ol_txrx_pdev \<Rightarrow> ol_txrx_pdev" where
  "ol_txrx_vdev_flush vdev pdev = ol_tx_queue_vdev_flush vdev pdev"

end
