(* ===== verification/TxQueueInv.thy ===== *)
theory TxQueueInv
  imports TxQueue
begin

text \<open>
  The queue operations keep the consistency invariant, and what congestion discard chooses.
\<close>

section \<open>One queue changes\<close>

text \<open>A change of a queue that the scheduler does not see.\<close>

lemma upd_txq_inv:
  assumes inv: "tx_inv p" and ok: "txq_ok (f (txqs p q))"
    and "contrib_frms (f (txqs p q)) = contrib_frms (txqs p q)"
    and "contrib_bytes (f (txqs p q)) = contrib_bytes (txqs p q)"
    and "(txq_flag (f (txqs p q)) = ol_tx_queue_active) = (txq_flag (txqs p q) = ol_tx_queue_active)"
  shows "tx_inv (upd_txq q f p)"
proof (rule tx_inv_change [OF inv, of q])
  show "same_but q p (upd_txq q f p)" by (simp add: same_but_def upd_txq_def)
  let ?h = "cat_head (cat_of p (qcat p q))"
  have "q \<in> set ?h \<longleftrightarrow> txq_flag (txqs p q) = ol_tx_queue_active"
    using cat_member [OF inv, of q "qcat p q"] by simp
  then show "set (cat_head (cat_of (upd_txq q f p) (qcat p q))) =
      (if txq_flag (txqs (upd_txq q f p) q) = ol_tx_queue_active then insert q (set ?h - {q}) else set ?h - {q})"
    using assms(5) by (auto simp: upd_txq_def)
  show "cat_active (cat_of (upd_txq q f p) (qcat p q)) = (cat_head (cat_of (upd_txq q f p) (qcat p q)) \<noteq> [])"
    "distinct (cat_head (cat_of (upd_txq q f p) (qcat p q)))"
    using cat_okD(1,5) [OF tx_invD(4) [OF inv, of "qcat p q"]] by (simp_all add: upd_txq_def)
qed (use assms in \<open>simp_all add: upd_txq_def\<close>)

text \<open>An active queue leaves the list of its category.\<close>

definition cat_drop :: "txq_id \<Rightarrow> ol_tx_frms_queue \<Rightarrow> ol_tx_cat_info \<Rightarrow> ol_tx_cat_info" where
  "cat_drop q t i = i\<lparr>cat_frms := cat_frms i - int (txq_frms t), cat_bytes := cat_bytes i - int (txq_bytes t),
     cat_head := remove1 q (cat_head i),
     cat_active := (if cat_frms i - int (txq_frms t) = 0 then False else cat_active i)\<rparr>"

lemma deactivate_eq:
  assumes "tid_to_ac p tid = c"
  shows "ol_tx_sched_txq_deactivate_wrr_adv p q tid = upd_cat c (cat_drop q (txqs p q)) p"
  using assms by (cases "cat_of p c")
    (simp add: ol_tx_sched_txq_deactivate_wrr_adv_def Let_def upd_cat_def cat_drop_def)

lemma deactivate_inv:
  assumes inv: "tx_inv p" and act: "txq_flag (txqs p q) = ol_tx_queue_active"
    and ok: "txq_ok (f (txqs p q))" and fl: "txq_flag (f (txqs p q)) \<noteq> ol_tx_queue_active"
  shows "tx_inv (upd_txq q f (upd_cat (qcat p q) (cat_drop q (txqs p q)) p))"
    (is "tx_inv ?p'")
proof -
  let ?i = "cat_of p (qcat p q)"
  have i': "cat_of ?p' (qcat p q) = cat_drop q (txqs p q) ?i" and t': "txqs ?p' q = f (txqs p q)"
    by (simp_all add: upd_txq_def upd_cat_def)
  have q: "q \<in> set (cat_head ?i)" using cat_member [OF inv] act by simp
  have d: "distinct (cat_head ?i)" and a: "cat_active ?i = (cat_head ?i \<noteq> [])"
    using cat_okD(1,5) [OF tx_invD(4) [OF inv, of "qcat p q"]] by simp_all
  have nil: "cat_frms ?i - int (txq_frms (txqs p q)) = 0 \<longleftrightarrow> remove1 q (cat_head ?i) = []"
    using cat_frms_rest [OF inv q] d set_remove1_eq [OF d, of q] by (metis set_empty)
  show ?thesis
  proof (rule tx_inv_change [OF inv, of q], unfold i' t')
    show "same_but q p ?p'" by (simp add: same_but_def upd_txq_def upd_cat_def)
    show "txq_ok (f (txqs p q))" by (fact ok)
    show "distinct (cat_head (cat_drop q (txqs p q) ?i))" using d by (simp add: cat_drop_def)
    show "set (cat_head (cat_drop q (txqs p q) ?i)) =
        (if txq_flag (f (txqs p q)) = ol_tx_queue_active then insert q (set (cat_head ?i) - {q})
         else set (cat_head ?i) - {q})"
      using d fl by (simp add: cat_drop_def)
    show "cat_frms (cat_drop q (txqs p q) ?i) = cat_frms ?i - contrib_frms (txqs p q) + contrib_frms (f (txqs p q))"
      "cat_bytes (cat_drop q (txqs p q) ?i) = cat_bytes ?i - contrib_bytes (txqs p q) + contrib_bytes (f (txqs p q))"
      using act fl by (simp_all add: cat_drop_def contrib_frms_def contrib_bytes_def)
    show "cat_active (cat_drop q (txqs p q) ?i) = (cat_head (cat_drop q (txqs p q) ?i) \<noteq> [])"
    proof (cases "remove1 q (cat_head ?i) = []")
      case True
      then show ?thesis using nil by (simp add: cat_drop_def)
    next
      case False
      moreover have "cat_head ?i \<noteq> []" using q by auto
      ultimately show ?thesis using nil a by (simp add: cat_drop_def)
    qed
  qed
qed

text \<open>A queue that is not active joins the list of its category.\<close>

definition cat_join :: "txq_id \<Rightarrow> nat \<Rightarrow> nat \<Rightarrow> ol_tx_cat_info \<Rightarrow> ol_tx_cat_info" where
  "cat_join q frms bytes i = i\<lparr>cat_frms := cat_frms i + int frms, cat_bytes := cat_bytes i + int bytes,
     stat_queued := stat_queued i + int frms, cat_head := cat_head i @ [q], cat_active := True\<rparr>"

definition cat_grow :: "nat \<Rightarrow> nat \<Rightarrow> ol_tx_cat_info \<Rightarrow> ol_tx_cat_info" where
  "cat_grow frms bytes i = i\<lparr>cat_frms := cat_frms i + int frms, cat_bytes := cat_bytes i + int bytes,
     stat_queued := stat_queued i + int frms\<rparr>"

lemma enqueue_eq:
  assumes "tid_to_ac p tid = c"
  shows "ol_tx_sched_txq_enqueue_wrr_adv p q tid frms bytes =
    upd_cat c (if txq_flag (txqs p q) = ol_tx_queue_active then cat_grow frms bytes else cat_join q frms bytes) p"
  using assms by (simp add: ol_tx_sched_txq_enqueue_wrr_adv_def Let_def upd_cat_def cat_join_def cat_grow_def)

lemma join_inv:
  assumes inv: "tx_inv p" and act: "txq_flag (txqs p q) \<noteq> ol_tx_queue_active"
    and ok: "txq_ok (f (txqs p q))" and fl: "txq_flag (f (txqs p q)) = ol_tx_queue_active"
    and "frms = txq_frms (f (txqs p q))" and "bytes = txq_bytes (f (txqs p q))"
  shows "tx_inv (upd_txq q f (upd_cat (qcat p q) (cat_join q frms bytes) p))"
    (is "tx_inv ?p'")
proof -
  let ?i = "cat_of p (qcat p q)"
  have i': "cat_of ?p' (qcat p q) = cat_join q frms bytes ?i" and t': "txqs ?p' q = f (txqs p q)"
    by (simp_all add: upd_txq_def upd_cat_def)
  have q: "q \<notin> set (cat_head ?i)" using cat_member [OF inv] act by simp
  have d: "distinct (cat_head ?i)" using cat_okD(1) [OF tx_invD(4) [OF inv, of "qcat p q"]] .
  show ?thesis
  proof (rule tx_inv_change [OF inv, of q], unfold i' t')
    show "same_but q p ?p'" by (simp add: same_but_def upd_txq_def upd_cat_def)
  qed (use q d act fl ok assms(5,6) in \<open>auto simp: cat_join_def contrib_frms_def contrib_bytes_def\<close>)
qed

lemma grow_inv:
  assumes inv: "tx_inv p" and act: "txq_flag (txqs p q) = ol_tx_queue_active"
    and ok: "txq_ok (f (txqs p q))" and fl: "txq_flag (f (txqs p q)) = ol_tx_queue_active"
    and "txq_frms (f (txqs p q)) = txq_frms (txqs p q) + frms"
    and "txq_bytes (f (txqs p q)) = txq_bytes (txqs p q) + bytes"
  shows "tx_inv (upd_txq q f (upd_cat (qcat p q) (cat_grow frms bytes) p))"
    (is "tx_inv ?p'")
proof -
  let ?i = "cat_of p (qcat p q)"
  have i': "cat_of ?p' (qcat p q) = cat_grow frms bytes ?i" and t': "txqs ?p' q = f (txqs p q)"
    by (simp_all add: upd_txq_def upd_cat_def)
  have q: "q \<in> set (cat_head ?i)" using cat_member [OF inv] act by simp
  note c = cat_okD(1,5) [OF tx_invD(4) [OF inv, of "qcat p q"]]
  show ?thesis
  proof (rule tx_inv_change [OF inv, of q], unfold i' t')
    show "same_but q p ?p'" by (simp add: same_but_def upd_txq_def upd_cat_def)
  qed (use q c act fl ok assms(5,6) in \<open>auto simp: cat_grow_def contrib_frms_def contrib_bytes_def\<close>)
qed

lemma upd_txq_upd_txq: "upd_txq q f (upd_txq q g p) = upd_txq q (\<lambda>t. f (g t)) p"
  by (simp add: upd_txq_def)

lemma upd_cat_upd_txq: "upd_cat c g (upd_txq q f p) = upd_txq q f (upd_cat c g p)"
  by (simp add: upd_cat_def upd_txq_def)

section \<open>Pausing and unpausing\<close>

lemma pause_base_inv:
  assumes inv: "tx_inv p" and "paused_total (txqs p (Peer_txq peer tid)) < 255"
  shows "tx_inv (ol_txrx_peer_tid_pause_base peer tid p)"
proof -
  let ?q = "Peer_txq peer tid"
  let ?n = "paused_total (txqs p ?q)"
  have ok: "txq_ok (txqs p ?q)" using tx_invD(2) [OF inv] .
  have n: "u8 (?n + 1) = ?n + 1" using assms(2) by simp
  have qc: "tid_to_ac p tid = qcat p ?q" by (simp add: qcat_def)
  show ?thesis
  proof (cases "?n = 0")
    case False
    then have "ol_txrx_peer_tid_pause_base peer tid p = upd_txq ?q (\<lambda>t. t\<lparr>paused_total := ?n + 1\<rparr>) p"
      using n by (simp add: ol_txrx_peer_tid_pause_base_def Let_def)
    then show ?thesis
      using False ok assms(2) inv by (auto intro!: upd_txq_inv simp: txq_ok_def contrib_frms_def contrib_bytes_def)
  next
    case True
    let ?f = "\<lambda>t :: ol_tx_frms_queue. t\<lparr>paused_total := ?n + 1, txq_flag := ol_tx_queue_paused\<rparr>"
    have okf: "txq_ok (?f (txqs p ?q))" using ok True by (auto simp: txq_ok_def)
    have att: "sched_attached p" using tx_invD(1) [OF inv] .
    show ?thesis
    proof (cases "txq_flag (txqs p ?q) = ol_tx_queue_active")
      case act: True
      have "ol_txrx_peer_tid_pause_base peer tid p =
          upd_txq ?q ?f (upd_cat (qcat p ?q) (cat_drop ?q (txqs p ?q)) p)"
        using True act att qc by (simp add: ol_txrx_peer_tid_pause_base_def Let_def ol_tx_sched_notify_def
            deactivate_eq upd_txq_def upd_cat_def cat_drop_def)
      then show ?thesis using deactivate_inv [OF inv act, of ?f] okf by simp
    next
      case False
      then have "ol_txrx_peer_tid_pause_base peer tid p = upd_txq ?q ?f p"
        using True att by (simp add: ol_txrx_peer_tid_pause_base_def Let_def ol_tx_sched_notify_def upd_txq_def)
      then show ?thesis
        using okf False inv by (auto intro!: upd_txq_inv simp: contrib_frms_def contrib_bytes_def)
    qed
  qed
qed

lemma unpause_base_inv:
  assumes inv: "tx_inv p"
  shows "tx_inv (ol_txrx_peer_tid_unpause_base env peer tid p)"
proof -
  let ?q = "Peer_txq peer tid"
  let ?t = "txqs p ?q"
  let ?n = "paused_total ?t"
  have ok: "txq_ok ?t" using tx_invD(2) [OF inv] .
  have att: "sched_attached p" using tx_invD(1) [OF inv] .
  have qc: "tid_to_ac p tid = qcat p ?q" by (simp add: qcat_def)
  consider (none) "?n = 0" | (more) "?n > 1" | (last_one) "?n = 1" by linarith
  then show ?thesis
  proof cases
    case none
    then show ?thesis using inv by (simp add: ol_txrx_peer_tid_unpause_base_def)
  next
    case more
    then have "ol_txrx_peer_tid_unpause_base env peer tid p = upd_txq ?q (\<lambda>t. t\<lparr>paused_total := ?n - 1\<rparr>) p"
      by (simp add: ol_txrx_peer_tid_unpause_base_def Let_def)
    then show ?thesis
      using more ok inv by (auto intro!: upd_txq_inv simp: txq_ok_def contrib_frms_def contrib_bytes_def)
  next
    case last_one
    then have paused: "txq_flag ?t = ol_tx_queue_paused" using ok by (simp add: txq_ok_def)
    show ?thesis
    proof (cases "txq_frms ?t = 0")
      case True
      let ?f = "\<lambda>t :: ol_tx_frms_queue. t\<lparr>paused_total := 0, txq_flag := ol_tx_queue_empty\<rparr>"
      have "ol_txrx_peer_tid_unpause_base env peer tid p = upd_txq ?q ?f p"
        using last_one True att by (simp add: ol_txrx_peer_tid_unpause_base_def Let_def ol_tx_sched_notify_def upd_txq_def)
      then show ?thesis
        using ok True paused inv by (auto intro!: upd_txq_inv simp: txq_ok_def contrib_frms_def contrib_bytes_def)
    next
      case False
      let ?f = "\<lambda>t :: ol_tx_frms_queue. t\<lparr>paused_total := 0, txq_flag := ol_tx_queue_active\<rparr>"
      have "ol_txrx_peer_tid_unpause_base env peer tid p =
          ol_tx_sched env (upd_txq ?q ?f (upd_cat (qcat p ?q) (cat_join ?q (txq_frms ?t) (txq_bytes ?t)) p))"
        using last_one False att paused qc
        by (simp add: ol_txrx_peer_tid_unpause_base_def Let_def ol_tx_sched_notify_def enqueue_eq
            upd_txq_def upd_cat_def cat_join_def)
      moreover have "tx_inv (upd_txq ?q ?f (upd_cat (qcat p ?q) (cat_join ?q (txq_frms ?t) (txq_bytes ?t)) p))"
        using paused ok False by (intro join_inv [OF inv]) (auto simp: txq_ok_def)
      ultimately show ?thesis by (simp add: sched_inv)
    qed
  qed
qed

section \<open>Freeing a queue\<close>

lemma free_nonstd_inv [simp]: "tx_inv (ol_tx_desc_frame_free_nonstd p d e) = tx_inv p"
  by (simp add: free_nonstd_eq)

lemma fold_free_inv [simp]: "tx_inv (fold (\<lambda>d p. ol_tx_desc_frame_free_nonstd p d e) ds p) = tx_inv p"
  by (induction ds arbitrary: p) simp_all

lemma queue_free_inv:
  assumes inv: "tx_inv p" and "paused_total (txqs p q) = 0"
  shows "tx_inv (ol_tx_queue_free p q (txq_tid q))"
proof -
  let ?t = "txqs p q"
  let ?f = "\<lambda>t :: ol_tx_frms_queue. t\<lparr>txq_frms := 0, txq_bytes := 0, txq_flag := ol_tx_queue_empty, txq_head := []\<rparr>"
  have ok: "txq_ok ?t" using tx_invD(2) [OF inv] .
  have att: "sched_attached p" using tx_invD(1) [OF inv] .
  have z: "usub 32 (txq_bytes ?t) (sum_list (map netbuf_len (take (txq_frms ?t) (txq_head ?t)))) = 0"
    using ok by (simp add: txq_ok_def usub_self)
  have okf: "txq_ok (?f ?t)" using ok assms(2) by (simp add: txq_ok_def)
  have upd: "upd_txq q (\<lambda>t. t\<lparr>txq_frms := 0, txq_bytes := usub 32 (txq_bytes t)
      (sum_list (map netbuf_len (take (txq_frms ?t) (txq_head ?t)))), txq_flag := ol_tx_queue_empty, txq_head := []\<rparr>) r
      = upd_txq q ?f r" if "txqs r q = ?t" for r
    using that z by (simp add: upd_txq_def)
  show ?thesis
  proof (cases "txq_flag ?t = ol_tx_queue_active")
    case True
    have "tx_inv (upd_txq q ?f (upd_cat (qcat p q) (cat_drop q ?t) p))"
      using okf by (intro deactivate_inv [OF inv True]) auto
    then show ?thesis
      using True att by (simp add: ol_tx_queue_free_def Let_def ol_tx_sched_notify_def
          deactivate_eq [OF refl] upd qcat_def)
  next
    case False
    have "tx_inv (upd_txq q ?f p)"
      using okf False inv by (auto intro!: upd_txq_inv simp: contrib_frms_def contrib_bytes_def)
    then show ?thesis
      using False att by (simp add: ol_tx_queue_free_def Let_def ol_tx_sched_notify_def upd)
  qed
qed

section \<open>Congestion discard\<close>

lemma category_fold:
  fixes sc :: "'a \<Rightarrow> int"
  assumes "\<And>c. sc c \<ge> 0" and "m = sc c0 \<or> m = 0" and "m \<ge> 0"
    and "foldl (\<lambda>(m, cat) c. if m = 0 \<or> sc c > m then (sc c, c) else (m, cat)) (m, c0) cs = (m', c')"
  shows "(cs \<noteq> [] \<or> m = sc c0 \<longrightarrow> m' = sc c') \<and> m' \<ge> m \<and> (\<forall>c\<in>set cs. sc c \<le> m')"
  using assms(2-)
proof (induction cs arbitrary: m c0)
  case (Cons c cs)
  show ?case
  proof (cases "m = 0 \<or> sc c > m")
    case True
    then have "foldl (\<lambda>(m, cat) c. if m = 0 \<or> sc c > m then (sc c, c) else (m, cat)) (sc c, c) cs = (m', c')"
      using Cons.prems(3) by simp
    from Cons.IH [OF _ _ this] show ?thesis using True assms(1) [of c] by auto
  next
    case False
    then have *: "m = sc c0" using Cons.prems(1) by auto
    have "foldl (\<lambda>(m, cat) c. if m = 0 \<or> sc c > m then (sc c, c) else (m, cat)) (m, c0) cs = (m', c')"
      using False Cons.prems(3) by simp
    from Cons.IH [OF _ Cons.prems(2) this] show ?thesis using * False by auto
  qed
qed simp

definition discard_score :: "ol_txrx_pdev \<Rightarrow> ol_tx_cat \<Rightarrow> int" where
  "discard_score p c = cat_frms (cat_of p c) * discard_weight (specs (cat_of p c))"

lemma discard_category_max:
  assumes "\<And>c. discard_score p c \<ge> 0"
  shows "discard_score p c \<le> discard_score p (ol_tx_sched_discard_select_category_wrr_adv p)"
proof -
  obtain m' c' where f: "foldl (\<lambda>(m, cat) c. if m = 0 \<or> discard_score p c > m
      then (discard_score p c, c) else (m, cat)) (0, CAT_BE) all_cats = (m', c')"
    by fastforce
  have "all_cats \<noteq> []" by (simp add: all_cats_def)
  then have "m' = discard_score p c'" "\<forall>c\<in>set all_cats. discard_score p c \<le> m'"
    using category_fold [OF assms _ _ f] by auto
  moreover have "ol_tx_sched_discard_select_category_wrr_adv p = c'"
    unfolding ol_tx_sched_discard_select_category_wrr_adv_def Let_def discard_score_def [symmetric] f
    by simp
  ultimately show ?thesis by simp
qed

lemma select_txq_fold:
  fixes g :: "'a \<Rightarrow> nat"
  assumes "foldl (\<lambda>(m, sel) q. if g q > m then (g q, Some q) else (m, sel)) (m, sel) qs = (m', sel')"
    and "case sel of None \<Rightarrow> m = 0 | Some q \<Rightarrow> m = g q \<and> g q > 0"
  shows "(case sel' of None \<Rightarrow> m' = 0 | Some q \<Rightarrow> m' = g q \<and> g q > 0 \<and> (q \<in> set qs \<or> sel = Some q)) \<and>
    m' \<ge> m \<and> (\<forall>q\<in>set qs. g q \<le> m')"
  using assms
proof (induction qs arbitrary: m sel)
  case Nil
  then show ?case by (auto split: option.splits)
next
  case (Cons q qs)
  show ?case
  proof (cases "g q > m")
    case True
    from Cons.IH [of "g q" "Some q"] Cons.prems True show ?thesis by (auto split: option.splits)
  next
    case False
    from Cons.IH [of m sel] Cons.prems False show ?thesis by (auto split: option.splits)
  qed
qed

lemma discard_select_txq_spec:
  "case ol_tx_sched_discard_select_txq p qs of
     None \<Rightarrow> \<forall>q\<in>set qs. txq_frms (txqs p q) = 0
   | Some q \<Rightarrow> q \<in> set qs \<and> txq_frms (txqs p q) > 0 \<and> (\<forall>r\<in>set qs. txq_frms (txqs p r) \<le> txq_frms (txqs p q))"
proof -
  obtain m' sel where f: "foldl (\<lambda>(m, sel) q. if txq_frms (txqs p q) > m then (txq_frms (txqs p q), Some q)
      else (m, sel)) (0, None) qs = (m', sel)" by fastforce
  then have "ol_tx_sched_discard_select_txq p qs = sel"
    by (simp add: ol_tx_sched_discard_select_txq_def)
  then show ?thesis using select_txq_fold [OF f] by (auto split: option.splits)
qed

lemma discard_eq:
  "ol_tx_sched_txq_discard_wrr_adv p q c k b = upd_cat c (\<lambda>i. i\<lparr>
     cat_frms := cat_frms i - int k, cat_bytes := cat_bytes i - int b, stat_discard := stat_discard i + int k,
     cat_head := (if txq_frms (txqs p q) = 0 then remove1 q (cat_head i) else cat_head i),
     cat_active := (if cat_frms i - int k = 0 then False else cat_active i)\<rparr>) p"
  by (cases "cat_of p c") (simp add: ol_tx_sched_txq_discard_wrr_adv_def Let_def upd_cat_def)

definition sched_total :: "ol_txrx_pdev \<Rightarrow> int" where
  "sched_total p = (\<Sum>c\<leftarrow>all_cats. cat_frms (cat_of p c))"

definition weights_pos :: "ol_txrx_pdev \<Rightarrow> bool" where
  "weights_pos p \<longleftrightarrow> (\<forall>c. discard_weight (specs (cat_of p c)) > 0)"

lemma cat_frms_nonneg: "tx_inv p \<Longrightarrow> cat_frms (cat_of p c) \<ge> 0"
  using cat_okD(3) [OF tx_invD(4), of p c] by (simp add: sum_nonneg)

lemma sched_total_nonneg: "tx_inv p \<Longrightarrow> sched_total p \<ge> 0"
  unfolding sched_total_def using cat_frms_nonneg by (intro sum_list_nonneg) auto

lemma sched_total_zero:
  assumes "tx_inv p"
  shows "sched_total p = 0 \<longleftrightarrow> (\<forall>c. cat_frms (cat_of p c) = 0)"
proof -
  have "sched_total p = 0 \<longleftrightarrow> (\<forall>x\<in>set (map (\<lambda>c. cat_frms (cat_of p c)) all_cats). x = 0)"
    unfolding sched_total_def using cat_frms_nonneg [OF assms]
    by (intro sum_list_nonneg_eq_0_iff) auto
  then show ?thesis by auto
qed

text \<open>Discarding \<open>k\<close> frames of an active queue.\<close>

lemma discard_txq_inv:
  assumes inv: "tx_inv p" and q: "q \<in> set (cat_head (cat_of p c))" and k: "k \<le> txq_frms (txqs p q)"
  defines "p' \<equiv> ol_tx_sched_txq_discard_wrr_adv (upd_txq q (dequeued k) p) q c k
                   (desc_bytes (take k (txq_head (txqs p q))))"
  shows "tx_inv p'" and "sched_total p' = sched_total p - int k"
    and "\<And>x. specs (cat_of p' x) = specs (cat_of p x)"
proof -
  let ?t = "txqs p q"
  let ?i = "cat_of p c"
  have act: "txq_flag ?t = ol_tx_queue_active" and qc: "qcat p q = c" using cat_member [OF inv] q by auto
  have ok: "txq_ok ?t" using tx_invD(2) [OF inv] .
  define i' where "i' = ?i\<lparr>cat_frms := cat_frms ?i - int k,
     cat_bytes := cat_bytes ?i - int (desc_bytes (take k (txq_head ?t))), stat_discard := stat_discard ?i + int k,
     cat_head := (if txq_frms ?t - k = 0 then remove1 q (cat_head ?i) else cat_head ?i),
     cat_active := (if cat_frms ?i - int k = 0 then False else cat_active ?i)\<rparr>"
  have p': "p' = upd_cat c (\<lambda>_. i') (upd_txq q (dequeued k) p)"
    unfolding p'_def discard_eq by (simp add: upd_cat_def upd_txq_def i'_def dequeued_def)
  show "\<And>x. specs (cat_of p' x) = specs (cat_of p x)"
    by (simp add: p' upd_cat_def upd_txq_def i'_def)
  have "sched_total p' = (\<Sum>x\<leftarrow>all_cats. cat_frms (((categories (scheduler p))(c := i')) x))"
    by (simp add: sched_total_def p' upd_cat_def upd_txq_def)
  also have "\<dots> = sched_total p - cat_frms ?i + cat_frms i'"
    unfolding sched_total_def by (rule sum_list_fun_upd_in) simp_all
  finally show "sched_total p' = sched_total p - int k" by (simp add: i'_def)
  note c = cat_okD(1,5) [OF tx_invD(4) [OF inv, of c]]
  have rest0: "cat_frms ?i - int (txq_frms ?t) = 0 \<longleftrightarrow> remove1 q (cat_head ?i) = []"
    using cat_frms_rest [OF inv q] set_remove1_eq [OF c(1), of q] by (metis set_empty)
  have pos: "cat_frms ?i - int k \<noteq> 0" if "k < txq_frms ?t"
  proof -
    have "int (txq_frms ?t) \<le> cat_frms ?i"
      using cat_okD(3) [OF tx_invD(4) [OF inv, of c]] q
      by (simp add: member_le_sum [where f = "\<lambda>x. int (txq_frms (txqs p x))"])
    then show ?thesis using that by simp
  qed
  have P: "cat_of p' (qcat p q) = i'" "txqs p' q = dequeued k ?t"
    by (simp_all add: p' upd_cat_def upd_txq_def qc)
  have byt: "contrib_bytes ?t = int (desc_bytes (take k (txq_head ?t)) + desc_bytes (drop k (txq_head ?t)))"
    using act ok desc_bytes_split [of "txq_head ?t" k] by (simp only: contrib_bytes_def txq_ok_def refl if_True)
  have byt': "contrib_bytes (dequeued k ?t) = int (desc_bytes (drop k (txq_head ?t)))"
    using act k ok by (simp add: contrib_bytes_def dequeued_def txq_ok_def)
  show "tx_inv p'"
  proof (rule tx_inv_change [OF inv, of q], unfold P)
    show "same_but q p p'" by (simp add: same_but_def p' upd_cat_def upd_txq_def qc)
    show "txq_ok (dequeued k ?t)" using ok by (rule dequeued_ok)
    show "distinct (cat_head i')" using c(1) by (simp add: i'_def)
    show "set (cat_head i') = (if txq_flag (dequeued k ?t) = ol_tx_queue_active
        then insert q (set (cat_head (cat_of p (qcat p q))) - {q}) else set (cat_head (cat_of p (qcat p q))) - {q})"
      using c(1) q k act unfolding qc by (auto simp: i'_def dequeued_def)
    show "cat_frms i' = cat_frms (cat_of p (qcat p q)) - contrib_frms ?t + contrib_frms (dequeued k ?t)"
      using k act unfolding qc by (simp add: i'_def dequeued_def contrib_frms_def)
    show "cat_bytes i' = cat_bytes (cat_of p (qcat p q)) - contrib_bytes ?t + contrib_bytes (dequeued k ?t)"
      unfolding byt byt' qc by (simp add: i'_def)
    show "cat_active i' = (cat_head i' \<noteq> [])"
    proof (cases "k < txq_frms ?t")
      case True
      then show ?thesis using pos c(2) q by (auto simp: i'_def)
    next
      case False
      then have "k = txq_frms ?t" using k by simp
      then show ?thesis using rest0 c(2) q by (auto simp: i'_def)
    qed
  qed
qed

definition discard_ok ::
    "ol_txrx_pdev \<Rightarrow> ol_tx_desc list \<Rightarrow> ol_txrx_pdev \<Rightarrow> ol_tx_desc list \<Rightarrow> nat \<Rightarrow> bool" where
  "discard_ok p ds p' ds' k \<longleftrightarrow>
     tx_inv p' \<and> (\<forall>c. specs (cat_of p' c) = specs (cat_of p c)) \<and> pool_same p p' \<and> sched_total p' = sched_total p - int k \<and>
     (\<exists>rm. ds' = ds @ rm \<and> length rm = k) \<and>
     (\<forall>q. \<exists>j. txqs p' q = dequeued j (txqs p q) \<and> j \<le> txq_frms (txqs p q))"

lemma dequeued_dequeued: "dequeued i (dequeued j t) = dequeued (j + i) t"
  by (simp add: dequeued_def add.commute) (auto simp: dequeued_def)

lemma discard_ok_refl: "tx_inv p \<Longrightarrow> discard_ok p ds p ds 0"
  by (auto simp: discard_ok_def pool_same_refl intro!: exI [of _ 0] dequeued_0 [symmetric] tx_invD(2))

lemma discard_ok_trans:
  assumes 1: "discard_ok p ds p1 ds1 k1" and 2: "discard_ok p1 ds1 p2 ds2 k2"
  shows "discard_ok p ds p2 ds2 (k1 + k2)"
proof -
  have "\<exists>j. txqs p2 q = dequeued j (txqs p q) \<and> j \<le> txq_frms (txqs p q)" for q
  proof -
    obtain j where j: "txqs p1 q = dequeued j (txqs p q)" "j \<le> txq_frms (txqs p q)"
      using 1 by (auto simp: discard_ok_def)
    obtain i where i: "txqs p2 q = dequeued i (txqs p1 q)" "i \<le> txq_frms (txqs p1 q)"
      using 2 by (auto simp: discard_ok_def)
    have "txqs p2 q = dequeued (j + i) (txqs p q)" using i j by (simp add: dequeued_dequeued)
    moreover have "j + i \<le> txq_frms (txqs p q)" using i j by (simp add: dequeued_def)
    ultimately show ?thesis by blast
  qed
  then show ?thesis using 1 2 unfolding discard_ok_def by (auto intro: pool_same_trans)
qed

lemma discard_select_ok:
  assumes inv: "tx_inv p" and num: "0 < num"
    and sel: "ol_tx_sched_discard_select p num ds force = (p', ds', k)"
  shows "discard_ok p ds p' ds' k \<and> (weights_pos p \<longrightarrow> (k = 0 \<longleftrightarrow> sched_total p = 0))"
proof -
  let ?c = "ol_tx_sched_discard_select_category_wrr_adv p"
  let ?h = "cat_head (cat_of p ?c)"
  have sc: "discard_score p c \<ge> 0" if "weights_pos p" for c
    using cat_frms_nonneg [OF inv] that by (simp add: discard_score_def weights_pos_def less_imp_le)
  show ?thesis
  proof (cases "ol_tx_sched_discard_select_txq p ?h")
    case None
    then have eq: "p' = p" "ds' = ds" "k = 0" using sel by (simp_all add: ol_tx_sched_discard_select_def)
    have "\<forall>q\<in>set ?h. txq_frms (txqs p q) = 0" using discard_select_txq_spec [of ?h p] None by simp
    then have "?h = []" using active_txq_frms [OF inv] cat_member [OF inv] by (cases ?h) fastforce+
    then have "discard_score p ?c = 0" using cat_frms_zero [OF inv, of ?c] by (simp add: discard_score_def)
    then have "discard_score p c = 0" if "weights_pos p" for c
      using that discard_category_max [OF sc, of c] sc [of c] by simp
    then have "sched_total p = 0" if "weights_pos p"
      using that sched_total_zero [OF inv] by (simp add: discard_score_def weights_pos_def) (metis less_irrefl)
    then show ?thesis using eq inv by (simp add: discard_ok_refl)
  next
    case (Some q)
    let ?t = "txqs p q"
    have q: "q \<in> set ?h" and pos: "txq_frms ?t > 0" using discard_select_txq_spec [of ?h p] Some by auto
    define m where "m = (if force then num
      else let f = if OL_TX_DISCARD_QUANTUM < num then OL_TX_DISCARD_QUANTUM else num
           in if txq_frms ?t > 1 \<and> f \<ge> txq_frms ?t div 2 then txq_frms ?t div 2 else f)"
    have m: "0 < m" using num by (auto simp: m_def Let_def OL_TX_DISCARD_QUANTUM_def)
    define j where "j = min (txq_frms ?t) (min m 10000)"
    have dq: "ol_tx_dequeue p q ds m 10000 =
        (upd_txq q (dequeued j) p, ds @ take j (txq_head ?t), j, j, desc_bytes (take j (txq_head ?t)))"
      using tx_invD(2) [OF inv] j_def by (rule dequeue_eq)
    have att: "sched_attached (upd_txq q (dequeued j) p)" using tx_invD(1) [OF inv] by (simp add: upd_txq_def)
    let ?p' = "ol_tx_sched_txq_discard_wrr_adv (upd_txq q (dequeued j) p) q ?c j (desc_bytes (take j (txq_head ?t)))"
    have "ol_tx_sched_discard_select p num ds force = (?p', ds @ take j (txq_head ?t), j)"
      using Some dq att unfolding ol_tx_sched_discard_select_def Let_def m_def
      by (simp add: ol_tx_sched_notify_def)
    then have res: "p' = ?p'" "ds' = ds @ take j (txq_head ?t)" "k = j"
      using sel by (metis Pair_inject)+
    have jle: "j \<le> txq_frms ?t" by (simp add: j_def)
    note d = discard_txq_inv [OF inv q jle]
    have tx: "txqs ?p' = (txqs p)(q := dequeued j ?t)" by (simp add: discard_eq upd_txq_def)
    have moves: "\<exists>i. txqs ?p' r = dequeued i (txqs p r) \<and> i \<le> txq_frms (txqs p r)" for r
    proof (cases "r = q")
      case True
      then show ?thesis using tx jle by (intro exI [of _ j]) simp
    next
      case False
      then show ?thesis using tx dequeued_0 [OF tx_invD(2) [OF inv, of r]] by (intro exI [of _ 0]) simp
    qed
    have "length (take j (txq_head ?t)) = j" using tx_invD(2) [OF inv, of q] jle by (simp add: txq_ok_def)
    then have rm: "\<exists>rm. ds @ take j (txq_head ?t) = ds @ rm \<and> length rm = j" by blast
    have pool: "pool_same p ?p'" by (simp add: discard_eq pool_same_def upd_cat_def upd_txq_def)
    have "?h \<noteq> []" using q by auto
    then have "sched_total p \<noteq> 0" using sched_total_zero [OF inv] cat_frms_zero [OF inv, of ?c] by blast
    moreover have "j \<noteq> 0" using m pos by (simp add: j_def)
    ultimately show ?thesis
      unfolding res discard_ok_def using d pool rm moves by blast
  qed
qed

text \<open>
  The loop discards as many frames as it was asked for, or all frames the scheduler holds when
  there are fewer.
\<close>

lemma discard_loop_ok:
  assumes "tx_inv p" and "num < 2 ^ 16" and "actual + num < 2 ^ 16"
    and "discard_loop p num ds force actual = (p', num', ds', actual')"
  shows "\<exists>d. discard_ok p ds p' ds' d \<and> d \<le> num \<and> num' = num - d \<and> actual' = actual + d \<and>
    (weights_pos p \<longrightarrow> d = min num (nat (sched_total p)))"
  using assms
proof (induction p num ds force actual rule: discard_loop.induct)
  case (1 p num ds force actual)
  show ?case
  proof (cases "num > 0")
    case False
    then show ?thesis
      using "1.prems" by (auto simp: discard_loop.simps [of p] discard_ok_refl intro!: exI [of _ 0])
  next
    case num: True
    obtain p1 ds1 k where sel: "ol_tx_sched_discard_select p num ds force = (p1, ds1, k)"
      by (metis prod_cases3)
    have ok: "discard_ok p ds p1 ds1 k" and k0: "weights_pos p \<Longrightarrow> k = 0 \<longleftrightarrow> sched_total p = 0"
      using discard_select_ok [OF "1.prems"(1) num sel] by blast+
    show ?thesis
    proof (cases "k = 0")
      case True
      then have "p' = p1" "ds' = ds1" "num' = num" "actual' = actual"
        using "1.prems"(4) sel num by (simp_all add: discard_loop.simps [of p])
      then show ?thesis using ok k0 True by (intro exI [of _ 0]) simp
    next
      case False
      have kn: "k \<le> num" using discard_select_bound [of p num ds force] by (simp add: sel)
      have u: "usub 16 num k = num - k" using kn "1.prems"(2) by (rule usub_exact)
      have ua: "u16 (actual + k) = actual + k" using kn "1.prems"(3) by simp
      have rec: "discard_loop p1 (usub 16 num k) ds1 force (u16 (actual + k)) = (p', num', ds', actual')"
        using "1.prems"(4) sel num False by (subst (asm) discard_loop.simps) simp
      have t1: "sched_total p1 = sched_total p - int k" "sched_total p1 \<ge> 0" "tx_inv p1"
        and w1: "weights_pos p1 = weights_pos p"
        using ok sched_total_nonneg [of p1] by (auto simp: discard_ok_def weights_pos_def)
      have b: "num - k < 2 ^ 16" "actual + k + (num - k) < 2 ^ 16" using kn "1.prems"(2,3) by linarith+
      obtain d where d: "discard_ok p1 ds1 p' ds' d" "d \<le> num - k" "num' = num - k - d" "actual' = actual + k + d"
          "weights_pos p1 \<longrightarrow> d = min (num - k) (nat (sched_total p1))"
        using "1.IH" [OF num sel [symmetric] refl refl False t1(3)] rec b unfolding u ua by blast
      have "k + min (num - k) (nat (sched_total p1)) = min num (nat (sched_total p))"
        using kn t1 by linarith
      then show ?thesis
        using d w1 kn discard_ok_trans [OF ok d(1)] by (intro exI [of _ "k + d"]) auto
    qed
  qed
qed

lemma frame_list_loop_eq:
  "\<exists>fl n sl. fst (ol_tx_desc_list_loop p ds ms) = p\<lparr>freelist := fl, num_free := n, tx_slots := sl\<rparr>"
proof (induction ds arbitrary: p ms)
  case Nil
  show ?case by (auto intro!: exI [of _ "freelist p"] exI [of _ "num_free p"] exI [of _ "tx_slots p"])
next
  case (Cons d ds)
  from Cons.IH [of "ol_tx_desc_free (desc_id d) (upd_slot (desc_id d) (\<lambda>sl. sl\<lparr>ref_cnt := 0\<rparr>) p)"
      "first_words p (desc_id d) # ms"]
  show ?case
    by (auto simp: upd_slot_def ol_tx_desc_free_def ol_tx_desc_push_free_def Let_def)
qed

lemma frame_list_free_eq:
  "\<exists>fl n sl es. ol_tx_desc_frame_list_free p ds e =
    p\<lparr>freelist := fl, num_free := n, tx_slots := sl, nbuf_events := es\<rparr>"
proof -
  obtain fl n sl where "fst (ol_tx_desc_list_loop p ds []) = p\<lparr>freelist := fl, num_free := n, tx_slots := sl\<rparr>"
    using frame_list_loop_eq [of p ds "[]"] by blast
  then show ?thesis
    by (intro exI [of _ fl] exI [of _ n] exI [of _ sl] exI)
      (simp add: ol_tx_desc_frame_list_free_def nbuf_log_def case_prod_unfold Let_def)
qed


lemma queue_discard_ok:
  assumes "tx_inv p" and "ol_tx_queue_discard p False ds = (p', ds')"
  shows "\<exists>d p1. discard_ok p ds p1 ds' d \<and> p' = p1\<lparr>rsrc_cnt := rsrc_cnt p1 + int d\<rparr>"
proof -
  let ?num = "usub 16 (rsrc_threshold_hi p) (rsrc_threshold_lo p)"
  obtain p1 num' actual' where lp: "discard_loop p ?num ds False 0 = (p1, num', ds', actual')"
    and p': "p' = p1\<lparr>rsrc_cnt := rsrc_cnt p1 + int actual'\<rparr>"
    using assms(2) by (auto simp: ol_tx_queue_discard_def Let_def split: prod.splits)
  then show ?thesis
    using discard_loop_ok [OF assms(1) usub_bound _ lp] usub_bound [of 16] by auto
qed

section \<open>Enqueueing\<close>

lemma enqueue_tail_inv:
  assumes inv: "tx_inv p" and room: "txq_frms (txqs p q) + 1 < 2 ^ 16"
    "txq_bytes (txqs p q) + netbuf_len d < 2 ^ 32"
  defines "f \<equiv> \<lambda>t :: ol_tx_frms_queue. t\<lparr>txq_head := txq_head t @ [d], txq_frms := u16 (txq_frms t + 1),
      txq_bytes := u32 (txq_bytes t + netbuf_len d)\<rparr>"
  shows "tx_inv (let p = upd_txq q f p
    in if txq_flag (txqs p q) \<noteq> ol_tx_queue_paused
       then upd_txq q (\<lambda>t. t\<lparr>txq_flag := ol_tx_queue_active\<rparr>)
              (ol_tx_sched_notify p q (OL_TX_ENQUEUE_FRAME (txq_tid q) (netbuf_len d)))
       else p)"
proof -
  let ?t = "txqs p q"
  let ?g = "\<lambda>t. (f t)\<lparr>txq_flag := ol_tx_queue_active\<rparr>"
  have ok: "txq_ok ?t" using tx_invD(2) [OF inv] .
  have att: "sched_attached p" using tx_invD(1) [OF inv] .
  have ft: "txq_frms (f ?t) = txq_frms ?t + 1" "txq_bytes (f ?t) = txq_bytes ?t + netbuf_len d"
    "txq_flag (f ?t) = txq_flag ?t" "txq_head (f ?t) = txq_head ?t @ [d]" "paused_total (f ?t) = paused_total ?t"
    using room by (simp_all add: f_def)
  consider (paused) "txq_flag ?t = ol_tx_queue_paused" | (active) "txq_flag ?t = ol_tx_queue_active"
    | (idle) "txq_flag ?t = ol_tx_queue_empty" by (cases "txq_flag ?t")
  then show ?thesis
  proof cases
    case paused
    have "txq_ok (f ?t)" using ok room paused by (auto simp: txq_ok_def ft)
    then have "tx_inv (upd_txq q f p)"
      using inv paused by (intro upd_txq_inv) (auto simp: ft contrib_frms_def contrib_bytes_def)
    then show ?thesis using paused ft by (simp add: Let_def upd_txq_def)
  next
    case active
    have "txq_ok (?g ?t)" using ok room active by (auto simp: txq_ok_def ft)
    then have "tx_inv (upd_txq q ?g (upd_cat (qcat p q) (cat_grow 1 (netbuf_len d)) p))"
      using active by (intro grow_inv [OF inv]) (auto simp: ft)
    then show ?thesis using active ft att
      by (simp add: Let_def ol_tx_sched_notify_def enqueue_eq [OF refl] upd_txq_def upd_cat_def qcat_def)
  next
    case idle
    have e: "txq_frms ?t = 0" "txq_bytes ?t = 0" using ok idle by (auto simp: txq_ok_def)
    have "txq_ok (?g ?t)" using ok room idle by (auto simp: txq_ok_def ft)
    then have "tx_inv (upd_txq q ?g (upd_cat (qcat p q) (cat_join q 1 (netbuf_len d)) p))"
      using idle by (intro join_inv [OF inv]) (auto simp: ft e)
    then show ?thesis using idle ft att
      by (simp add: Let_def ol_tx_sched_notify_def enqueue_eq [OF refl] upd_txq_def upd_cat_def qcat_def)
  qed
qed

lemma enqueue_inv:
  assumes inv: "tx_inv p" and room: "txq_frms (txqs p q) + 1 < 2 ^ 16"
    "txq_bytes (txqs p q) + netbuf_len d < 2 ^ 32"
  shows "tx_inv (ol_tx_enqueue p q d (txq_tid q))"
proof -
  define p1 where "p1 = (if rsrc_cnt p \<le> int (rsrc_threshold_lo p)
      then let (p, ds) = ol_tx_queue_discard p False [] in ol_tx_desc_frame_list_free p ds True else p)"
  have "tx_inv p1 \<and> txq_frms (txqs p1 q) \<le> txq_frms (txqs p q) \<and> txq_bytes (txqs p1 q) \<le> txq_bytes (txqs p q)"
  proof (cases "rsrc_cnt p \<le> int (rsrc_threshold_lo p)")
    case False
    then show ?thesis using inv by (simp add: p1_def)
  next
    case True
    obtain p' ds' where d: "ol_tx_queue_discard p False [] = (p', ds')" by fastforce
    obtain k p2 where ok: "discard_ok p [] p2 ds' k" and p': "p' = p2\<lparr>rsrc_cnt := rsrc_cnt p2 + int k\<rparr>"
      using queue_discard_ok [OF inv d] by blast
    obtain fl n sl es where p1: "p1 = p'\<lparr>freelist := fl, num_free := n, tx_slots := sl, nbuf_events := es\<rparr>"
      using frame_list_free_eq [of p' ds' True] True d by (auto simp: p1_def)
    obtain j where j: "txqs p2 q = dequeued j (txqs p q)" using ok by (auto simp: discard_ok_def)
    have "txq_bytes (txqs p q) = desc_bytes (txq_head (txqs p q))"
      using tx_invD(2) [OF inv, of q] by (simp add: txq_ok_def)
    then have "txq_bytes (txqs p1 q) \<le> txq_bytes (txqs p q)"
      using desc_bytes_split [of "txq_head (txqs p q)" j] by (simp add: p1 p' j dequeued_def)
    moreover have "txq_frms (txqs p1 q) \<le> txq_frms (txqs p q)" by (simp add: p1 p' j dequeued_def)
    moreover have "tx_inv p1" using ok by (simp add: p1 p' discard_ok_def)
    ultimately show ?thesis by blast
  qed
  then show ?thesis
    using enqueue_tail_inv [of p1 q d] room
    unfolding ol_tx_enqueue_def Let_def p1_def [unfolded Let_def, symmetric] by simp
qed

end
