(* ===== verification/TxOps.thy ===== *)
theory TxOps
  imports TxQueueInv
begin

text \<open>
  The tx path as a whole: the state after the attach, the operations its callers have, and the
  theorem that every run of them keeps queues and scheduler consistent; that the scheduler does
  not idle while it could download; and the one sequence of calls that breaks the consistency.
\<close>

section \<open>The state after attach\<close>

text \<open>An empty tx queue, as the peer and virtual device attach functions initialise it.\<close>

definition txq_init :: ol_tx_frms_queue where
  "txq_init = \<lparr>paused_total = 0, txq_frms = 0, txq_bytes = 0, txq_head = [],
     txq_flag = ol_tx_queue_empty, txq_group = None\<rparr>"

text \<open>The tx part of \<open>ol_txrx_pdev_attach\<close> with a pool of \<open>n\<close> descriptors.\<close>

definition ol_txrx_pdev_attach ::
    "nat \<Rightarrow> bool \<Rightarrow> (ol_tx_cat \<Rightarrow> ol_tx_cat_specs) \<Rightarrow> ol_txrx_pdev" where
  "ol_txrx_pdev_attach n mem_ok cfg = ol_tx_sched_attach mem_ok cfg
     \<lparr>pool_size = n, freelist = (if n = 0 then NULL else Elem 0), num_free = n,
      tx_slots = (\<lambda>i. \<lparr>first_word = (if i + 1 < n then Elem (i + 1) else NULL), sl_frame = \<lparr>desc_id = i, netbuf_len = 0, pkt_type = ol_tx_frm_std\<rparr>, ref_cnt = 0, sl_status = 0,
        sl_vdev = None\<rparr>), rsrc_cnt = int n,
      rsrc_threshold_lo = 5 * n div 100, rsrc_threshold_hi = 15 * n div 100, target_tx_credit = 0,
      tid_to_ac = init_tid_to_ac (\<lambda>_. CAT_BE), sched_attached = False,
      scheduler = ol_tx_sched_init_wrr_adv cfg, tx_sched_status = ol_tx_scheduler_idle,
      last_used_txq = None, txqs = (\<lambda>_. txq_init), vdev_list = [], grp_credit = (\<lambda>_. 0), grp_membership = (\<lambda>_. 0),
      tx_data_callback = False, ota_ack_cb = (\<lambda>_. False), download_cb = (\<lambda>_. False), nbuf_events = [], target_descs = []\<rparr>"

lemma attach_state:
  "sched_attached (ol_txrx_pdev_attach n True cfg)"
  "scheduler (ol_txrx_pdev_attach n True cfg) = ol_tx_sched_init_wrr_adv cfg"
  "txqs (ol_txrx_pdev_attach n True cfg) = (\<lambda>_. txq_init)"
  by (simp_all add: ol_txrx_pdev_attach_def ol_tx_sched_attach_def)

lemma attach_inv: "tx_inv (ol_txrx_pdev_attach n True cfg)"
  by (simp add: tx_inv_def attach_state ol_tx_sched_init_wrr_adv_def Let_def txq_ok_def txq_init_def cat_ok_def)

lemma attach_chain:
  "k \<le> n \<Longrightarrow> free_chain (\<lambda>i. if i + 1 < n then Elem (i + 1) else NULL) (if k = n then NULL else Elem k) [k..<n]"
proof (induction "n - k" arbitrary: k)
  case (Suc d)
  then have k: "k < n" by simp
  have "free_chain (\<lambda>i. if i + 1 < n then Elem (i + 1) else NULL) (if k + 1 = n then NULL else Elem (k + 1)) [k + 1..<n]"
    by (rule Suc.hyps(1)) (use Suc.hyps(2) in simp_all)
  moreover have "(if k + 1 < n then Elem (k + 1) else NULL) = (if k + 1 = n then NULL else Elem (k + 1))"
    using k by auto
  moreover have "[k..<n] = k # [k + 1..<n]" using k by (simp add: upt_conv_Cons)
  ultimately show ?case using k by simp
qed simp

lemma attach_pool:
  assumes "n < 2 ^ 16"
  shows "desc_pool_inv (ol_txrx_pdev_attach n m cfg)" and "free_descs (ol_txrx_pdev_attach n m cfg) = [0..<n]"
proof -
  have p: "first_words (ol_txrx_pdev_attach n m cfg) = (\<lambda>i. if i + 1 < n then Elem (i + 1) else NULL)"
    "freelist (ol_txrx_pdev_attach n m cfg) = (if 0 = n then NULL else Elem 0)"
    "num_free (ol_txrx_pdev_attach n m cfg) = n" "pool_size (ol_txrx_pdev_attach n m cfg) = n"
    by (auto simp: ol_txrx_pdev_attach_def ol_tx_sched_attach_def Let_def)
  have "free_chain (first_words (ol_txrx_pdev_attach n m cfg)) (freelist (ol_txrx_pdev_attach n m cfg)) [0..<n]"
    unfolding p by (rule attach_chain) simp
  moreover have "set [0..<n] \<subseteq> {..<n}" by auto
  ultimately show "desc_pool_inv (ol_txrx_pdev_attach n m cfg)"
    and "free_descs (ol_txrx_pdev_attach n m cfg) = [0..<n]"
    using pool_invI [of "ol_txrx_pdev_attach n m cfg" "[0..<n]"] assms by (simp_all add: p(3,4))
qed

text \<open>HTT reports new target credit.\<close>

definition ol_tx_target_credit_update :: "int \<Rightarrow> ol_txrx_pdev \<Rightarrow> ol_txrx_pdev" where
  "ol_tx_target_credit_update delta pdev = pdev\<lparr>target_tx_credit := target_tx_credit pdev + delta\<rparr>"

definition ol_tx_credit_completion_handler :: "htt_env \<Rightarrow> int \<Rightarrow> ol_txrx_pdev \<Rightarrow> ol_txrx_pdev" where
  "ol_tx_credit_completion_handler env credits pdev =
     ol_tx_sched env (if credits > 0 then ol_tx_target_credit_update credits pdev else pdev)"

section \<open>The operations and their callers' obligations\<close>

text \<open>
  The loops over the queues of an object that goes away: of a peer (\<open>ol_txrx_peer_unref_delete\<close>) and
  of a virtual device (\<open>ol_txrx_vdev_detach\<close>). The latter names the queues 18 and 19, while frames
  are enqueued with 16 and 17 (\<open>ol_tx_classify\<close>) and a flush uses 16 and 17. The memory of the
  queue is free afterwards; an object that gets it initialises it.
\<close>

definition txq_free_gone :: "txq_id \<Rightarrow> nat \<Rightarrow> ol_txrx_pdev \<Rightarrow> ol_txrx_pdev" where
  "txq_free_gone q tid pdev = upd_txq q (\<lambda>_. txq_init) (ol_tx_queue_free pdev q tid)"

definition peer_txqs_free :: "nat \<Rightarrow> ol_txrx_pdev \<Rightarrow> ol_txrx_pdev" where
  "peer_txqs_free peer pdev = fold (\<lambda>tid. txq_free_gone (Peer_txq peer tid) tid) [0..<OL_TX_NUM_TIDS] pdev"

definition OL_TX_VDEV_NUM_QUEUES :: nat where "OL_TX_VDEV_NUM_QUEUES = 2"

definition vdev_txqs_free :: "nat \<Rightarrow> ol_txrx_pdev \<Rightarrow> ol_txrx_pdev" where
  "vdev_txqs_free v pdev =
     fold (\<lambda>i. txq_free_gone (Vdev_txq v i) (i + OL_TX_NUM_TIDS)) [0..<OL_TX_VDEV_NUM_QUEUES] pdev"

definition peer_txqs :: "nat \<Rightarrow> txq_id list" where
  "peer_txqs peer = map (Peer_txq peer) [0..<OL_TX_NUM_TIDS]"

definition vdev_txqs :: "nat \<Rightarrow> txq_id list" where
  "vdev_txqs v = map (Vdev_txq v) [0..<OL_TX_VDEV_NUM_QUEUES]"

definition with_vdev :: "nat \<Rightarrow> (ol_txrx_vdev \<Rightarrow> ol_txrx_pdev \<Rightarrow> ol_txrx_pdev) \<Rightarrow> ol_txrx_pdev \<Rightarrow> ol_txrx_pdev" where
  "with_vdev v f pdev = (case find (\<lambda>x. vdev_id x = v) (vdev_list pdev) of None \<Rightarrow> pdev | Some x \<Rightarrow> f x pdev)"

datatype tx_op =
    Enqueue txq_id ol_tx_desc
  | Sched htt_env
  | Credit htt_env int
  | Group_credit nat int bool
  | Peer_pause nat
  | Peer_unpause htt_env nat
  | Tid_unpause htt_env nat nat
  | Vdev_pause "32 word" nat
  | Vdev_unpause htt_env "32 word" nat
  | Vdev_flush nat
  | Peer_free nat
  | Vdev_detach nat
  | Wmm_param "ol_tx_cat \<Rightarrow> nat" "ol_tx_cat \<Rightarrow> nat"
  | Stats_clear

fun tx_step :: "ol_txrx_pdev \<Rightarrow> tx_op \<Rightarrow> ol_txrx_pdev" where
  "tx_step p (Enqueue q d) = ol_tx_enqueue p q d (txq_tid q)"
| "tx_step p (Sched env) = ol_tx_sched env p"
| "tx_step p (Credit env n) = ol_tx_credit_completion_handler env n p"
| "tx_step p (Group_credit g n a) = ol_txrx_update_group_credit g n a p"
| "tx_step p (Peer_pause peer) = ol_txrx_peer_pause_base peer p"
| "tx_step p (Peer_unpause env peer) = ol_txrx_peer_tid_unpause env peer (-1) p"
| "tx_step p (Tid_unpause env peer tid) = ol_txrx_peer_tid_unpause env peer (int tid) p"
| "tx_step p (Vdev_pause reason v) = with_vdev v (ol_txrx_vdev_pause reason) p"
| "tx_step p (Vdev_unpause env reason v) = with_vdev v (ol_txrx_vdev_unpause env reason) p"
| "tx_step p (Vdev_flush v) = with_vdev v ol_txrx_vdev_flush p"
| "tx_step p (Peer_free peer) = peer_txqs_free peer p"
| "tx_step p (Vdev_detach v) = vdev_txqs_free v p"
| "tx_step p (Wmm_param aifs cwmin) = ol_txrx_set_wmm_param aifs cwmin p"
| "tx_step p Stats_clear = ol_tx_sched_stats_clear p"

text \<open>
  What is asked of the callers: a queue has room in its 16-bit frame and 32-bit byte counters (the
  descriptor pool is smaller than that) and pauses do not wrap the 8-bit counter. Two sequences of
  calls are left out that the code allows and that do break the counters, as is shown below: a virtual
  device is flushed while a queue it flushes is paused, and one is detached while a queue of its own
  is active.
\<close>

definition unpaused :: "ol_txrx_pdev \<Rightarrow> txq_id list \<Rightarrow> bool" where
  "unpaused p qs = list_all (\<lambda>q. paused_total (txqs p q) = 0) qs"

fun tx_op_ok :: "ol_txrx_pdev \<Rightarrow> tx_op \<Rightarrow> bool" where
  "tx_op_ok p (Enqueue q d) =
     (txq_frms (txqs p q) + 1 < 2 ^ 16 \<and> txq_bytes (txqs p q) + netbuf_len d < 2 ^ 32)"
| "tx_op_ok p (Peer_pause peer) = list_all (\<lambda>q. paused_total (txqs p q) < 255) (peer_txqs peer)"
| "tx_op_ok p (Vdev_pause reason v) =
     list_all (\<lambda>x. distinct (peer_list x) \<and>
       list_all (\<lambda>peer. list_all (\<lambda>q. paused_total (txqs p q) < 255) (peer_txqs peer)) (peer_list x)) (vdev_list p)"
| "tx_op_ok p (Vdev_flush v) =
     list_all (\<lambda>x. unpaused p (vdev_txqs (vdev_id x)) \<and> list_all (\<lambda>peer. unpaused p (peer_txqs peer)) (peer_list x))
       (filter (\<lambda>x. vdev_id x = v) (vdev_list p))"
| "tx_op_ok p (Vdev_detach v) = list_all (\<lambda>q. txq_flag (txqs p q) \<noteq> ol_tx_queue_active) (vdev_txqs v)"
| "tx_op_ok p op = True"

lemma pause_base_txqs_other:
  "r \<noteq> Peer_txq peer tid \<Longrightarrow> txqs (ol_txrx_peer_tid_pause_base peer tid p) r = txqs p r"
  by (simp add: ol_txrx_peer_tid_pause_base_def Let_def upd_txq_def)

lemma fold_pause_inv:
  assumes "tx_inv p" and "distinct tids"
    and "\<And>tid. tid \<in> set tids \<Longrightarrow> paused_total (txqs p (Peer_txq peer tid)) < 255"
  shows "tx_inv (fold (ol_txrx_peer_tid_pause_base peer) tids p)"
  using assms
proof (induction tids arbitrary: p)
  case (Cons t ts)
  have "tx_inv (ol_txrx_peer_tid_pause_base peer t p)"
    using Cons.prems by (intro pause_base_inv) auto
  moreover have "paused_total (txqs (ol_txrx_peer_tid_pause_base peer t p) (Peer_txq peer u)) < 255"
    if "u \<in> set ts" for u
    using that Cons.prems by (subst pause_base_txqs_other) auto
  ultimately show ?case using Cons.IH Cons.prems(2) by simp
qed simp

lemma fold_unpause_inv:
  "tx_inv p \<Longrightarrow> tx_inv (fold (ol_txrx_peer_tid_unpause_base env peer) tids p)"
  by (induction tids arbitrary: p) (simp_all add: unpause_base_inv)

lemma peer_pause_inv:
  assumes "tx_inv p" and "\<And>q. q \<in> set (peer_txqs peer) \<Longrightarrow> paused_total (txqs p q) < 255"
  shows "tx_inv (ol_txrx_peer_pause_base peer p)"
  unfolding ol_txrx_peer_pause_base_def using assms by (intro fold_pause_inv) (auto simp: peer_txqs_def)

lemma peer_pause_other:
  assumes "r \<notin> set (peer_txqs peer)"
  shows "txqs (ol_txrx_peer_pause_base peer p) r = txqs p r"
proof -
  have "txqs (fold (ol_txrx_peer_tid_pause_base peer) tids p) r = txqs p r"
    if "\<And>tid. tid \<in> set tids \<Longrightarrow> r \<noteq> Peer_txq peer tid" for tids
    using that by (induction tids arbitrary: p) (simp_all add: pause_base_txqs_other)
  from this [of "[0..<OL_TX_NUM_TIDS]"] show ?thesis
    using assms unfolding ol_txrx_peer_pause_base_def peer_txqs_def set_map by blast
qed

lemma peers_pause_inv:
  assumes "tx_inv p" and "distinct peers"
    and "\<And>peer q. peer \<in> set peers \<Longrightarrow> q \<in> set (peer_txqs peer) \<Longrightarrow> paused_total (txqs p q) < 255"
  shows "tx_inv (fold ol_txrx_peer_pause_base peers p)"
  using assms
proof (induction peers arbitrary: p)
  case (Cons a peers)
  have "txqs (ol_txrx_peer_pause_base a p) q = txqs p q" if "peer \<in> set peers" "q \<in> set (peer_txqs peer)" for peer q
    using that Cons.prems(2) by (intro peer_pause_other) (auto simp: peer_txqs_def)
  then have "tx_inv (fold ol_txrx_peer_pause_base peers (ol_txrx_peer_pause_base a p))"
    using Cons.prems by (intro Cons.IH peer_pause_inv) auto
  then show ?case by simp
qed simp

lemma peers_unpause_inv:
  "tx_inv p \<Longrightarrow> tx_inv (fold (\<lambda>peer. fold (ol_txrx_peer_tid_unpause_base env peer) tids) peers p)"
  by (induction peers arbitrary: p) (simp_all add: fold_unpause_inv)

lemma upd_vdev_inv [simp]: "tx_inv (upd_vdev i f p) = tx_inv p" "txqs (upd_vdev i f p) = txqs p"
  by (simp_all add: upd_vdev_def tx_inv_def qcat_def [abs_def])

lemma vdev_pause_inv:
  assumes "tx_inv p" and "distinct (peer_list x)"
    and "\<And>peer q. peer \<in> set (peer_list x) \<Longrightarrow> q \<in> set (peer_txqs peer) \<Longrightarrow> paused_total (txqs p q) < 255"
  shows "tx_inv (ol_txrx_vdev_pause reason x p)"
  unfolding ol_txrx_vdev_pause_def using assms by (auto intro!: peers_pause_inv)

lemma vdev_unpause_inv: "tx_inv p \<Longrightarrow> tx_inv (ol_txrx_vdev_unpause env reason x p)"
  by (simp add: ol_txrx_vdev_unpause_def peers_unpause_inv)

lemma with_vdev_inv:
  assumes "tx_inv p" and "\<And>x. x \<in> set (vdev_list p) \<Longrightarrow> vdev_id x = v \<Longrightarrow> tx_inv (f x p)"
  shows "tx_inv (with_vdev v f p)"
proof (cases "find (\<lambda>x. vdev_id x = v) (vdev_list p)")
  case (Some x)
  then have "x \<in> set (vdev_list p)" "vdev_id x = v" by (auto simp: find_Some_iff)
  then show ?thesis using assms(2) Some by (simp add: with_vdev_def)
qed (simp add: with_vdev_def assms(1))

text \<open>Flushing and freeing.\<close>

lemma queue_free_paused [simp]: "paused_total (txqs (ol_tx_queue_free p q tid) r) = paused_total (txqs p r)"
  by (simp add: queue_free_txqs)

lemma flush_tids_inv:
  assumes "tx_inv p" and "\<And>tid. tid \<in> set tids \<Longrightarrow> paused_total (txqs p (Peer_txq peer tid)) = 0"
  defines "step \<equiv> \<lambda>tid p. if txq_frms (txqs p (Peer_txq peer tid)) \<noteq> 0
      then ol_tx_queue_free p (Peer_txq peer tid) tid else p"
  shows "tx_inv (fold step tids p) \<and> (\<forall>r. paused_total (txqs (fold step tids p) r) = paused_total (txqs p r))"
  using assms(1,2)
proof (induction tids arbitrary: p)
  case (Cons t ts)
  have "tx_inv (step t p)"
    using Cons.prems queue_free_inv [of p "Peer_txq peer t"] by (simp add: step_def)
  moreover have "paused_total (txqs (step t p) r) = paused_total (txqs p r)" for r by (simp add: step_def)
  ultimately show ?case using Cons.IH [of "step t p"] Cons.prems by simp
qed simp

lemma flush_peer_inv:
  assumes "tx_inv p" and "unpaused p (peer_txqs peer)"
  shows "tx_inv (flush_peer peer p)" and "paused_total (txqs (flush_peer peer p) r) = paused_total (txqs p r)"
  using flush_tids_inv [OF assms(1), of "[0..<OL_TX_NUM_TIDS]" peer] assms(2)
  by (auto simp: flush_peer_def unpaused_def peer_txqs_def list_all_iff)

lemma unpaused_cong: "(\<And>r. paused_total (txqs p' r) = paused_total (txqs p r)) \<Longrightarrow> unpaused p' qs = unpaused p qs"
  by (simp add: unpaused_def)

lemma flush_peers_inv:
  assumes "tx_inv p" and "\<And>peer. peer \<in> set cand \<Longrightarrow> unpaused p (peer_txqs peer)"
  shows "tx_inv (fold flush_peer cand p) \<and> (\<forall>r. paused_total (txqs (fold flush_peer cand p) r) = paused_total (txqs p r))"
  using assms
proof (induction cand arbitrary: p)
  case (Cons a cand)
  have f: "tx_inv (flush_peer a p)" "paused_total (txqs (flush_peer a p) r) = paused_total (txqs p r)" for r
    using flush_peer_inv [of p a] Cons.prems by auto
  then show ?case
    using Cons.IH [of "flush_peer a p"] Cons.prems(2) unpaused_cong [of "flush_peer a p" p] by simp
qed simp

lemma flush_peers_loop_inv:
  assumes "tx_inv p" and "\<And>peer. peer \<in> set peers \<Longrightarrow> unpaused p (peer_txqs peer)"
  shows "tx_inv (flush_peers_loop peers p)"
  using assms
proof (induction peers p rule: flush_peers_loop.induct)
  case (1 peers p)
  let ?cand = "take PEER_ARRAY_COUNT (filter (peer_has_frames p) peers)"
  have "unpaused p (peer_txqs peer)" if "peer \<in> set ?cand" for peer
    using that "1.prems"(2) by (auto dest: in_set_takeD)
  note both = flush_peers_inv [OF "1.prems"(1) this]
  have fl: "tx_inv (fold flush_peer ?cand p)"
    "paused_total (txqs (fold flush_peer ?cand p) r) = paused_total (txqs p r)" for r
    using both [of ?cand] by blast+
  have "tx_inv (flush_peers_loop peers (fold flush_peer ?cand p))" if "PEER_ARRAY_COUNT \<le> length ?cand"
    using "1.IH" [OF refl refl that fl(1)] "1.prems"(2) unpaused_cong [of "fold flush_peer ?cand p" p, OF fl(2)] by blast
  moreover have "flush_peers_loop peers p = (if PEER_ARRAY_COUNT \<le> length ?cand
      then flush_peers_loop peers (fold flush_peer ?cand p) else fold flush_peer ?cand p)"
    by (subst flush_peers_loop.simps) (simp only: Let_def)
  ultimately show ?case using fl(1) by presburger
qed

lemma vdev_flush_inv:
  assumes "tx_inv p" and "unpaused p (vdev_txqs (vdev_id x))"
    and "\<And>peer. peer \<in> set (peer_list x) \<Longrightarrow> unpaused p (peer_txqs peer)"
  shows "tx_inv (ol_txrx_vdev_flush x p)"
proof -
  let ?p1 = "ol_tx_queue_free p (Vdev_txq (vdev_id x) 0) 16"
  let ?p2 = "ol_tx_queue_free ?p1 (Vdev_txq (vdev_id x) 1) 17"
  have z: "paused_total (txqs p (Vdev_txq (vdev_id x) 0)) = 0" "paused_total (txqs p (Vdev_txq (vdev_id x) 1)) = 0"
    using assms(2) by (simp_all add: unpaused_def vdev_txqs_def OL_TX_VDEV_NUM_QUEUES_def upt_rec)
  have "tx_inv ?p1" using queue_free_inv [OF assms(1) z(1)] by simp
  then have "tx_inv ?p2" using queue_free_inv [of ?p1 "Vdev_txq (vdev_id x) 1"] z(2) by simp
  then show ?thesis
    unfolding ol_txrx_vdev_flush_def ol_tx_queue_vdev_flush_def Let_def
    using assms(3) unpaused_cong [of ?p2 p] by (intro flush_peers_loop_inv) simp_all
qed

lemma fold_free_same:
  "sched_attached (fold (\<lambda>d p. ol_tx_desc_frame_free_nonstd p d e) ds r) = sched_attached r"
  "scheduler (fold (\<lambda>d p. ol_tx_desc_frame_free_nonstd p d e) ds r) = scheduler r"
  "tid_to_ac (fold (\<lambda>d p. ol_tx_desc_frame_free_nonstd p d e) ds r) = tid_to_ac r"
  "rsrc_cnt (fold (\<lambda>d p. ol_tx_desc_frame_free_nonstd p d e) ds r) = rsrc_cnt r"
  "rsrc_threshold_lo (fold (\<lambda>d p. ol_tx_desc_frame_free_nonstd p d e) ds r) = rsrc_threshold_lo r"
  "target_tx_credit (fold (\<lambda>d p. ol_tx_desc_frame_free_nonstd p d e) ds r) = target_tx_credit r"
  by (induction ds arbitrary: r) (simp_all add: free_nonstd_eq)

lemma txq_ok_init: "txq_ok txq_init"
  by (simp add: txq_init_def txq_ok_def)

lemma tx_inv_same:
  assumes "txqs p' = txqs p" and "scheduler p' = scheduler p" and "sched_attached p' = sched_attached p"
    and "tid_to_ac p' = tid_to_ac p"
  shows "tx_inv p' = tx_inv p"
  using assms by (simp add: tx_inv_def qcat_def [abs_def])

lemma free_gone_inv:
  assumes inv: "tx_inv p" and ok: "tid = txq_tid q \<or> txq_flag (txqs p q) \<noteq> ol_tx_queue_active"
  shows "tx_inv (txq_free_gone q tid p)"
proof (cases "txq_flag (txqs p q) = ol_tx_queue_active")
  case True
  have "paused_total (txqs p q) = 0" using tx_invD(2) [OF inv, of q] True by (simp add: txq_ok_def)
  then have "tx_inv (ol_tx_queue_free p q (txq_tid q))" by (rule queue_free_inv [OF inv])
  moreover have "txq_flag (txqs (ol_tx_queue_free p q (txq_tid q)) q) = ol_tx_queue_empty"
    by (simp add: queue_free_txqs)
  ultimately show ?thesis
    using ok True unfolding txq_free_gone_def
    by (auto intro!: upd_txq_inv simp: txq_ok_init contrib_frms_def contrib_bytes_def)
      (simp_all add: txq_init_def)
next
  case False
  have "tx_inv (upd_txq q (\<lambda>_. txq_init) p)"
    using False by (intro upd_txq_inv [OF inv])
      (simp_all add: txq_ok_init contrib_frms_def contrib_bytes_def, simp_all add: txq_init_def)
  moreover have "tx_inv (txq_free_gone q tid p) = tx_inv (upd_txq q (\<lambda>_. txq_init) p)"
    using False by (intro tx_inv_same)
      (simp_all add: txq_free_gone_def ol_tx_queue_free_def Let_def upd_txq_def fold_free_txqs fold_free_same
        ol_tx_sched_notify_def)
  ultimately show ?thesis by simp
qed

lemma free_gone_other: "r \<noteq> q \<Longrightarrow> txqs (txq_free_gone q tid p) r = txqs p r"
  by (simp add: txq_free_gone_def upd_txq_def queue_free_txqs)

lemma peer_txqs_free_inv: "tx_inv p \<Longrightarrow> tx_inv (peer_txqs_free peer p)"
proof -
  have "tx_inv (fold (\<lambda>tid. txq_free_gone (Peer_txq peer tid) tid) tids p)" if "tx_inv p" for tids p
    using that by (induction tids arbitrary: p) (simp_all add: free_gone_inv)
  then show "tx_inv p \<Longrightarrow> tx_inv (peer_txqs_free peer p)" by (simp add: peer_txqs_free_def)
qed

lemma vdev_txqs_free_inv:
  assumes "tx_inv p" and "list_all (\<lambda>q. txq_flag (txqs p q) \<noteq> ol_tx_queue_active) (vdev_txqs v)"
  shows "tx_inv (vdev_txqs_free v p)"
proof -
  have "vdev_txqs_free v p = txq_free_gone (Vdev_txq v 1) 19 (txq_free_gone (Vdev_txq v 0) 18 p)"
    by (simp add: vdev_txqs_free_def OL_TX_VDEV_NUM_QUEUES_def OL_TX_NUM_TIDS_def upt_rec)
  then show ?thesis
    using assms by (auto intro!: free_gone_inv
        simp: free_gone_other vdev_txqs_def OL_TX_VDEV_NUM_QUEUES_def upt_rec)
qed

lemma upd_cat_specs_inv:
  assumes "\<And>i. cat_head (f i) = cat_head i \<and> cat_frms (f i) = cat_frms i \<and> cat_bytes (f i) = cat_bytes i \<and>
    cat_active (f i) = cat_active i"
  shows "tx_inv (upd_cat c f p) = tx_inv p"
proof -
  have "cat_ok qs qc x (cat_of (upd_cat c f p) x) = cat_ok qs qc x (cat_of p x)" for qs qc x
    using assms by (cases "x = c") (simp_all add: upd_cat_def cat_ok_def)
  moreover have "qcat (upd_cat c f p) = qcat p" by (simp add: fun_eq_iff qcat_def upd_cat_def)
  ultimately show ?thesis by (simp add: tx_inv_def) (simp add: upd_cat_def)
qed

lemma fold_upd_cat_inv:
  assumes "\<And>c i. cat_head (f c i) = cat_head i \<and> cat_frms (f c i) = cat_frms i \<and>
    cat_bytes (f c i) = cat_bytes i \<and> cat_active (f c i) = cat_active i"
  shows "tx_inv (fold (\<lambda>c. upd_cat c (f c)) cs p) = tx_inv p"
  using assms by (induction cs arbitrary: p) (simp_all add: upd_cat_specs_inv)

lemma tx_step_inv:
  assumes "tx_inv p" and "tx_op_ok p op"
  shows "tx_inv (tx_step p op)"
proof (cases op)
  case (Enqueue q d)
  then show ?thesis using assms by (simp add: enqueue_inv)
next
  case (Peer_pause peer)
  then show ?thesis using assms by (simp add: peer_pause_inv list_all_iff)
next
  case (Vdev_pause reason v)
  then show ?thesis using assms by (auto intro!: with_vdev_inv vdev_pause_inv simp: list_all_iff)
next
  case (Vdev_unpause env reason v)
  then show ?thesis using assms by (auto intro!: with_vdev_inv vdev_unpause_inv)
next
  case (Vdev_flush v)
  then show ?thesis using assms by (auto intro!: with_vdev_inv vdev_flush_inv simp: list_all_iff)
next
  case (Vdev_detach v)
  then show ?thesis using assms by (simp add: vdev_txqs_free_inv)
next
  case (Wmm_param a w)
  then show ?thesis using assms by (simp add: ol_txrx_set_wmm_param_def fold_upd_cat_inv)
next
  case Stats_clear
  then show ?thesis
    using assms fold_upd_cat_inv [of "\<lambda>c i. i\<lparr>stat_queued := 0, stat_discard := 0, stat_dispatched := 0\<rparr>"]
    by (simp add: ol_tx_sched_stats_clear_def)
qed (use assms in \<open>simp_all add: sched_inv ol_tx_credit_completion_handler_def
      ol_tx_target_credit_update_def ol_txrx_update_group_credit_def ol_txrx_peer_tid_unpause_def
      fold_unpause_inv unpause_base_inv peer_txqs_free_inv\<close>)

interpretation tx_runs: run_invariant tx_step tx_op_ok tx_inv
  by unfold_locales (rule tx_step_inv)


text \<open>
  Why the detach of a virtual device with an active queue is left out: its frames are taken off the
  counter of another category. The multicast queue is counted in the category of TID 16 and freed with
  TID 18; the frames stay counted in the one, and the other goes down by their number.
\<close>

theorem detach_of_active_vdev_queue_miscounts:
  assumes inv: "tx_inv p" and act: "txq_flag (txqs p (Vdev_txq v 0)) = ol_tx_queue_active"
    and idle: "txq_flag (txqs p (Vdev_txq v 1)) \<noteq> ol_tx_queue_active"
    and cats: "tid_to_ac p 16 \<noteq> tid_to_ac p 18"
  shows "0 < txq_frms (txqs p (Vdev_txq v 0)) \<and>
    cat_frms (cat_of (vdev_txqs_free v p) (tid_to_ac p 16)) = cat_frms (cat_of p (tid_to_ac p 16)) \<and>
    cat_frms (cat_of (vdev_txqs_free v p) (tid_to_ac p 18)) =
      cat_frms (cat_of p (tid_to_ac p 18)) - int (txq_frms (txqs p (Vdev_txq v 0)))"
proof -
  have att: "sched_attached p" using tx_invD(1) [OF inv] .
  define p1 where "p1 = txq_free_gone (Vdev_txq v 0) 18 p"
  have eq: "vdev_txqs_free v p = txq_free_gone (Vdev_txq v 1) 19 p1"
    by (simp add: vdev_txqs_free_def p1_def OL_TX_VDEV_NUM_QUEUES_def OL_TX_NUM_TIDS_def upt_rec)
  have "txq_flag (txqs p1 (Vdev_txq v 1)) \<noteq> ol_tx_queue_active"
    using idle by (simp add: p1_def free_gone_other)
  then have "scheduler (vdev_txqs_free v p) = scheduler p1"
    by (simp add: eq txq_free_gone_def ol_tx_queue_free_def Let_def upd_txq_def fold_free_same ol_tx_sched_notify_def)
  moreover have "scheduler p1 = scheduler (ol_tx_sched_txq_deactivate_wrr_adv p (Vdev_txq v 0) 18)"
    using act att by (simp add: p1_def txq_free_gone_def ol_tx_queue_free_def Let_def upd_txq_def fold_free_same
        ol_tx_sched_notify_def)
  moreover have "cat_frms (cat_of (ol_tx_sched_txq_deactivate_wrr_adv p q tid) c) =
      cat_frms (cat_of p c) - (if c = tid_to_ac p tid then int (txq_frms (txqs p q)) else 0)" for q tid c
    by (simp add: ol_tx_sched_txq_deactivate_wrr_adv_def Let_def upd_cat_def)
  ultimately show ?thesis
    using cats active_txq_frms [OF inv act] by simp
qed

section \<open>The scheduler does not idle\<close>

lemma select_loop_finds:
  assumes "mset (order (scheduler p)) = mset all_cats"
    and "index \<le> j" and "j < NUM_CATEGORIES" and "cat_active (cat_of p (order (scheduler p) ! j))"
  shows "snd (wrr_select_loop p index) < NUM_CATEGORIES"
  using assms
proof (induction p index arbitrary: j rule: wrr_select_loop.induct)
  case (1 p index)
  let ?c = "order (scheduler p) ! index"
  let ?p = "upd_cat ?c (\<lambda>i. i\<lparr>wrr_count := wrr_count i + 1\<rparr>) p"
  let ?ord = "ol_tx_sched_wrr_adv_rotate_order_list_tail (order (scheduler ?p)) index"
  have i: "index < NUM_CATEGORIES" using "1.prems"(2,3) by simp
  have len: "length (order (scheduler p)) = NUM_CATEGORIES" using "1.prems"(1) by (rule order_length)
  consider (inactive) "\<not> cat_active (cat_of p ?c)"
    | (skip) "cat_active (cat_of p ?c)" "wrr_count (cat_of p ?c) + 1 < wrr_skip_weight (specs (cat_of p ?c))"
    | (found) "cat_active (cat_of p ?c)" "\<not> wrr_count (cat_of p ?c) + 1 < wrr_skip_weight (specs (cat_of p ?c))"
    by blast
  then show ?case
  proof cases
    case inactive
    then have "index \<noteq> j" using "1.prems"(4) by blast
    then have "snd (wrr_select_loop p (index + 1)) < NUM_CATEGORIES"
      using "1.IH"(1) [OF i refl inactive "1.prems"(1) _ "1.prems"(3,4)] "1.prems"(2) by simp
    then show ?thesis using i inactive by (subst wrr_select_loop.simps) simp
  next
    case skip
    have ord: "order (scheduler ?p) = order (scheduler p)" by (simp add: upd_cat_def)
    have m: "mset (order (scheduler (set_order ?ord ?p))) = mset all_cats"
      using i len "1.prems"(1) by (simp add: set_order_def ord)
    have "?ord ! (NUM_CATEGORIES - 1) = ?c"
      using i len by (simp add: ord rotate_eq nth_append NUM_CATEGORIES_def)
    then have act: "cat_active (cat_of (set_order ?ord ?p) (order (scheduler (set_order ?ord ?p)) ! (NUM_CATEGORIES - 1)))"
      using skip(1) by (simp add: set_order_def) (simp add: upd_cat_def)
    have "snd (wrr_select_loop (set_order ?ord ?p) index) < NUM_CATEGORIES"
      by (rule "1.IH"(2) [OF i refl _ refl skip(2) m _ _ act])
        (use skip(1) i in \<open>auto simp: NUM_CATEGORIES_def\<close>)
    then show ?thesis using i skip by (subst wrr_select_loop.simps) (simp add: Let_def)
  next
    case found
    then show ?thesis using i by (subst wrr_select_loop.simps) (simp add: Let_def)
  qed
qed

text \<open>Enough credit for every category, and no queue held back by its group.\<close>

definition credit_suffices :: "ol_txrx_pdev \<Rightarrow> bool" where
  "credit_suffices p \<longleftrightarrow>
     target_tx_credit p > 0 \<and>
     (\<forall>c. credit_threshold (specs (cat_of p c)) \<le> nat (target_tx_credit p) \<and>
          credit_reserve (specs (cat_of p c)) < nat (target_tx_credit p) \<and>
          0 < send_limit (specs (cat_of p c))) \<and>
     (\<forall>q g c. txq_group (txqs p q) = Some g \<longrightarrow> int (credit_reserve (specs (cat_of p c))) < grp_credit p g)"

lemma wrr_only_specs: "wrr_only p p' \<Longrightarrow> specs (cat_of p' c) = specs (cat_of p c) \<and> cat_head (cat_of p' c) = cat_head (cat_of p c) \<and>
    cat_active (cat_of p' c) = cat_active (cat_of p c)"
proof -
  assume "wrr_only p p'"
  then obtain w where "cat_of p' c = (cat_of p c)\<lparr>wrr_count := w\<rparr>" by (rule wrr_only_cat)
  then show ?thesis by simp
qed

lemma select_batch_progress:
  assumes inv: "tx_inv p" and start: "sched_index (scheduler p) = 0"
    and act: "txq_flag (txqs p q) = ol_tx_queue_active" and cr: "credit_suffices p"
    and sel: "ol_tx_sched_select_batch_wrr_adv p sctx (nat (target_tx_credit p)) = (p', sctx', n)"
  shows "0 < n"
proof -
  let ?credit = "nat (target_tx_credit p)"
  obtain p1 i where sl: "wrr_select_loop p 0 = (p1, i)" by fastforce
  let ?qc = "qcat p q"
  have "q \<in> set (cat_head (cat_of p ?qc))" by (simp only: cat_member [OF inv] act)
  then have "cat_head (cat_of p ?qc) \<noteq> []" by (metis list.set_cases list.distinct(1))
  then have aq: "cat_active (cat_of p ?qc)" using cat_okD(5) [OF tx_invD(4) [OF inv, of ?qc]] by blast
  have "?qc \<in> set (order (scheduler p))"
    using tx_invD(3) [OF inv] by (metis mset_eq_setD set_all_cats)
  then obtain j where j: "j < NUM_CATEGORIES" "order (scheduler p) ! j = ?qc"
    using order_length [OF tx_invD(3) [OF inv]] by (metis in_set_conv_nth)
  have i: "i < NUM_CATEGORIES"
    using select_loop_finds [OF tx_invD(3) [OF inv] le0 j(1)] aq j(2) sl by simp
  have w1: "wrr_only p p1" and act1: "cat_active (cat_of p1 (order (scheduler p1) ! i))"
    using select_loop_spec [OF tx_invD(3) [OF inv] sl] i by blast+
  let ?c = "order (scheduler p1) ! i"
  note inv1 = wrr_only_inv [OF inv w1]
  obtain r where r: "wrr_only p1 r" "wrr_commit p1 i = set_index i r"
    using wrr_commit_only [OF tx_invD(3) [OF inv1] i] by blast
  have wr: "wrr_only p r" using w1 r(1) by (rule wrr_only_trans)
  define p2 where "p2 = set_index i r"
  have p2: "specs (cat_of p2 ?c) = specs (cat_of p ?c)" "cat_head (cat_of p2 ?c) = cat_head (cat_of p1 ?c)"
    "txqs p2 = txqs p" "grp_credit p2 = grp_credit p" "tx_inv p2"
    using wrr_only_specs [OF wr] wrr_only_specs [OF r(1)] wrr_only_pool [OF wr] wrr_only_inv [OF inv wr]
    by (simp_all add: p2_def set_index_def) (simp add: set_index_def [symmetric])
  have "cat_head (cat_of p2 ?c) \<noteq> []"
    using act1 cat_okD(5) [OF tx_invD(4) [OF inv1, of ?c]] p2(2) by simp
  then obtain s rest where hd: "cat_head (cat_of p2 ?c) = s # rest" by (cases "cat_head (cat_of p2 ?c)") auto
  let ?p3 = "upd_cat ?c (\<lambda>i. i\<lparr>cat_head := rest\<rparr>) p2"
  let ?cr = "ol_tx_txq_group_credit_limit ?p3 s ?credit"
  have p3: "txqs ?p3 = txqs p" "grp_credit ?p3 = grp_credit p" "specs (cat_of ?p3 ?c) = specs (cat_of p ?c)"
    using p2 by (simp_all add: upd_cat_def)
  have lim: "credit_reserve (specs (cat_of p ?c)) < ?cr"
  proof (cases "txq_group (txqs p s)")
    case None
    then show ?thesis using cr by (simp add: ol_tx_txq_group_credit_limit_def p2(3) credit_suffices_def)
  next
    case (Some g)
    then have "int (credit_reserve (specs (cat_of p ?c))) < min (int ?credit) (grp_credit p g)"
      using cr unfolding credit_suffices_def by (metis min_less_iff_conj of_nat_less_iff)
    then have "credit_reserve (specs (cat_of p ?c)) < nat (min (int ?credit) (grp_credit p g))"
      and "\<not> min (int ?credit) (grp_credit p g) < 0" by linarith+
    then show ?thesis using Some
      by (simp only: ol_tx_txq_group_credit_limit_def upd_cat_txqs p2(3) p3(2) Let_def option.case if_False)
  qed
  have "\<not> ?credit < credit_threshold (specs (cat_of p1 ?c))"
    using cr wrr_only_specs [OF w1, of ?c] by (simp add: credit_suffices_def not_less)
  then have "ol_tx_sched_select_batch_wrr_adv p sctx ?credit =
      wrr_serve_txq ?p3 sctx ?c s (?cr - credit_reserve (specs (cat_of ?p3 ?c)))"
    using i lim hd by (simp add: ol_tx_sched_select_batch_wrr_adv_def start sl Let_def r(2)
        p2_def [symmetric] wrr_offer_credit_def p3)
  then have sv: "wrr_serve_txq ?p3 sctx ?c s (?cr - credit_reserve (specs (cat_of p ?c))) = (p', sctx', n)"
    using sel p3 by simp
  have "n = min (txq_frms (txqs p2 s)) (min (send_limit (specs (cat_of p2 ?c))) (?cr - credit_reserve (specs (cat_of p ?c))))"
    using serve_spec(1) [OF p2(5) hd refl sv] .
  moreover have "txq_frms (txqs p2 s) > 0"
    using active_txq_frms [OF p2(5)] cat_member [OF p2(5), of s ?c] hd by simp
  ultimately show ?thesis using cr lim p2 by (simp add: credit_suffices_def)
qed

text \<open>
  Property C3. Work conservation: when the target has credit for every category and no queue is
  held back by its group, a run of the scheduler with at least one active queue downloads: the first
  frame of some queue is the first that is offered to HTT in this run and, unless HTT cannot allocate
  its packet, the first that reaches the target. When HTT can allocate packets, the target has at
  least one frame more afterwards.
\<close>

theorem ol_tx_sched_work_conserving:
  assumes inv: "tx_inv p" and idle: "tx_sched_status p = ol_tx_scheduler_idle"
    and act: "txq_flag (txqs p q) = ol_tx_queue_active" and cr: "credit_suffices p"
  shows "(\<exists>r d ds k more. txq_head (txqs p r) = d # ds \<and> txq_head (txqs (ol_tx_sched env p) r) = drop k ds \<and>
      target_descs (ol_tx_sched env p) = target_descs p @ filter (\<lambda>d. \<not> pkt_alloc_fails env d) (d # more)) \<and>
    ((\<forall>d. \<not> pkt_alloc_fails env d) \<longrightarrow> length (target_descs p) < length (target_descs (ol_tx_sched env p)))"
proof -
  let ?p0 = "ol_tx_sched_select_init_wrr_adv (p\<lparr>tx_sched_status := ol_tx_scheduler_running\<rparr>)"
  let ?s0 = "\<lparr>ctx_head = [], ctx_frms = 0\<rparr>"
  have p0: "tx_inv ?p0" "txqs ?p0 = txqs p" "target_tx_credit ?p0 = target_tx_credit p"
    "sched_index (scheduler ?p0) = 0" "credit_suffices ?p0" "target_descs ?p0 = target_descs p"
    using inv cr by (simp_all add: ol_tx_sched_select_init_wrr_adv_def) (simp_all add: set_index_def credit_suffices_def)
  obtain p1 s1 n where sel: "ol_tx_sched_select_batch_wrr_adv ?p0 ?s0 (nat (target_tx_credit ?p0)) = (p1, s1, n)"
    by (metis prod_cases3)
  have n: "0 < n" using select_batch_progress [OF p0(1,4) _ p0(5) sel, of q] act p0(2) by simp
  obtain r where inv1: "tx_inv p1" and mv: "moved ?p0 ?s0 n p1 s1 r" and pool1: "pool_same ?p0 p1"
    using select_batch_spec [OF p0(1), of ?s0 "nat (target_tx_credit ?p0)"] by (auto simp: sel sel_ok_def)
  let ?p2 = "p1\<lparr>target_tx_credit := target_tx_credit p1 - int n\<rparr>"
  have "target_tx_credit ?p0 > 0" using p0(5) by (simp add: credit_suffices_def)
  then have loop: "ol_tx_sched_loop ?p0 ?s0 = ol_tx_sched_loop ?p2 s1"
    using n by (subst ol_tx_sched_loop.simps) (simp add: sel)
  define p3 s3 where "p3 = fst (ol_tx_sched_loop ?p2 s1)" and "s3 = snd (ol_tx_sched_loop ?p2 s1)"
  obtain bs where bs: "loop_ok ?p2 s1 p3 s3 bs"
    using sched_loop_spec [of ?p2 s1] inv1 by (auto simp: p3_def s3_def)
  obtain bs0 where bs0: "loop_ok ?p0 ?s0 p3 s3 bs0"
    using sched_loop_spec [OF p0(1), of ?s0] loop by (auto simp: p3_def s3_def)
  have dq: "txqs p1 r = dequeued n (txqs p r)" "n \<le> length (txq_head (txqs p r))"
    "ctx_head s1 = take n (txq_head (txqs p r))"
    using mv tx_invD(2) [OF inv, of r] p0(2) by (simp_all add: moved_def txq_ok_def)
  then obtain d ds where hd: "txq_head (txqs p r) = d # ds" using n by (cases "txq_head (txqs p r)") auto
  have "ctx_frms s3 = length (ctx_head s3)" using bs0 by (simp add: loop_ok_def)
  from dispatch_dispatched [OF this, of env p3]
  have disp: "dispatched env (ctx_head s3) p3 (ol_tx_sched_dispatch env p3 s3)" .
  have run: "ol_tx_sched env p = (ol_tx_sched_dispatch env p3 s3)\<lparr>tx_sched_status := ol_tx_scheduler_idle\<rparr>"
    using idle loop by (simp add: ol_tx_sched_def Let_def case_prod_beta p3_def s3_def)
  obtain more where more: "ctx_head s3 = d # more"
    using bs dq n hd by (cases n) (simp_all add: loop_ok_def)
  have "target_descs p3 = target_descs p" using bs0 p0(6) by (simp add: loop_ok_def pool_same_def)
  then have td: "target_descs (ol_tx_sched env p) = target_descs p @ filter (\<lambda>d. \<not> pkt_alloc_fails env d) (d # more)"
    using disp by (simp add: run dispatched_def more)
  have "txq_head (txqs p1 r) = batches_of r bs @ txq_head (txqs p3 r)"
    using bs by (simp add: loop_ok_def collected_def)
  then have "txq_head (txqs p3 r) = drop (length (batches_of r bs)) (drop n (d # ds))"
    using dq(1) hd by (simp add: dequeued_def)
  also have "\<dots> = drop (length (batches_of r bs) + (n - 1)) ds" using n by (cases n) (simp_all add: add.commute)
  finally have q: "txq_head (txqs (ol_tx_sched env p) r) = drop (length (batches_of r bs) + (n - 1)) ds"
    using disp by (simp add: run dispatched_def)
  show ?thesis
  proof (intro conjI impI)
    show "\<exists>r d ds k more. txq_head (txqs p r) = d # ds \<and> txq_head (txqs (ol_tx_sched env p) r) = drop k ds \<and>
      target_descs (ol_tx_sched env p) = target_descs p @ filter (\<lambda>d. \<not> pkt_alloc_fails env d) (d # more)"
      using hd q td by blast
    show "length (target_descs p) < length (target_descs (ol_tx_sched env p))" if "\<forall>d. \<not> pkt_alloc_fails env d"
      using that by (simp add: td)
  qed
qed

section \<open>Freeing a paused queue\<close>

lemma sched_no_credit:
  assumes "target_tx_credit p \<le> 0"
  shows "cat_of (ol_tx_sched env p) c = cat_of p c \<and> txqs (ol_tx_sched env p) = txqs p"
  using assms by (simp add: ol_tx_sched_def Let_def ol_tx_sched_loop.simps ol_tx_sched_dispatch_def
      ol_tx_sched_select_init_wrr_adv_def set_index_def)

text \<open>
  Property C6. \<open>ol_tx_queue_free\<close> marks the queue empty although it is still paused. The next
  frame therefore makes the queue active while its pause count is 1, and the unpause that
  follows reports the queue's frames to the scheduler a second time: the category counts two
  frames where the queue holds one. (wma.c pauses the virtual device, flushes it and unpauses
  it, in this order, when it is stopped.)
\<close>

theorem flush_of_paused_queue_double_counts:
  assumes inv: "tx_inv p" and q: "q = Peer_txq peer tid"
    and paused: "paused_total (txqs p q) = 1" and credit: "target_tx_credit p \<le> 0"
    and room: "netbuf_len d < 2 ^ 32" and rsrc: "rsrc_cnt p > int (rsrc_threshold_lo p)"
    and p1_def: "p1 = ol_tx_queue_free p q tid"
    and p2_def: "p2 = ol_tx_enqueue p1 q d tid"
    and p3_def: "p3 = ol_txrx_peer_tid_unpause_base env peer tid p2"
  shows "txq_flag (txqs p2 q) = ol_tx_queue_active \<and> paused_total (txqs p2 q) = 1 \<and>
    txq_frms (txqs p3 q) = 1 \<and> paused_total (txqs p3 q) = 0 \<and>
    cat_frms (cat_of p3 (qcat p q)) = cat_frms (cat_of p (qcat p q)) + 2"
proof -
  have ok: "txq_ok (txqs p q)" and att: "sched_attached p" using tx_invD(1,2) [OF inv] by auto
  have fl: "txq_flag (txqs p q) = ol_tx_queue_paused" using ok paused by (simp add: txq_ok_def)
  have t1: "txqs p1 q = (txqs p q)\<lparr>txq_frms := 0, txq_bytes := 0, txq_flag := ol_tx_queue_empty, txq_head := []\<rparr>"
    using ok by (simp add: p1_def queue_free_txqs txq_ok_def usub_self)
  have p1: "sched_attached p1" "scheduler p1 = scheduler p" "tid_to_ac p1 = tid_to_ac p"
    "rsrc_cnt p1 \<ge> rsrc_cnt p" "rsrc_threshold_lo p1 = rsrc_threshold_lo p" "target_tx_credit p1 = target_tx_credit p"
    using fl att by (simp_all add: p1_def ol_tx_queue_free_def Let_def ol_tx_sched_notify_def fold_free_same upd_txq_def)
  let ?c = "qcat p q"
  have tc: "tid_to_ac p tid = ?c" by (simp add: qcat_def q)
  have p2: "p2 = upd_txq q (\<lambda>t. (txqs p1 q)\<lparr>txq_head := [d], txq_frms := 1, txq_bytes := netbuf_len d,
      txq_flag := ol_tx_queue_active\<rparr>) (upd_cat ?c (cat_join q 1 (netbuf_len d)) p1)"
    using p1 t1 room rsrc tc by (simp add: p2_def ol_tx_enqueue_def Let_def ol_tx_sched_notify_def
        enqueue_eq [OF refl] upd_txq_def upd_cat_def cat_join_def)
  have t2: "txqs p2 q = (txqs p1 q)\<lparr>txq_head := [d], txq_frms := 1, txq_bytes := netbuf_len d, txq_flag := ol_tx_queue_active\<rparr>"
    and c2: "cat_of p2 ?c = cat_join q 1 (netbuf_len d) (cat_of p ?c)"
    and s2: "sched_attached p2" "tid_to_ac p2 = tid_to_ac p" "target_tx_credit p2 = target_tx_credit p"
    using p1 by (simp_all add: p2 upd_txq_def upd_cat_def)
  define p2' where "p2' = upd_txq q (\<lambda>t. t\<lparr>paused_total := 0\<rparr>) (upd_cat ?c (cat_grow 1 (netbuf_len d)) p2)"
  have "p3 = ol_tx_sched env (upd_txq q (\<lambda>t. t\<lparr>txq_flag := ol_tx_queue_active\<rparr>) p2')"
    using t2 t1 paused s2 tc unfolding p3_def p2'_def q [symmetric] ol_txrx_peer_tid_unpause_base_def Let_def
    by (simp add: ol_tx_sched_notify_def enqueue_eq [OF refl] upd_txq_def upd_cat_def cat_grow_def)
  moreover have "target_tx_credit (upd_txq q (\<lambda>t. t\<lparr>txq_flag := ol_tx_queue_active\<rparr>) p2') \<le> 0"
    using s2 credit by (simp add: p2'_def frame_simps)
  ultimately have p3: "cat_of p3 ?c = cat_of p2' ?c" "txqs p3 q = (txqs p2' q)\<lparr>txq_flag := ol_tx_queue_active\<rparr>"
    using sched_no_credit [of "upd_txq q (\<lambda>t. t\<lparr>txq_flag := ol_tx_queue_active\<rparr>) p2'" env ?c]
    by (simp_all add: upd_txq_def)
  show ?thesis
    using t1 paused unfolding p3 t2
    by (simp add: p2'_def upd_txq_def upd_cat_def t2 c2 cat_grow_def cat_join_def)
qed

section \<open>Concrete runs\<close>

text \<open>Frames of two tids of one peer on a device with 100 descriptors.\<close>

definition demo_frame :: "nat \<Rightarrow> ol_tx_desc" where
  "demo_frame i = \<lparr>desc_id = i, netbuf_len = 100 + i, pkt_type = ol_tx_frm_std\<rparr>"

definition demo_env :: htt_env where
  "demo_env = \<lparr>storage_err = (\<lambda>d. desc_id d = 1), pkt_alloc_fails = (\<lambda>d. desc_id d = 2)\<rparr>"

definition demo_attached :: ol_txrx_pdev where
  "demo_attached = ol_txrx_pdev_attach 100 True wrr_adv_cfg_spec"

definition demo_queued :: ol_txrx_pdev where
  "demo_queued = run_ops tx_step demo_attached
     [Enqueue (Peer_txq 1 0) (demo_frame 0), Enqueue (Peer_txq 1 0) (demo_frame 1),
      Enqueue (Peer_txq 1 6) (demo_frame 2)]"

definition demo_credited :: ol_txrx_pdev where
  "demo_credited = demo_queued\<lparr>target_tx_credit := 20\<rparr>"

lemmas tx_eval = ol_tx_enqueue_def ol_txrx_pdev_attach_def ol_tx_sched_attach_def ol_tx_sched_init_wrr_adv_def
  ol_tx_sched_wrr_param_update_def ol_tx_sched_notify_def ol_tx_sched_txq_enqueue_wrr_adv_def upd_txq_def
  upd_cat_def txq_init_def demo_frame_def init_tid_to_ac_def TXRX_TID_TO_WMM_AC_def

lemma demo_queued_ok: "admissible tx_step tx_op_ok demo_attached
     [Enqueue (Peer_txq 1 0) (demo_frame 0), Enqueue (Peer_txq 1 0) (demo_frame 1),
      Enqueue (Peer_txq 1 6) (demo_frame 2)]"
  by (simp add: tx_eval demo_attached_def)

lemma demo_credited_inv: "tx_inv demo_credited"
  using tx_runs.run_inv [OF attach_inv demo_queued_ok [unfolded demo_attached_def]]
  by (simp add: demo_credited_def demo_queued_def demo_attached_def)

lemma demo_credited_idle: "tx_sched_status demo_credited = ol_tx_scheduler_idle"
  by (simp add: demo_credited_def demo_queued_def demo_attached_def tx_eval)

text \<open>
  A run with a virtual device: frames are enqueued for its peer and for the device itself, another
  peer is paused, the virtual device is flushed and goes away with its peer.
\<close>

definition demo_tx_ops :: "tx_op list" where
  "demo_tx_ops = [Enqueue (Peer_txq 1 0) (demo_frame 0), Enqueue (Vdev_txq 4 0) (demo_frame 1),
     Peer_pause 2, Vdev_flush 4, Peer_free 1, Vdev_detach 4]"

definition demo_with_vdev :: ol_txrx_pdev where
  "demo_with_vdev = demo_attached\<lparr>vdev_list := [\<lparr>vdev_id = 4, hl_paused_reason = 0, peer_list = [1]\<rparr>]\<rparr>"

lemma flush_peers_vdev_txq: "txqs (flush_peers_loop peers p) (Vdev_txq v i) = txqs p (Vdev_txq v i)"
proof (induction peers p rule: flush_peers_loop.induct)
  case (1 peers p)
  have tid: "txqs (fold (\<lambda>tid p. if txq_frms (txqs p (Peer_txq a tid)) \<noteq> 0
      then ol_tx_queue_free p (Peer_txq a tid) tid else p) tids p) (Vdev_txq v i) = txqs p (Vdev_txq v i)" for a tids p
    by (induction tids arbitrary: p) (simp_all add: queue_free_txqs del: not_gr_zero neq0_conv)
  have "txqs (fold flush_peer ps p) (Vdev_txq v i) = txqs p (Vdev_txq v i)" for ps
    by (induction ps arbitrary: p) (simp_all only: flush_peer_def tid fold.simps id_apply comp_apply)
  then show ?case using "1.IH" by (subst flush_peers_loop.simps) (simp add: Let_def)
qed

lemma peer_free_vdev_txq: "txqs (peer_txqs_free a p) (Vdev_txq v i) = txqs p (Vdev_txq v i)"
proof -
  have "txqs (fold (\<lambda>tid. txq_free_gone (Peer_txq a tid) tid) tids p) (Vdev_txq v i) = txqs p (Vdev_txq v i)" for tids p
    by (induction tids arbitrary: p) (simp_all add: free_gone_other)
  then show ?thesis by (simp add: peer_txqs_free_def)
qed

lemma vdev_flush_txqs:
  "txq_flag (txqs (ol_txrx_vdev_flush x p) (Vdev_txq (vdev_id x) 0)) = ol_tx_queue_empty"
  "txq_flag (txqs (ol_txrx_vdev_flush x p) (Vdev_txq (vdev_id x) 1)) = ol_tx_queue_empty"
  by (simp_all add: ol_txrx_vdev_flush_def ol_tx_queue_vdev_flush_def Let_def flush_peers_vdev_txq queue_free_txqs)

lemma peer_pause_vdevs: "vdev_list (ol_txrx_peer_pause_base a p) = vdev_list p"
proof -
  have "vdev_list (fold (ol_txrx_peer_tid_pause_base a) tids p) = vdev_list p" for tids
    by (induction tids arbitrary: p) (simp_all add: ol_txrx_peer_tid_pause_base_def Let_def
        ol_tx_sched_notify_def ol_tx_sched_txq_deactivate_wrr_adv_def upd_txq_def upd_cat_def)
  then show ?thesis by (simp add: ol_txrx_peer_pause_base_def)
qed

lemma demo_tx_ops_ok: "admissible tx_step tx_op_ok demo_with_vdev demo_tx_ops"
proof -
  define x where "x = \<lparr>vdev_id = 4, hl_paused_reason = 0, peer_list = [1]\<rparr>"
  define p2 where "p2 = run_ops tx_step demo_with_vdev
    [Enqueue (Peer_txq 1 0) (demo_frame 0), Enqueue (Vdev_txq 4 0) (demo_frame 1)]"
  define p3 where "p3 = ol_txrx_peer_pause_base 2 p2"
  have two: "[0..<OL_TX_VDEV_NUM_QUEUES] = [0, 1]" by (simp add: OL_TX_VDEV_NUM_QUEUES_def upt_rec)
  have start: "admissible tx_step tx_op_ok demo_with_vdev
    [Enqueue (Peer_txq 1 0) (demo_frame 0), Enqueue (Vdev_txq 4 0) (demo_frame 1)]"
    by (simp add: tx_eval demo_attached_def demo_with_vdev_def)
  have unp: "paused_total (txqs p2 q) = 0" and vd2: "vdev_list p2 = [x]" for q
    by (simp_all add: p2_def tx_eval demo_attached_def demo_with_vdev_def x_def)
  have vd3: "vdev_list p3 = [x]" using vd2 by (simp add: p3_def peer_pause_vdevs)
  have unp3: "paused_total (txqs p3 (Peer_txq 1 t)) = 0" "paused_total (txqs p3 (Vdev_txq v i)) = 0" for t v i
    using unp peer_pause_other [of _ 2 p2] by (simp_all add: p3_def peer_txqs_def image_iff)
  have fl: "ol_txrx_vdev_flush x p3 = with_vdev 4 ol_txrx_vdev_flush p3" by (simp add: with_vdev_def vd3 x_def)
  have det: "tx_op_ok (peer_txqs_free 1 (ol_txrx_vdev_flush x p3)) (Vdev_detach 4)"
    using vdev_flush_txqs [of x p3]
    by (simp add: vdev_txqs_def two peer_free_vdev_txq x_def)
  have flu: "tx_op_ok p3 (Vdev_flush 4)"
    using unp3 by (simp add: vd3 x_def unpaused_def peer_txqs_def vdev_txqs_def two list_all_iff)
  have "admissible tx_step tx_op_ok p2 [Peer_pause 2, Vdev_flush 4, Peer_free 1, Vdev_detach 4]"
    using det flu unp by (simp add: p3_def [symmetric] fl [symmetric] list_all_iff del: tx_op_ok.simps) (simp add: list_all_iff)
  then show ?thesis using start by (simp add: demo_tx_ops_def p2_def)
qed


theorem ol_tx_sched_fifo_conservation_witness:
  "tx_inv demo_credited \<and> (\<exists>bs.
    (\<forall>q. txq_head (txqs demo_credited q) =
      batches_of q bs @ txq_head (txqs (ol_tx_sched demo_env demo_credited) q)) \<and>
    (\<forall>(q, ds) \<in> set bs. ds \<noteq> [] \<and> txq_flag (txqs demo_credited q) = ol_tx_queue_active) \<and>
    target_descs (ol_tx_sched demo_env demo_credited) =
      target_descs demo_credited @ filter (\<lambda>d. \<not> pkt_alloc_fails demo_env d) (concat (map snd bs)) \<and>
    (\<exists>fs. mset fs = mset (map desc_id (filter (pkt_alloc_fails demo_env) (concat (map snd bs)))) \<and>
       free_pool (ol_tx_sched demo_env demo_credited) = fold push_free fs (free_pool demo_credited)))"
  using demo_credited_inv ol_tx_sched_fifo_conservation [OF demo_credited_inv demo_credited_idle, of demo_env]
  by blast

lemma demo_credit: "target_tx_credit demo_credited = 20"
  by (simp add: demo_credited_def)

theorem ol_tx_sched_credit_witness:
  "target_tx_credit demo_credited = 20 \<and>
    target_tx_credit (ol_tx_sched demo_env demo_credited) =
      target_tx_credit demo_credited -
        int (length (target_descs (ol_tx_sched demo_env demo_credited)) - length (target_descs demo_credited)) \<and>
    target_tx_credit (ol_tx_sched demo_env demo_credited) \<ge> 0 \<and>
    tx_sched_status (ol_tx_sched demo_env demo_credited) = ol_tx_scheduler_idle"
proof -
  have "target_tx_credit demo_credited \<ge> 0" by (simp add: demo_credit)
  from ol_tx_sched_credit [OF demo_credited_inv demo_credited_idle this, of demo_env] demo_credit
  show ?thesis by blast
qed

lemma demo_active: "txq_flag (txqs demo_credited (Peer_txq 1 0)) = ol_tx_queue_active"
  by (simp add: demo_credited_def demo_queued_def demo_attached_def tx_eval)

lemma demo_cfg: "ol_tx_sched_wrr_param_update wrr_adv_cfg_spec wrr_adv_cfg_spec c = wrr_adv_cfg_spec c"
  by (simp add: ol_tx_sched_wrr_param_update_def)

lemma demo_specs: "specs (cat_of demo_credited c) = wrr_adv_cfg_spec c"
  by (simp add: demo_credited_def demo_queued_def demo_attached_def ol_tx_enqueue_def ol_txrx_pdev_attach_def
      ol_tx_sched_attach_def ol_tx_sched_init_wrr_adv_def demo_cfg Let_def ol_tx_sched_notify_def
      ol_tx_sched_txq_enqueue_wrr_adv_def upd_txq_def upd_cat_def txq_init_def demo_frame_def)

lemma demo_suffices: "credit_suffices demo_credited"
proof -
  have "txq_group (txqs demo_credited q) = None" for q
    by (simp add: demo_credited_def demo_queued_def demo_attached_def tx_eval)
  moreover have "credit_threshold (wrr_adv_cfg_spec c) \<le> 20 \<and> credit_reserve (wrr_adv_cfg_spec c) < 20 \<and>
      0 < send_limit (wrr_adv_cfg_spec c)" for c
    by (cases c) simp_all
  ultimately show ?thesis by (simp add: credit_suffices_def demo_specs demo_credit)
qed

definition demo_env_ok :: htt_env where
  "demo_env_ok = \<lparr>storage_err = (\<lambda>d. desc_id d = 1), pkt_alloc_fails = (\<lambda>_. False)\<rparr>"

theorem ol_tx_sched_work_conserving_witness:
  "credit_suffices demo_credited \<and> target_descs (ol_tx_sched demo_env_ok demo_credited) \<noteq> []"
proof -
  have "length (target_descs demo_credited) < length (target_descs (ol_tx_sched demo_env_ok demo_credited))"
    using ol_tx_sched_work_conserving [OF demo_credited_inv demo_credited_idle demo_active demo_suffices, of demo_env_ok]
    by (simp add: demo_env_ok_def)
  then show ?thesis using demo_suffices by auto
qed

lemma demo_weights: "weights_pos demo_credited"
proof -
  have "0 < discard_weight (wrr_adv_cfg_spec c)" for c by (cases c) simp_all
  then show ?thesis by (simp add: weights_pos_def demo_specs)
qed


definition demo_paused :: ol_txrx_pdev where
  "demo_paused = ol_txrx_peer_tid_pause_base 1 0 demo_attached"

lemma demo_attached_inv: "tx_inv demo_attached"
  unfolding demo_attached_def by (rule attach_inv)

lemma demo_paused_facts:
  "tx_inv demo_paused" "paused_total (txqs demo_paused (Peer_txq 1 0)) = 1" "target_tx_credit demo_paused \<le> 0"
  "rsrc_cnt demo_paused > int (rsrc_threshold_lo demo_paused)"
proof -
  show "tx_inv demo_paused"
    unfolding demo_paused_def by (rule pause_base_inv [OF demo_attached_inv]) (simp add: demo_attached_def tx_eval)
qed (simp_all add: demo_paused_def demo_attached_def ol_txrx_peer_tid_pause_base_def Let_def tx_eval)

theorem flush_of_paused_queue_double_counts_witness:
  "\<exists>p1 p2 p3. p1 = ol_tx_queue_free demo_paused (Peer_txq 1 0) 0 \<and>
     p2 = ol_tx_enqueue p1 (Peer_txq 1 0) (demo_frame 5) 0 \<and>
     p3 = ol_txrx_peer_tid_unpause_base demo_env 1 0 p2 \<and>
     txq_frms (txqs p3 (Peer_txq 1 0)) = 1 \<and>
     cat_frms (cat_of p3 (qcat demo_paused (Peer_txq 1 0))) =
       cat_frms (cat_of demo_paused (qcat demo_paused (Peer_txq 1 0))) + 2"
proof -
  have "netbuf_len (demo_frame 5) < 2 ^ 32" by (simp add: demo_frame_def)
  from flush_of_paused_queue_double_counts [OF demo_paused_facts(1) refl demo_paused_facts(2,3) this
      demo_paused_facts(4) refl refl refl, of demo_env]
  show ?thesis by blast
qed

end
