(* ===== verification/TxGroup.thy ===== *)
theory TxGroup
  imports TxOps
begin

unbundle bit_operations_syntax

text \<open>
  Tx queue groups (\<open>ol_txrx.c\<close>, \<open>ol_tx_queue.c\<close>): the target splits its credit between groups of
  virtual devices. A group has a credit and a membership word, the mask of its virtual devices in
  the upper half and the mask of its access categories in the lower one; a queue points to at most
  one group (\<open>OL_TX_MAX_GROUPS_PER_QUEUE\<close> is 1).
\<close>

section \<open>Membership words\<close>

definition OL_TX_MAX_TXQ_GROUPS :: nat where "OL_TX_MAX_TXQ_GROUPS = 2"

definition OL_TXQ_GROUP_VDEV_ID_MASK_GET :: "32 word \<Rightarrow> 32 word" where
  "OL_TXQ_GROUP_VDEV_ID_MASK_GET membership = drop_bit 16 (membership AND 0xffff0000)"

definition OL_TXQ_GROUP_VDEV_ID_BIT_MASK_GET :: "32 word \<Rightarrow> nat \<Rightarrow> 32 word" where
  "OL_TXQ_GROUP_VDEV_ID_BIT_MASK_GET m vid = drop_bit vid m AND 1"

definition OL_TXQ_GROUP_AC_MASK_GET :: "32 word \<Rightarrow> 32 word" where
  "OL_TXQ_GROUP_AC_MASK_GET membership = membership AND 0x0000ffff"

definition OL_TXQ_GROUP_AC_BIT_MASK_GET :: "32 word \<Rightarrow> nat \<Rightarrow> 32 word" where
  "OL_TXQ_GROUP_AC_BIT_MASK_GET m ac = drop_bit ac m AND 1"

definition OL_TXQ_GROUP_MEMBERSHIP_GET :: "32 word \<Rightarrow> 32 word \<Rightarrow> 32 word" where
  "OL_TXQ_GROUP_MEMBERSHIP_GET vdev_mask ac_mask = push_bit 16 vdev_mask OR ac_mask"

definition ol_tx_vdev_has_tx_queue_group :: "ol_txrx_pdev \<Rightarrow> nat \<Rightarrow> nat \<Rightarrow> bool" where
  "ol_tx_vdev_has_tx_queue_group pdev g vid =
     (OL_TXQ_GROUP_VDEV_ID_BIT_MASK_GET (OL_TXQ_GROUP_VDEV_ID_MASK_GET (grp_membership pdev g)) vid \<noteq> 0)"

definition ol_tx_ac_has_tx_queue_group :: "ol_txrx_pdev \<Rightarrow> nat \<Rightarrow> nat \<Rightarrow> bool" where
  "ol_tx_ac_has_tx_queue_group pdev g ac =
     (OL_TXQ_GROUP_AC_BIT_MASK_GET (OL_TXQ_GROUP_AC_MASK_GET (grp_membership pdev g)) ac \<noteq> 0)"

section \<open>The group pointers of the queues\<close>

definition ol_tx_txq_set_group_ptr :: "txq_id \<Rightarrow> nat option \<Rightarrow> ol_txrx_pdev \<Rightarrow> ol_txrx_pdev" where
  "ol_tx_txq_set_group_ptr q grp pdev = upd_txq q (\<lambda>t. t\<lparr>txq_group := grp\<rparr>) pdev"

text \<open>The two queues (\<open>OL_TX_VDEV_NUM_QUEUES\<close>) of a virtual device, and those of its peers.\<close>

fun vdev_txq :: "ol_txrx_vdev \<Rightarrow> txq_id \<Rightarrow> bool" where
  "vdev_txq v (Vdev_txq i n) = (i = vdev_id v \<and> n < 2)"
| "vdev_txq v (Peer_txq p t) = (p \<in> set (peer_list v) \<and> t < OL_TX_NUM_TIDS)"

definition ol_tx_set_vdev_group_ptr :: "nat \<Rightarrow> nat option \<Rightarrow> ol_txrx_pdev \<Rightarrow> ol_txrx_pdev" where
  "ol_tx_set_vdev_group_ptr vid grp pdev =
     (case find (\<lambda>v. vdev_id v = vid) (vdev_list pdev) of
        None \<Rightarrow> pdev
      | Some v \<Rightarrow> pdev\<lparr>txqs := \<lambda>q. if vdev_txq v q then (txqs pdev q)\<lparr>txq_group := grp\<rparr> else txqs pdev q\<rparr>)"

text \<open>
  The queue of a new peer: the first group that has its virtual device, and, for the QoS tids (below
  \<open>OL_TX_NUM_QOS_TIDS\<close> = 16), the access category of the tid (\<open>TXRX_TID_TO_WMM_AC\<close>, as the number of the bit).
\<close>

fun ac_bit :: "ol_tx_cat \<Rightarrow> nat" where
  "ac_bit CAT_BE = 0"
| "ac_bit CAT_BK = 1"
| "ac_bit CAT_VI = 2"
| "ac_bit CAT_VO = 3"
| "ac_bit _ = 0"

definition peer_group_candidate :: "ol_txrx_pdev \<Rightarrow> nat \<Rightarrow> nat \<Rightarrow> nat \<Rightarrow> bool" where
  "peer_group_candidate pdev vid tid g =
     (ol_tx_vdev_has_tx_queue_group pdev g vid \<and>
      (tid < 16 \<longrightarrow> ol_tx_ac_has_tx_queue_group pdev g (ac_bit (TXRX_TID_TO_WMM_AC tid))))"

definition ol_tx_set_peer_group_ptr :: "nat \<Rightarrow> nat \<Rightarrow> nat \<Rightarrow> ol_txrx_pdev \<Rightarrow> ol_txrx_pdev" where
  "ol_tx_set_peer_group_ptr peer vid tid pdev =
     ol_tx_txq_set_group_ptr (Peer_txq peer tid)
       (find (peer_group_candidate pdev vid tid) [0..<OL_TX_MAX_TXQ_GROUPS]) pdev"

section \<open>Group updates from the target\<close>

text \<open>One virtual device of the list: its queues change group when its bit changed.\<close>

definition group_vdev_step :: "nat \<Rightarrow> 32 word \<Rightarrow> 32 word \<Rightarrow> ol_txrx_vdev \<Rightarrow> ol_txrx_pdev \<Rightarrow> ol_txrx_pdev" where
  "group_vdev_step g group_vdev_id_mask vdev_id_mask v pdev =
     (let group_vdev_bit_mask = OL_TXQ_GROUP_VDEV_ID_BIT_MASK_GET group_vdev_id_mask (vdev_id v);
          vdev_bit_mask = OL_TXQ_GROUP_VDEV_ID_BIT_MASK_GET vdev_id_mask (vdev_id v)
      in if group_vdev_bit_mask \<noteq> vdev_bit_mask then
           (if vdev_bit_mask = 0 then ol_tx_set_vdev_group_ptr (vdev_id v) None pdev
            else ol_tx_set_vdev_group_ptr (vdev_id v) (Some g) pdev)
         else pdev)"

definition ol_txrx_update_tx_queue_groups ::
  "nat \<Rightarrow> int \<Rightarrow> bool \<Rightarrow> 32 word \<Rightarrow> 32 word \<Rightarrow> ol_txrx_pdev \<Rightarrow> ol_txrx_pdev" where
  "ol_txrx_update_tx_queue_groups g credit absolute vdev_id_mask ac_mask pdev =
     (if g \<ge> OL_TX_MAX_TXQ_GROUPS then pdev
      else
        let membership = OL_TXQ_GROUP_MEMBERSHIP_GET vdev_id_mask ac_mask;
            group_vdev_id_mask = OL_TXQ_GROUP_VDEV_ID_MASK_GET (grp_membership pdev g);
            pdev1 = (if grp_membership pdev g = membership then pdev
                     else (let p = fold (group_vdev_step g group_vdev_id_mask vdev_id_mask) (vdev_list pdev) pdev
                           in p\<lparr>grp_membership := (grp_membership p)(g := membership)\<rparr>))
        in ol_txrx_update_group_credit g credit absolute pdev1)"

text \<open>
  A completed frame gives its credit back to the group that has its virtual device; a free
  descriptor has \<open>OL_TXRX_INVALID_VDEV_ID\<close>, -1 in a variable of 8 bits. A shift by that many bits is undefined in C; here it
  yields 0, which is no member of any group.
\<close>

definition OL_TXRX_INVALID_VDEV_ID :: nat where "OL_TXRX_INVALID_VDEV_ID = 0xff"

definition slot_vdev_id :: "tx_slot \<Rightarrow> nat" where
  "slot_vdev_id sl = (case sl_vdev sl of None \<Rightarrow> OL_TXRX_INVALID_VDEV_ID | Some v \<Rightarrow> v)"

definition ol_tx_desc_update_group_credit :: "nat \<Rightarrow> int \<Rightarrow> bool \<Rightarrow> ol_txrx_pdev \<Rightarrow> ol_txrx_pdev" where
  "ol_tx_desc_update_group_credit tx_desc_id credit absolute pdev =
     (if tx_desc_id \<ge> pool_size pdev then pdev
      else
        (case find (\<lambda>g. ol_tx_vdev_has_tx_queue_group pdev g (slot_vdev_id (tx_slots pdev tx_desc_id)))
                [0..<OL_TX_MAX_TXQ_GROUPS] of
           None \<Rightarrow> pdev
         | Some g \<Rightarrow> ol_txrx_update_group_credit g credit absolute pdev))"

section \<open>What the updates do\<close>

lemma tx_inv_txq_group:
  assumes "tx_inv p" and "\<And>q. \<exists>g. f q = (txqs p q)\<lparr>txq_group := g\<rparr>"
  shows "tx_inv (p\<lparr>txqs := f\<rparr>)"
proof -
  have same: "txq_flag (f q) = txq_flag (txqs p q)" "txq_frms (f q) = txq_frms (txqs p q)"
    "txq_bytes (f q) = txq_bytes (txqs p q)" "txq_ok (f q) = txq_ok (txqs p q)" for q
    using assms(2) [of q] by (auto simp: txq_ok_def)
  show ?thesis
    using assms(1) by (simp add: tx_inv_def cat_ok_def same qcat_def [abs_def])
qed

lemma same_group: "\<exists>g. t = t\<lparr>txq_group := g\<rparr>"
  by (rule exI [of _ "txq_group t"]) simp

lemma vdev_group_ptr_inv: "tx_inv p \<Longrightarrow> tx_inv (ol_tx_set_vdev_group_ptr vid grp p)"
  unfolding ol_tx_set_vdev_group_ptr_def
  by (auto split: option.split intro!: tx_inv_txq_group same_group)

lemma vdev_group_ptr_fields [simp]:
  "vdev_list (ol_tx_set_vdev_group_ptr vid grp p) = vdev_list p"
  "grp_membership (ol_tx_set_vdev_group_ptr vid grp p) = grp_membership p"
  "target_tx_credit (ol_tx_set_vdev_group_ptr vid grp p) = target_tx_credit p"
  "freelist (ol_tx_set_vdev_group_ptr vid grp p) = freelist p"
  "num_free (ol_tx_set_vdev_group_ptr vid grp p) = num_free p"
  "pool_size (ol_tx_set_vdev_group_ptr vid grp p) = pool_size p"
  "tx_slots (ol_tx_set_vdev_group_ptr vid grp p) = tx_slots p"
  by (simp_all add: ol_tx_set_vdev_group_ptr_def split: option.split)

lemma vdev_step_inv: "tx_inv p \<Longrightarrow> tx_inv (group_vdev_step g old new v p)"
  by (simp add: group_vdev_step_def Let_def vdev_group_ptr_inv)

lemma vdev_step_fields [simp]:
  "vdev_list (group_vdev_step g old new v p) = vdev_list p"
  "grp_membership (group_vdev_step g old new v p) = grp_membership p"
  "target_tx_credit (group_vdev_step g old new v p) = target_tx_credit p"
  "freelist (group_vdev_step g old new v p) = freelist p"
  "num_free (group_vdev_step g old new v p) = num_free p"
  "pool_size (group_vdev_step g old new v p) = pool_size p"
  "tx_slots (group_vdev_step g old new v p) = tx_slots p"
  by (simp_all add: group_vdev_step_def Let_def)

lemma vdev_steps_fields [simp]:
  "vdev_list (fold (group_vdev_step g old new) vs p) = vdev_list p"
  "grp_membership (fold (group_vdev_step g old new) vs p) = grp_membership p"
  "target_tx_credit (fold (group_vdev_step g old new) vs p) = target_tx_credit p"
  "freelist (fold (group_vdev_step g old new) vs p) = freelist p"
  "num_free (fold (group_vdev_step g old new) vs p) = num_free p"
  "pool_size (fold (group_vdev_step g old new) vs p) = pool_size p"
  "tx_slots (fold (group_vdev_step g old new) vs p) = tx_slots p"
  by (induction vs arbitrary: p) simp_all

lemma vdev_steps_inv: "tx_inv p \<Longrightarrow> tx_inv (fold (group_vdev_step g old new) vs p)"
  by (induction vs arbitrary: p) (simp_all add: vdev_step_inv)

lemma update_group_credit_fields [simp]:
  "vdev_list (ol_txrx_update_group_credit g n a p) = vdev_list p"
  "grp_membership (ol_txrx_update_group_credit g n a p) = grp_membership p"
  "txqs (ol_txrx_update_group_credit g n a p) = txqs p"
  "target_tx_credit (ol_txrx_update_group_credit g n a p) = target_tx_credit p"
  "freelist (ol_txrx_update_group_credit g n a p) = freelist p"
  "num_free (ol_txrx_update_group_credit g n a p) = num_free p"
  "pool_size (ol_txrx_update_group_credit g n a p) = pool_size p"
  "tx_slots (ol_txrx_update_group_credit g n a p) = tx_slots p"
  "tx_inv (ol_txrx_update_group_credit g n a p) = tx_inv p"
  by (simp_all add: ol_txrx_update_group_credit_def)

lemma membership_inv [simp]: "tx_inv (p\<lparr>grp_membership := m\<rparr>) = tx_inv p"
  by (simp add: tx_inv_def qcat_def [abs_def])

lemma update_groups_inv: "tx_inv p \<Longrightarrow> tx_inv (ol_txrx_update_tx_queue_groups g n a vm am p)"
  by (simp add: ol_txrx_update_tx_queue_groups_def Let_def vdev_steps_inv)

lemma desc_group_credit_inv [simp]: "tx_inv (ol_tx_desc_update_group_credit i n a p) = tx_inv p"
  by (simp add: ol_tx_desc_update_group_credit_def split: option.split)

section \<open>Which group a queue ends up in\<close>

lemma find_distinct:
  assumes "distinct (map f xs)" and "x \<in> set xs"
  shows "find (\<lambda>y. f y = f x) xs = Some x"
  using assms by (induction xs) auto

definition vdev_bit :: "32 word \<Rightarrow> ol_txrx_vdev \<Rightarrow> bool" where
  "vdev_bit m v = (OL_TXQ_GROUP_VDEV_ID_BIT_MASK_GET m (vdev_id v) \<noteq> 0)"

lemma bit_mask_get: "OL_TXQ_GROUP_VDEV_ID_BIT_MASK_GET m i = of_bool (bit m i)"
  by (simp add: OL_TXQ_GROUP_VDEV_ID_BIT_MASK_GET_def and_one_eq mod_2_eq_odd bit_iff_odd_drop_bit)

lemma vdev_bit_iff: "vdev_bit m v = bit m (vdev_id v)"
  by (simp add: vdev_bit_def bit_mask_get)

text \<open>The new pointer of a queue of \<open>v\<close>, given the old and the new mask.\<close>

definition new_group :: "nat \<Rightarrow> 32 word \<Rightarrow> 32 word \<Rightarrow> ol_txrx_vdev \<Rightarrow> nat option \<Rightarrow> nat option" where
  "new_group g old new v grp =
     (if vdev_bit old v = vdev_bit new v then grp else if vdev_bit new v then Some g else None)"

lemma vdev_step_group:
  assumes "distinct (map vdev_id (vdev_list p))" and "v \<in> set (vdev_list p)"
  shows "txq_group (txqs (group_vdev_step g old new v p) q) =
    (if vdev_txq v q then new_group g old new v (txq_group (txqs p q)) else txq_group (txqs p q))"
  using find_distinct [OF assms]
  by (auto simp: group_vdev_step_def ol_tx_set_vdev_group_ptr_def new_group_def vdev_bit_iff
      bit_mask_get split: if_splits)

lemma vdev_steps_group:
  assumes "distinct (map vdev_id (vdev_list p))" and "set vs \<subseteq> set (vdev_list p)" and "distinct vs"
    and "v \<in> set (vdev_list p)" and "vdev_txq v q"
    and "\<And>w. w \<in> set (vdev_list p) \<Longrightarrow> vdev_txq w q \<Longrightarrow> w = v"
  shows "txq_group (txqs (fold (group_vdev_step g old new) vs p) q) =
    (if v \<in> set vs then new_group g old new v (txq_group (txqs p q)) else txq_group (txqs p q))"
  using assms(1-3,6)
proof (induction vs arbitrary: p)
  case (Cons w ws)
  have w: "w \<in> set (vdev_list p)" using Cons.prems by simp
  have step: "txq_group (txqs (group_vdev_step g old new w p) q) =
      (if w = v then new_group g old new v (txq_group (txqs p q)) else txq_group (txqs p q))"
  proof (cases "w = v")
    case True
    then show ?thesis using vdev_step_group [OF Cons.prems(1) w] assms(5) by simp
  next
    case False
    then have "\<not> vdev_txq w q" using Cons.prems(4) [OF w] by blast
    then show ?thesis using vdev_step_group [OF Cons.prems(1) w] False by simp
  qed
  have "txq_group (txqs (fold (group_vdev_step g old new) ws (group_vdev_step g old new w p)) q) =
      (if v \<in> set ws then new_group g old new v (txq_group (txqs (group_vdev_step g old new w p) q))
       else txq_group (txqs (group_vdev_step g old new w p) q))"
  proof (rule Cons.IH)
    show "distinct (map vdev_id (vdev_list (group_vdev_step g old new w p)))"
      "set ws \<subseteq> set (vdev_list (group_vdev_step g old new w p))" "distinct ws"
      using Cons.prems(1-3) by simp_all
    fix x assume "x \<in> set (vdev_list (group_vdev_step g old new w p))" "vdev_txq x q"
    then show "x = v" using Cons.prems(4) [of x] by (simp only: vdev_step_fields)
  qed
  moreover have "w \<notin> set ws" using Cons.prems(3) by simp
  ultimately show ?case by (auto simp: step)
qed simp

text \<open>
  The queues of one virtual device after an update of group \<open>g\<close>. The queue belongs to no other
  virtual device.
\<close>

definition only_vdev :: "ol_txrx_pdev \<Rightarrow> ol_txrx_vdev \<Rightarrow> txq_id \<Rightarrow> bool" where
  "only_vdev p v q \<longleftrightarrow> distinct (map vdev_id (vdev_list p)) \<and> v \<in> set (vdev_list p) \<and> vdev_txq v q \<and>
     (\<forall>w \<in> set (vdev_list p). vdev_txq w q \<longrightarrow> w = v)"

definition has_group :: "ol_txrx_pdev \<Rightarrow> nat \<Rightarrow> ol_txrx_vdev \<Rightarrow> bool" where
  "has_group p g v = ol_tx_vdev_has_tx_queue_group p g (vdev_id v)"

lemma has_group_bit: "has_group p g v = vdev_bit (OL_TXQ_GROUP_VDEV_ID_MASK_GET (grp_membership p g)) v"
  by (simp add: has_group_def ol_tx_vdev_has_tx_queue_group_def vdev_bit_def)

lemma high_half: "(0xffff0000 :: 32 word) = push_bit 16 (mask 16)"
  by (simp add: mask_eq_exp_minus_1 push_bit_eq_mult)

lemma membership_vdev_bit:
  assumes "take_bit 16 am = am" and "v < 16"
  shows "bit (OL_TXQ_GROUP_VDEV_ID_MASK_GET (OL_TXQ_GROUP_MEMBERSHIP_GET vm am)) v = bit vm v"
proof -
  have "\<not> bit am (16 + v)"
    using assms(1) by (metis bit_take_bit_iff not_add_less1)
  then show ?thesis
    using assms(2) by (auto simp: OL_TXQ_GROUP_VDEV_ID_MASK_GET_def OL_TXQ_GROUP_MEMBERSHIP_GET_def
        high_half bit_simps)
qed

lemma update_groups_group:
  assumes own: "only_vdev p v q" and g: "g < OL_TX_MAX_TXQ_GROUPS"
    and vm: "vdev_id v < 16" and am: "take_bit 16 am = am"
  shows "txq_group (txqs (ol_txrx_update_tx_queue_groups g n a vmask am p) q) =
      (if has_group p g v = vdev_bit vmask v then txq_group (txqs p q)
       else if vdev_bit vmask v then Some g else None) \<and>
    has_group (ol_txrx_update_tx_queue_groups g n a vmask am p) g v = vdev_bit vmask v"
proof -
  let ?old = "OL_TXQ_GROUP_VDEV_ID_MASK_GET (grp_membership p g)"
  let ?m = "OL_TXQ_GROUP_MEMBERSHIP_GET vmask am"
  have new: "vdev_bit (OL_TXQ_GROUP_VDEV_ID_MASK_GET ?m) v = vdev_bit vmask v"
    by (simp only: vdev_bit_iff membership_vdev_bit [OF am vm])
  show ?thesis
  proof (cases "grp_membership p g = ?m")
    case True
    then have "has_group p g v = vdev_bit vmask v" by (simp only: has_group_bit new)
    then show ?thesis
      using g True by (simp add: ol_txrx_update_tx_queue_groups_def Let_def has_group_bit)
  next
    case False
    let ?p1 = "fold (group_vdev_step g ?old vmask) (vdev_list p) p"
    have "txq_group (txqs ?p1 q) = (if v \<in> set (vdev_list p) then new_group g ?old vmask v (txq_group (txqs p q))
        else txq_group (txqs p q))"
    proof (rule vdev_steps_group)
      show "distinct (vdev_list p)" "distinct (map vdev_id (vdev_list p))" "v \<in> set (vdev_list p)" "vdev_txq v q"
        using own by (simp_all add: only_vdev_def distinct_map)
      fix w assume "w \<in> set (vdev_list p)" "vdev_txq w q"
      then show "w = v" using own unfolding only_vdev_def by blast
    qed simp
    moreover have "v \<in> set (vdev_list p)" using own by (simp add: only_vdev_def)
    ultimately have q: "txq_group (txqs ?p1 q) = new_group g ?old vmask v (txq_group (txqs p q))"
      by simp
    have "ol_txrx_update_tx_queue_groups g n a vmask am p =
        ol_txrx_update_group_credit g n a (?p1\<lparr>grp_membership := (grp_membership ?p1)(g := ?m)\<rparr>)"
      using g False by (simp add: ol_txrx_update_tx_queue_groups_def Let_def)
    then show ?thesis
      by (simp add: q new new_group_def has_group_bit)
  qed
qed

lemma only_vdev_txqs: "only_vdev p v q \<Longrightarrow> vdev_list p' = vdev_list p \<Longrightarrow> only_vdev p' v q"
  by (simp add: only_vdev_def)

lemma update_groups_frame:
  "vdev_list (ol_txrx_update_tx_queue_groups g n a vm am p) = vdev_list p"
  "g' \<noteq> g \<Longrightarrow> grp_membership (ol_txrx_update_tx_queue_groups g n a vm am p) g' = grp_membership p g'"
  "g' \<noteq> g \<Longrightarrow> has_group (ol_txrx_update_tx_queue_groups g n a vm am p) g' v = has_group p g' v"
  by (simp_all add: ol_txrx_update_tx_queue_groups_def Let_def has_group_bit)

text \<open>
  Property C28. A target message that moves a virtual device from group 1 to group 0 updates the two
  groups in turn. When the update that takes the device out of group 1 comes second, it clears the
  group pointers that the first one has just set: the queues of the device are left without a
  group, although group 0 lists the device, and its frames are no longer charged to any group.
  In the other order they belong to group 0.
\<close>

theorem moving_vdev_between_groups_loses_group:
  assumes "only_vdev p v q" and "vdev_id v < 16"
    and "has_group p 1 v" and "\<not> has_group p 0 v" and "txq_group (txqs p q) = Some 1"
    and "vdev_bit m0 v" and "\<not> vdev_bit m1 v" and "take_bit 16 am0 = am0" and "take_bit 16 am1 = am1"
  shows "txq_group (txqs (ol_txrx_update_tx_queue_groups 1 n1 a1 m1 am1
      (ol_txrx_update_tx_queue_groups 0 n0 a0 m0 am0 p)) q) = None \<and>
    has_group (ol_txrx_update_tx_queue_groups 1 n1 a1 m1 am1
      (ol_txrx_update_tx_queue_groups 0 n0 a0 m0 am0 p)) 0 v \<and>
    txq_group (txqs (ol_txrx_update_tx_queue_groups 0 n0 a0 m0 am0
      (ol_txrx_update_tx_queue_groups 1 n1 a1 m1 am1 p)) q) = Some 0"
proof -
  let ?U0 = "ol_txrx_update_tx_queue_groups 0 n0 a0 m0 am0"
  let ?U1 = "ol_txrx_update_tx_queue_groups 1 n1 a1 m1 am1"
  have lt: "0 < OL_TX_MAX_TXQ_GROUPS" "1 < OL_TX_MAX_TXQ_GROUPS" by (simp_all add: OL_TX_MAX_TXQ_GROUPS_def)
  note upd0 = update_groups_group [OF _ lt(1) assms(2,8)] and upd1 = update_groups_group [OF _ lt(2) assms(2,9)]
  have own0: "only_vdev (?U0 p) v q" and own1: "only_vdev (?U1 p) v q"
    using assms(1) by (rule only_vdev_txqs, simp add: update_groups_frame)+
  have "has_group (?U0 p) 0 v" and "has_group (?U0 p) 1 v" and "\<not> has_group (?U1 p) 0 v"
    using upd0 [OF assms(1)] assms(3,4,6) by (simp_all add: update_groups_frame)
  then show ?thesis
    using upd1 [OF own0] upd0 [OF own1] assms(6,7) by (simp add: update_groups_frame)
qed

text \<open>A virtual device with one peer, in group 1.\<close>

definition demo_group_vdev :: ol_txrx_vdev where
  "demo_group_vdev = \<lparr>vdev_id = 0, hl_paused_reason = 0, peer_list = [3]\<rparr>"

definition demo_grouped :: ol_txrx_pdev where
  "demo_grouped = ol_txrx_update_tx_queue_groups 1 10 True 1 0xf
     (demo_attached\<lparr>vdev_list := [demo_group_vdev]\<rparr>)"

lemma demo_group_bits: "vdev_bit 1 demo_group_vdev" "\<not> vdev_bit 0 demo_group_vdev" "vdev_id demo_group_vdev < 16"
  "take_bit 16 0xf = (0xf :: 32 word)" "take_bit 16 0 = (0 :: 32 word)"
  by (simp_all add: vdev_bit_iff demo_group_vdev_def bit_1_iff)

lemma demo_group_own: "vdev_list p = [demo_group_vdev] \<Longrightarrow> only_vdev p demo_group_vdev (Peer_txq 3 0)"
  by (simp add: only_vdev_def demo_group_vdev_def OL_TX_NUM_TIDS_def)

lemma demo_group_none: "\<not> has_group (demo_attached\<lparr>vdev_list := vs\<rparr>) g demo_group_vdev"
  by (simp add: has_group_bit vdev_bit_iff OL_TXQ_GROUP_VDEV_ID_MASK_GET_def demo_attached_def
      ol_txrx_pdev_attach_def ol_tx_sched_attach_def)

lemma demo_grouped_state:
  "only_vdev demo_grouped demo_group_vdev (Peer_txq 3 0)" "has_group demo_grouped 1 demo_group_vdev"
  "\<not> has_group demo_grouped 0 demo_group_vdev" "txq_group (txqs demo_grouped (Peer_txq 3 0)) = Some 1"
proof -
  let ?p = "demo_attached\<lparr>vdev_list := [demo_group_vdev]\<rparr>"
  have own: "only_vdev ?p demo_group_vdev (Peer_txq 3 0)" by (rule demo_group_own) simp
  have one: "1 < OL_TX_MAX_TXQ_GROUPS" by (simp add: OL_TX_MAX_TXQ_GROUPS_def)
  show "only_vdev demo_grouped demo_group_vdev (Peer_txq 3 0)"
    by (rule demo_group_own) (simp add: demo_grouped_def update_groups_frame)
  show "\<not> has_group demo_grouped 0 demo_group_vdev"
    by (simp add: demo_grouped_def update_groups_frame demo_group_none)
  show "has_group demo_grouped 1 demo_group_vdev" "txq_group (txqs demo_grouped (Peer_txq 3 0)) = Some 1"
    using update_groups_group [OF own one demo_group_bits(3,4)] demo_group_bits(1)
    by (simp_all add: demo_grouped_def demo_group_none)
qed

theorem moving_vdev_between_groups_loses_group_witness:
  "txq_group (txqs demo_grouped (Peer_txq 3 0)) = Some 1 \<and>
   txq_group (txqs (ol_txrx_update_tx_queue_groups 1 5 True 0 0
      (ol_txrx_update_tx_queue_groups 0 5 True 1 0xf demo_grouped)) (Peer_txq 3 0)) = None \<and>
    has_group (ol_txrx_update_tx_queue_groups 1 5 True 0 0
      (ol_txrx_update_tx_queue_groups 0 5 True 1 0xf demo_grouped)) 0 demo_group_vdev \<and>
    txq_group (txqs (ol_txrx_update_tx_queue_groups 0 5 True 1 0xf
      (ol_txrx_update_tx_queue_groups 1 5 True 0 0 demo_grouped)) (Peer_txq 3 0)) = Some 0"
  using moving_vdev_between_groups_loses_group [OF demo_grouped_state(1) demo_group_bits(3)
      demo_grouped_state(2-4) demo_group_bits(1,2,4,5), of 5 True 5 True] demo_grouped_state(4)
  by blast

end
