(* ===== verification/TxCompl.thy ===== *)
theory TxCompl
  imports TxGroup
begin

text \<open>
  Completion of downloaded frames (\<open>ol_tx_send.c\<close>). A frame handed to HTT has two references: the
  download itself, dropped by the download-done callbacks, and the target, dropped by the
  completion messages. Whoever drops the last one frees the frame.

  Build configuration: without ATH_11AC_TXCOMPACT and QCA_TX_SINGLE_COMPLETIONS. Delay statistics,
  time stamps, packet dumps, byte counts and the OS queue control have no counterpart.
\<close>

section \<open>Dropping a reference\<close>

definition htt_tx_status_ok :: nat where "htt_tx_status_ok = 0"
definition htt_tx_status_discard :: nat where "htt_tx_status_discard = 1"

definition OL_TX_DESC_NO_REFS :: "nat \<Rightarrow> ol_txrx_pdev \<Rightarrow> bool \<times> ol_txrx_pdev" where
  "OL_TX_DESC_NO_REFS i pdev =
     (let r = ref_cnt (tx_slots pdev i) - 1 in (r = 0, upd_slot i (\<lambda>sl. sl\<lparr>ref_cnt := r\<rparr>) pdev))"

section \<open>The download is done\<close>

definition mgmt_download_done :: "ol_tx_desc \<Rightarrow> bool \<Rightarrow> ol_txrx_pdev \<Rightarrow> ol_txrx_pdev" where
  "mgmt_download_done d status_ok pdev =
     (if pkt_type d \<ge> OL_TXRX_MGMT_TYPE_BASE \<and> download_cb pdev (pkt_type d - OL_TXRX_MGMT_TYPE_BASE)
      then nbuf_log [Nbuf_download (pkt_type d - OL_TXRX_MGMT_TYPE_BASE) (first_words pdev (desc_id d)) (\<not> status_ok)] pdev
      else pdev)"

definition ol_tx_download_done_base :: "bool \<Rightarrow> nat \<Rightarrow> ol_txrx_pdev \<Rightarrow> ol_txrx_pdev" where
  "ol_tx_download_done_base status_ok msdu_id pdev =
     (let d = sl_frame (tx_slots pdev msdu_id);
          pdev = mgmt_download_done d status_ok pdev
      in if \<not> status_ok then
           ol_tx_desc_frame_free_nonstd (OL_TX_TARGET_CREDIT_INCR d pdev) d True
         else
           (let (no_refs, pdev) = OL_TX_DESC_NO_REFS msdu_id pdev
            in if no_refs
               then ol_tx_desc_frame_free_nonstd pdev d (sl_status (tx_slots pdev msdu_id) \<noteq> htt_tx_status_ok)
               else pdev))"

definition ol_tx_download_done_hl_retain :: "bool \<Rightarrow> nat \<Rightarrow> ol_txrx_pdev \<Rightarrow> ol_txrx_pdev" where
  "ol_tx_download_done_hl_retain status_ok msdu_id pdev = ol_tx_download_done_base status_ok msdu_id pdev"

definition ol_tx_download_done_hl_free :: "bool \<Rightarrow> nat \<Rightarrow> ol_txrx_pdev \<Rightarrow> ol_txrx_pdev" where
  "ol_tx_download_done_hl_free status_ok msdu_id pdev =
     (let d = sl_frame (tx_slots pdev msdu_id);
          pdev = ol_tx_download_done_base status_ok msdu_id pdev
      in if pkt_type d \<noteq> ol_tx_frm_no_free \<and> pkt_type d < OL_TXRX_MGMT_TYPE_BASE
         then ol_tx_desc_frame_free_nonstd (pdev\<lparr>rsrc_cnt := rsrc_cnt pdev + 1\<rparr>) d (\<not> status_ok)
         else pdev)"

section \<open>Completions from the target\<close>

text \<open>
  \<open>ol_tx_msdu_complete\<close>: standard frames are collected for a batch free, the others are freed at
  once.
\<close>

definition ol_tx_msdu_complete ::
  "ol_tx_desc \<Rightarrow> nat \<Rightarrow> ol_tx_desc list \<Rightarrow> ol_txrx_pdev \<Rightarrow> ol_tx_desc list \<times> ol_txrx_pdev" where
  "ol_tx_msdu_complete d status tx_descs pdev =
     (if pkt_type d = ol_tx_frm_std then (tx_descs @ [d], pdev)
      else (tx_descs, ol_tx_desc_frame_free_nonstd pdev d (status \<noteq> htt_tx_status_ok)))"

fun completion_loop ::
  "nat \<Rightarrow> nat list \<Rightarrow> ol_tx_desc list \<Rightarrow> ol_txrx_pdev \<Rightarrow> ol_tx_desc list \<times> ol_txrx_pdev" where
  "completion_loop status [] tx_descs pdev = (tx_descs, pdev)"
| "completion_loop status (i # is) tx_descs pdev =
     (if i \<ge> pool_size pdev then completion_loop status is tx_descs pdev
      else
        let d = sl_frame (tx_slots pdev i);
            pdev = upd_slot i (\<lambda>sl. sl\<lparr>sl_status := status\<rparr>) pdev;
            pdev = ol_tx_desc_update_group_credit i 1 False pdev;
            (no_refs, pdev) = OL_TX_DESC_NO_REFS i pdev;
            (tx_descs, pdev) = (if no_refs then ol_tx_msdu_complete d status tx_descs pdev else (tx_descs, pdev))
        in completion_loop status is tx_descs pdev)"

text \<open>\<open>desc_ids\<close> are the first \<open>num_msdus\<close> ids of the message.\<close>

definition ol_tx_completion_handler :: "htt_env \<Rightarrow> nat \<Rightarrow> nat list \<Rightarrow> ol_txrx_pdev \<Rightarrow> ol_txrx_pdev" where
  "ol_tx_completion_handler env status desc_ids pdev =
     (let pdev = ol_tx_sched env pdev;
          (tx_descs, pdev) = completion_loop status desc_ids [] pdev;
          pdev = ol_tx_desc_frame_list_free pdev tx_descs (status \<noteq> htt_tx_status_ok)
      in ol_tx_sched env (pdev\<lparr>rsrc_cnt := rsrc_cnt pdev + int (length desc_ids)\<rparr>))"

definition ol_tx_desc_find_check :: "nat \<Rightarrow> ol_txrx_pdev \<Rightarrow> ol_tx_desc option" where
  "ol_tx_desc_find_check i pdev =
     (if i \<ge> pool_size pdev then None
      else if sl_vdev (tx_slots pdev i) = None then None
      else Some (sl_frame (tx_slots pdev i)))"

definition ol_tx_single_completion_handler :: "htt_env \<Rightarrow> nat \<Rightarrow> nat \<Rightarrow> ol_txrx_pdev \<Rightarrow> ol_txrx_pdev" where
  "ol_tx_single_completion_handler env status i pdev =
     (case ol_tx_desc_find_check i pdev of
        None \<Rightarrow> pdev
      | Some d \<Rightarrow>
          (let pdev = upd_slot i (\<lambda>sl. sl\<lparr>sl_status := status\<rparr>) pdev;
               (no_refs, pdev) = OL_TX_DESC_NO_REFS i pdev;
               pdev = (if no_refs then ol_tx_desc_frame_free_nonstd pdev d (status \<noteq> htt_tx_status_ok) else pdev)
           in ol_tx_sched env (pdev\<lparr>rsrc_cnt := rsrc_cnt pdev + 1\<rparr>)))"

text \<open>Multicast frames the target hands back for inspection are completed as if sent.\<close>

fun inspect_loop ::
  "nat list \<Rightarrow> ol_tx_desc list \<Rightarrow> ol_txrx_pdev \<Rightarrow> ol_tx_desc list \<times> ol_txrx_pdev" where
  "inspect_loop [] tx_descs pdev = (tx_descs, pdev)"
| "inspect_loop (i # is) tx_descs pdev =
     (if i \<ge> pool_size pdev then inspect_loop is tx_descs pdev
      else
        let d = sl_frame (tx_slots pdev i);
            (no_refs, pdev) = OL_TX_DESC_NO_REFS i pdev;
            (tx_descs, pdev) =
              (if no_refs then ol_tx_msdu_complete d htt_tx_status_ok tx_descs pdev else (tx_descs, pdev))
        in inspect_loop is tx_descs pdev)"

definition ol_tx_inspect_handler :: "htt_env \<Rightarrow> nat list \<Rightarrow> ol_txrx_pdev \<Rightarrow> ol_txrx_pdev" where
  "ol_tx_inspect_handler env desc_ids pdev =
     (let (tx_descs, pdev) = inspect_loop desc_ids [] pdev
      in ol_tx_sched env (ol_tx_desc_frame_list_free pdev tx_descs (htt_tx_status_discard \<noteq> 0)))"

section \<open>Giving up on the target\<close>

definition ol_tx_discard_target_frms :: "ol_txrx_pdev \<Rightarrow> ol_txrx_pdev" where
  "ol_tx_discard_target_frms pdev =
     fold (\<lambda>i pdev. if ref_cnt (tx_slots pdev i) \<noteq> 0
                    then ol_tx_desc_frame_free_nonstd pdev (sl_frame (tx_slots pdev i)) True else pdev)
       [0..<pool_size pdev] pdev"

definition ol_txrx_discard_tx_pending :: "ol_txrx_pdev \<Rightarrow> ol_txrx_pdev" where
  "ol_txrx_discard_tx_pending pdev =
     (let (pdev, tx_descs) = ol_tx_queue_discard pdev True []
      in ol_tx_discard_target_frms (ol_tx_desc_frame_list_free pdev tx_descs True))"

definition ol_tx_target_credit_dec :: "int \<Rightarrow> ol_txrx_pdev \<Rightarrow> ol_txrx_pdev option" where
  "ol_tx_target_credit_dec credit pdev =
     (if target_tx_credit pdev < credit then None else Some (ol_tx_target_credit_update (- credit) pdev))"

end
