(* ===== verification/HttFields.thy ===== *)
theory HttFields
  imports RxOps TxCompl
begin

unbundle bit_operations_syntax

text \<open>
  The message format between host and target (\<open>htt.h\<close>). A field of a 32-bit message word is a mask
  and a shift, the macros \<open>X_M\<close> and \<open>X_S\<close>; \<open>X_GET\<close> and \<open>X_SET\<close> are generated from them in the same way
  for every field, here \<open>fget\<close> and \<open>fset\<close>. The constants below carry the source's field names.

  A message is the memory it starts at, in words, and its length in bytes; what lies behind its end
  is whatever the buffer holds. The host is little endian (no BIG_ENDIAN_HOST).
\<close>

section \<open>Fields\<close>

record htt_field =
  fld_M :: "32 word"
  fld_S :: nat

definition fget :: "htt_field \<Rightarrow> 32 word \<Rightarrow> nat" where
  "fget f w = unat (drop_bit (fld_S f) (w AND fld_M f))"

definition fset :: "htt_field \<Rightarrow> nat \<Rightarrow> 32 word \<Rightarrow> 32 word" where
  "fset f v w = w OR push_bit (fld_S f) (word_of_nat v)"

text \<open>The condition \<open>HTT_CHECK_SET_VAL\<close> asserts before a field is set.\<close>

definition HTT_CHECK_SET_VAL :: "htt_field \<Rightarrow> nat \<Rightarrow> bool" where
  "HTT_CHECK_SET_VAL f v \<longleftrightarrow> word_of_nat v AND NOT (drop_bit (fld_S f) (fld_M f)) = 0"

definition HTT_T2H_MSG_TYPE :: htt_field where "HTT_T2H_MSG_TYPE = \<lparr>fld_M = 0xff, fld_S = 0\<rparr>"
definition HTT_T2H_PAYLOAD_PRESENT :: htt_field where "HTT_T2H_PAYLOAD_PRESENT = \<lparr>fld_M = 0x100, fld_S = 8\<rparr>"
definition HTT_VER_CONF_MINOR :: htt_field where "HTT_VER_CONF_MINOR = \<lparr>fld_M = 0x0000ff00, fld_S = 8\<rparr>"
definition HTT_VER_CONF_MAJOR :: htt_field where "HTT_VER_CONF_MAJOR = \<lparr>fld_M = 0x00ff0000, fld_S = 16\<rparr>"
definition HTT_RX_IND_EXT_TID :: htt_field where "HTT_RX_IND_EXT_TID = \<lparr>fld_M = 0x1f00, fld_S = 8\<rparr>"
definition HTT_RX_IND_FLUSH_VALID :: htt_field where "HTT_RX_IND_FLUSH_VALID = \<lparr>fld_M = 0x2000, fld_S = 13\<rparr>"
definition HTT_RX_IND_REL_VALID :: htt_field where "HTT_RX_IND_REL_VALID = \<lparr>fld_M = 0x4000, fld_S = 14\<rparr>"
definition HTT_RX_IND_PEER_ID :: htt_field where "HTT_RX_IND_PEER_ID = \<lparr>fld_M = 0xffff0000, fld_S = 16\<rparr>"
definition HTT_RX_IND_FLUSH_SEQ_NUM_START :: htt_field where "HTT_RX_IND_FLUSH_SEQ_NUM_START = \<lparr>fld_M = 0x3f, fld_S = 0\<rparr>"
definition HTT_RX_IND_FLUSH_SEQ_NUM_END :: htt_field where "HTT_RX_IND_FLUSH_SEQ_NUM_END = \<lparr>fld_M = 0xfc0, fld_S = 6\<rparr>"
definition HTT_RX_IND_REL_SEQ_NUM_START :: htt_field where "HTT_RX_IND_REL_SEQ_NUM_START = \<lparr>fld_M = 0x3f000, fld_S = 12\<rparr>"
definition HTT_RX_IND_REL_SEQ_NUM_END :: htt_field where "HTT_RX_IND_REL_SEQ_NUM_END = \<lparr>fld_M = 0xfc0000, fld_S = 18\<rparr>"
definition HTT_RX_IND_NUM_MPDU_RANGES :: htt_field where "HTT_RX_IND_NUM_MPDU_RANGES = \<lparr>fld_M = 0xff000000, fld_S = 24\<rparr>"
definition HTT_RX_IND_RSSI_CMB :: htt_field where "HTT_RX_IND_RSSI_CMB = \<lparr>fld_M = 0x000000ff, fld_S = 0\<rparr>"
definition HTT_RX_IND_TIMESTAMP_SUBMICROSEC :: htt_field where "HTT_RX_IND_TIMESTAMP_SUBMICROSEC = \<lparr>fld_M = 0x0000ff00, fld_S = 8\<rparr>"
definition HTT_RX_IND_LEGACY_RATE :: htt_field where "HTT_RX_IND_LEGACY_RATE = \<lparr>fld_M = 0x1e000000, fld_S = 25\<rparr>"
definition HTT_RX_IND_LEGACY_RATE_SEL :: htt_field where "HTT_RX_IND_LEGACY_RATE_SEL = \<lparr>fld_M = 0x20000000, fld_S = 29\<rparr>"
definition HTT_RX_IND_END_VALID :: htt_field where "HTT_RX_IND_END_VALID = \<lparr>fld_M = 0x40000000, fld_S = 30\<rparr>"
definition HTT_RX_IND_START_VALID :: htt_field where "HTT_RX_IND_START_VALID = \<lparr>fld_M = 0x80000000, fld_S = 31\<rparr>"
definition HTT_RX_IND_RSSI_PRI20 :: htt_field where "HTT_RX_IND_RSSI_PRI20 = \<lparr>fld_M = 0x000000ff, fld_S = 0\<rparr>"
definition HTT_RX_IND_FW_RX_DESC_BYTES :: htt_field where "HTT_RX_IND_FW_RX_DESC_BYTES = \<lparr>fld_M = 0xffff, fld_S = 0\<rparr>"
definition HTT_RX_IND_NOISE_FLOOR_CHAIN0 :: htt_field where "HTT_RX_IND_NOISE_FLOOR_CHAIN0 = \<lparr>fld_M = 0x00ff0000, fld_S = 16\<rparr>"
definition HTT_RX_IND_NOISE_FLOOR_CHAIN1 :: htt_field where "HTT_RX_IND_NOISE_FLOOR_CHAIN1 = \<lparr>fld_M = 0xff000000, fld_S = 24\<rparr>"
definition HTT_RX_IND_MPDU_COUNT :: htt_field where "HTT_RX_IND_MPDU_COUNT = \<lparr>fld_M = 0xff, fld_S = 0\<rparr>"
definition HTT_RX_IND_MPDU_STATUS :: htt_field where "HTT_RX_IND_MPDU_STATUS = \<lparr>fld_M = 0xff00, fld_S = 8\<rparr>"
definition HTT_RX_FLUSH_PEER_ID :: htt_field where "HTT_RX_FLUSH_PEER_ID = \<lparr>fld_M = 0xffff00, fld_S = 8\<rparr>"
definition HTT_RX_FLUSH_TID :: htt_field where "HTT_RX_FLUSH_TID = \<lparr>fld_M = 0xff000000, fld_S = 24\<rparr>"
definition HTT_RX_FLUSH_MPDU_STATUS :: htt_field where "HTT_RX_FLUSH_MPDU_STATUS = \<lparr>fld_M = 0x0000ff00, fld_S = 8\<rparr>"
definition HTT_RX_FLUSH_SEQ_NUM_START :: htt_field where "HTT_RX_FLUSH_SEQ_NUM_START = \<lparr>fld_M = 0x00ff0000, fld_S = 16\<rparr>"
definition HTT_RX_FLUSH_SEQ_NUM_END :: htt_field where "HTT_RX_FLUSH_SEQ_NUM_END = \<lparr>fld_M = 0xff000000, fld_S = 24\<rparr>"
definition HTT_RX_PN_IND_PEER_ID :: htt_field where "HTT_RX_PN_IND_PEER_ID = \<lparr>fld_M = 0xffff00, fld_S = 8\<rparr>"
definition HTT_RX_PN_IND_TID :: htt_field where "HTT_RX_PN_IND_TID = \<lparr>fld_M = 0xff000000, fld_S = 24\<rparr>"
definition HTT_RX_PN_IND_SEQ_NUM_START :: htt_field where "HTT_RX_PN_IND_SEQ_NUM_START = \<lparr>fld_M = 0x000000ff, fld_S = 0\<rparr>"
definition HTT_RX_PN_IND_SEQ_NUM_END :: htt_field where "HTT_RX_PN_IND_SEQ_NUM_END = \<lparr>fld_M = 0x0000ff00, fld_S = 8\<rparr>"
definition HTT_RX_PN_IND_PN_IE_CNT :: htt_field where "HTT_RX_PN_IND_PN_IE_CNT = \<lparr>fld_M = 0x00ff0000, fld_S = 16\<rparr>"
definition HTT_RX_OFFLOAD_DELIVER_IND_MSDU_CNT :: htt_field where "HTT_RX_OFFLOAD_DELIVER_IND_MSDU_CNT = \<lparr>fld_M = 0xffff0000, fld_S = 16\<rparr>"
definition HTT_RX_PEER_MAP_VDEV_ID :: htt_field where "HTT_RX_PEER_MAP_VDEV_ID = \<lparr>fld_M = 0xff00, fld_S = 8\<rparr>"
definition HTT_RX_PEER_MAP_PEER_ID :: htt_field where "HTT_RX_PEER_MAP_PEER_ID = \<lparr>fld_M = 0xffff0000, fld_S = 16\<rparr>"
definition HTT_SEC_IND_SEC_TYPE :: htt_field where "HTT_SEC_IND_SEC_TYPE = \<lparr>fld_M = 0x00007f00, fld_S = 8\<rparr>"
definition HTT_SEC_IND_UNICAST :: htt_field where "HTT_SEC_IND_UNICAST = \<lparr>fld_M = 0x00008000, fld_S = 15\<rparr>"
definition HTT_SEC_IND_PEER_ID :: htt_field where "HTT_SEC_IND_PEER_ID = \<lparr>fld_M = 0xffff0000, fld_S = 16\<rparr>"
definition HTT_RX_ADDBA_WIN_SIZE :: htt_field where "HTT_RX_ADDBA_WIN_SIZE = \<lparr>fld_M = 0xff00, fld_S = 8\<rparr>"
definition HTT_RX_ADDBA_TID :: htt_field where "HTT_RX_ADDBA_TID = \<lparr>fld_M = 0xf0000, fld_S = 16\<rparr>"
definition HTT_RX_ADDBA_PEER_ID :: htt_field where "HTT_RX_ADDBA_PEER_ID = \<lparr>fld_M = 0xfff00000, fld_S = 20\<rparr>"
definition HTT_TXQ_GROUP_CREDIT_COUNT :: htt_field where "HTT_TXQ_GROUP_CREDIT_COUNT = \<lparr>fld_M = 0x00003fff, fld_S = 0\<rparr>"
definition HTT_TXQ_GROUP_SIGN :: htt_field where "HTT_TXQ_GROUP_SIGN = \<lparr>fld_M = 0x00004000, fld_S = 14\<rparr>"
definition HTT_TXQ_GROUP_ABS :: htt_field where "HTT_TXQ_GROUP_ABS = \<lparr>fld_M = 0x00008000, fld_S = 15\<rparr>"
definition HTT_TXQ_GROUP_ID :: htt_field where "HTT_TXQ_GROUP_ID = \<lparr>fld_M = 0x00ff0000, fld_S = 16\<rparr>"
definition HTT_TXQ_GROUP_EXT :: htt_field where "HTT_TXQ_GROUP_EXT = \<lparr>fld_M = 0x80000000, fld_S = 31\<rparr>"
definition HTT_TXQ_GROUP_AC_MASK :: htt_field where "HTT_TXQ_GROUP_AC_MASK = \<lparr>fld_M = 0x0000ffff, fld_S = 0\<rparr>"
definition HTT_TXQ_GROUP_VDEV_ID_MASK :: htt_field where "HTT_TXQ_GROUP_VDEV_ID_MASK = \<lparr>fld_M = 0xffff0000, fld_S = 16\<rparr>"
definition HTT_TX_COMPL_IND_STATUS :: htt_field where "HTT_TX_COMPL_IND_STATUS = \<lparr>fld_M = 0x00000700, fld_S = 8\<rparr>"
definition HTT_TX_COMPL_IND_TID :: htt_field where "HTT_TX_COMPL_IND_TID = \<lparr>fld_M = 0x00007800, fld_S = 11\<rparr>"
definition HTT_TX_COMPL_IND_NUM :: htt_field where "HTT_TX_COMPL_IND_NUM = \<lparr>fld_M = 0x00ff0000, fld_S = 16\<rparr>"
definition HTT_TX_CREDIT_SIGN_BIT :: htt_field where "HTT_TX_CREDIT_SIGN_BIT = \<lparr>fld_M = 0x00000100, fld_S = 8\<rparr>"
definition HTT_TX_CREDIT_TXQ_GRP :: htt_field where "HTT_TX_CREDIT_TXQ_GRP = \<lparr>fld_M = 0x00008000, fld_S = 15\<rparr>"
definition HTT_TX_CREDIT_DELTA_ABS :: htt_field where "HTT_TX_CREDIT_DELTA_ABS = \<lparr>fld_M = 0xffff0000, fld_S = 16\<rparr>"
definition HTT_RX_OFLD_PKT_ERR_MSG_SUB_TYPE :: htt_field where "HTT_RX_OFLD_PKT_ERR_MSG_SUB_TYPE = \<lparr>fld_M = 0x0000ff00, fld_S = 8\<rparr>"
definition HTT_RX_OFLD_PKT_ERR_MIC_ERR_PEER_ID :: htt_field where "HTT_RX_OFLD_PKT_ERR_MIC_ERR_PEER_ID = \<lparr>fld_M = 0x0000ffff, fld_S = 0\<rparr>"
definition HTT_RX_OFLD_PKT_ERR_MIC_ERR_KEYID :: htt_field where "HTT_RX_OFLD_PKT_ERR_MIC_ERR_KEYID = \<lparr>fld_M = 0x00ff0000, fld_S = 16\<rparr>"
definition HTT_PEER_RATE_REPORT_MSG_PEER_COUNT :: htt_field where "HTT_PEER_RATE_REPORT_MSG_PEER_COUNT = \<lparr>fld_M = 0xffff0000, fld_S = 16\<rparr>"
definition HTT_PEER_RATE_REPORT_MSG_PEER_ID :: htt_field where "HTT_PEER_RATE_REPORT_MSG_PEER_ID = \<lparr>fld_M = 0x0000ffff, fld_S = 0\<rparr>"
definition HTT_PEER_RATE_REPORT_MSG_PHY :: htt_field where "HTT_PEER_RATE_REPORT_MSG_PHY = \<lparr>fld_M = 0x000f0000, fld_S = 16\<rparr>"
definition HTT_RX_IN_ORD_PADDR_IND_EXT_TID :: htt_field where "HTT_RX_IN_ORD_PADDR_IND_EXT_TID = \<lparr>fld_M = 0x00001f00, fld_S = 8\<rparr>"
definition HTT_RX_IN_ORD_PADDR_IND_OFFLOAD :: htt_field where "HTT_RX_IN_ORD_PADDR_IND_OFFLOAD = \<lparr>fld_M = 0x00002000, fld_S = 13\<rparr>"
definition HTT_RX_IN_ORD_PADDR_IND_FRAG :: htt_field where "HTT_RX_IN_ORD_PADDR_IND_FRAG = \<lparr>fld_M = 0x00004000, fld_S = 14\<rparr>"
definition HTT_RX_IN_ORD_PADDR_IND_PEER_ID :: htt_field where "HTT_RX_IN_ORD_PADDR_IND_PEER_ID = \<lparr>fld_M = 0xffff0000, fld_S = 16\<rparr>"

section \<open>Messages\<close>

record htt_msg =
  hm_word :: "nat \<Rightarrow> 32 word"
  hm_len :: nat

definition hm_half :: "htt_msg \<Rightarrow> nat \<Rightarrow> nat" where
  "hm_half m i = unat (take_bit 16 (drop_bit (16 * (i mod 2)) (hm_word m (i div 2))))"

definition hm_byte :: "htt_msg \<Rightarrow> nat \<Rightarrow> nat" where
  "hm_byte m i = unat (take_bit 8 (drop_bit (8 * (i mod 4)) (hm_word m (i div 4))))"

definition hm_set_half :: "nat \<Rightarrow> nat \<Rightarrow> htt_msg \<Rightarrow> htt_msg" where
  "hm_set_half i v m =
     (let k = 16 * (i mod 2);
          w = hm_word m (i div 2) AND NOT (push_bit k (mask 16)) OR push_bit k (word_of_nat (u16 v))
      in m\<lparr>hm_word := (hm_word m)(i div 2 := w)\<rparr>)"

text \<open>A message with the given words; the memory behind them is zero.\<close>

definition htt_msg_of :: "32 word list \<Rightarrow> htt_msg" where
  "htt_msg_of ws = \<lparr>hm_word = (\<lambda>i. if i < length ws then ws ! i else 0), hm_len = 4 * length ws\<rparr>"

section \<open>Reading back what was written\<close>

text \<open>A field of \<open>n\<close> bits.\<close>

definition field_bits :: "htt_field \<Rightarrow> nat \<Rightarrow> bool" where
  "field_bits f n \<longleftrightarrow> fld_M f = push_bit (fld_S f) (mask n) \<and> fld_S f + n \<le> 32"

lemma and_0_bits: "a AND b = (0 :: 32 word) \<Longrightarrow> bit a i \<Longrightarrow> \<not> bit b i"
  by (drule arg_cong [of _ _ "\<lambda>x. bit x i"]) (simp add: bit_and_iff)

lemma fits_bit:
  assumes "v < 2 ^ n" and "bit (word_of_nat v :: 32 word) i"
  shows "i < n"
proof -
  have "take_bit n (word_of_nat v :: 32 word) = word_of_nat v"
    using assms(1) by (simp add: take_bit_of_nat take_bit_nat_eq_self)
  then show ?thesis using assms(2) by (metis bit_take_bit_iff)
qed

lemma fget_take_bit:
  assumes "field_bits f n"
  shows "fget f w = unat (take_bit n (drop_bit (fld_S f) w))"
proof -
  have "drop_bit (fld_S f) (w AND fld_M f) = take_bit n (drop_bit (fld_S f) w)"
    using assms by (intro bit_word_eqI) (auto simp: field_bits_def bit_simps)
  then show ?thesis by (simp add: fget_def)
qed

lemma fget_less: "field_bits f n \<Longrightarrow> fget f w < 2 ^ n"
  by (simp add: fget_take_bit take_bit_nat_less_exp unsigned_take_bit_eq)

lemma check_set_val:
  assumes "field_bits f n" and "v < 2 ^ n"
  shows "HTT_CHECK_SET_VAL f v"
  unfolding HTT_CHECK_SET_VAL_def
proof (rule bit_word_eqI)
  fix i :: nat
  have "drop_bit (fld_S f) (fld_M f) = mask n"
    using assms(1) by (intro bit_word_eqI) (auto simp: field_bits_def bit_simps)
  then show "bit (word_of_nat v AND NOT (drop_bit (fld_S f) (fld_M f))) i = bit (0 :: 32 word) i"
    if "i < LENGTH(32)"
    using fits_bit [OF assms(2), of i] that by (auto simp: bit_simps)
qed

lemma fget_fset_same:
  assumes "field_bits f n" and "v < 2 ^ n" and "w AND fld_M f = 0"
  shows "fget f (fset f v w) = v"
proof -
  have n: "n \<le> 32" using assms(1) by (simp add: field_bits_def)
  have "drop_bit (fld_S f) (fset f v w AND fld_M f) = (word_of_nat v :: 32 word)"
  proof (rule bit_word_eqI)
    fix i :: nat
    assume "i < LENGTH(32)"
    show "bit (drop_bit (fld_S f) (fset f v w AND fld_M f)) i = bit (word_of_nat v :: 32 word) i"
      using and_0_bits [OF assms(3), of "fld_S f + i"] fits_bit [OF assms(2), of i] assms(1)
      unfolding field_bits_def fset_def bit_drop_bit_eq o_def bit_and_iff bit_or_iff bit_push_bit_iff
      by (auto simp: bit_simps)
  qed
  then have "fget f (fset f v w) = unat (word_of_nat v :: 32 word)"
    by (simp add: fget_def)
  moreover have "v < 2 ^ 32"
    using assms(2) n by (meson less_le_trans one_le_numeral power_increasing)
  ultimately show ?thesis by (simp add: unsigned_of_nat take_bit_nat_eq_self)
qed

lemma fget_fset_other:
  assumes "field_bits g k" and "v < 2 ^ k" and "fld_M f AND fld_M g = 0"
  shows "fget f (fset g v w) = fget f w"
proof -
  have "push_bit (fld_S g) (word_of_nat v) AND fld_M f = 0"
  proof (rule bit_word_eqI)
    fix i :: nat
    show "bit (push_bit (fld_S g) (word_of_nat v) AND fld_M f) i = bit (0 :: 32 word) i" if "i < LENGTH(32)"
    proof (cases "fld_S g \<le> i \<and> bit (word_of_nat v :: 32 word) (i - fld_S g)")
      case True
      then have "bit (fld_M g) i"
        using fits_bit [OF assms(2)] assms(1) that by (auto simp: field_bits_def bit_simps)
      then show ?thesis using and_0_bits [OF assms(3), of i] by (auto simp: bit_and_iff)
    next
      case False
      then show ?thesis by (auto simp: bit_simps)
    qed
  qed
  then show ?thesis by (simp add: fget_def fset_def word_ao_dist)
qed

end
