(* ===== verification/HttT2h.thy ===== *)
theory HttT2h
  imports HttFields
begin

unbundle bit_operations_syntax

text \<open>
  Messages from the target (\<open>htt_t2h.c\<close>): the dispatch of a message to the data path, the credit
  exchange between the bus and the target (\<open>htt_tx.c\<close>, \<open>htt_h2t.c\<close>), and the accessors the rx path
  reads an indication with. High latency build; \<open>IPA_UC_OFFLOAD\<close> is not compiled.

  The tx side is called directly: the state holds the tx device. What is handed to the rx path, the
  peer map, the statistics and the other receivers is recorded in \<open>htt_calls\<close>, in order, with the
  arguments of the call; pointers into the message are word or byte offsets. \<open>Msg_free\<close> is
  \<open>adf_nbuf_free\<close> of the message, \<open>Pm_runtime_put\<close> is \<open>htc_pm_runtime_put\<close>.
\<close>

section \<open>State\<close>

datatype wdi_event =
    WDI_EVENT_TX_STATUS | WDI_EVENT_RX_DESC | WDI_EVENT_RX_DESC_REMOTE
  | WDI_EVENT_RATE_FIND | WDI_EVENT_RATE_UPDATE | WDI_EVENT_RX_PEER_INVALID

datatype t2h_call =
    Rx_indication nat nat nat
  | Rx_mon_indication nat nat nat
  | Rx_mon_mac_header
  | Rx_frag_indication nat nat
  | Rx_flush nat nat nat nat htt_rx_flush_action
  | Rx_pn_ind nat nat nat nat "nat list"
  | Rx_addba nat nat nat nat
  | Rx_delba nat nat
  | Rx_offload_deliver nat
  | Peer_map nat nat "nat list" bool
  | Peer_unmap nat
  | Sec_ind nat nat nat nat nat
  | Tx_failure_indication nat nat nat
  | Fw_stats nat nat
  | Wdi_event wdi_event nat nat
  | Indicate_mic_err nat nat "nat list" "nat list" "nat list" "nat list"
  | Peer_link_status "(nat \<times> nat \<times> nat) list"
  | Cfr_compl nat
  | Pm_runtime_put
  | Assert_failed
  | Msg_free

text \<open>Configuration (\<open>pdev->cfg\<close>, \<open>ol_cfg_*\<close>, \<open>vos_get_conparam\<close>).\<close>

record htt_cfg =
  default_tx_comp_req :: bool
  is_full_reorder_offload :: bool
  tx_free_at_download :: bool
  cfg_monitor_mode :: bool
  cfg_max_peer_id :: nat

text \<open>
  What a handler asks of its surroundings: HTC's packet allocation, whether memory is available, and
  the peer lookup by id (the peer's virtual device and address).
\<close>

record t2h_env =
  t2h_tx :: htt_env
  t2h_mem_ok :: bool
  t2h_peer :: "nat \<Rightarrow> (nat \<times> nat list) option"

record htt_pdev =
  tgt_ver_major :: nat
  tgt_ver_minor :: nat
  target_delta :: int
  bus_delta :: int
  rx_mpdu_range_offset_words :: nat
  rx_ind_msdu_byte_idx :: nat
  htc_err_cnt :: nat
  htt_txrx :: ol_txrx_pdev
  htt_calls :: "t2h_call list"

definition emit :: "t2h_call \<Rightarrow> htt_pdev \<Rightarrow> htt_pdev" where
  "emit c s = s\<lparr>htt_calls := htt_calls s @ [c]\<rparr>"

definition on_tx :: "(ol_txrx_pdev \<Rightarrow> ol_txrx_pdev) \<Rightarrow> htt_pdev \<Rightarrow> htt_pdev" where
  "on_tx f s = s\<lparr>htt_txrx := f (htt_txrx s)\<rparr>"

section \<open>Credit\<close>

definition HTT_MAX_BUS_CREDIT :: int where "HTT_MAX_BUS_CREDIT = 33"
definition MAX_TARGET_TX_CREDIT :: int where "MAX_TARGET_TX_CREDIT = 204800"

definition htt_tx_credit_update :: "htt_pdev \<Rightarrow> int \<times> htt_pdev" where
  "htt_tx_credit_update s =
     (let credit_delta = min (target_delta s) (bus_delta s)
      in (credit_delta,
          if credit_delta > 0
          then s\<lparr>target_delta := target_delta s - credit_delta, bus_delta := bus_delta s - credit_delta\<rparr>
          else s))"

text \<open>Moving up to \<open>delta2\<close> of the target's credit past the bus limit.\<close>

definition t2h_extra_credit :: "int \<Rightarrow> htt_pdev \<Rightarrow> htt_pdev" where
  "t2h_extra_credit offered s =
     (let room = HTT_MAX_BUS_CREDIT - target_tx_credit (htt_txrx s) - offered;
          delta2 = (if target_delta s < room then target_delta s else room)
      in on_tx (\<lambda>p. p\<lparr>target_tx_credit := target_tx_credit p + delta2\<rparr>)
           (s\<lparr>target_delta := target_delta s - delta2, bus_delta := bus_delta s - delta2\<rparr>))"

text \<open>
  The loop of \<open>htt_tx_group_credit_process\<close>: \<open>group_offset\<close> is a \<open>u_int8_t\<close> that advances by the two
  words of an element. The flag is \<open>more_group_present\<close>.
\<close>

definition HTT_TX_GROUP_INDEX_OFFSET :: nat where "HTT_TX_GROUP_INDEX_OFFSET = 2"

definition group_element :: "htt_msg \<Rightarrow> nat \<Rightarrow> ol_txrx_pdev \<Rightarrow> ol_txrx_pdev" where
  "group_element m group_offset pdev =
     (let w1 = hm_word m (1 + group_offset);
          w2 = hm_word m (2 + group_offset);
          group_credit_abs = int (fget HTT_TXQ_GROUP_CREDIT_COUNT w1);
          group_credit = (if fget HTT_TXQ_GROUP_SIGN w1 \<noteq> 0 then - group_credit_abs else group_credit_abs)
      in ol_txrx_update_tx_queue_groups (fget HTT_TXQ_GROUP_ID w1) group_credit
           (fget HTT_TXQ_GROUP_ABS w1 \<noteq> 0)
           (word_of_nat (fget HTT_TXQ_GROUP_VDEV_ID_MASK w2)) (word_of_nat (fget HTT_TXQ_GROUP_AC_MASK w2)) pdev)"

partial_function (option) group_credit_loop :: "htt_msg \<Rightarrow> nat \<Rightarrow> bool \<Rightarrow> ol_txrx_pdev \<Rightarrow> ol_txrx_pdev option" where
  "group_credit_loop m group_offset more_group_present pdev =
     (if \<not> more_group_present then Some pdev
      else group_credit_loop m (u8 (group_offset + HTT_TX_GROUP_INDEX_OFFSET))
             (fget HTT_TXQ_GROUP_EXT (hm_word m (1 + group_offset)) \<noteq> 0) (group_element m group_offset pdev))"

declare group_credit_loop.simps [code]

definition htt_tx_group_credit_process :: "htt_msg \<Rightarrow> ol_txrx_pdev \<Rightarrow> ol_txrx_pdev option" where
  "htt_tx_group_credit_process m pdev =
     group_credit_loop m 0 (fget HTT_TX_CREDIT_TXQ_GRP (hm_word m 0) \<noteq> 0) pdev"

text \<open>The completion of a download (\<open>htt_h2t_send_complete\<close>): the bus has room for one more.\<close>

definition htt_h2t_send_complete ::
  "htt_cfg \<Rightarrow> htt_env \<Rightarrow> (bool \<times> nat) option \<Rightarrow> htt_pdev \<Rightarrow> htt_pdev" where
  "htt_h2t_send_complete cfg env part2 s =
     (let s = (case part2 of
                 None \<Rightarrow> s
               | Some (status_ok, msdu_id) \<Rightarrow>
                   on_tx (if tx_free_at_download cfg then ol_tx_download_done_hl_free status_ok msdu_id
                          else ol_tx_download_done_hl_retain status_ok msdu_id) s)
      in if \<not> default_tx_comp_req cfg then
           (let (credit_delta, s) = htt_tx_credit_update (s\<lparr>bus_delta := bus_delta s + 1\<rparr>)
            in if credit_delta \<noteq> 0 then on_tx (ol_tx_credit_completion_handler env credit_delta) s else s)
         else s)"

section \<open>Low priority messages\<close>

definition HTT_CURRENT_VERSION_MAJOR :: nat where "HTT_CURRENT_VERSION_MAJOR = 3"
definition HTT_RX_PPDU_DESC_SIZE32 :: nat where "HTT_RX_PPDU_DESC_SIZE32 = 9"
definition HTT_RX_IND_HDR_BYTES :: nat where "HTT_RX_IND_HDR_BYTES = 48"
definition HTT_RX_IND_HL_BYTES :: nat where "HTT_RX_IND_HL_BYTES = HTT_RX_IND_HDR_BYTES + 4 + 4"
definition HTT_RX_FRAG_IND_BYTES :: nat where "HTT_RX_FRAG_IND_BYTES = 4 + 4 + 4 + 4"
definition IEEE80211_FRAME_BYTES :: nat where "IEEE80211_FRAME_BYTES = 24"

definition t2h_version_conf :: "htt_msg \<Rightarrow> htt_pdev \<Rightarrow> htt_pdev" where
  "t2h_version_conf m s =
     (let w = hm_word m 0;
          s = (emit Pm_runtime_put s)\<lparr>tgt_ver_major := fget HTT_VER_CONF_MAJOR w,
                                      tgt_ver_minor := fget HTT_VER_CONF_MINOR w\<rparr>
      in emit Msg_free (if tgt_ver_major s \<noteq> HTT_CURRENT_VERSION_MAJOR then emit Assert_failed s else s))"

definition t2h_rx_flush :: "htt_msg \<Rightarrow> htt_pdev \<Rightarrow> htt_pdev" where
  "t2h_rx_flush m s =
     (let w0 = hm_word m 0; w1 = hm_word m 1;
          action = (if fget HTT_RX_FLUSH_MPDU_STATUS w1 = 1 then htt_rx_flush_release else htt_rx_flush_discard)
      in emit Msg_free (emit (Rx_flush (fget HTT_RX_FLUSH_PEER_ID w0) (fget HTT_RX_FLUSH_TID w0)
           (fget HTT_RX_FLUSH_SEQ_NUM_START w1) (fget HTT_RX_FLUSH_SEQ_NUM_END w1) action) s))"

text \<open>In the high latency case the receiver of the frames frees the message.\<close>

definition t2h_rx_offload_deliver :: "htt_msg \<Rightarrow> htt_pdev \<Rightarrow> htt_pdev" where
  "t2h_rx_offload_deliver m s =
     emit (Rx_offload_deliver (fget HTT_RX_OFFLOAD_DELIVER_IND_MSDU_CNT (hm_word m 0))) s"

definition t2h_rx_frag_ind :: "htt_msg \<Rightarrow> htt_pdev \<Rightarrow> htt_pdev" where
  "t2h_rx_frag_ind m s =
     (let w = hm_word m 0 in
      if hm_len m < HTT_RX_FRAG_IND_BYTES + HTT_RX_IND_HL_BYTES + IEEE80211_FRAME_BYTES then emit Msg_free s
      else emit (Rx_frag_indication (fget HTT_RX_IND_PEER_ID w) (fget HTT_RX_IND_EXT_TID w)) s)"

definition t2h_rx_addba :: "htt_msg \<Rightarrow> htt_pdev \<Rightarrow> htt_pdev" where
  "t2h_rx_addba m s =
     (let w = hm_word m 0
      in emit Msg_free (emit (Rx_addba (fget HTT_RX_ADDBA_PEER_ID w) (fget HTT_RX_ADDBA_TID w)
           (fget HTT_RX_ADDBA_WIN_SIZE w) 0) s))"

definition t2h_rx_delba :: "htt_msg \<Rightarrow> htt_pdev \<Rightarrow> htt_pdev" where
  "t2h_rx_delba m s =
     (let w = hm_word m 0
      in emit Msg_free (emit (Rx_delba (fget HTT_RX_ADDBA_PEER_ID w) (fget HTT_RX_ADDBA_TID w)) s))"

definition htt_t2h_mac_addr_deswizzle :: "htt_msg \<Rightarrow> nat list" where
  "htt_t2h_mac_addr_deswizzle m = map (hm_byte m) [4..<10]"

definition t2h_peer_map :: "htt_cfg \<Rightarrow> htt_msg \<Rightarrow> htt_pdev \<Rightarrow> htt_pdev" where
  "t2h_peer_map cfg m s =
     (let w = hm_word m 0;
          peer_id = fget HTT_RX_PEER_MAP_PEER_ID w
      in emit Msg_free
           (if peer_id > cfg_max_peer_id cfg then s
            else emit (Peer_map peer_id (fget HTT_RX_PEER_MAP_VDEV_ID w) (htt_t2h_mac_addr_deswizzle m) True) s))"

definition t2h_peer_unmap :: "htt_cfg \<Rightarrow> htt_msg \<Rightarrow> htt_pdev \<Rightarrow> htt_pdev" where
  "t2h_peer_unmap cfg m s =
     (let peer_id = fget HTT_RX_PEER_MAP_PEER_ID (hm_word m 0)
      in emit Msg_free (if peer_id > cfg_max_peer_id cfg then s else emit (Peer_unmap peer_id) s))"

text \<open>The Michael key starts at word 1, the packet number at word 3.\<close>

definition t2h_sec_ind :: "htt_msg \<Rightarrow> htt_pdev \<Rightarrow> htt_pdev" where
  "t2h_sec_ind m s =
     (let w = hm_word m 0
      in emit Msg_free (emit (Sec_ind (fget HTT_SEC_IND_PEER_ID w) (fget HTT_SEC_IND_SEC_TYPE w)
           (fget HTT_SEC_IND_UNICAST w) 1 3) s))"

definition t2h_mgmt_tx_compl :: "htt_cfg \<Rightarrow> t2h_env \<Rightarrow> htt_msg \<Rightarrow> htt_pdev \<Rightarrow> htt_pdev" where
  "t2h_mgmt_tx_compl cfg e m s =
     (let desc_id = u16 (unat (hm_word m 1));
          status = unat (hm_word m 2);
          (credit_delta, s) =
            (if \<not> default_tx_comp_req cfg then htt_tx_credit_update (s\<lparr>target_delta := target_delta s + 1\<rparr>)
             else (1, s));
          s = (if credit_delta \<noteq> 0 then on_tx (ol_tx_target_credit_update credit_delta) s else s);
          s = on_tx (ol_tx_desc_update_group_credit desc_id 1 False) s;
          s = on_tx (ol_tx_single_completion_handler (t2h_tx e) status desc_id) s
      in emit Msg_free (emit Pm_runtime_put s))"

definition t2h_stats_conf :: "htt_msg \<Rightarrow> htt_pdev \<Rightarrow> htt_pdev" where
  "t2h_stats_conf m s =
     (let cookie = unat (hm_word m 1) + 2 ^ 32 * unat (hm_word m 2)
      in emit Msg_free (emit (Fw_stats cookie 3) (emit Pm_runtime_put s)))"

text \<open>
  The packet log: which subscribers hear of it depends on the type in the second word of the log's
  header.
\<close>

definition pktlog_event :: "nat \<Rightarrow> wdi_event option" where
  "pktlog_event log_type =
     (if log_type \<in> {1, 2, 3, 4, 8} then Some WDI_EVENT_TX_STATUS
      else if log_type = 6 then Some WDI_EVENT_RATE_FIND
      else if log_type = 7 then Some WDI_EVENT_RATE_UPDATE
      else if log_type = 5 then Some WDI_EVENT_RX_DESC
      else None)"

definition t2h_pktlog :: "htt_msg \<Rightarrow> htt_pdev \<Rightarrow> htt_pdev" where
  "t2h_pktlog m s =
     (let log_type = unat (take_bit 16 (hm_word m 2))
      in emit Msg_free (case pktlog_event log_type of
           None \<Rightarrow> s | Some ev \<Rightarrow> emit (Wdi_event ev 1 (usub 32 (hm_len m) 4)) s))"

text \<open>
  A credit update of the target. The result is \<open>None\<close> when the loop over the group elements does not
  end. When credit is exchanged at the bus, the reported amount goes to \<open>target_delta\<close> first, and what
  the bus has room for moves on to the tx credit; with the tx credit below the bus limit, more of the
  target's credit is moved.
\<close>

definition t2h_exchange_credit :: "int \<Rightarrow> htt_pdev \<Rightarrow> int \<times> htt_pdev" where
  "t2h_exchange_credit delta s =
     (let (credit_delta, s) = htt_tx_credit_update (s\<lparr>target_delta := target_delta s + delta\<rparr>);
          credit = target_tx_credit (htt_txrx s)
      in (credit_delta,
          if credit_delta \<ge> 0 then
            (if credit + credit_delta < HTT_MAX_BUS_CREDIT \<and> target_delta s > 0
             then t2h_extra_credit credit_delta s else s)
          else
            (if credit < HTT_MAX_BUS_CREDIT \<and> target_delta s > 0 then t2h_extra_credit 0 s else s)))"

definition t2h_tx_credit_update :: "htt_cfg \<Rightarrow> t2h_env \<Rightarrow> htt_msg \<Rightarrow> htt_pdev \<Rightarrow> htt_pdev option" where
  "t2h_tx_credit_update cfg e m s =
     (let w = hm_word m 0;
          delta_abs = int (fget HTT_TX_CREDIT_DELTA_ABS w);
          delta = (if fget HTT_TX_CREDIT_SIGN_BIT w \<noteq> 0 then - delta_abs else delta_abs);
          old_credit = target_delta s
      in if old_credit + delta > MAX_TARGET_TX_CREDIT \<or> old_credit + delta < - MAX_TARGET_TX_CREDIT
         then Some (emit Msg_free s)
         else
           (let (delta, s) = (if \<not> default_tx_comp_req cfg then t2h_exchange_credit delta s else (delta, s))
            in case htt_tx_group_credit_process m (htt_txrx s) of
                 None \<Rightarrow> None
               | Some pdev \<Rightarrow>
                   Some (emit Msg_free (s\<lparr>htt_txrx := ol_tx_credit_completion_handler (t2h_tx e) delta pdev\<rparr>))))"

text \<open>A Michael error the target found: addresses and packet number as byte lists.\<close>

definition HTT_RX_OFLD_PKT_ERR_TYPE_MIC_ERR :: nat where "HTT_RX_OFLD_PKT_ERR_TYPE_MIC_ERR = 1"

definition t2h_rx_ofld_pkt_err :: "t2h_env \<Rightarrow> htt_msg \<Rightarrow> htt_pdev \<Rightarrow> htt_pdev" where
  "t2h_rx_ofld_pkt_err e m s =
     emit Msg_free
       (if fget HTT_RX_OFLD_PKT_ERR_MSG_SUB_TYPE (hm_word m 0) = HTT_RX_OFLD_PKT_ERR_TYPE_MIC_ERR then
          (case t2h_peer e (fget HTT_RX_OFLD_PKT_ERR_MIC_ERR_PEER_ID (hm_word m 1)) of
             None \<Rightarrow> s
           | Some (vdev, mac) \<Rightarrow>
               emit (Indicate_mic_err vdev (fget HTT_RX_OFLD_PKT_ERR_MIC_ERR_KEYID (hm_word m 1))
                 (map (hm_byte m) [8..<14]) (map (hm_byte m) [16..<22]) mac
                 (map (hm_byte m) [24..<28] @ map (hm_byte m) [28..<30])) s)
        else s)"

definition rate_report :: "htt_msg \<Rightarrow> nat \<Rightarrow> nat \<times> nat \<times> nat" where
  "rate_report m i =
     (let w = hm_word m (1 + 2 * i)
      in (fget HTT_PEER_RATE_REPORT_MSG_PEER_ID w, fget HTT_PEER_RATE_REPORT_MSG_PHY w,
          unat (hm_word m (1 + 2 * i + 1))))"

definition t2h_rate_report :: "htt_cfg \<Rightarrow> t2h_env \<Rightarrow> htt_msg \<Rightarrow> htt_pdev \<Rightarrow> htt_pdev" where
  "t2h_rate_report cfg e m s =
     (let peer_cnt = fget HTT_PEER_RATE_REPORT_MSG_PEER_COUNT (hm_word m 0)
      in emit Msg_free
           (if peer_cnt = 0 \<or> peer_cnt > cfg_max_peer_id cfg + 1 \<or> \<not> t2h_mem_ok e then s
            else emit (Peer_link_status (map (rate_report m) [0..<peer_cnt])) s))"

text \<open>
  The types of \<open>enum htt_t2h_msg_type\<close>. A CFR dump without payload returns from the function instead
  of leaving the \<open>switch\<close>, so its message is not freed.
\<close>

definition htt_t2h_lp_msg_handler :: "htt_cfg \<Rightarrow> t2h_env \<Rightarrow> htt_msg \<Rightarrow> htt_pdev \<Rightarrow> htt_pdev option" where
  "htt_t2h_lp_msg_handler cfg e m s =
     (let msg_type = fget HTT_T2H_MSG_TYPE (hm_word m 0) in
      if msg_type = 0x0 then Some (t2h_version_conf m s)
      else if msg_type = 0x2 then Some (t2h_rx_flush m s)
      else if msg_type = 0x11 then Some (t2h_rx_offload_deliver m s)
      else if msg_type = 0xa then Some (t2h_rx_frag_ind m s)
      else if msg_type = 0x5 then Some (t2h_rx_addba m s)
      else if msg_type = 0x6 then Some (t2h_rx_delba m s)
      else if msg_type = 0x3 then Some (t2h_peer_map cfg m s)
      else if msg_type = 0x4 then Some (t2h_peer_unmap cfg m s)
      else if msg_type = 0xb then Some (t2h_sec_ind m s)
      else if msg_type = 0xe then Some (t2h_mgmt_tx_compl cfg e m s)
      else if msg_type = 0x9 then Some (t2h_stats_conf m s)
      else if msg_type = 0x8 then Some (t2h_pktlog m s)
      else if msg_type = 0xf then t2h_tx_credit_update cfg e m s
      else if msg_type = 0x16 then Some (t2h_rx_ofld_pkt_err e m s)
      else if msg_type = 0x17 then Some (t2h_rate_report cfg e m s)
      else if msg_type = 0x22 then
        (if fget HTT_T2H_PAYLOAD_PRESENT (hm_word m 0) = 0 then Some s
         else Some (emit Msg_free (emit (Cfr_compl 1) s)))
      else Some (emit Msg_free s))"

section \<open>The message handler\<close>

definition HTT_TX_COMPL_HEAD_SZ :: nat where "HTT_TX_COMPL_HEAD_SZ = 4"
definition HTT_TX_COMPL_BYTES_PER_MSDU_ID :: nat where "HTT_TX_COMPL_BYTES_PER_MSDU_ID = 2"
definition HTT_TX_COMPL_INV_MSDU_ID :: nat where "HTT_TX_COMPL_INV_MSDU_ID = 0xffff"
definition HTT_TX_COMPL_IND_STAT_FAIL_NOTIFY :: nat where "HTT_TX_COMPL_IND_STAT_FAIL_NOTIFY = 5"

definition t2h_rx_ind :: "htt_cfg \<Rightarrow> htt_msg \<Rightarrow> htt_pdev \<Rightarrow> htt_pdev" where
  "t2h_rx_ind cfg m s =
     (let w = hm_word m 0;
          peer_id = fget HTT_RX_IND_PEER_ID w;
          tid = fget HTT_RX_IND_EXT_TID w
      in if is_full_reorder_offload cfg then emit Msg_free s
         else if tid \<ge> OL_TXRX_NUM_EXT_TIDS then emit Msg_free s
         else
           let num_msdu_bytes = fget HTT_RX_IND_FW_RX_DESC_BYTES (hm_word m (2 + HTT_RX_PPDU_DESC_SIZE32));
               num_mpdu_ranges = fget HTT_RX_IND_NUM_MPDU_RANGES (hm_word m 1);
               s = s\<lparr>rx_mpdu_range_offset_words := (HTT_RX_IND_HDR_BYTES + num_msdu_bytes + 3) div 4,
                     rx_ind_msdu_byte_idx := 0\<rparr>
           in if cfg_monitor_mode cfg then emit (Rx_mon_indication peer_id tid num_mpdu_ranges) s
              else emit (Rx_indication peer_id tid num_mpdu_ranges) s)"

text \<open>
  The payload of a tx completion: the halfwords behind the header. With an odd number of ids the last
  one may be in the other half of its word.
\<close>

definition compl_payload :: "htt_msg \<Rightarrow> nat \<Rightarrow> nat" where
  "compl_payload m i = hm_half m (2 + i)"

definition compl_fix_odd :: "nat \<Rightarrow> htt_msg \<Rightarrow> htt_msg" where
  "compl_fix_odd num_msdus m =
     (if num_msdus AND 1 \<noteq> 0 \<and> compl_payload m num_msdus \<noteq> HTT_TX_COMPL_INV_MSDU_ID
      then hm_set_half (2 + (num_msdus - 1)) (compl_payload m num_msdus) m else m)"

definition compl_ids :: "nat \<Rightarrow> htt_msg \<Rightarrow> nat list" where
  "compl_ids num_msdus m = map (compl_payload m) [0..<num_msdus]"

definition compl_len_ok :: "nat \<Rightarrow> htt_msg \<Rightarrow> bool" where
  "compl_len_ok num_msdus m \<longleftrightarrow>
     \<not> num_msdus * HTT_TX_COMPL_BYTES_PER_MSDU_ID + HTT_TX_COMPL_HEAD_SZ > hm_len m"

definition t2h_compl_credit :: "htt_cfg \<Rightarrow> nat \<Rightarrow> htt_pdev \<Rightarrow> htt_pdev" where
  "t2h_compl_credit cfg num_msdus s =
     (let old_credit = target_delta s in
      if old_credit + int num_msdus > MAX_TARGET_TX_CREDIT \<or> old_credit + int num_msdus < - MAX_TARGET_TX_CREDIT
      then s
      else if \<not> default_tx_comp_req cfg then
        (let (credit_delta, s) = htt_tx_credit_update (s\<lparr>target_delta := target_delta s + int num_msdus\<rparr>)
         in if credit_delta \<noteq> 0 then on_tx (ol_tx_target_credit_update credit_delta) s else s)
      else on_tx (ol_tx_target_credit_update (int num_msdus)) s)"

definition t2h_tx_compl :: "htt_cfg \<Rightarrow> t2h_env \<Rightarrow> htt_msg \<Rightarrow> htt_pdev \<Rightarrow> htt_pdev" where
  "t2h_tx_compl cfg e m s =
     (let w = hm_word m 0;
          status = fget HTT_TX_COMPL_IND_STATUS w;
          num_msdus = fget HTT_TX_COMPL_IND_NUM w
      in if \<not> compl_len_ok num_msdus m then emit Msg_free s
         else
           let m = compl_fix_odd num_msdus m;
               s = emit (Tx_failure_indication (fget HTT_TX_COMPL_IND_TID w) num_msdus status) s
           in if tx_free_at_download cfg \<and> status = HTT_TX_COMPL_IND_STAT_FAIL_NOTIFY then emit Msg_free s
              else
                let s = t2h_compl_credit cfg num_msdus s;
                    s = on_tx (ol_tx_completion_handler (t2h_tx e) status (compl_ids num_msdus m)) s
                in emit Msg_free s)"

definition t2h_rx_pn_ind :: "htt_msg \<Rightarrow> htt_pdev \<Rightarrow> htt_pdev" where
  "t2h_rx_pn_ind m s =
     (let w0 = hm_word m 0; w1 = hm_word m 1;
          pn_ie_cnt = fget HTT_RX_PN_IND_PN_IE_CNT w1
      in emit Msg_free (emit (Rx_pn_ind (fget HTT_RX_PN_IND_PEER_ID w0) (fget HTT_RX_PN_IND_TID w0)
           (fget HTT_RX_PN_IND_SEQ_NUM_START w1) (fget HTT_RX_PN_IND_SEQ_NUM_END w1)
           (map (\<lambda>i. hm_byte m (8 + i)) [0..<pn_ie_cnt])) s))"

definition t2h_tx_inspect :: "t2h_env \<Rightarrow> htt_msg \<Rightarrow> htt_pdev \<Rightarrow> htt_pdev" where
  "t2h_tx_inspect e m s =
     (let num_msdus = fget HTT_TX_COMPL_IND_NUM (hm_word m 0)
      in if \<not> compl_len_ok num_msdus m then emit Msg_free s
         else emit Msg_free
                (on_tx (ol_tx_inspect_handler (t2h_tx e) (compl_ids num_msdus (compl_fix_odd num_msdus m))) s))"

text \<open>
  \<open>status\<close> is what HTC reports of the reception; \<open>A_ERROR\<close> stands for every error other than a
  cancellation.
  In-order indications are dropped in this build, whatever the configuration.
\<close>

datatype htc_status = A_OK | A_ECANCELED | A_ERROR

definition htt_t2h_msg_handler ::
  "htt_cfg \<Rightarrow> t2h_env \<Rightarrow> htc_status \<Rightarrow> htt_msg \<Rightarrow> htt_pdev \<Rightarrow> htt_pdev option" where
  "htt_t2h_msg_handler cfg e status m s =
     (if status \<noteq> A_OK then
        Some (emit Msg_free (if status \<noteq> A_ECANCELED then s\<lparr>htc_err_cnt := htc_err_cnt s + 1\<rparr> else s))
      else
        let msg_type = fget HTT_T2H_MSG_TYPE (hm_word m 0) in
        if msg_type = 0x1 then Some (t2h_rx_ind cfg m s)
        else if msg_type = 0x7 then Some (t2h_tx_compl cfg e m s)
        else if msg_type = 0x10 then Some (t2h_rx_pn_ind m s)
        else if msg_type = 0xd then Some (t2h_tx_inspect e m s)
        else if msg_type = 0x12 then Some (emit Msg_free s)
        else if msg_type = 0x20 then Some (emit Msg_free (emit Rx_mon_mac_header s))
        else htt_t2h_lp_msg_handler cfg e m s)"

end
