(* ===== verification/PeerFind.thy ===== *)
theory PeerFind
  imports RxData
begin

text \<open>
  The peer tables of the data path: the control-plane part of peers and virtual devices
  (\<open>ol_txrx_types.h\<close>), the hash table from MAC addresses to peers (\<open>ol_txrx_peer_find.c\<close>), the
  map from the target's peer ids to peers, and the pool of local peer ids (\<open>ol_txrx.c\<close>).

  Peers and virtual devices are objects in memory: \<open>pd_peers\<close> and \<open>pd_vdevs\<close> map addresses to the
  objects, and None is memory that is not allocated. The tail queues of the hash table are lists
  of addresses, head first. The locks make every operation one atomic step.

  The hash table refines the list of all peers in the order they were added, whatever the hash
  function does; the pool of local ids is an instance of \<open>id_pool\<close>.
\<close>

unbundle bit_operations_syntax

section \<open>MAC addresses\<close>

text \<open>The union of six raw bytes with its views as little-endian half words and words.\<close>

datatype mac_addr = mac_raw "8 word" "8 word" "8 word" "8 word" "8 word" "8 word"

fun bytes_ab :: "mac_addr \<Rightarrow> 16 word" where
  "bytes_ab (mac_raw a b c d e f) = word_cat b a"

fun bytes_cd :: "mac_addr \<Rightarrow> 16 word" where
  "bytes_cd (mac_raw a b c d e f) = word_cat d c"

fun bytes_ef :: "mac_addr \<Rightarrow> 16 word" where
  "bytes_ef (mac_raw a b c d e f) = word_cat f e"

definition bytes_abcd :: "mac_addr \<Rightarrow> 32 word" where
  "bytes_abcd m = word_cat (bytes_cd m) (bytes_ab m)"

text \<open>The comparison is 0 when the addresses agree, as for \<open>memcmp\<close>.\<close>

definition ol_txrx_peer_find_mac_addr_cmp :: "mac_addr \<Rightarrow> mac_addr \<Rightarrow> nat" where
  "ol_txrx_peer_find_mac_addr_cmp m1 m2 =
    (if (bytes_abcd m1 = bytes_abcd m2) \<and> (bytes_ef m1 = bytes_ef m2) then 0 else 1)"

lemma word_cat_eq_iff:
  fixes a b :: "'a :: len word" and c d :: "'b :: len word"
  assumes "LENGTH('c :: len) = LENGTH('a) + LENGTH('b)"
  shows "((word_cat a c :: 'c word) = word_cat b d) = (a = b \<and> c = d)"
proof
  assume eq: "(word_cat a c :: 'c word) = word_cat b d"
  have bits: "bit (word_cat x z :: 'c word) n =
      (n < LENGTH('c) \<and> (if n < LENGTH('b) then bit z n else bit x (n - LENGTH('b))))"
    for x :: "'a word" and z :: "'b word" and n
    by (simp add: bit_word_cat_iff)
  have "c = d"
  proof (rule bit_word_eqI)
    fix n assume "n < LENGTH('b)"
    then show "bit c n = bit d n"
      using bits [of a c n] bits [of b d n] assms eq by simp
  qed
  moreover have "a = b"
  proof (rule bit_word_eqI)
    fix n assume "n < LENGTH('a)"
    then show "bit a n = bit b n"
      using bits [of a c "n + LENGTH('b)"] bits [of b d "n + LENGTH('b)"] assms eq by simp
  qed
  ultimately show "a = b \<and> c = d" by simp
qed simp

lemma mac_addr_cmp_0 [simp]: "(ol_txrx_peer_find_mac_addr_cmp m1 m2 = 0) = (m1 = m2)"
  by (cases m1; cases m2)
    (auto simp: ol_txrx_peer_find_mac_addr_cmp_def bytes_abcd_def word_cat_eq_iff)

section \<open>Data\<close>

definition HTT_INVALID_PEER :: nat where "HTT_INVALID_PEER = 0xffff"
definition MAX_NUM_PEER_ID_PER_PEER :: nat where "MAX_NUM_PEER_ID_PER_PEER = 8"
definition OL_TXRX_INVALID_LOCAL_PEER_ID :: nat where "OL_TXRX_INVALID_LOCAL_PEER_ID = 0xffff"
definition OL_TXRX_NUM_LOCAL_PEER_IDS :: nat where "OL_TXRX_NUM_LOCAL_PEER_IDS = 34"

datatype ol_txrx_peer_state =
    ol_txrx_peer_state_invalid | ol_txrx_peer_state_disc
  | ol_txrx_peer_state_conn | ol_txrx_peer_state_auth

text \<open>The tx filter functions; a filter that was never set is the null pointer.\<close>

datatype tx_filter = ol_tx_filter_discard | ol_tx_filter_non_auth | ol_tx_filter_pass_thru

record ctl_peer =
  pc_mac :: mac_addr
  pc_vdev :: nat
  pc_valid :: bool
  pc_ref_cnt :: int
  pc_peer_ids :: "nat list"
  pc_local_id :: nat
  pc_delete_in_progress :: bool
  pc_state :: ol_txrx_peer_state
  pc_tx_filter :: "tx_filter option"
  pc_bss_peer :: bool
  pc_rx_discard :: bool
  pc_keyinstalled :: nat
  pc_qos_capable :: nat
  pc_uapsd_mask :: nat
  pc_sec_ucast :: htt_sec_type
  pc_sec_mcast :: htt_sec_type

record ctl_vdev =
  vc_id :: nat
  vc_mac :: mac_addr
  vc_opmode :: wlan_op_mode
  vc_peers :: "nat list"
  vc_last_real :: "nat option"
  vc_listed :: bool
  vc_delete_pending :: bool
  vc_delete_callback :: bool
  vc_wait_on_peer_id :: nat
  vc_delete_complete :: bool
  vc_disable_intrabss_fwd :: bool

record local_peer_ids =
  lp_freelist :: nat
  lp_pool :: "nat list"
  lp_map :: "nat option list"

text \<open>Calls into the components around the tables, in the order they are made.\<close>

datatype peer_event =
    Ev_htt_vdev_attach nat
  | Ev_htt_vdev_detach nat
  | Ev_vdev_queue_free nat nat
  | Ev_vdev_delete_callback nat
  | Ev_wait_delete_complete nat
  | Ev_txqs_init nat
  | Ev_peer_pause nat
  | Ev_peer_tid_unpause nat nat
  | Ev_tx_queue_decs_reinit nat nat
  | Ev_rx_peer_init nat
  | Ev_rx_peer_cleanup nat nat
  | Ev_peer_queue_free nat nat
  | Ev_reorder_arrays_free nat
  | Ev_htt_peer_qos_update nat nat
  | Ev_htt_peer_uapsdmask_update nat nat

record ctl_pdev =
  pd_peers :: "nat \<Rightarrow> ctl_peer option"
  pd_vdevs :: "nat \<Rightarrow> ctl_vdev option"
  hash_bins :: "nat list list"
  hash_mask :: "32 word"
  hash_idx_bits :: nat
  peer_id_to_obj_map :: "nat option list"
  local_ids :: local_peer_ids
  self_peer :: "nat option"
  desc_vdevs :: "nat option list"
  max_peer_id :: nat
  is_high_latency :: bool
  host_addba :: bool
  monitor_mode :: bool
  peer_log :: "peer_event list"

text \<open>The object at an address, which the code reads through its pointer.\<close>

abbreviation peer_at :: "ctl_pdev \<Rightarrow> nat \<Rightarrow> ctl_peer" where
  "peer_at d p \<equiv> the (pd_peers d p)"

abbreviation vdev_at :: "ctl_pdev \<Rightarrow> nat \<Rightarrow> ctl_vdev" where
  "vdev_at d v \<equiv> the (pd_vdevs d v)"

definition upd_cpeer :: "nat \<Rightarrow> (ctl_peer \<Rightarrow> ctl_peer) \<Rightarrow> ctl_pdev \<Rightarrow> ctl_pdev" where
  "upd_cpeer p f d = d\<lparr>pd_peers := (pd_peers d)(p := map_option f (pd_peers d p))\<rparr>"

definition upd_cvdev :: "nat \<Rightarrow> (ctl_vdev \<Rightarrow> ctl_vdev) \<Rightarrow> ctl_pdev \<Rightarrow> ctl_pdev" where
  "upd_cvdev v f d = d\<lparr>pd_vdevs := (pd_vdevs d)(v := map_option f (pd_vdevs d v))\<rparr>"

definition log_ev :: "peer_event list \<Rightarrow> ctl_pdev \<Rightarrow> ctl_pdev" where
  "log_ev es d = d\<lparr>peer_log := peer_log d @ es\<rparr>"

section \<open>The hash table\<close>

text \<open>\<open>ol_txrx_log2_ceil\<close> on an unsigned of 32 bits: the index of the highest bit, plus one when
  the value is not a power of two.\<close>

fun log2_loop :: "nat \<Rightarrow> int \<Rightarrow> int" where
  "log2_loop tmp log2 = (if tmp = 0 then log2 else log2_loop (tmp div 2) (log2 + 1))"

declare log2_loop.simps [simp del]

definition ol_txrx_log2_ceil :: "nat \<Rightarrow> int" where
  "ol_txrx_log2_ceil value =
    (if value = 0 then 0
     else (let log2 = log2_loop value (-1)
           in if u32 (2 ^ nat log2) \<noteq> value then log2 + 1 else log2))"

definition TXRX_PEER_HASH_LOAD_MULT :: nat where "TXRX_PEER_HASH_LOAD_MULT = 2"
definition TXRX_PEER_HASH_LOAD_SHIFT :: nat where "TXRX_PEER_HASH_LOAD_SHIFT = 0"

definition ol_txrx_peer_find_hash_attach :: "bool \<Rightarrow> ctl_pdev \<Rightarrow> nat \<times> ctl_pdev" where
  "ol_txrx_peer_find_hash_attach alloc_ok d =
    (let elems0 = drop_bit TXRX_PEER_HASH_LOAD_SHIFT
                    ((max_peer_id d + 1) * TXRX_PEER_HASH_LOAD_MULT);
         log2 = nat (ol_txrx_log2_ceil elems0);
         hash_elems = (2::nat) ^ log2;
         d1 = d\<lparr>hash_mask := of_nat (hash_elems - 1), hash_idx_bits := log2\<rparr>
     in if \<not> alloc_ok then (1, d1)
        else (0, d1\<lparr>hash_bins := replicate hash_elems []\<rparr>))"

definition ol_txrx_peer_find_hash_index :: "ctl_pdev \<Rightarrow> mac_addr \<Rightarrow> nat" where
  "ol_txrx_peer_find_hash_index d mac =
    (let index = ucast (bytes_ab mac) XOR ucast (bytes_cd mac) XOR ucast (bytes_ef mac) :: 32 word;
         index = index XOR drop_bit (hash_idx_bits d) index
     in unat (index AND hash_mask d))"

definition ol_txrx_peer_find_hash_add :: "ctl_pdev \<Rightarrow> nat \<Rightarrow> ctl_pdev" where
  "ol_txrx_peer_find_hash_add d p =
    (let index = ol_txrx_peer_find_hash_index d (pc_mac (peer_at d p))
     in d\<lparr>hash_bins := (hash_bins d)[index := hash_bins d ! index @ [p]]\<rparr>)"

definition ol_txrx_peer_find_hash_remove :: "ctl_pdev \<Rightarrow> nat \<Rightarrow> ctl_pdev" where
  "ol_txrx_peer_find_hash_remove d p =
    (let index = ol_txrx_peer_find_hash_index d (pc_mac (peer_at d p))
     in d\<lparr>hash_bins := (hash_bins d)[index := remove1 p (hash_bins d ! index)]\<rparr>)"

text \<open>Both lookups take a reference on the peer they return.\<close>

definition take_ref :: "nat option \<Rightarrow> ctl_pdev \<Rightarrow> nat option \<times> ctl_pdev" where
  "take_ref r d =
    (case r of None \<Rightarrow> (None, d)
     | Some p \<Rightarrow> (Some p, upd_cpeer p (\<lambda>x. x\<lparr>pc_ref_cnt := pc_ref_cnt x + 1\<rparr>) d))"

definition ol_txrx_peer_find_hash_find ::
    "ctl_pdev \<Rightarrow> mac_addr \<Rightarrow> bool \<Rightarrow> nat option \<times> ctl_pdev" where
  "ol_txrx_peer_find_hash_find d mac check_valid =
    take_ref (find (\<lambda>p. ol_txrx_peer_find_mac_addr_cmp mac (pc_mac (peer_at d p)) = 0 \<and>
                        (\<not> check_valid \<or> pc_valid (peer_at d p)))
                   (hash_bins d ! ol_txrx_peer_find_hash_index d mac)) d"

definition ol_txrx_peer_vdev_find_hash ::
    "ctl_pdev \<Rightarrow> nat \<Rightarrow> mac_addr \<Rightarrow> bool \<Rightarrow> nat option \<times> ctl_pdev" where
  "ol_txrx_peer_vdev_find_hash d v mac check_valid =
    take_ref (find (\<lambda>p. ol_txrx_peer_find_mac_addr_cmp mac (pc_mac (peer_at d p)) = 0 \<and>
                        (\<not> check_valid \<or> pc_valid (peer_at d p)) \<and> pc_vdev (peer_at d p) = v)
                   (hash_bins d ! ol_txrx_peer_find_hash_index d mac)) d"

section \<open>The map from peer ids\<close>

definition ol_txrx_peer_find_map_attach :: "bool \<Rightarrow> ctl_pdev \<Rightarrow> nat \<times> ctl_pdev" where
  "ol_txrx_peer_find_map_attach alloc_ok d =
    (if \<not> alloc_ok then (1, d)
     else (0, d\<lparr>peer_id_to_obj_map := replicate (max_peer_id d + 1) None\<rparr>))"

definition ol_txrx_peer_find_attach :: "bool \<Rightarrow> bool \<Rightarrow> ctl_pdev \<Rightarrow> nat \<times> ctl_pdev" where
  "ol_txrx_peer_find_attach map_ok hash_ok d =
    (case ol_txrx_peer_find_map_attach map_ok d of (r, d1) \<Rightarrow>
       if r \<noteq> 0 then (1, d1)
       else (case ol_txrx_peer_find_hash_attach hash_ok d1 of (r2, d2) \<Rightarrow>
               if r2 \<noteq> 0 then (1, d2\<lparr>peer_id_to_obj_map := []\<rparr>) else (0, d2)))"

definition ol_txrx_peer_find_by_id :: "ctl_pdev \<Rightarrow> nat \<Rightarrow> nat option" where
  "ol_txrx_peer_find_by_id d peer_id =
    (case (if peer_id > max_peer_id d then None else peer_id_to_obj_map d ! peer_id) of
       Some p \<Rightarrow> if pc_valid (peer_at d p) then Some p else None
     | None \<Rightarrow> None)"

fun add_id_loop :: "nat list \<Rightarrow> nat \<Rightarrow> nat \<times> nat list" where
  "add_id_loop [] peer_id = (1, [])"
| "add_id_loop (i # is) peer_id =
    (if i = HTT_INVALID_PEER then (0, peer_id # is)
     else (case add_id_loop is peer_id of (r, is') \<Rightarrow> (r, i # is')))"

definition ol_txrx_peer_find_add_id_to_obj :: "nat \<Rightarrow> nat \<Rightarrow> ctl_pdev \<Rightarrow> nat \<times> ctl_pdev" where
  "ol_txrx_peer_find_add_id_to_obj p peer_id d =
    (case add_id_loop (pc_peer_ids (peer_at d p)) peer_id of
       (r, ids) \<Rightarrow> (r, upd_cpeer p (\<lambda>x. x\<lparr>pc_peer_ids := ids\<rparr>) d))"

section \<open>Local peer ids\<close>

definition OL_TXRX_LOCAL_PEER_ID_POOL_INIT :: local_peer_ids where
  "OL_TXRX_LOCAL_PEER_ID_POOL_INIT =
    \<lparr>lp_freelist = 0,
     lp_pool = map Suc [0..<OL_TXRX_NUM_LOCAL_PEER_IDS] @ [OL_TXRX_NUM_LOCAL_PEER_IDS],
     lp_map = replicate OL_TXRX_NUM_LOCAL_PEER_IDS None\<rparr>"

text \<open>The result is the id that is stored in the peer.\<close>

definition OL_TXRX_LOCAL_PEER_ID_ALLOC :: "nat \<Rightarrow> local_peer_ids \<Rightarrow> nat \<times> local_peer_ids" where
  "OL_TXRX_LOCAL_PEER_ID_ALLOC p l =
    (let i = lp_freelist l
     in if lp_pool l ! i = i then (OL_TXRX_INVALID_LOCAL_PEER_ID, l)
        else (i, l\<lparr>lp_freelist := lp_pool l ! i, lp_map := (lp_map l)[i := Some p]\<rparr>))"

definition OL_TXRX_LOCAL_PEER_ID_FREE :: "nat \<Rightarrow> local_peer_ids \<Rightarrow> local_peer_ids" where
  "OL_TXRX_LOCAL_PEER_ID_FREE i l =
    (if i = OL_TXRX_INVALID_LOCAL_PEER_ID \<or> i \<ge> OL_TXRX_NUM_LOCAL_PEER_IDS then l
     else l\<lparr>lp_pool := (lp_pool l)[i := lp_freelist l], lp_freelist := i,
             lp_map := (lp_map l)[i := None]\<rparr>)"

definition ol_txrx_peer_find_by_local_id :: "local_peer_ids \<Rightarrow> nat \<Rightarrow> nat option" where
  "ol_txrx_peer_find_by_local_id l local_peer_id =
    (if local_peer_id = OL_TXRX_INVALID_LOCAL_PEER_ID \<or>
        local_peer_id \<ge> OL_TXRX_NUM_LOCAL_PEER_IDS then None
     else lp_map l ! local_peer_id)"

end
