(* ===== verification/PeerTables.thy ===== *)
theory PeerTables
  imports PeerFind
begin

text \<open>
  What the peer tables compute: the logarithm that sizes the hash table, the hash table as a
  refinement of the list of all peers, and the pool of local peer ids as an \<open>id_pool\<close>.
\<close>

section \<open>The size of the table\<close>

lemma log2_loop_spec:
  "0 < tmp \<Longrightarrow> \<exists>n. log2_loop tmp k = k + 1 + int n \<and> 2 ^ n \<le> tmp \<and> tmp < 2 ^ (n + 1)"
proof (induction tmp k rule: log2_loop.induct)
  case (1 tmp k)
  show ?case
  proof (cases "tmp = 1")
    case True
    then show ?thesis
      by (intro exI [of _ 0]) (simp add: log2_loop.simps [of "Suc 0"] log2_loop.simps [of 0])
  next
    case False
    with 1 obtain n where n: "log2_loop (tmp div 2) (k + 1) = k + 1 + 1 + int n"
      and b: "2 ^ n \<le> tmp div 2" "tmp div 2 < 2 ^ (n + 1)" by force
    have "log2_loop tmp k = k + 1 + int (Suc n)"
      using 1(2) n by (simp add: log2_loop.simps [of tmp])
    moreover have "2 ^ Suc n \<le> tmp" and "tmp < 2 ^ (Suc n + 1)"
      using b by auto
    ultimately show ?thesis by blast
  qed
qed

text \<open>\<open>ol_txrx_log2_ceil\<close> rounds up: two to the power of its result is the least
  power of two that is not less than the value, for every unsigned value but 0.\<close>

theorem ol_txrx_log2_ceil_least:
  assumes "0 < v" and "v < 2 ^ 32"
  shows "\<exists>r. ol_txrx_log2_ceil v = int r \<and> v \<le> 2 ^ r \<and> 2 ^ r < 2 * v"
proof -
  obtain n where n: "log2_loop v (-1) = int n" and lo: "2 ^ n \<le> v" and hi: "v < 2 ^ (n + 1)"
    using log2_loop_spec [OF assms(1), of "-1"] by auto
  have "(2::nat) ^ n < 2 ^ 32"
    using lo assms(2) by linarith
  then have u: "u32 (2 ^ n) = 2 ^ n" by simp
  show ?thesis
  proof (cases "2 ^ n = v")
    case True
    then show ?thesis
      using n u assms(1) by (intro exI [of _ n]) (simp add: ol_txrx_log2_ceil_def Let_def)
  next
    case False
    then show ?thesis
      using n u lo hi assms(1)
      by (intro exI [of _ "Suc n"]) (simp add: ol_txrx_log2_ceil_def Let_def)
  qed
qed

theorem ol_txrx_log2_ceil_least_witness:
  "\<exists>r. ol_txrx_log2_ceil 66 = int r \<and> 66 \<le> (2::nat) ^ r \<and> (2::nat) ^ r < 132"
  using ol_txrx_log2_ceil_least [of 66] by simp

section \<open>The hash table refines the list of peers\<close>

lemma of_nat_exp_minus_1: "(of_nat (2 ^ n - 1) :: 'a :: len word) = mask n"
proof -
  have "(of_nat (2 ^ n - 1) :: 'a word) = of_nat (mask n)"
    by (simp only: mask_eq_exp_minus_1)
  then show ?thesis
    by (simp only: of_nat_mask_eq)
qed

lemma unat_and_mask_less: "n < LENGTH('a) \<Longrightarrow> unat (w AND mask n :: 'a :: len word) < 2 ^ n"
  by (simp add: take_bit_eq_mask [symmetric] unsigned_take_bit_eq)

definition hash_sized :: "ctl_pdev \<Rightarrow> bool" where
  "hash_sized d = (hash_idx_bits d < 32 \<and> hash_mask d = mask (hash_idx_bits d) \<and>
     length (hash_bins d) = 2 ^ hash_idx_bits d)"

lemma hash_index_less:
  "hash_sized d \<Longrightarrow> ol_txrx_peer_find_hash_index d mac < length (hash_bins d)"
  by (simp add: hash_sized_def ol_txrx_peer_find_hash_index_def Let_def unat_and_mask_less)

lemma hash_index_cong:
  "hash_mask d' = hash_mask d \<Longrightarrow> hash_idx_bits d' = hash_idx_bits d \<Longrightarrow>
   ol_txrx_peer_find_hash_index d' mac = ol_txrx_peer_find_hash_index d mac"
  by (simp add: ol_txrx_peer_find_hash_index_def)

lemma hash_attach_sized:
  assumes "max_peer_id d < 2 ^ 16"
  shows "fst (ol_txrx_peer_find_hash_attach True d) = 0"
    and "hash_sized (snd (ol_txrx_peer_find_hash_attach True d))"
    and "\<forall>b \<in> set (hash_bins (snd (ol_txrx_peer_find_hash_attach True d))). b = []"
    and "pd_peers (snd (ol_txrx_peer_find_hash_attach True d)) = pd_peers d"
proof -
  define v where "v = (max_peer_id d + 1) * 2"
  have v: "0 < v" "v < 2 ^ 18"
    using assms by (simp_all add: v_def)
  then obtain r where r: "ol_txrx_log2_ceil v = int r" and "2 ^ r < 2 * v"
    using ol_txrx_log2_ceil_least [of v] by auto
  then have "(2::nat) ^ r < 2 ^ 19"
    using v(2) by simp
  then have "r < 19"
    by (rule power_less_imp_less_exp [rotated]) simp
  moreover have eq: "ol_txrx_peer_find_hash_attach True d =
      (0, d\<lparr>hash_mask := of_nat (2 ^ r - 1), hash_idx_bits := r, hash_bins := replicate (2 ^ r) []\<rparr>)"
    using r by (simp add: ol_txrx_peer_find_hash_attach_def Let_def v_def
        TXRX_PEER_HASH_LOAD_SHIFT_def TXRX_PEER_HASH_LOAD_MULT_def)
  ultimately show "hash_sized (snd (ol_txrx_peer_find_hash_attach True d))"
    unfolding eq of_nat_exp_minus_1 by (simp add: hash_sized_def)
  show "fst (ol_txrx_peer_find_hash_attach True d) = 0"
    and "\<forall>b \<in> set (hash_bins (snd (ol_txrx_peer_find_hash_attach True d))). b = []"
    and "pd_peers (snd (ol_txrx_peer_find_hash_attach True d)) = pd_peers d"
    unfolding eq by auto
qed

text \<open>The abstract table is the list of the peers in the order they were added.\<close>

definition hash_refines :: "ctl_pdev \<Rightarrow> nat list \<Rightarrow> bool" where
  "hash_refines d ps =
    (hash_sized d \<and>
     (\<forall>i < length (hash_bins d).
        hash_bins d ! i =
          filter (\<lambda>p. ol_txrx_peer_find_hash_index d (pc_mac (peer_at d p)) = i) ps))"

lemma filter_remove1_if:
  "filter P (remove1 x xs) = (if P x then remove1 x (filter P xs) else filter P xs)"
  by (induction xs) auto

lemma find_filter: "(\<And>x. P x \<Longrightarrow> Q x) \<Longrightarrow> find P (filter Q xs) = find P xs"
  by (induction xs) auto

lemma hash_add_refines:
  assumes "hash_refines d ps"
  shows "hash_refines (ol_txrx_peer_find_hash_add d p) (ps @ [p])"
proof -
  let ?d = "ol_txrx_peer_find_hash_add d p"
  have idx: "ol_txrx_peer_find_hash_index ?d m = ol_txrx_peer_find_hash_index d m" for m
    by (rule hash_index_cong) (simp_all add: ol_txrx_peer_find_hash_add_def Let_def)
  have lt: "ol_txrx_peer_find_hash_index d m < length (hash_bins d)" for m
    using assms by (intro hash_index_less) (simp add: hash_refines_def)
  have "pd_peers ?d = pd_peers d" and "hash_sized ?d"
    using assms by (simp_all add: ol_txrx_peer_find_hash_add_def Let_def hash_refines_def hash_sized_def)
  moreover have "hash_bins ?d = (hash_bins d)
      [ol_txrx_peer_find_hash_index d (pc_mac (peer_at d p)) :=
         hash_bins d ! ol_txrx_peer_find_hash_index d (pc_mac (peer_at d p)) @ [p]]"
    by (simp add: ol_txrx_peer_find_hash_add_def Let_def)
  ultimately show ?thesis
    using assms lt by (simp add: hash_refines_def idx nth_list_update)
qed

lemma hash_remove_refines:
  assumes "hash_refines d ps"
  shows "hash_refines (ol_txrx_peer_find_hash_remove d p) (remove1 p ps)"
proof -
  let ?d = "ol_txrx_peer_find_hash_remove d p"
  have idx: "ol_txrx_peer_find_hash_index ?d m = ol_txrx_peer_find_hash_index d m" for m
    by (rule hash_index_cong) (simp_all add: ol_txrx_peer_find_hash_remove_def Let_def)
  have lt: "ol_txrx_peer_find_hash_index d m < length (hash_bins d)" for m
    using assms by (intro hash_index_less) (simp add: hash_refines_def)
  have "pd_peers ?d = pd_peers d" and "hash_sized ?d"
    using assms by (simp_all add: ol_txrx_peer_find_hash_remove_def Let_def hash_refines_def hash_sized_def)
  moreover have "hash_bins ?d = (hash_bins d)
      [ol_txrx_peer_find_hash_index d (pc_mac (peer_at d p)) :=
         remove1 p (hash_bins d ! ol_txrx_peer_find_hash_index d (pc_mac (peer_at d p)))]"
    by (simp add: ol_txrx_peer_find_hash_remove_def Let_def)
  ultimately show ?thesis
    using assms lt by (simp add: hash_refines_def idx nth_list_update filter_remove1_if)
qed

lemma fst_take_ref [simp]: "fst (take_ref r d) = r"
  by (simp add: take_ref_def split: option.split)

lemma hash_find_refines:
  assumes "hash_refines d ps"
  shows "fst (ol_txrx_peer_find_hash_find d mac check_valid) =
    find (\<lambda>p. pc_mac (peer_at d p) = mac \<and> (check_valid \<longrightarrow> pc_valid (peer_at d p))) ps"
proof -
  let ?i = "ol_txrx_peer_find_hash_index d mac"
  let ?P = "\<lambda>p. pc_mac (peer_at d p) = mac \<and> (check_valid \<longrightarrow> pc_valid (peer_at d p))"
  have "?i < length (hash_bins d)"
    using assms by (intro hash_index_less) (simp add: hash_refines_def)
  then have bin: "hash_bins d ! ?i =
      filter (\<lambda>p. ol_txrx_peer_find_hash_index d (pc_mac (peer_at d p)) = ?i) ps"
    using assms by (simp add: hash_refines_def)
  have "find ?P (hash_bins d ! ?i) = find ?P ps"
    unfolding bin by (rule find_filter) simp
  moreover have "(\<lambda>p. ol_txrx_peer_find_mac_addr_cmp mac (pc_mac (peer_at d p)) = 0 \<and>
      (\<not> check_valid \<or> pc_valid (peer_at d p))) = ?P"
    by (rule ext) auto
  ultimately show ?thesis
    unfolding ol_txrx_peer_find_hash_find_def fst_take_ref by simp
qed

text \<open>Runs of additions and removals, on the table and on the list.\<close>

datatype hash_op = Hash_add nat | Hash_remove nat

fun hash_run :: "ctl_pdev \<Rightarrow> hash_op list \<Rightarrow> ctl_pdev" where
  "hash_run d [] = d"
| "hash_run d (Hash_add p # ops) = hash_run (ol_txrx_peer_find_hash_add d p) ops"
| "hash_run d (Hash_remove p # ops) = hash_run (ol_txrx_peer_find_hash_remove d p) ops"

fun list_run :: "nat list \<Rightarrow> hash_op list \<Rightarrow> nat list" where
  "list_run ps [] = ps"
| "list_run ps (Hash_add p # ops) = list_run (ps @ [p]) ops"
| "list_run ps (Hash_remove p # ops) = list_run (remove1 p ps) ops"

lemma hash_run_refines:
  assumes "hash_refines d ps"
  shows "hash_refines (hash_run d ops) (list_run ps ops) \<and> pd_peers (hash_run d ops) = pd_peers d"
  using assms
proof (induction ps ops arbitrary: d rule: list_run.induct)
  case (2 ps p ops)
  then show ?case
    using hash_add_refines [of d ps p]
    by (simp add: ol_txrx_peer_find_hash_add_def Let_def)
next
  case (3 ps p ops)
  then show ?case
    using hash_remove_refines [of d ps p]
    by (simp add: ol_txrx_peer_find_hash_remove_def Let_def)
qed simp

text \<open>Property C24. The hash table refines the list of the peers in the order they were added:
  after any additions and removals on a freshly attached table, a lookup returns what a search
  of that list from its head returns, the oldest peer with the address that passes the
  validity test, for every content of the peers and every address.\<close>

theorem peer_hash_refines_list:
  assumes "max_peer_id d < 2 ^ 16"
  shows "fst (ol_txrx_peer_find_hash_find
                (hash_run (snd (ol_txrx_peer_find_hash_attach True d)) ops) mac check_valid) =
         find (\<lambda>p. pc_mac (peer_at d p) = mac \<and> (check_valid \<longrightarrow> pc_valid (peer_at d p)))
              (list_run [] ops)"
proof -
  let ?d = "snd (ol_txrx_peer_find_hash_attach True d)"
  have "hash_refines ?d []"
    using hash_attach_sized(2,3) [OF assms] nth_mem by (fastforce simp: hash_refines_def)
  then have "hash_refines (hash_run ?d ops) (list_run [] ops)"
    and "pd_peers (hash_run ?d ops) = pd_peers d"
    using hash_run_refines [of ?d "[]" ops] hash_attach_sized(4) [OF assms] by auto
  then show ?thesis
    using hash_find_refines [of "hash_run ?d ops" "list_run [] ops"] by simp
qed

section \<open>The pool of local ids\<close>

fun lp_chain :: "nat list \<Rightarrow> nat \<Rightarrow> nat list \<Rightarrow> bool" where
  "lp_chain pool h [] = (h = OL_TXRX_NUM_LOCAL_PEER_IDS)"
| "lp_chain pool h (i # is) = (h = i \<and> lp_chain pool (pool ! i) is)"

definition lp_free :: "local_peer_ids \<Rightarrow> nat set" where
  "lp_free l = {i. i < OL_TXRX_NUM_LOCAL_PEER_IDS \<and> lp_map l ! i = None}"

definition lp_used :: "local_peer_ids \<Rightarrow> nat set" where
  "lp_used l = {i. i < OL_TXRX_NUM_LOCAL_PEER_IDS \<and> lp_map l ! i \<noteq> None}"

definition lp_inv :: "local_peer_ids \<Rightarrow> bool" where
  "lp_inv l =
    (length (lp_pool l) = OL_TXRX_NUM_LOCAL_PEER_IDS + 1 \<and>
     lp_pool l ! OL_TXRX_NUM_LOCAL_PEER_IDS = OL_TXRX_NUM_LOCAL_PEER_IDS \<and>
     length (lp_map l) = OL_TXRX_NUM_LOCAL_PEER_IDS \<and>
     (\<exists>fs. distinct fs \<and> set fs = lp_free l \<and> lp_chain (lp_pool l) (lp_freelist l) fs))"

text \<open>Allocation as an option: the invalid id is the failure.\<close>

definition lp_alloc :: "nat \<Rightarrow> local_peer_ids \<Rightarrow> (nat \<times> local_peer_ids) option" where
  "lp_alloc p l =
    (case OL_TXRX_LOCAL_PEER_ID_ALLOC p l of
       (i, l') \<Rightarrow> if i = OL_TXRX_INVALID_LOCAL_PEER_ID then None else Some (i, l'))"

lemma num_less_invalid: "i < OL_TXRX_NUM_LOCAL_PEER_IDS \<Longrightarrow> i \<noteq> OL_TXRX_INVALID_LOCAL_PEER_ID"
  by (simp add: OL_TXRX_NUM_LOCAL_PEER_IDS_def OL_TXRX_INVALID_LOCAL_PEER_ID_def)

lemma lp_chain_next:
  "lp_chain pool h (i # is) \<Longrightarrow> distinct (i # is) \<Longrightarrow> i < OL_TXRX_NUM_LOCAL_PEER_IDS \<Longrightarrow> pool ! i \<noteq> i"
  by (cases "is") auto

lemma lp_chain_upd: "i \<notin> set fs \<Longrightarrow> lp_chain (pool[i := x]) h fs = lp_chain pool h fs"
  by (induction fs arbitrary: h) auto

lemma lp_alloc_cases:
  assumes "lp_inv l"
  obtains (full) "lp_free l = {}" and "lp_alloc p l = None"
        and "OL_TXRX_LOCAL_PEER_ID_ALLOC p l = (OL_TXRX_INVALID_LOCAL_PEER_ID, l)"
    | (got) i l' where "i \<in> lp_free l" and "lp_alloc p l = Some (i, l')" and "lp_inv l'"
        and "lp_map l' = (lp_map l)[i := Some p]"
proof -
  obtain fs where fs: "distinct fs" "set fs = lp_free l" "lp_chain (lp_pool l) (lp_freelist l) fs"
    using assms by (auto simp: lp_inv_def)
  show ?thesis
  proof (cases fs)
    case Nil
    then have "OL_TXRX_LOCAL_PEER_ID_ALLOC p l = (OL_TXRX_INVALID_LOCAL_PEER_ID, l)"
      and "lp_free l = {}"
      using fs assms by (auto simp: OL_TXRX_LOCAL_PEER_ID_ALLOC_def lp_inv_def)
    then show ?thesis by (intro full) (simp_all add: lp_alloc_def)
  next
    case (Cons i gs)
    let ?l = "l\<lparr>lp_freelist := lp_pool l ! i, lp_map := (lp_map l)[i := Some p]\<rparr>"
    have i: "lp_freelist l = i" "i \<in> lp_free l" "i < OL_TXRX_NUM_LOCAL_PEER_IDS"
      using fs Cons by (auto simp: lp_free_def)
    have "lp_pool l ! i \<noteq> i"
      using lp_chain_next [of "lp_pool l" "lp_freelist l" i gs] fs Cons i(3) by simp
    then have al: "lp_alloc p l = Some (i, ?l)"
      using i by (simp add: lp_alloc_def OL_TXRX_LOCAL_PEER_ID_ALLOC_def num_less_invalid)
    have "lp_free ?l = lp_free l - {i}"
      using assms i(3) by (auto simp: lp_free_def lp_inv_def nth_list_update)
    then have "set gs = lp_free ?l"
      using fs Cons by auto
    then have "lp_inv ?l"
      using assms fs Cons by (auto simp: lp_inv_def)
    then show ?thesis
      using got [OF i(2) al] by simp
  qed
qed

lemma lp_free_used: "lp_free l = {..<OL_TXRX_NUM_LOCAL_PEER_IDS} - lp_used l"
  by (auto simp: lp_free_def lp_used_def)

lemma lp_card_used:
  "(card (lp_used l) = OL_TXRX_NUM_LOCAL_PEER_IDS) = (lp_free l = {})"
  "card (lp_used l) \<le> OL_TXRX_NUM_LOCAL_PEER_IDS"
  "finite (lp_used l)"
proof -
  have sub: "lp_used l \<subseteq> {..<OL_TXRX_NUM_LOCAL_PEER_IDS}"
    by (auto simp: lp_used_def)
  then show "finite (lp_used l)"
    by (rule finite_subset) simp
  show "card (lp_used l) \<le> OL_TXRX_NUM_LOCAL_PEER_IDS"
    using card_mono [OF _ sub] by simp
  show "(card (lp_used l) = OL_TXRX_NUM_LOCAL_PEER_IDS) = (lp_free l = {})"
  proof
    assume "card (lp_used l) = OL_TXRX_NUM_LOCAL_PEER_IDS"
    then have "lp_used l = {..<OL_TXRX_NUM_LOCAL_PEER_IDS}"
      using card_subset_eq [OF _ sub] by simp
    then show "lp_free l = {}"
      by (simp add: lp_free_used)
  next
    assume "lp_free l = {}"
    then have "lp_used l = {..<OL_TXRX_NUM_LOCAL_PEER_IDS}"
      using sub by (auto simp: lp_free_used)
    then show "card (lp_used l) = OL_TXRX_NUM_LOCAL_PEER_IDS"
      by simp
  qed
qed

lemma lp_free_step:
  assumes "lp_inv l" and "i \<in> lp_used l"
  shows "lp_inv (OL_TXRX_LOCAL_PEER_ID_FREE i l)"
    and "lp_used (OL_TXRX_LOCAL_PEER_ID_FREE i l) = lp_used l - {i}"
proof -
  let ?l = "OL_TXRX_LOCAL_PEER_ID_FREE i l"
  obtain fs where fs: "distinct fs" "set fs = lp_free l" "lp_chain (lp_pool l) (lp_freelist l) fs"
    using assms by (auto simp: lp_inv_def)
  have i: "i < OL_TXRX_NUM_LOCAL_PEER_IDS" "i \<notin> set fs"
    using assms fs(2) by (auto simp: lp_used_def lp_free_def)
  have eq: "?l = l\<lparr>lp_pool := (lp_pool l)[i := lp_freelist l], lp_freelist := i,
      lp_map := (lp_map l)[i := None]\<rparr>"
    using i(1) by (simp add: OL_TXRX_LOCAL_PEER_ID_FREE_def num_less_invalid)
  have "lp_free ?l = insert i (lp_free l)"
    using assms i(1) unfolding eq by (auto simp: lp_free_def lp_inv_def nth_list_update)
  moreover have "lp_chain (lp_pool ?l) (lp_freelist ?l) (i # fs)"
    using assms fs i unfolding eq by (simp add: lp_inv_def lp_chain_upd)
  moreover have "distinct (i # fs)" and "set (i # fs) = insert i (lp_free l)"
    using fs i by auto
  ultimately have "\<exists>gs. distinct gs \<and> set gs = lp_free ?l \<and> lp_chain (lp_pool ?l) (lp_freelist ?l) gs"
    by metis
  then show "lp_inv ?l"
    using assms i(1) unfolding lp_inv_def by (simp add: eq)
  show "lp_used ?l = lp_used l - {i}"
    using assms i(1) unfolding eq by (auto simp: lp_used_def lp_inv_def nth_list_update)
qed

lemma lp_used_upd:
  "lp_inv l \<Longrightarrow> i \<in> lp_free l \<Longrightarrow> lp_map l' = (lp_map l)[i := Some p] \<Longrightarrow>
   lp_used l' = insert i (lp_used l)"
  by (auto simp: lp_used_def lp_free_def lp_inv_def nth_list_update)

interpretation local_peer_id_pool: id_pool "lp_alloc p" OL_TXRX_LOCAL_PEER_ID_FREE lp_used
    "\<lambda>l. OL_TXRX_NUM_LOCAL_PEER_IDS" lp_inv
  for p
proof (unfold_locales, goal_cases)
  case (1 s i s')
  then show ?case by (cases rule: lp_alloc_cases [of s p]) (auto simp: lp_free_used)
next
  case (2 s i s')
  from 2(1) show ?case
  proof (cases rule: lp_alloc_cases [where p = p])
    case (got j t)
    then show ?thesis
      using lp_used_upd [OF 2(1), of i s' p] 2(2) by simp
  qed (use 2 in simp)
next
  case (3 s i s')
  then show ?case by (cases rule: lp_alloc_cases [of s p]) auto
next
  case (5 s)
  then show ?case by (cases rule: lp_alloc_cases [of s p]) (auto simp: lp_card_used)
qed (simp_all add: lp_free_step lp_card_used)

lemma lp_inv_init: "lp_inv OL_TXRX_LOCAL_PEER_ID_POOL_INIT"
proof -
  let ?N = OL_TXRX_NUM_LOCAL_PEER_IDS
  let ?pool = "map Suc [0..<?N] @ [?N]"
  have "k \<le> ?N \<Longrightarrow> lp_chain ?pool k [k..<?N]" for k
  proof (induction "?N - k" arbitrary: k)
    case (Suc n)
    then have "k < ?N" by simp
    then have "[k..<?N] = k # [Suc k..<?N]" by (rule upt_conv_Cons)
    moreover have "lp_chain ?pool (Suc k) [Suc k..<?N]"
      using Suc by (intro Suc.hyps(1)) auto
    moreover have "?pool ! k = Suc k"
      using \<open>k < ?N\<close> by (simp add: nth_append)
    ultimately show ?case by simp
  qed simp
  from this [of 0] have "lp_chain ?pool 0 [0..<?N]" by simp
  then show ?thesis
    unfolding lp_inv_def OL_TXRX_LOCAL_PEER_ID_POOL_INIT_def
    by (auto simp: nth_append lp_free_def intro!: exI [of _ "[0..<?N]"])
qed

end
