(* ===== verification/PeerLife.thy ===== *)
theory PeerLife
  imports PeerTables TxQueue
begin

text \<open>
  The life cycle of peers and virtual devices (\<open>ol_txrx.c\<close>) and the PEER_MAP and PEER_UNMAP
  messages of the target (\<open>ol_txrx_peer_find.c\<close>).

  The allocator is an argument: an address for a new object, or None when memory is short.
  What the calls into the tx queues, the receive path and HTT do is the subject of the theories
  of those components; here they are recorded in \<open>peer_log\<close> in the order they are made.
  \<open>ol_txrx_peer_attach\<close> may wait for the deletion of a peer with the same address; the three
  parts before, at the end of and after the wait are separate operations, so that other
  operations can run in between.
\<close>

section \<open>Virtual devices\<close>

definition ol_txrx_vdev_attach ::
    "mac_addr \<Rightarrow> nat \<Rightarrow> wlan_op_mode \<Rightarrow> nat option \<Rightarrow> ctl_pdev \<Rightarrow> nat option \<times> ctl_pdev" where
  "ol_txrx_vdev_attach mac vid op_mode alloc d =
    (case alloc of
       None \<Rightarrow> (None, d)
     | Some v \<Rightarrow>
        (Some v, log_ev [Ev_htt_vdev_attach v]
          (d\<lparr>pd_vdevs := (pd_vdevs d)(v \<mapsto>
             \<lparr>vc_id = vid, vc_mac = mac, vc_opmode = op_mode, vc_peers = [],
              vc_last_real = None, vc_listed = True, vc_delete_pending = False,
              vc_delete_callback = False, vc_wait_on_peer_id = OL_TXRX_INVALID_LOCAL_PEER_ID,
              vc_delete_complete = False, vc_disable_intrabss_fwd = False\<rparr>)\<rparr>)))"

definition OL_TX_VDEV_NUM_QUEUES :: nat where "OL_TX_VDEV_NUM_QUEUES = 2"

text \<open>The tx descriptors that still point to a virtual device lose the pointer when it is freed.\<close>

definition clear_desc_vdevs :: "nat \<Rightarrow> ctl_pdev \<Rightarrow> ctl_pdev" where
  "clear_desc_vdevs v d =
    d\<lparr>desc_vdevs := map (\<lambda>x. if x = Some v then None else x) (desc_vdevs d)\<rparr>"

definition vdev_free :: "nat \<Rightarrow> bool \<Rightarrow> ctl_pdev \<Rightarrow> ctl_pdev" where
  "vdev_free v callback d =
    (let d1 = (clear_desc_vdevs v d)\<lparr>pd_vdevs := (pd_vdevs d)(v := None)\<rparr>
     in if callback then log_ev [Ev_vdev_delete_callback v] d1 else d1)"

definition ol_txrx_vdev_detach :: "nat \<Rightarrow> bool \<Rightarrow> ctl_pdev \<Rightarrow> ctl_pdev" where
  "ol_txrx_vdev_detach v callback d =
    (let d1 = (if is_high_latency d
               then log_ev (map (\<lambda>i. Ev_vdev_queue_free v (i + OL_TX_NUM_TIDS))
                             [0..<OL_TX_VDEV_NUM_QUEUES]) d
               else d);
         d2 = upd_cvdev v (\<lambda>x. x\<lparr>vc_listed := False\<rparr>) d1
     in if vc_peers (vdev_at d2 v) \<noteq> []
        then upd_cvdev v (\<lambda>x. x\<lparr>vc_delete_pending := True, vc_delete_callback := callback\<rparr>) d2
        else vdev_free v callback (log_ev [Ev_htt_vdev_detach v] d2))"

section \<open>References\<close>

text \<open>The part of \<open>ol_txrx_peer_unref_delete\<close> that runs when the last reference goes, with its
  conditional steps.\<close>

definition clear_self_peer :: "nat \<Rightarrow> ctl_pdev \<Rightarrow> ctl_pdev" where
  "clear_self_peer p d =
    (if self_peer d = Some p \<and> monitor_mode d then d\<lparr>self_peer := None\<rparr> else d)"

definition complete_wait :: "nat \<Rightarrow> nat \<Rightarrow> ctl_pdev \<Rightarrow> ctl_pdev" where
  "complete_wait peer_id v d =
    (if peer_id = vc_wait_on_peer_id (vdev_at d v)
     then upd_cvdev v (\<lambda>x. x\<lparr>vc_delete_complete := True,
                            vc_wait_on_peer_id := OL_TXRX_INVALID_LOCAL_PEER_ID\<rparr>)
            (log_ev [Ev_wait_delete_complete v] d)
     else d)"

definition free_empty_vdev :: "nat \<Rightarrow> ctl_pdev \<Rightarrow> ctl_pdev" where
  "free_empty_vdev v d =
    (if vc_peers (vdev_at d v) = [] \<and> vc_delete_pending (vdev_at d v)
     then vdev_free v (vc_delete_callback (vdev_at d v)) d else d)"

definition free_tx_queues :: "nat \<Rightarrow> ctl_pdev \<Rightarrow> ctl_pdev" where
  "free_tx_queues p d =
    (if is_high_latency d then log_ev (map (Ev_peer_queue_free p) [0..<OL_TX_NUM_TIDS]) d else d)"

definition peer_delete :: "nat \<Rightarrow> ctl_pdev \<Rightarrow> ctl_pdev" where
  "peer_delete p d =
    (let v = pc_vdev (peer_at d p);
         peer_id = pc_local_id (peer_at d p);
         d1 = clear_self_peer p d;
         d2 = ol_txrx_peer_find_hash_remove d1 p;
         d3 = upd_cvdev v (\<lambda>x. x\<lparr>vc_peers := remove1 p (vc_peers x)\<rparr>) d2;
         d4 = log_ev [Ev_rx_peer_cleanup v p] d3;
         d5 = upd_cpeer p (\<lambda>x. x\<lparr>pc_delete_in_progress := False\<rparr>) d4;
         d6 = complete_wait peer_id v d5;
         d7 = free_empty_vdev v d6;
         d8 = free_tx_queues p d7;
         d9 = log_ev [Ev_reorder_arrays_free p] d8
     in d9\<lparr>pd_peers := (pd_peers d9)(p := None)\<rparr>)"

definition ol_txrx_peer_unref_delete :: "nat \<Rightarrow> ctl_pdev \<Rightarrow> ctl_pdev" where
  "ol_txrx_peer_unref_delete p d =
    (if pc_ref_cnt (peer_at d p) = 0 then d
     else (let d1 = upd_cpeer p (\<lambda>x. x\<lparr>pc_ref_cnt := pc_ref_cnt x - 1\<rparr>) d
           in if pc_ref_cnt (peer_at d1 p) = 0 then peer_delete p d1 else d1))"

definition ref_dec :: "nat \<Rightarrow> ctl_pdev \<Rightarrow> ctl_pdev" where
  "ref_dec p = upd_cpeer p (\<lambda>x. x\<lparr>pc_ref_cnt := pc_ref_cnt x - 1\<rparr>)"

text \<open>\<open>ol_txrx_peer_find_hash_erase\<close> visits the bins as they were when it reached them; the safe
  traversal reads the next element before the present one is deleted.\<close>

definition erase_peer :: "nat \<Rightarrow> ctl_pdev \<Rightarrow> ctl_pdev" where
  "erase_peer p d = ol_txrx_peer_unref_delete p (upd_cpeer p (\<lambda>x. x\<lparr>pc_ref_cnt := 1\<rparr>) d)"

definition ol_txrx_peer_find_hash_erase :: "ctl_pdev \<Rightarrow> ctl_pdev" where
  "ol_txrx_peer_find_hash_erase d =
    fold (\<lambda>i d. fold erase_peer (hash_bins d ! i) d) [0..<unat (hash_mask d) + 1] d"

section \<open>The state of a peer\<close>

definition state_filter :: "ol_txrx_peer_state \<Rightarrow> tx_filter" where
  "state_filter state =
    (if state = ol_txrx_peer_state_auth then ol_tx_filter_pass_thru
     else if state = ol_txrx_peer_state_conn then ol_tx_filter_non_auth
     else ol_tx_filter_discard)"

definition ETHERTYPE_PAE :: nat where "ETHERTYPE_PAE = 0x888e"
definition ETHERTYPE_WAI :: nat where "ETHERTYPE_WAI = 0x88b4"

text \<open>The filters' verdict on a frame of an ethertype: True is \<open>A_OK\<close>.\<close>

fun tx_filter_ok :: "tx_filter \<Rightarrow> nat \<Rightarrow> bool" where
  "tx_filter_ok ol_tx_filter_discard ethertype = False"
| "tx_filter_ok ol_tx_filter_non_auth ethertype =
     (ethertype = ETHERTYPE_PAE \<or> ethertype = ETHERTYPE_WAI)"
| "tx_filter_ok ol_tx_filter_pass_thru ethertype = True"

definition OL_TX_NUM_QOS_TIDS :: nat where "OL_TX_NUM_QOS_TIDS = 16"

definition ol_txrx_peer_state_update ::
    "mac_addr \<Rightarrow> ol_txrx_peer_state \<Rightarrow> ctl_pdev \<Rightarrow> ctl_pdev" where
  "ol_txrx_peer_state_update mac state d =
    (case ol_txrx_peer_find_hash_find d mac True of
       (None, d1) \<Rightarrow> d1
     | (Some p, d1) \<Rightarrow>
        if pc_state (peer_at d1 p) = state then ref_dec p d1
        else (let d2 = upd_cpeer p (\<lambda>x. x\<lparr>pc_tx_filter := Some (state_filter state)\<rparr>) d1;
                  d3 = (if host_addba d2 \<and> state = ol_txrx_peer_state_auth
                        then log_ev (Ev_peer_pause p #
                               map (Ev_peer_tid_unpause p) [OL_TX_NUM_QOS_TIDS..<OL_TX_NUM_TIDS]) d2
                        else d2)
              in upd_cpeer p (\<lambda>x. x\<lparr>pc_state := state\<rparr>) (ref_dec p d3)))"

definition ol_txrx_peer_keyinstalled_state_update :: "nat \<Rightarrow> nat \<Rightarrow> ctl_pdev \<Rightarrow> ctl_pdev" where
  "ol_txrx_peer_keyinstalled_state_update p val = upd_cpeer p (\<lambda>x. x\<lparr>pc_keyinstalled := val\<rparr>)"

datatype ol_sec_type =
    ol_sec_type_none | ol_sec_type_wep128 | ol_sec_type_wep104 | ol_sec_type_wep40
  | ol_sec_type_tkip | ol_sec_type_tkip_nomic | ol_sec_type_aes_ccmp | ol_sec_type_wapi
  | ol_sec_type_types

fun upd_sec_type :: "ol_sec_type \<Rightarrow> htt_sec_type" where
  "upd_sec_type ol_sec_type_none = htt_sec_type_none"
| "upd_sec_type ol_sec_type_wep128 = htt_sec_type_wep128"
| "upd_sec_type ol_sec_type_wep104 = htt_sec_type_wep104"
| "upd_sec_type ol_sec_type_wep40 = htt_sec_type_wep40"
| "upd_sec_type ol_sec_type_tkip = htt_sec_type_tkip"
| "upd_sec_type ol_sec_type_tkip_nomic = htt_sec_type_tkip_nomic"
| "upd_sec_type ol_sec_type_aes_ccmp = htt_sec_type_aes_ccmp"
| "upd_sec_type ol_sec_type_wapi = htt_sec_type_wapi"
| "upd_sec_type ol_sec_type_types = htt_sec_type_none"

text \<open>The union of the parameters with its selector.\<close>

datatype peer_update_param =
    Peer_update_qos_capable nat | Peer_update_uapsdMask nat
  | Peer_update_peer_security ol_sec_type | Peer_update_unknown

definition ol_txrx_peer_update :: "mac_addr \<Rightarrow> peer_update_param \<Rightarrow> ctl_pdev \<Rightarrow> ctl_pdev" where
  "ol_txrx_peer_update mac param d =
    (case ol_txrx_peer_find_hash_find d mac True of
       (None, d1) \<Rightarrow> d1
     | (Some p, d1) \<Rightarrow>
        ref_dec p
         (case param of
            Peer_update_qos_capable q \<Rightarrow>
              log_ev [Ev_htt_peer_qos_update (pc_peer_ids (peer_at d1 p) ! 0) q]
                (upd_cpeer p (\<lambda>x. x\<lparr>pc_qos_capable := q\<rparr>) d1)
          | Peer_update_uapsdMask m \<Rightarrow>
              log_ev [Ev_htt_peer_uapsdmask_update (pc_peer_ids (peer_at d1 p) ! 0) m]
                (upd_cpeer p (\<lambda>x. x\<lparr>pc_uapsd_mask := m\<rparr>) d1)
          | Peer_update_peer_security t \<Rightarrow>
              upd_cpeer p (\<lambda>x. x\<lparr>pc_sec_ucast := upd_sec_type t, pc_sec_mcast := upd_sec_type t\<rparr>) d1
          | Peer_update_unknown \<Rightarrow> d1))"

definition ol_txrx_peer_uapsdmask_get :: "ctl_pdev \<Rightarrow> nat \<Rightarrow> nat" where
  "ol_txrx_peer_uapsdmask_get d peer_id =
    (case ol_txrx_peer_find_by_id d peer_id of Some p \<Rightarrow> pc_uapsd_mask (peer_at d p) | None \<Rightarrow> 0)"

definition ol_txrx_peer_qoscapable_get :: "ctl_pdev \<Rightarrow> nat \<Rightarrow> nat" where
  "ol_txrx_peer_qoscapable_get d peer_id =
    (case ol_txrx_peer_find_by_id d peer_id of Some p \<Rightarrow> pc_qos_capable (peer_at d p) | None \<Rightarrow> 0)"

section \<open>Attaching and detaching peers\<close>

datatype attach_verdict = Attach_exists | Attach_wait | Attach_go

text \<open>The search for an existing peer with the address: the loop goes on after it has found one
  that is being deleted.\<close>

fun attach_check_loop ::
    "mac_addr \<Rightarrow> nat \<Rightarrow> nat list \<Rightarrow> bool \<Rightarrow> ctl_pdev \<Rightarrow> attach_verdict \<times> ctl_pdev" where
  "attach_check_loop mac v [] wait d = (if wait then Attach_wait else Attach_go, d)"
| "attach_check_loop mac v (q # qs) wait d =
    (if ol_txrx_peer_find_mac_addr_cmp (pc_mac (peer_at d q)) mac = 0
     then (if pc_delete_in_progress (peer_at d q)
           then attach_check_loop mac v qs True
                  (upd_cvdev v (\<lambda>x. x\<lparr>vc_wait_on_peer_id := pc_local_id (peer_at d q),
                                    vc_delete_complete := False\<rparr>) d)
           else (Attach_exists, d))
     else attach_check_loop mac v qs wait d)"

definition attach_check :: "nat \<Rightarrow> mac_addr \<Rightarrow> ctl_pdev \<Rightarrow> attach_verdict \<times> ctl_pdev" where
  "attach_check v mac d = attach_check_loop mac v (vc_peers (vdev_at d v)) False d"

definition new_peer :: "nat \<Rightarrow> mac_addr \<Rightarrow> ctl_peer" where
  "new_peer v mac =
    \<lparr>pc_mac = mac, pc_vdev = v, pc_valid = False, pc_ref_cnt = 0,
     pc_peer_ids = replicate MAX_NUM_PEER_ID_PER_PEER 0, pc_local_id = 0,
     pc_delete_in_progress = False, pc_state = ol_txrx_peer_state_invalid, pc_tx_filter = None,
     pc_bss_peer = False, pc_rx_discard = False, pc_keyinstalled = 0, pc_qos_capable = 0,
     pc_uapsd_mask = 0, pc_sec_ucast = htt_sec_type_none, pc_sec_mcast = htt_sec_type_none\<rparr>"

definition set_last_real :: "nat \<Rightarrow> nat \<Rightarrow> ctl_pdev \<Rightarrow> ctl_pdev" where
  "set_last_real v p d =
    (if ol_txrx_peer_find_mac_addr_cmp (vc_mac (vdev_at d v)) (pc_mac (peer_at d p)) \<noteq> 0
     then upd_cvdev v (\<lambda>x. x\<lparr>vc_last_real := Some p\<rparr>) d else d)"

definition set_bss_peer :: "nat \<Rightarrow> nat \<Rightarrow> ctl_pdev \<Rightarrow> ctl_pdev" where
  "set_bss_peer v p d =
    (if pc_mac (peer_at d p) = vc_mac (vdev_at d v)
     then upd_cpeer p (\<lambda>x. x\<lparr>pc_bss_peer := True\<rparr>) d else d)"

definition set_self_peer :: "nat \<Rightarrow> nat \<Rightarrow> ctl_pdev \<Rightarrow> ctl_pdev" where
  "set_self_peer v p d =
    (if monitor_mode d \<and> self_peer d = None
     then upd_cvdev v (\<lambda>x. x\<lparr>vc_disable_intrabss_fwd := True\<rparr>) (d\<lparr>self_peer := Some p\<rparr>)
     else d)"

definition attach_create ::
    "nat \<Rightarrow> mac_addr \<Rightarrow> nat option \<Rightarrow> ctl_pdev \<Rightarrow> nat option \<times> ctl_pdev" where
  "attach_create v mac alloc d =
    (case alloc of
       None \<Rightarrow> (None, d)
     | Some p \<Rightarrow>
        let d1 = d\<lparr>pd_peers := (pd_peers d)(p \<mapsto> new_peer v mac)\<rparr>;
            d3 = log_ev ((if is_high_latency d1 then [Ev_txqs_init p] else []) @ [Ev_peer_pause p]) d1;
            d4 = upd_cvdev v (\<lambda>x. x\<lparr>vc_peers := vc_peers x @ [p]\<rparr>) d3;
            d5 = set_last_real v p d4;
            d6 = log_ev [Ev_rx_peer_init p] d5;
            d7 = upd_cpeer p (\<lambda>x. x\<lparr>pc_peer_ids := replicate MAX_NUM_PEER_ID_PER_PEER HTT_INVALID_PEER,
                                  pc_delete_in_progress := False, pc_ref_cnt := 2,
                                  pc_valid := True\<rparr>) d6;
            d8 = ol_txrx_peer_find_hash_add d7 p;
            d9 = set_bss_peer v p d8;
            d10 = upd_cpeer p (\<lambda>x. x\<lparr>pc_state := ol_txrx_peer_state_invalid\<rparr>) d9;
            d11 = ol_txrx_peer_state_update (pc_mac (peer_at d10 p)) ol_txrx_peer_state_disc d10;
            d12 = set_self_peer v p d11
        in (case OL_TXRX_LOCAL_PEER_ID_ALLOC p (local_ids d12) of
              (i, l) \<Rightarrow>
                (Some p, upd_cpeer p (\<lambda>x. x\<lparr>pc_local_id := i\<rparr>) (d12\<lparr>local_ids := l\<rparr>))))"

definition attach_resume ::
    "nat \<Rightarrow> mac_addr \<Rightarrow> bool \<Rightarrow> nat option \<Rightarrow> ctl_pdev \<Rightarrow> nat option \<times> ctl_pdev" where
  "attach_resume v mac rc alloc d =
    (if \<not> rc
     then (None, upd_cvdev v (\<lambda>x. x\<lparr>vc_wait_on_peer_id := OL_TXRX_INVALID_LOCAL_PEER_ID\<rparr>) d)
     else attach_create v mac alloc d)"

definition ol_txrx_peer_attach ::
    "nat \<Rightarrow> mac_addr \<Rightarrow> (ctl_pdev \<Rightarrow> bool \<times> ctl_pdev) \<Rightarrow> nat option \<Rightarrow> ctl_pdev \<Rightarrow>
     nat option \<times> ctl_pdev" where
  "ol_txrx_peer_attach v mac during_wait alloc d =
    (case attach_check v mac d of
       (Attach_exists, d1) \<Rightarrow> (None, d1)
     | (Attach_wait, d1) \<Rightarrow>
         (case during_wait d1 of (rc, d2) \<Rightarrow> attach_resume v mac rc alloc d2)
     | (Attach_go, d1) \<Rightarrow> attach_create v mac alloc d1)"

definition ol_txrx_peer_detach :: "nat \<Rightarrow> ctl_pdev \<Rightarrow> ctl_pdev" where
  "ol_txrx_peer_detach p d =
    (let v = pc_vdev (peer_at d p);
         d1 = upd_cpeer p (\<lambda>x. x\<lparr>pc_rx_discard := True, pc_valid := False\<rparr>) d;
         d2 = d1\<lparr>local_ids := OL_TXRX_LOCAL_PEER_ID_FREE (pc_local_id (peer_at d1 p)) (local_ids d1)\<rparr>;
         d3 = (if vc_last_real (vdev_at d2 v) = Some p
               then upd_cvdev v (\<lambda>x. x\<lparr>vc_last_real := None\<rparr>) d2 else d2);
         d4 = upd_cpeer p (\<lambda>x. x\<lparr>pc_delete_in_progress := True\<rparr>) d3
     in ol_txrx_peer_unref_delete p d4)"

section \<open>Lookups for other components\<close>

definition ol_txrx_find_peer_by_addr :: "mac_addr \<Rightarrow> ctl_pdev \<Rightarrow> (nat \<times> nat) option \<times> ctl_pdev" where
  "ol_txrx_find_peer_by_addr mac d =
    (case ol_txrx_peer_find_hash_find d mac True of
       (None, d1) \<Rightarrow> (None, d1)
     | (Some p, d1) \<Rightarrow> (Some (p, u8 (pc_local_id (peer_at d1 p))), ref_dec p d1))"

definition ol_txrx_find_peer_by_addr_and_vdev ::
    "nat \<Rightarrow> mac_addr \<Rightarrow> ctl_pdev \<Rightarrow> (nat \<times> nat) option \<times> ctl_pdev" where
  "ol_txrx_find_peer_by_addr_and_vdev v mac d =
    (case ol_txrx_peer_vdev_find_hash d v mac True of
       (None, d1) \<Rightarrow> (None, d1)
     | (Some p, d1) \<Rightarrow> (Some (p, u8 (pc_local_id (peer_at d1 p))), ref_dec p d1))"

definition ol_txrx_peer_find_by_addr :: "mac_addr \<Rightarrow> ctl_pdev \<Rightarrow> nat option \<times> ctl_pdev" where
  "ol_txrx_peer_find_by_addr mac d =
    (case ol_txrx_peer_find_hash_find d mac False of
       (None, d1) \<Rightarrow> (None, d1)
     | (Some p, d1) \<Rightarrow> (Some p, ol_txrx_peer_unref_delete p d1))"

definition ol_txrx_assoc_peer_find :: "nat \<Rightarrow> ctl_pdev \<Rightarrow> nat option \<times> ctl_pdev" where
  "ol_txrx_assoc_peer_find v d =
    take_ref (case vc_last_real (vdev_at d v) of
                Some p \<Rightarrow> if pc_peer_ids (peer_at d p) ! 0 \<noteq> HTT_INVALID_PEER then Some p else None
              | None \<Rightarrow> None) d"

section \<open>Messages of the target\<close>

definition ol_txrx_peer_find_add_id :: "mac_addr \<Rightarrow> nat \<Rightarrow> ctl_pdev \<Rightarrow> ctl_pdev" where
  "ol_txrx_peer_find_add_id mac peer_id d =
    (case ol_txrx_peer_find_hash_find d mac False of
       (None, d1) \<Rightarrow> d1
     | (Some p, d1) \<Rightarrow>
        let d2 = d1\<lparr>peer_id_to_obj_map := (peer_id_to_obj_map d1)[peer_id := Some p]\<rparr>;
            d3 = (if pc_peer_ids (peer_at d2 p) ! 0 = HTT_INVALID_PEER
                  then ol_txrx_peer_unref_delete p d2 else d2)
        in snd (ol_txrx_peer_find_add_id_to_obj p peer_id d3))"

definition HTT_TX_EXT_TID_MGMT :: nat where "HTT_TX_EXT_TID_MGMT = 17"

definition ol_rx_peer_map_handler :: "nat \<Rightarrow> mac_addr \<Rightarrow> bool \<Rightarrow> ctl_pdev \<Rightarrow> ctl_pdev" where
  "ol_rx_peer_map_handler peer_id mac tx_ready d =
    (let d1 = ol_txrx_peer_find_add_id mac peer_id d
     in if is_high_latency d1 \<and> \<not> tx_ready
        then (case ol_txrx_peer_find_by_id d1 peer_id of
                None \<Rightarrow> d1
              | Some p \<Rightarrow>
                  if tx_ready
                  then log_ev (map (Ev_peer_tid_unpause p) [0..<OL_TX_NUM_TIDS]) d1
                  else log_ev [Ev_tx_queue_decs_reinit p peer_id,
                               Ev_peer_tid_unpause p HTT_TX_EXT_TID_MGMT] d1)
        else d1)"

definition ol_txrx_peer_tx_ready_handler :: "nat \<Rightarrow> ctl_pdev \<Rightarrow> ctl_pdev" where
  "ol_txrx_peer_tx_ready_handler peer_id d =
    (case ol_txrx_peer_find_by_id d peer_id of
       None \<Rightarrow> d
     | Some p \<Rightarrow> log_ev (map (Ev_peer_tid_unpause p)
                          (filter (\<lambda>i. i \<noteq> HTT_TX_EXT_TID_MGMT) [0..<OL_TX_NUM_TIDS])) d)"

definition ol_rx_peer_unmap_handler :: "nat \<Rightarrow> ctl_pdev \<Rightarrow> ctl_pdev" where
  "ol_rx_peer_unmap_handler peer_id d =
    (let peer = (if peer_id = HTT_INVALID_PEER then None else peer_id_to_obj_map d ! peer_id);
         d1 = d\<lparr>peer_id_to_obj_map := (peer_id_to_obj_map d)[peer_id := None]\<rparr>
     in case peer of None \<Rightarrow> d1 | Some p \<Rightarrow> ol_txrx_peer_unref_delete p d1)"

end
