(* ===== verification/PeerInv.thy ===== *)
theory PeerInv
  imports PeerLife
begin

text \<open>
  The reference counts of the peers: an invariant that says what every count is made of, and that
  no table points to a freed object. A ghost counter \<open>held\<close> stands for the references that the
  callers of the lookups hold.
\<close>

section \<open>Views of the tables\<close>

definition alive :: "ctl_pdev \<Rightarrow> nat \<Rightarrow> bool" where "alive d p = (pd_peers d p \<noteq> None)"
definition pmac :: "ctl_pdev \<Rightarrow> nat \<Rightarrow> mac_addr" where "pmac d p = pc_mac (peer_at d p)"
definition pvdev :: "ctl_pdev \<Rightarrow> nat \<Rightarrow> nat" where "pvdev d p = pc_vdev (peer_at d p)"
definition pvalid :: "ctl_pdev \<Rightarrow> nat \<Rightarrow> bool" where "pvalid d p = pc_valid (peer_at d p)"
definition pref :: "ctl_pdev \<Rightarrow> nat \<Rightarrow> int" where "pref d p = pc_ref_cnt (peer_at d p)"
definition pids :: "ctl_pdev \<Rightarrow> nat \<Rightarrow> nat list" where "pids d p = pc_peer_ids (peer_at d p)"
definition plocal :: "ctl_pdev \<Rightarrow> nat \<Rightarrow> nat" where "plocal d p = pc_local_id (peer_at d p)"
definition valive :: "ctl_pdev \<Rightarrow> nat \<Rightarrow> bool" where "valive d v = (pd_vdevs d v \<noteq> None)"
definition vpeers :: "ctl_pdev \<Rightarrow> nat \<Rightarrow> nat list" where "vpeers d v = vc_peers (vdev_at d v)"
definition vlast :: "ctl_pdev \<Rightarrow> nat \<Rightarrow> nat option" where "vlast d v = vc_last_real (vdev_at d v)"
definition vlisted :: "ctl_pdev \<Rightarrow> nat \<Rightarrow> bool" where "vlisted d v = vc_listed (vdev_at d v)"
definition vpending :: "ctl_pdev \<Rightarrow> nat \<Rightarrow> bool" where "vpending d v = vc_delete_pending (vdev_at d v)"

lemmas views = alive_def pmac_def pvdev_def pvalid_def pref_def pids_def plocal_def
  valive_def vpeers_def vlast_def vlisted_def vpending_def

section \<open>The invariant\<close>

definition hash_ok :: "ctl_pdev \<Rightarrow> bool" where
  "hash_ok d = (hash_sized d \<and>
     (\<forall>i < length (hash_bins d). distinct (hash_bins d ! i) \<and>
        (\<forall>p. p \<in> set (hash_bins d ! i) \<longrightarrow>
           alive d p \<and> ol_txrx_peer_find_hash_index d (pmac d p) = i)) \<and>
     (\<forall>p. alive d p \<longrightarrow> p \<in> set (hash_bins d ! ol_txrx_peer_find_hash_index d (pmac d p))))"

definition vdevs_ok :: "ctl_pdev \<Rightarrow> bool" where
  "vdevs_ok d =
    ((\<forall>v. valive d v \<longrightarrow>
        distinct (vpeers d v) \<and>
        (\<forall>p. p \<in> set (vpeers d v) \<longrightarrow> alive d p \<and> pvdev d p = v) \<and>
        (\<forall>p. vlast d v = Some p \<longrightarrow> alive d p \<and> pvalid d p \<and> pvdev d p = v) \<and>
        vpending d v = (\<not> vlisted d v) \<and> (vpending d v \<longrightarrow> vpeers d v \<noteq> [])) \<and>
     (\<forall>p. alive d p \<longrightarrow> valive d (pvdev d p) \<and> p \<in> set (vpeers d (pvdev d p))))"

definition idmap_ok :: "ctl_pdev \<Rightarrow> bool" where
  "idmap_ok d =
    (length (peer_id_to_obj_map d) = max_peer_id d + 1 \<and> max_peer_id d < HTT_INVALID_PEER \<and>
     (\<forall>p. Some p \<in> set (peer_id_to_obj_map d) \<longrightarrow> alive d p) \<and>
     (\<forall>p. self_peer d = Some p \<longrightarrow> monitor_mode d \<and> alive d p))"

definition locals_ok :: "ctl_pdev \<Rightarrow> bool" where
  "locals_ok d =
    (lp_inv (local_ids d) \<and>
     (\<forall>i p. i < OL_TXRX_NUM_LOCAL_PEER_IDS \<longrightarrow> lp_map (local_ids d) ! i = Some p \<longrightarrow>
        alive d p \<and> pvalid d p \<and> plocal d p = i) \<and>
     (\<forall>p. alive d p \<longrightarrow> pvalid d p \<longrightarrow> plocal d p < OL_TXRX_NUM_LOCAL_PEER_IDS \<longrightarrow>
        lp_map (local_ids d) ! plocal d p = Some p))"

text \<open>What the count of a peer is made of: the attachment, one for each peer id that is mapped to
  it, one that waits for the first peer id, and those the callers hold.\<close>

definition peer_refs :: "(nat \<Rightarrow> nat) \<Rightarrow> ctl_pdev \<Rightarrow> nat \<Rightarrow> nat" where
  "peer_refs held d p =
    (if pvalid d p then 1 else 0) + count_list (peer_id_to_obj_map d) (Some p) +
    (if pids d p ! 0 = HTT_INVALID_PEER then 1 else 0) + held p"

definition refs_ok :: "(nat \<Rightarrow> nat) \<Rightarrow> ctl_pdev \<Rightarrow> bool" where
  "refs_ok held d =
    ((\<forall>p. alive d p \<longrightarrow> pref d p = int (peer_refs held d p) \<and> 0 < peer_refs held d p \<and>
        length (pids d p) = MAX_NUM_PEER_ID_PER_PEER) \<and>
     (\<forall>p. 0 < held p \<longrightarrow> alive d p))"

definition ctl_inv :: "(nat \<Rightarrow> nat) \<Rightarrow> ctl_pdev \<Rightarrow> bool" where
  "ctl_inv held d = (hash_ok d \<and> vdevs_ok d \<and> idmap_ok d \<and> locals_ok d \<and> refs_ok held d)"

lemmas ctl_inv_defs = hash_ok_def vdevs_ok_def idmap_ok_def locals_ok_def refs_ok_def peer_refs_def

named_theorems peer_simps \<open>fields of the peer tables under updates\<close>

lemma upd_cpeer_fields [peer_simps]:
  "pd_vdevs (upd_cpeer p f d) = pd_vdevs d" "hash_bins (upd_cpeer p f d) = hash_bins d"
  "hash_mask (upd_cpeer p f d) = hash_mask d" "hash_idx_bits (upd_cpeer p f d) = hash_idx_bits d"
  "peer_id_to_obj_map (upd_cpeer p f d) = peer_id_to_obj_map d"
  "local_ids (upd_cpeer p f d) = local_ids d" "self_peer (upd_cpeer p f d) = self_peer d"
  "max_peer_id (upd_cpeer p f d) = max_peer_id d" "monitor_mode (upd_cpeer p f d) = monitor_mode d"
  "is_high_latency (upd_cpeer p f d) = is_high_latency d" "host_addba (upd_cpeer p f d) = host_addba d"
  "pd_peers (upd_cpeer p f d) = (pd_peers d)(p := map_option f (pd_peers d p))"
  by (simp_all add: upd_cpeer_def)

lemma upd_cvdev_fields [peer_simps]:
  "pd_peers (upd_cvdev v f d) = pd_peers d" "hash_bins (upd_cvdev v f d) = hash_bins d"
  "hash_mask (upd_cvdev v f d) = hash_mask d" "hash_idx_bits (upd_cvdev v f d) = hash_idx_bits d"
  "peer_id_to_obj_map (upd_cvdev v f d) = peer_id_to_obj_map d"
  "local_ids (upd_cvdev v f d) = local_ids d" "self_peer (upd_cvdev v f d) = self_peer d"
  "max_peer_id (upd_cvdev v f d) = max_peer_id d" "monitor_mode (upd_cvdev v f d) = monitor_mode d"
  "is_high_latency (upd_cvdev v f d) = is_high_latency d" "host_addba (upd_cvdev v f d) = host_addba d"
  "pd_vdevs (upd_cvdev v f d) = (pd_vdevs d)(v := map_option f (pd_vdevs d v))"
  by (simp_all add: upd_cvdev_def)

lemma log_ev_fields [peer_simps]:
  "pd_peers (log_ev es d) = pd_peers d" "pd_vdevs (log_ev es d) = pd_vdevs d"
  "hash_bins (log_ev es d) = hash_bins d"
  "hash_mask (log_ev es d) = hash_mask d" "hash_idx_bits (log_ev es d) = hash_idx_bits d"
  "peer_id_to_obj_map (log_ev es d) = peer_id_to_obj_map d"
  "local_ids (log_ev es d) = local_ids d" "self_peer (log_ev es d) = self_peer d"
  "max_peer_id (log_ev es d) = max_peer_id d" "monitor_mode (log_ev es d) = monitor_mode d"
  "is_high_latency (log_ev es d) = is_high_latency d" "host_addba (log_ev es d) = host_addba d"
  by (simp_all add: log_ev_def)

lemma hash_index_upd [peer_simps]:
  "ol_txrx_peer_find_hash_index (upd_cpeer p f d) = ol_txrx_peer_find_hash_index d"
  "ol_txrx_peer_find_hash_index (upd_cvdev v g d) = ol_txrx_peer_find_hash_index d"
  "ol_txrx_peer_find_hash_index (log_ev es d) = ol_txrx_peer_find_hash_index d"
  by (rule ext, rule hash_index_cong; simp add: peer_simps)+

lemma hash_index_record [peer_simps]:
  "ol_txrx_peer_find_hash_index (d\<lparr>hash_bins := b\<rparr>) = ol_txrx_peer_find_hash_index d"
  "ol_txrx_peer_find_hash_index (d\<lparr>pd_peers := ps\<rparr>) = ol_txrx_peer_find_hash_index d"
  "ol_txrx_peer_find_hash_index (d\<lparr>peer_id_to_obj_map := m\<rparr>) = ol_txrx_peer_find_hash_index d"
  "ol_txrx_peer_find_hash_index (d\<lparr>local_ids := l\<rparr>) = ol_txrx_peer_find_hash_index d"
  "ol_txrx_peer_find_hash_index (d\<lparr>self_peer := sp\<rparr>) = ol_txrx_peer_find_hash_index d"
  by (rule ext, rule hash_index_cong; simp)+

lemma peer_views_upd [peer_simps]:
  "alive (upd_cpeer p f d) = alive d"
  "pmac (upd_cpeer p f d) q = (if q = p \<and> alive d p then pc_mac (f (peer_at d p)) else pmac d q)"
  "pvdev (upd_cpeer p f d) q = (if q = p \<and> alive d p then pc_vdev (f (peer_at d p)) else pvdev d q)"
  "pvalid (upd_cpeer p f d) q = (if q = p \<and> alive d p then pc_valid (f (peer_at d p)) else pvalid d q)"
  "pref (upd_cpeer p f d) q = (if q = p \<and> alive d p then pc_ref_cnt (f (peer_at d p)) else pref d q)"
  "pids (upd_cpeer p f d) q = (if q = p \<and> alive d p then pc_peer_ids (f (peer_at d p)) else pids d q)"
  "plocal (upd_cpeer p f d) q = (if q = p \<and> alive d p then pc_local_id (f (peer_at d p)) else plocal d q)"
  by (auto simp: views upd_cpeer_def fun_eq_iff)

lemma vdev_views_upd_cpeer [peer_simps]:
  "valive (upd_cpeer p f d) = valive d" "vpeers (upd_cpeer p f d) = vpeers d"
  "vlast (upd_cpeer p f d) = vlast d" "vlisted (upd_cpeer p f d) = vlisted d"
  "vpending (upd_cpeer p f d) = vpending d"
  by (auto simp: views upd_cpeer_def fun_eq_iff)

lemma vdev_views_upd [peer_simps]:
  "valive (upd_cvdev v g d) = valive d"
  "vpeers (upd_cvdev v g d) w = (if w = v \<and> valive d v then vc_peers (g (vdev_at d v)) else vpeers d w)"
  "vlast (upd_cvdev v g d) w = (if w = v \<and> valive d v then vc_last_real (g (vdev_at d v)) else vlast d w)"
  "vlisted (upd_cvdev v g d) w = (if w = v \<and> valive d v then vc_listed (g (vdev_at d v)) else vlisted d w)"
  "vpending (upd_cvdev v g d) w =
     (if w = v \<and> valive d v then vc_delete_pending (g (vdev_at d v)) else vpending d w)"
  by (auto simp: views upd_cvdev_def fun_eq_iff)

lemma peer_views_cong:
  assumes "pd_peers d' = pd_peers d"
  shows "alive d' = alive d" "pmac d' = pmac d" "pvdev d' = pvdev d" "pvalid d' = pvalid d"
    "pref d' = pref d" "pids d' = pids d" "plocal d' = plocal d"
  using assms by (simp_all add: views fun_eq_iff)

lemma vdev_views_cong:
  assumes "pd_vdevs d' = pd_vdevs d"
  shows "valive d' = valive d" "vpeers d' = vpeers d" "vlast d' = vlast d"
    "vlisted d' = vlisted d" "vpending d' = vpending d"
  using assms by (simp_all add: views fun_eq_iff)

lemmas peer_views_upd_cvdev [peer_simps] = peer_views_cong [OF upd_cvdev_fields(1)]
lemmas peer_views_log [peer_simps] = peer_views_cong [OF log_ev_fields(1)]
lemmas vdev_views_log [peer_simps] = vdev_views_cong [OF log_ev_fields(2)]

section \<open>Steps that leave the invariant alone\<close>

lemma ctl_inv_views:
  assumes "alive d' = alive d" "pmac d' = pmac d" "pvdev d' = pvdev d" "pvalid d' = pvalid d"
    "pref d' = pref d" "pids d' = pids d" "plocal d' = plocal d" "valive d' = valive d"
    "vpeers d' = vpeers d" "vlast d' = vlast d" "vlisted d' = vlisted d" "vpending d' = vpending d"
    "hash_bins d' = hash_bins d" "hash_mask d' = hash_mask d" "hash_idx_bits d' = hash_idx_bits d"
    "peer_id_to_obj_map d' = peer_id_to_obj_map d" "local_ids d' = local_ids d"
    "self_peer d' = self_peer d" "max_peer_id d' = max_peer_id d" "monitor_mode d' = monitor_mode d"
  shows "ctl_inv held d' = ctl_inv held d"
  by (simp only: ctl_inv_def ctl_inv_defs hash_sized_def hash_index_cong [OF assms(14,15)] assms)

lemma ctl_inv_log [simp]: "ctl_inv held (log_ev es d) = ctl_inv held d"
  by (rule ctl_inv_views) (simp_all add: peer_simps)

text \<open>Updates of fields of a peer or of a virtual device that the invariant does not mention.\<close>

lemma ctl_inv_upd_cpeer:
  assumes "\<And>x. pc_mac (f x) = pc_mac x" "\<And>x. pc_vdev (f x) = pc_vdev x"
      "\<And>x. pc_valid (f x) = pc_valid x" "\<And>x. pc_ref_cnt (f x) = pc_ref_cnt x"
      "\<And>x. pc_peer_ids (f x) = pc_peer_ids x" "\<And>x. pc_local_id (f x) = pc_local_id x"
  shows "ctl_inv held (upd_cpeer p f d) = ctl_inv held d"
  by (rule ctl_inv_views) (simp_all add: peer_simps fun_eq_iff, simp_all add: views assms)

lemma ctl_inv_upd_cvdev:
  assumes "\<And>y. vc_peers (f y) = vc_peers y" "\<And>y. vc_last_real (f y) = vc_last_real y"
      "\<And>y. vc_listed (f y) = vc_listed y" "\<And>y. vc_delete_pending (f y) = vc_delete_pending y"
  shows "ctl_inv held (upd_cvdev v f d) = ctl_inv held d"
  by (rule ctl_inv_views)
    (simp_all add: peer_simps fun_eq_iff, simp_all add: views assms)

section \<open>References taken and released\<close>

lemma ctl_inv_ref_views:
  assumes "alive d' = alive d" "pmac d' = pmac d" "pvdev d' = pvdev d" "pvalid d' = pvalid d"
    "plocal d' = plocal d" "valive d' = valive d"
    "vpeers d' = vpeers d" "vlast d' = vlast d" "vlisted d' = vlisted d" "vpending d' = vpending d"
    "hash_bins d' = hash_bins d" "hash_mask d' = hash_mask d" "hash_idx_bits d' = hash_idx_bits d"
    "peer_id_to_obj_map d' = peer_id_to_obj_map d" "local_ids d' = local_ids d"
    "self_peer d' = self_peer d" "max_peer_id d' = max_peer_id d" "monitor_mode d' = monitor_mode d"
  shows "hash_ok d' = hash_ok d" "vdevs_ok d' = vdevs_ok d" "idmap_ok d' = idmap_ok d"
    "locals_ok d' = locals_ok d"
  by (simp_all only: hash_ok_def vdevs_ok_def idmap_ok_def locals_ok_def hash_sized_def
      hash_index_cong [OF assms(12,13)] assms)

lemma ctl_inv_upd_ref:
  assumes "ctl_inv held d" and "refs_ok held' (upd_cpeer p f d)"
    and "\<And>x. pc_mac (f x) = pc_mac x" "\<And>x. pc_vdev (f x) = pc_vdev x"
      "\<And>x. pc_valid (f x) = pc_valid x" "\<And>x. pc_local_id (f x) = pc_local_id x"
  shows "ctl_inv held' (upd_cpeer p f d)"
proof -
  have "pmac (upd_cpeer p f d) = pmac d" "pvdev (upd_cpeer p f d) = pvdev d"
    "pvalid (upd_cpeer p f d) = pvalid d" "plocal (upd_cpeer p f d) = plocal d"
    using assms(3-) by (simp_all add: peer_simps fun_eq_iff) (simp_all add: views)
  then have "hash_ok (upd_cpeer p f d) = hash_ok d" "vdevs_ok (upd_cpeer p f d) = vdevs_ok d"
    "idmap_ok (upd_cpeer p f d) = idmap_ok d" "locals_ok (upd_cpeer p f d) = locals_ok d"
    by (intro ctl_inv_ref_views; simp add: peer_simps)+
  then show ?thesis
    using assms(1,2) by (simp add: ctl_inv_def)
qed

lemma ctl_inv_take_ref:
  assumes "ctl_inv held d" and "alive d p"
  shows "ctl_inv (held(p := held p + 1)) (upd_cpeer p (\<lambda>x. x\<lparr>pc_ref_cnt := pc_ref_cnt x + 1\<rparr>) d)"
    (is "ctl_inv ?held (upd_cpeer p ?f d)")
proof (rule ctl_inv_upd_ref [OF assms(1)])
  have "refs_ok held d" using assms(1) by (simp add: ctl_inv_def)
  moreover have "pids (upd_cpeer p ?f d) = pids d" "pvalid (upd_cpeer p ?f d) = pvalid d"
    by (simp_all add: peer_simps fun_eq_iff) (simp_all add: views)
  moreover have "pref (upd_cpeer p ?f d) q = (if q = p then pref d q + 1 else pref d q)" for q
    using assms(2) by (simp add: peer_views_upd) (simp add: pref_def)
  ultimately show "refs_ok ?held (upd_cpeer p ?f d)"
    using assms(2) by (simp add: refs_ok_def peer_refs_def peer_simps)
qed simp_all

text \<open>What the deletion of a peer changes.\<close>

lemma hash_remove_fields [peer_simps]:
  "pd_peers (ol_txrx_peer_find_hash_remove d p) = pd_peers d"
  "pd_vdevs (ol_txrx_peer_find_hash_remove d p) = pd_vdevs d"
  "hash_mask (ol_txrx_peer_find_hash_remove d p) = hash_mask d"
  "hash_idx_bits (ol_txrx_peer_find_hash_remove d p) = hash_idx_bits d"
  "peer_id_to_obj_map (ol_txrx_peer_find_hash_remove d p) = peer_id_to_obj_map d"
  "local_ids (ol_txrx_peer_find_hash_remove d p) = local_ids d"
  "self_peer (ol_txrx_peer_find_hash_remove d p) = self_peer d"
  "max_peer_id (ol_txrx_peer_find_hash_remove d p) = max_peer_id d"
  "monitor_mode (ol_txrx_peer_find_hash_remove d p) = monitor_mode d"
  "hash_bins (ol_txrx_peer_find_hash_remove d p) =
     (hash_bins d)[ol_txrx_peer_find_hash_index d (pmac d p) :=
        remove1 p (hash_bins d ! ol_txrx_peer_find_hash_index d (pmac d p))]"
  by (simp_all add: ol_txrx_peer_find_hash_remove_def Let_def pmac_def)

lemma clear_self_peer_fields [peer_simps]:
  "pd_peers (clear_self_peer p d) = pd_peers d" "pd_vdevs (clear_self_peer p d) = pd_vdevs d"
  "hash_bins (clear_self_peer p d) = hash_bins d"
  "hash_mask (clear_self_peer p d) = hash_mask d"
  "hash_idx_bits (clear_self_peer p d) = hash_idx_bits d"
  "peer_id_to_obj_map (clear_self_peer p d) = peer_id_to_obj_map d"
  "local_ids (clear_self_peer p d) = local_ids d"
  "max_peer_id (clear_self_peer p d) = max_peer_id d"
  "monitor_mode (clear_self_peer p d) = monitor_mode d"
  "self_peer (clear_self_peer p d) =
     (if self_peer d = Some p \<and> monitor_mode d then None else self_peer d)"
  by (simp_all add: clear_self_peer_def)

lemma complete_wait_fields [peer_simps]:
  "pd_peers (complete_wait i v d) = pd_peers d" "hash_bins (complete_wait i v d) = hash_bins d"
  "hash_mask (complete_wait i v d) = hash_mask d"
  "hash_idx_bits (complete_wait i v d) = hash_idx_bits d"
  "peer_id_to_obj_map (complete_wait i v d) = peer_id_to_obj_map d"
  "local_ids (complete_wait i v d) = local_ids d"
  "max_peer_id (complete_wait i v d) = max_peer_id d"
  "monitor_mode (complete_wait i v d) = monitor_mode d"
  "self_peer (complete_wait i v d) = self_peer d"
  "valive (complete_wait i v d) = valive d" "vpeers (complete_wait i v d) = vpeers d"
  "vlast (complete_wait i v d) = vlast d" "vlisted (complete_wait i v d) = vlisted d"
  "vpending (complete_wait i v d) = vpending d"
  by (simp_all add: complete_wait_def peer_simps fun_eq_iff)
    (simp_all add: views log_ev_def)

lemma free_empty_vdev_fields [peer_simps]:
  "pd_peers (free_empty_vdev v d) = pd_peers d" "hash_bins (free_empty_vdev v d) = hash_bins d"
  "hash_mask (free_empty_vdev v d) = hash_mask d"
  "hash_idx_bits (free_empty_vdev v d) = hash_idx_bits d"
  "peer_id_to_obj_map (free_empty_vdev v d) = peer_id_to_obj_map d"
  "local_ids (free_empty_vdev v d) = local_ids d"
  "max_peer_id (free_empty_vdev v d) = max_peer_id d"
  "monitor_mode (free_empty_vdev v d) = monitor_mode d"
  "self_peer (free_empty_vdev v d) = self_peer d"
  by (simp_all add: free_empty_vdev_def vdev_free_def clear_desc_vdevs_def Let_def peer_simps)

lemma free_empty_vdev_valive [peer_simps]:
  "valive (free_empty_vdev v d) w = (valive d w \<and> \<not> (w = v \<and> vpeers d v = [] \<and> vpending d v))"
  "valive (free_empty_vdev v d) w \<Longrightarrow> vpeers (free_empty_vdev v d) w = vpeers d w"
  "valive (free_empty_vdev v d) w \<Longrightarrow> vlast (free_empty_vdev v d) w = vlast d w"
  "valive (free_empty_vdev v d) w \<Longrightarrow> vlisted (free_empty_vdev v d) w = vlisted d w"
  "valive (free_empty_vdev v d) w \<Longrightarrow> vpending (free_empty_vdev v d) w = vpending d w"
  by (auto simp: free_empty_vdev_def vdev_free_def clear_desc_vdevs_def Let_def views log_ev_def
      split: if_splits)

lemma free_tx_queues_log: "\<exists>es. free_tx_queues p d = log_ev es d"
  by (cases "is_high_latency d") (auto simp: free_tx_queues_def log_ev_def intro: exI [of _ "[]"])

text \<open>The tables after a deletion, in closed form.\<close>

lemma peer_delete_fields:
  assumes "alive d p" and "valive d (pvdev d p)"
  shows "alive (peer_delete p d) q = (q \<noteq> p \<and> alive d q)"
    and "q \<noteq> p \<Longrightarrow> pd_peers (peer_delete p d) q = pd_peers d q"
    and "hash_mask (peer_delete p d) = hash_mask d"
    and "hash_idx_bits (peer_delete p d) = hash_idx_bits d"
    and "peer_id_to_obj_map (peer_delete p d) = peer_id_to_obj_map d"
    and "local_ids (peer_delete p d) = local_ids d"
    and "max_peer_id (peer_delete p d) = max_peer_id d"
    and "monitor_mode (peer_delete p d) = monitor_mode d"
    and "self_peer (peer_delete p d) =
           (if self_peer d = Some p \<and> monitor_mode d then None else self_peer d)"
    and "hash_bins (peer_delete p d) =
           (hash_bins d)[ol_txrx_peer_find_hash_index d (pmac d p) :=
              remove1 p (hash_bins d ! ol_txrx_peer_find_hash_index d (pmac d p))]"
proof -
  let ?e = "\<lambda>d7. (log_ev [Ev_reorder_arrays_free p] (free_tx_queues p d7))"
  have log: "\<exists>es. ?e d7 = log_ev es d7" for d7
  proof -
    obtain es where "free_tx_queues p d7 = log_ev es d7"
      using free_tx_queues_log by blast
    then have "?e d7 = log_ev (es @ [Ev_reorder_arrays_free p]) d7"
      by (simp add: log_ev_def)
    then show ?thesis by blast
  qed
  define d7 where "d7 = free_empty_vdev (pvdev d p) (complete_wait (plocal d p) (pvdev d p)
    (upd_cpeer p (\<lambda>x. x\<lparr>pc_delete_in_progress := False\<rparr>)
      (log_ev [Ev_rx_peer_cleanup (pvdev d p) p]
        (upd_cvdev (pvdev d p) (\<lambda>x. x\<lparr>vc_peers := remove1 p (vc_peers x)\<rparr>)
          (ol_txrx_peer_find_hash_remove (clear_self_peer p d) p)))))"
  obtain es where es: "?e d7 = log_ev es d7" using log by blast
  have pd: "peer_delete p d = (log_ev es d7)\<lparr>pd_peers := (pd_peers d7)(p := None)\<rparr>"
    unfolding peer_delete_def Let_def pvdev_def [symmetric] plocal_def [symmetric] d7_def [symmetric] es
    by (simp add: peer_simps)
  have ps: "pd_peers d7 = (pd_peers d)(p := map_option (\<lambda>x. x\<lparr>pc_delete_in_progress := False\<rparr>) (pd_peers d p))"
    by (simp add: d7_def peer_simps)
  show "alive (peer_delete p d) q = (q \<noteq> p \<and> alive d q)"
    by (simp add: pd ps alive_def)
  show "q \<noteq> p \<Longrightarrow> pd_peers (peer_delete p d) q = pd_peers d q"
    by (simp add: pd ps)
  have idx: "ol_txrx_peer_find_hash_index (clear_self_peer p d) = ol_txrx_peer_find_hash_index d"
    by (rule ext, rule hash_index_cong) (simp_all add: peer_simps)
  have pm: "pmac (clear_self_peer p d) p = pmac d p"
    by (simp add: pmac_def peer_simps)
  show "hash_mask (peer_delete p d) = hash_mask d"
    "hash_idx_bits (peer_delete p d) = hash_idx_bits d"
    "peer_id_to_obj_map (peer_delete p d) = peer_id_to_obj_map d"
    "local_ids (peer_delete p d) = local_ids d"
    "max_peer_id (peer_delete p d) = max_peer_id d"
    "monitor_mode (peer_delete p d) = monitor_mode d"
    "self_peer (peer_delete p d) =
      (if self_peer d = Some p \<and> monitor_mode d then None else self_peer d)"
    "hash_bins (peer_delete p d) =
      (hash_bins d)[ol_txrx_peer_find_hash_index d (pmac d p) :=
         remove1 p (hash_bins d ! ol_txrx_peer_find_hash_index d (pmac d p))]"
    by (simp_all add: pd d7_def peer_simps idx pm)
qed

lemma peer_delete_vdevs:
  fixes d p
  assumes "alive d p" and "valive d (pvdev d p)"
  defines "v \<equiv> pvdev d p"
  shows "valive (peer_delete p d) w =
           (valive d w \<and> \<not> (w = v \<and> remove1 p (vpeers d v) = [] \<and> vpending d v))"
    and "valive (peer_delete p d) w \<Longrightarrow>
           vpeers (peer_delete p d) w = (if w = v then remove1 p (vpeers d v) else vpeers d w) \<and>
           vlast (peer_delete p d) w = vlast d w \<and> vlisted (peer_delete p d) w = vlisted d w \<and>
           vpending (peer_delete p d) w = vpending d w"
proof -
  define d6 where "d6 = complete_wait (plocal d p) v
    (upd_cpeer p (\<lambda>x. x\<lparr>pc_delete_in_progress := False\<rparr>)
      (log_ev [Ev_rx_peer_cleanup v p]
        (upd_cvdev v (\<lambda>x. x\<lparr>vc_peers := remove1 p (vc_peers x)\<rparr>)
          (ol_txrx_peer_find_hash_remove (clear_self_peer p d) p))))"
  define d7 where "d7 = free_empty_vdev v d6"
  obtain es where es: "free_tx_queues p d7 = log_ev es d7"
    using free_tx_queues_log by blast
  have pd: "peer_delete p d = (log_ev [Ev_reorder_arrays_free p] (log_ev es d7))
      \<lparr>pd_peers := (pd_peers (log_ev [Ev_reorder_arrays_free p] (log_ev es d7)))(p := None)\<rparr>"
    unfolding peer_delete_def Let_def pvdev_def [symmetric] plocal_def [symmetric] v_def [symmetric]
      d6_def [symmetric] d7_def [symmetric] es by simp
  have same: "pd_vdevs (peer_delete p d) = pd_vdevs d7"
    by (simp add: pd peer_simps)
  have base: "pd_vdevs (ol_txrx_peer_find_hash_remove (clear_self_peer p d) p) = pd_vdevs d"
    by (simp add: peer_simps)
  have v6: "valive d6 = valive d"
    "vpeers d6 w = (if w = v \<and> valive d v then remove1 p (vpeers d v) else vpeers d w)"
    "vlast d6 w = vlast d w" "vlisted d6 w = vlisted d w" "vpending d6 w = vpending d w" for w
    using vdev_views_cong [OF base]
    by (simp_all add: d6_def peer_simps) (simp_all add: views)
  have "valive d v" using assms(2) by (simp add: v_def)
  then show "valive (peer_delete p d) w =
      (valive d w \<and> \<not> (w = v \<and> remove1 p (vpeers d v) = [] \<and> vpending d v))"
    unfolding vdev_views_cong(1) [OF same] by (simp add: d7_def free_empty_vdev_valive v6)
  show "valive (peer_delete p d) w \<Longrightarrow>
      vpeers (peer_delete p d) w = (if w = v then remove1 p (vpeers d v) else vpeers d w) \<and>
      vlast (peer_delete p d) w = vlast d w \<and> vlisted (peer_delete p d) w = vlisted d w \<and>
      vpending (peer_delete p d) w = vpending d w"
    unfolding vdev_views_cong [OF same] d7_def using \<open>valive d v\<close>
    by (simp add: free_empty_vdev_valive(2-5) v6)
qed

lemma peer_delete_views:
  assumes "alive d p" and "valive d (pvdev d p)" and "q \<noteq> p"
  shows "pmac (peer_delete p d) q = pmac d q" "pvdev (peer_delete p d) q = pvdev d q"
    "pvalid (peer_delete p d) q = pvalid d q" "pref (peer_delete p d) q = pref d q"
    "pids (peer_delete p d) q = pids d q" "plocal (peer_delete p d) q = plocal d q"
  using peer_delete_fields(2) [OF assms] by (simp_all add: views)

text \<open>A peer without references is neither attached nor mapped, so no table keeps a pointer to it
  once it is off the hash table and its virtual device's list.\<close>

lemma hash_ok_dest:
  assumes "hash_ok d"
  shows "hash_sized d"
    and "i < length (hash_bins d) \<Longrightarrow> distinct (hash_bins d ! i)"
    and "i < length (hash_bins d) \<Longrightarrow> p \<in> set (hash_bins d ! i) \<Longrightarrow>
           alive d p \<and> ol_txrx_peer_find_hash_index d (pmac d p) = i"
    and "alive d p \<Longrightarrow> p \<in> set (hash_bins d ! ol_txrx_peer_find_hash_index d (pmac d p))"
    and "ol_txrx_peer_find_hash_index d m < length (hash_bins d)"
  using assms unfolding hash_ok_def by (blast, blast, blast, blast, blast intro: hash_index_less)

lemma vdevs_ok_dest:
  assumes "vdevs_ok d"
  shows "valive d v \<Longrightarrow> distinct (vpeers d v)"
    and "valive d v \<Longrightarrow> p \<in> set (vpeers d v) \<Longrightarrow> alive d p \<and> pvdev d p = v"
    and "valive d v \<Longrightarrow> vlast d v = Some p \<Longrightarrow> alive d p \<and> pvalid d p \<and> pvdev d p = v"
    and "valive d v \<Longrightarrow> vpending d v = (\<not> vlisted d v)"
    and "valive d v \<Longrightarrow> vpending d v \<Longrightarrow> vpeers d v \<noteq> []"
    and "alive d p \<Longrightarrow> valive d (pvdev d p)"
    and "alive d p \<Longrightarrow> p \<in> set (vpeers d (pvdev d p))"
  using assms unfolding vdevs_ok_def by blast+

lemma locals_ok_dest:
  assumes "locals_ok d"
  shows "lp_inv (local_ids d)"
    and "i < OL_TXRX_NUM_LOCAL_PEER_IDS \<Longrightarrow> lp_map (local_ids d) ! i = Some p \<Longrightarrow>
           alive d p \<and> pvalid d p \<and> plocal d p = i"
    and "alive d p \<Longrightarrow> pvalid d p \<Longrightarrow> plocal d p < OL_TXRX_NUM_LOCAL_PEER_IDS \<Longrightarrow>
           lp_map (local_ids d) ! plocal d p = Some p"
  using assms unfolding locals_ok_def by blast+

lemma refs_ok_dest:
  assumes "refs_ok held d"
  shows "alive d p \<Longrightarrow> pref d p = int (peer_refs held d p)"
    and "alive d p \<Longrightarrow> 0 < peer_refs held d p"
    and "alive d p \<Longrightarrow> length (pids d p) = MAX_NUM_PEER_ID_PER_PEER"
    and "0 < held p \<Longrightarrow> alive d p"
  using assms unfolding refs_ok_def by blast+

lemma refs_okI:
  assumes "\<And>p. alive d p \<Longrightarrow> pref d p = int (peer_refs held d p)"
    and "\<And>p. alive d p \<Longrightarrow> 0 < peer_refs held d p"
    and "\<And>p. alive d p \<Longrightarrow> length (pids d p) = MAX_NUM_PEER_ID_PER_PEER"
    and "\<And>p. 0 < held p \<Longrightarrow> alive d p"
  shows "refs_ok held d"
  unfolding refs_ok_def using assms by blast

lemma hash_ok_delete:
  assumes ok: "hash_ok d" "vdevs_ok d" and p: "alive d p"
  shows "hash_ok (peer_delete p d)"
proof -
  let ?d = "peer_delete p d"
  let ?i = "ol_txrx_peer_find_hash_index d"
  note H = hash_ok_dest [OF ok(1)]
  note v = vdevs_ok_dest(6) [OF ok(2) p]
  note F = peer_delete_fields [OF p v]
  note W = peer_delete_views [OF p v]
  have idx: "ol_txrx_peer_find_hash_index ?d = ?i"
    by (rule ext, rule hash_index_cong) (simp_all only: F)
  have len: "length (hash_bins ?d) = length (hash_bins d)"
    by (simp only: F length_list_update)
  have bin: "hash_bins ?d ! i =
      (if i = ?i (pmac d p) then remove1 p (hash_bins d ! i) else hash_bins d ! i)"
    if "i < length (hash_bins d)" for i
    unfolding F(10) using that by (simp add: nth_list_update)
  have mem: "q \<in> set (hash_bins ?d ! i) \<longleftrightarrow> q \<in> set (hash_bins d ! i) \<and> q \<noteq> p"
    if i: "i < length (hash_bins d)" for i q
  proof (cases "i = ?i (pmac d p)")
    case True
    then show ?thesis
      unfolding bin [OF i] using set_remove1_eq [OF H(2) [OF i], of p] by auto
  next
    case False
    then have "p \<notin> set (hash_bins d ! i)" using H(3) [OF i] by blast
    with False show ?thesis unfolding bin [OF i] by auto
  qed
  show ?thesis
    unfolding hash_ok_def idx len
  proof (intro conjI allI impI)
    show "hash_sized ?d" using H(1) unfolding hash_sized_def F(3,4) len .
    show "distinct (hash_bins ?d ! i)" if "i < length (hash_bins d)" for i
      unfolding bin [OF that] using H(2) [OF that] by auto
    fix i q
    assume i: "i < length (hash_bins d)" and "q \<in> set (hash_bins ?d ! i)"
    then have q: "q \<in> set (hash_bins d ! i)" "q \<noteq> p" using mem by blast+
    show "alive ?d q" using H(3) [OF i q(1)] q(2) by (simp only: F simp_thms)
    show "?i (pmac ?d q) = i" using H(3) [OF i q(1)] by (simp only: W [OF q(2)])
  next
    fix q assume "alive ?d q"
    then have q: "alive d q" "q \<noteq> p" by (simp_all only: F simp_thms)
    show "q \<in> set (hash_bins ?d ! ?i (pmac ?d q))"
      unfolding W [OF q(2)] mem [OF H(5)] using H(4) [OF q(1)] q(2) by blast
  qed
qed

lemma vdevs_ok_delete:
  assumes ok: "vdevs_ok d" and p: "alive d p" and invalid: "\<not> pvalid d p"
  shows "vdevs_ok (peer_delete p d)"
proof -
  let ?d = "peer_delete p d"
  note D = vdevs_ok_dest [OF ok]
  note v = D(6) [OF p]
  note F = peer_delete_fields [OF p v]
  note V = peer_delete_vdevs [OF p v]
  note W = peer_delete_views [OF p v]
  have old: "valive d w" if "valive ?d w" for w
    using that by (simp only: V simp_thms)
  have mem: "q \<in> set (vpeers ?d w) \<longleftrightarrow> q \<in> set (vpeers d w) \<and> q \<noteq> p" if w: "valive ?d w" for w q
  proof (cases "w = pvdev d p")
    case True
    then show ?thesis using V(2) [OF w] D(1) [OF v] by (simp add: set_remove1_eq)
  next
    case False
    then have "p \<notin> set (vpeers d w)" using D(2) [OF old [OF w]] by blast
    with False V(2) [OF w] show ?thesis by auto
  qed
  show ?thesis
    unfolding vdevs_ok_def
  proof (intro conjI allI impI)
    fix w assume w: "valive ?d w"
    note wd = old [OF w]
    note V2 = V(2) [OF w]
    show "distinct (vpeers ?d w)" using V2 D(1) [OF wd] D(1) [OF v] by simp
    show "vpending ?d w = (\<not> vlisted ?d w)" using V2 D(4) [OF wd] by simp
    show "vpeers ?d w \<noteq> []" if "vpending ?d w"
      using that V2 D(5) [OF wd] w unfolding V(1) by auto
    fix q
    show "alive ?d q" "pvdev ?d q = w" if "q \<in> set (vpeers ?d w)"
    proof -
      have q: "q \<in> set (vpeers d w)" "q \<noteq> p" using that mem [OF w] by blast+
      show "alive ?d q" "pvdev ?d q = w"
        using D(2) [OF wd q(1)] q(2) by (simp_all only: F W simp_thms not_False_eq_True)
    qed
    show "alive ?d q" "pvalid ?d q" "pvdev ?d q = w" if "vlast ?d w = Some q"
    proof -
      have q: "alive d q" "pvalid d q" "pvdev d q = w" using D(3) [OF wd] that V2 by auto
      then have "q \<noteq> p" using invalid by auto
      then show "alive ?d q" "pvalid ?d q" "pvdev ?d q = w"
        using q by (simp_all add: F(1) W)
    qed
  next
    fix q assume "alive ?d q"
    then have q: "alive d q" "q \<noteq> p" by (simp_all only: F simp_thms)
    have mq: "q \<in> set (vpeers d (pvdev d q))" by (rule D(7) [OF q(1)])
    have "remove1 p (vpeers d (pvdev d q)) \<noteq> []"
      using mq q(2) by (metis in_set_remove1 empty_iff list.set(1))
    then show a: "valive ?d (pvdev ?d q)"
      unfolding W [OF q(2)] V(1) using D(6) [OF q(1)] by auto
    show "q \<in> set (vpeers ?d (pvdev ?d q))"
      unfolding mem [OF a] unfolding W [OF q(2)] using mq q(2) by blast
  qed
qed

lemma locals_ok_delete:
  assumes ok: "locals_ok d" "vdevs_ok d" and p: "alive d p" and invalid: "\<not> pvalid d p"
  shows "locals_ok (peer_delete p d)"
proof -
  note v = vdevs_ok_dest(6) [OF ok(2) p]
  note F = peer_delete_fields [OF p v]
  note W = peer_delete_views [OF p v]
  show ?thesis
    unfolding locals_ok_def F(6)
  proof (intro conjI allI impI)
    show "lp_inv (local_ids d)" by (rule locals_ok_dest(1) [OF ok(1)])
    fix i q
    assume "i < OL_TXRX_NUM_LOCAL_PEER_IDS" and "lp_map (local_ids d) ! i = Some q"
    from locals_ok_dest(2) [OF ok(1) this]
    have q: "alive d q" "pvalid d q" "plocal d q = i" by blast+
    then have "q \<noteq> p" using invalid by auto
    then show "alive (peer_delete p d) q" "pvalid (peer_delete p d) q" "plocal (peer_delete p d) q = i"
      using q unfolding F(1) by (simp_all only: W simp_thms not_False_eq_True)
  next
    fix q
    assume a: "alive (peer_delete p d) q" and b: "pvalid (peer_delete p d) q"
      "plocal (peer_delete p d) q < OL_TXRX_NUM_LOCAL_PEER_IDS"
    from a have q: "alive d q" "q \<noteq> p" by (simp_all only: F simp_thms)
    show "lp_map (local_ids d) ! plocal (peer_delete p d) q = Some q"
      using locals_ok_dest(3) [OF ok(1) q(1)] b unfolding W [OF q(2)] by blast
  qed
qed

lemma ctl_inv_delete:
  assumes tabs: "hash_ok d" "vdevs_ok d" "idmap_ok d" "locals_ok d"
    and p: "alive d p" "peer_refs held d p = 0"
    and refs: "\<And>q. alive d q \<Longrightarrow> q \<noteq> p \<Longrightarrow> pref d q = int (peer_refs held d q) \<and>
        0 < peer_refs held d q \<and> length (pids d q) = MAX_NUM_PEER_ID_PER_PEER"
    and held: "\<And>q. 0 < held q \<Longrightarrow> alive d q"
  shows "ctl_inv held (peer_delete p d)"
proof -
  let ?d = "peer_delete p d"
  note v = vdevs_ok_dest(6) [OF tabs(2) p(1)]
  note F = peer_delete_fields [OF p(1) v]
  note W = peer_delete_views [OF p(1) v]
  have p0: "\<not> pvalid d p" "Some p \<notin> set (peer_id_to_obj_map d)" "held p = 0"
    using p(2) by (auto simp: peer_refs_def count_list_0_iff split: if_splits)
  have R: "peer_refs held ?d q = peer_refs held d q" if "q \<noteq> p" for q
    unfolding peer_refs_def F(5) W [OF that] ..
  have "idmap_ok ?d"
    using tabs(3) p0(2) unfolding idmap_ok_def F by auto
  moreover have "refs_ok held ?d"
    unfolding refs_ok_def
  proof (intro conjI allI impI)
    fix q assume "alive ?d q"
    then have q: "alive d q" "q \<noteq> p" by (simp_all only: F simp_thms)
    show "pref ?d q = int (peer_refs held ?d q)" "0 < peer_refs held ?d q"
      "length (pids ?d q) = MAX_NUM_PEER_ID_PER_PEER"
      using refs [OF q] unfolding R [OF q(2)] W [OF q(2)] by blast+
  next
    fix q assume "0 < held q"
    then show "alive ?d q" using held p0(3) unfolding F(1) by auto
  qed
  ultimately show ?thesis
    unfolding ctl_inv_def
    using hash_ok_delete [OF tabs(1,2) p(1)] vdevs_ok_delete [OF tabs(2) p(1) p0(1)]
      locals_ok_delete [OF tabs(4,2) p(1) p0(1)] by blast
qed

text \<open>The caller gives back a reference it holds.\<close>

lemma unref_delete_dec:
  "pref d p \<noteq> 0 \<Longrightarrow> pref d p \<noteq> 1 \<Longrightarrow> alive d p \<Longrightarrow>
   ol_txrx_peer_unref_delete p d = ref_dec p d"
  by (simp add: ol_txrx_peer_unref_delete_def ref_dec_def Let_def pref_def alive_def upd_cpeer_fields(12))
    auto

lemma unref_delete_last:
  "pref d p = 1 \<Longrightarrow> alive d p \<Longrightarrow> ol_txrx_peer_unref_delete p d = peer_delete p (ref_dec p d)"
  by (auto simp: ol_txrx_peer_unref_delete_def ref_dec_def Let_def pref_def alive_def upd_cpeer_fields(12))

text \<open>The views after the count of one peer went down by one.\<close>

lemma ref_dec_views:
  shows "pvalid (ref_dec p d) = pvalid d" "pids (ref_dec p d) = pids d" "pmac (ref_dec p d) = pmac d"
    "pvdev (ref_dec p d) = pvdev d" "plocal (ref_dec p d) = plocal d" "alive (ref_dec p d) = alive d"
    "peer_id_to_obj_map (ref_dec p d) = peer_id_to_obj_map d"
    "alive d p \<Longrightarrow> pref (ref_dec p d) q = (if q = p then pref d q - 1 else pref d q)"
  by (cases "pd_peers d p"; auto simp: ref_dec_def upd_cpeer_def views fun_eq_iff)+

lemma ref_dec_refs: "peer_refs held (ref_dec p d) q = peer_refs held d q"
  unfolding peer_refs_def ref_dec_views ..

lemma ref_dec_tabs:
  "hash_ok (ref_dec p d) = hash_ok d" "vdevs_ok (ref_dec p d) = vdevs_ok d"
  "idmap_ok (ref_dec p d) = idmap_ok d" "locals_ok (ref_dec p d) = locals_ok d"
proof -
  have "peer_id_to_obj_map (ref_dec p d) = peer_id_to_obj_map d" "hash_bins (ref_dec p d) = hash_bins d"
    "hash_mask (ref_dec p d) = hash_mask d" "hash_idx_bits (ref_dec p d) = hash_idx_bits d"
    "local_ids (ref_dec p d) = local_ids d" "self_peer (ref_dec p d) = self_peer d"
    "max_peer_id (ref_dec p d) = max_peer_id d" "monitor_mode (ref_dec p d) = monitor_mode d"
    "valive (ref_dec p d) = valive d" "vpeers (ref_dec p d) = vpeers d" "vlast (ref_dec p d) = vlast d"
    "vlisted (ref_dec p d) = vlisted d" "vpending (ref_dec p d) = vpending d"
    by (simp_all add: ref_dec_def peer_simps)
  note V = ref_dec_views(6,3,4,1,5) this(9-13,2-4,1,5-8)
  show "hash_ok (ref_dec p d) = hash_ok d" by (rule ctl_inv_ref_views(1) [OF V])
  show "vdevs_ok (ref_dec p d) = vdevs_ok d" by (rule ctl_inv_ref_views(2) [OF V])
  show "idmap_ok (ref_dec p d) = idmap_ok d" by (rule ctl_inv_ref_views(3) [OF V])
  show "locals_ok (ref_dec p d) = locals_ok d" by (rule ctl_inv_ref_views(4) [OF V])
qed

lemma ctl_inv_release:
  assumes inv: "ctl_inv (held(p := Suc (held p))) d"
  shows "ctl_inv held (ol_txrx_peer_unref_delete p d)"
proof -
  let ?h = "held(p := Suc (held p))"
  note tabs = inv [unfolded ctl_inv_def]
  note R = refs_ok_dest [OF tabs [THEN conjunct2, THEN conjunct2, THEN conjunct2, THEN conjunct2]]
  have al: "alive d p" by (rule R(4)) simp
  have ref: "peer_refs ?h d q = (if q = p then Suc (peer_refs held d q) else peer_refs held d q)" for q
    by (simp add: peer_refs_def)
  have cnt: "pref d p = int (peer_refs held d p) + 1"
    using R(1) [OF al] by (simp add: ref)
  have others: "pref (ref_dec p d) q = int (peer_refs held d q)" if "alive d q" for q
    using R(1) [OF that] cnt by (simp add: ref_dec_views(8) [OF al] ref split: if_splits)
  have pos: "0 < peer_refs held d q" if "alive d q" "q \<noteq> p" for q
    using R(2) [OF that(1)] that(2) by (simp add: ref)
  have held: "alive d q" if "0 < held q" for q
    using R(4) [of q] that by (cases "q = p") auto
  show ?thesis
  proof (cases "peer_refs held d p = 0")
    case False
    then have eq: "ol_txrx_peer_unref_delete p d = ref_dec p d"
      using cnt by (intro unref_delete_dec al) simp_all
    have "refs_ok held (ref_dec p d)"
      using others pos held False R(3)
      by (intro refs_okI) (auto simp: ref_dec_views(2,6) ref_dec_refs)
    then show ?thesis
      using tabs unfolding eq ctl_inv_def ref_dec_tabs by blast
  next
    case True
    have eq: "ol_txrx_peer_unref_delete p d = peer_delete p (ref_dec p d)"
      using cnt True by (intro unref_delete_last al) simp
    show ?thesis
      unfolding eq
      by (rule ctl_inv_delete)
        (use tabs al True others pos held R(3) in
          \<open>simp_all only: ref_dec_tabs ref_dec_views(2,6) ref_dec_refs simp_thms\<close>)
  qed
qed

end
