(* ===== verification/PeerOps.thy ===== *)
theory PeerOps
  imports PeerInv
begin

text \<open>
  Every operation on the peer tables keeps the invariant of \<open>PeerInv\<close>: the lookups move a
  reference to the caller, PEER_MAP and PEER_UNMAP move one between the caller and the map, detach
  turns the reference of the attachment into one that is released at once.
\<close>

section \<open>Updates that do not matter to the counts\<close>

definition inert :: "(ctl_peer \<Rightarrow> ctl_peer) \<Rightarrow> bool" where
  "inert f = (\<forall>x. pc_mac (f x) = pc_mac x \<and> pc_vdev (f x) = pc_vdev x \<and> pc_valid (f x) = pc_valid x \<and>
     pc_ref_cnt (f x) = pc_ref_cnt x \<and> pc_peer_ids (f x) = pc_peer_ids x \<and>
     pc_local_id (f x) = pc_local_id x)"

lemma ctl_inv_inert: "inert f \<Longrightarrow> ctl_inv held (upd_cpeer p f d) = ctl_inv held d"
  by (rule ctl_inv_upd_cpeer) (simp_all add: inert_def)

lemma upd_cpeer_comp: "upd_cpeer p f (upd_cpeer p g d) = upd_cpeer p (f \<circ> g) d"
  by (simp add: upd_cpeer_def option.map_comp)

lemma upd_cpeer_log: "upd_cpeer p f (log_ev es d) = log_ev es (upd_cpeer p f d)"
  by (simp add: upd_cpeer_def log_ev_def)

lemma upd_cpeer_id [simp]: "upd_cpeer p (\<lambda>x. x) d = d"
  by (simp add: upd_cpeer_def option.map_ident)

lemma log_ev_Nil [simp]: "log_ev [] d = d"
  by (simp add: log_ev_def)

text \<open>An operation that borrows a peer for the time it runs.\<close>

definition borrows :: "(ctl_pdev \<Rightarrow> ctl_pdev) \<Rightarrow> bool" where
  "borrows g = (\<forall>d. \<exists>p f es. inert f \<and> g d = log_ev es (upd_cpeer p f d))"

lemma ctl_inv_borrows: "borrows g \<Longrightarrow> ctl_inv held (g d) = ctl_inv held d"
  unfolding borrows_def by (metis ctl_inv_inert ctl_inv_log)

lemma borrow_idle: "\<exists>p f es. inert f \<and> d = log_ev es (upd_cpeer p f d)"
  by (intro exI [of _ 0] exI [of _ "\<lambda>x. x"] exI [of _ "[]"]) (simp add: inert_def)

lemma ref_dec_form: "ref_dec p d = upd_cpeer p (\<lambda>x. x\<lparr>pc_ref_cnt := pc_ref_cnt x - 1\<rparr>) d"
  by (simp add: ref_dec_def)

lemma borrow_one:
  assumes "inert f"
  shows "\<exists>q g es'. inert g \<and>
    ref_dec p (log_ev es (upd_cpeer p f (upd_cpeer p (\<lambda>x. x\<lparr>pc_ref_cnt := pc_ref_cnt x + 1\<rparr>) d))) =
    log_ev es' (upd_cpeer q g d)"
proof (intro exI conjI)
  let ?g = "(\<lambda>x. x\<lparr>pc_ref_cnt := pc_ref_cnt x - 1\<rparr>) \<circ> (f \<circ> (\<lambda>x. x\<lparr>pc_ref_cnt := pc_ref_cnt x + 1\<rparr>))"
  show "inert ?g" using assms by (simp add: inert_def)
  show "ref_dec p (log_ev es (upd_cpeer p f (upd_cpeer p (\<lambda>x. x\<lparr>pc_ref_cnt := pc_ref_cnt x + 1\<rparr>) d))) =
      log_ev es (upd_cpeer p ?g d)"
    by (simp add: ref_dec_form upd_cpeer_log upd_cpeer_comp)
qed

lemma ref_dec_upd_after:
  "upd_cpeer p f (ref_dec p d) = upd_cpeer p (f \<circ> (\<lambda>x. x\<lparr>pc_ref_cnt := pc_ref_cnt x - 1\<rparr>)) d"
  by (simp add: ref_dec_form upd_cpeer_comp)

lemma hash_find_cases:
  obtains (none) "ol_txrx_peer_find_hash_find d mac cv = (None, d)"
  | (found) p where "ol_txrx_peer_find_hash_find d mac cv =
        (Some p, upd_cpeer p (\<lambda>x. x\<lparr>pc_ref_cnt := pc_ref_cnt x + 1\<rparr>) d)"
      and "p \<in> set (hash_bins d ! ol_txrx_peer_find_hash_index d mac)" and "pmac d p = mac"
      and "cv \<longrightarrow> pvalid d p"
proof -
  let ?P = "\<lambda>p. ol_txrx_peer_find_mac_addr_cmp mac (pc_mac (peer_at d p)) = 0 \<and>
      (\<not> cv \<or> pc_valid (peer_at d p))"
  let ?b = "hash_bins d ! ol_txrx_peer_find_hash_index d mac"
  show ?thesis
  proof (cases "find ?P ?b")
    case None
    then show ?thesis
      by (intro none) (simp only: ol_txrx_peer_find_hash_find_def take_ref_def option.case)
  next
    case (Some p)
    then have "p \<in> set ?b" "?P p" by (auto simp: find_Some_iff)
    then show ?thesis
      using found [of p] Some
      by (simp only: ol_txrx_peer_find_hash_find_def take_ref_def option.case mac_addr_cmp_0
          pmac_def pvalid_def) simp
  qed
qed

lemma borrows_state_update: "borrows (ol_txrx_peer_state_update mac state)"
  unfolding borrows_def
proof
  fix d
  show "\<exists>p f es. inert f \<and> ol_txrx_peer_state_update mac state d = log_ev es (upd_cpeer p f d)"
  proof (cases rule: hash_find_cases [of d mac True])
    case none
    then show ?thesis using borrow_idle [of d] by (simp add: ol_txrx_peer_state_update_def)
  next
    case (found p)
    let ?d1 = "upd_cpeer p (\<lambda>x. x\<lparr>pc_ref_cnt := pc_ref_cnt x + 1\<rparr>) d"
    show ?thesis
    proof (cases "pc_state (peer_at ?d1 p) = state")
      case True
      then have "ol_txrx_peer_state_update mac state d = ref_dec p (log_ev [] (upd_cpeer p (\<lambda>x. x) ?d1))"
        by (simp add: ol_txrx_peer_state_update_def found(1))
      then show ?thesis using borrow_one [of "\<lambda>x. x" p "[]" d] by (simp add: inert_def)
    next
      case False
      define es where "es = (if host_addba d \<and> state = ol_txrx_peer_state_auth
          then Ev_peer_pause p # map (Ev_peer_tid_unpause p) [OL_TX_NUM_QOS_TIDS..<OL_TX_NUM_TIDS]
          else [])"
      let ?f = "\<lambda>x. x\<lparr>pc_tx_filter := Some (state_filter state)\<rparr>"
      let ?s = "\<lambda>x. x\<lparr>pc_state := state\<rparr>"
      have "ol_txrx_peer_state_update mac state d = upd_cpeer p ?s (ref_dec p (log_ev es (upd_cpeer p ?f ?d1)))"
        using False by (simp add: ol_txrx_peer_state_update_def found(1) es_def Let_def peer_simps)
      also have "\<dots> = log_ev es (upd_cpeer p (?s \<circ> ((\<lambda>x. x\<lparr>pc_ref_cnt := pc_ref_cnt x - 1\<rparr>) \<circ>
          (?f \<circ> (\<lambda>x. x\<lparr>pc_ref_cnt := pc_ref_cnt x + 1\<rparr>)))) d)" (is "_ = log_ev es (upd_cpeer p ?g d)")
        by (simp only: ref_dec_form upd_cpeer_log upd_cpeer_comp)
      finally have "ol_txrx_peer_state_update mac state d = log_ev es (upd_cpeer p ?g d)" .
      moreover have "inert ?g" by (simp add: inert_def)
      ultimately show ?thesis by blast
    qed
  qed
qed

lemma borrows_update: "borrows (ol_txrx_peer_update mac param)"
  unfolding borrows_def
proof
  fix d
  show "\<exists>p f es. inert f \<and> ol_txrx_peer_update mac param d = log_ev es (upd_cpeer p f d)"
  proof (cases rule: hash_find_cases [of d mac True])
    case none
    then show ?thesis using borrow_idle [of d] by (simp add: ol_txrx_peer_update_def)
  next
    case (found p)
    let ?d1 = "upd_cpeer p (\<lambda>x. x\<lparr>pc_ref_cnt := pc_ref_cnt x + 1\<rparr>) d"
    have "\<exists>f es. inert f \<and> ol_txrx_peer_update mac param d = ref_dec p (log_ev es (upd_cpeer p f ?d1))"
    proof (cases param)
      case (Peer_update_qos_capable q)
      then show ?thesis
        by (intro exI [of _ "\<lambda>x. x\<lparr>pc_qos_capable := q\<rparr>"]
              exI [of _ "[Ev_htt_peer_qos_update (pc_peer_ids (peer_at ?d1 p) ! 0) q]"])
          (simp add: ol_txrx_peer_update_def found(1) inert_def)
    next
      case (Peer_update_uapsdMask m)
      then show ?thesis
        by (intro exI [of _ "\<lambda>x. x\<lparr>pc_uapsd_mask := m\<rparr>"]
              exI [of _ "[Ev_htt_peer_uapsdmask_update (pc_peer_ids (peer_at ?d1 p) ! 0) m]"])
          (simp add: ol_txrx_peer_update_def found(1) inert_def)
    next
      case (Peer_update_peer_security t)
      then show ?thesis
        by (intro exI [of _ "\<lambda>x. x\<lparr>pc_sec_ucast := upd_sec_type t, pc_sec_mcast := upd_sec_type t\<rparr>"]
              exI [of _ "[]"])
          (simp add: ol_txrx_peer_update_def found(1) inert_def)
    next
      case Peer_update_unknown
      then show ?thesis
        by (intro exI [of _ "\<lambda>x. x"] exI [of _ "[]"])
          (simp add: ol_txrx_peer_update_def found(1) inert_def)
    qed
    then show ?thesis using borrow_one by metis
  qed
qed

section \<open>References of the callers\<close>

lemma count_list_update:
  "i < length xs \<Longrightarrow> count_list (xs[i := y]) z + (if xs ! i = z then 1 else 0) =
   count_list xs z + (if y = z then 1 else 0)"
proof (induction xs arbitrary: i)
  case (Cons a xs)
  show ?case
  proof (cases i)
    case 0
    then show ?thesis by auto
  next
    case (Suc n)
    then show ?thesis using Cons.IH [of n] Cons.prems by (auto split: if_splits)
  qed
qed simp

lemma tabs_map_update:
  "hash_ok (d\<lparr>peer_id_to_obj_map := m\<rparr>) = hash_ok d"
  "vdevs_ok (d\<lparr>peer_id_to_obj_map := m\<rparr>) = vdevs_ok d"
  "locals_ok (d\<lparr>peer_id_to_obj_map := m\<rparr>) = locals_ok d"
  "alive (d\<lparr>peer_id_to_obj_map := m\<rparr>) = alive d"
  "pref (d\<lparr>peer_id_to_obj_map := m\<rparr>) = pref d"
  "pids (d\<lparr>peer_id_to_obj_map := m\<rparr>) = pids d"
  "pvalid (d\<lparr>peer_id_to_obj_map := m\<rparr>) = pvalid d"
  by (simp_all add: hash_ok_def hash_sized_def vdevs_ok_def locals_ok_def views hash_index_record
      fun_eq_iff)

lemma ctl_inv_dest:
  assumes "ctl_inv held d"
  shows "hash_ok d" "vdevs_ok d" "idmap_ok d" "locals_ok d" "refs_ok held d"
  using assms unfolding ctl_inv_def by blast+

lemma refs_ok_shift:
  assumes "refs_ok held d" and "\<And>q. peer_refs held' d' q = peer_refs held d q"
    and "alive d' = alive d" "pref d' = pref d" "pids d' = pids d"
    and "\<And>q. 0 < held' q \<Longrightarrow> alive d q"
  shows "refs_ok held' d'"
  using assms by (simp add: refs_ok_def)

lemma ctl_inv_map:
  assumes inv: "ctl_inv (held(p := Suc (held p))) d" and i: "i \<le> max_peer_id d"
    and free: "peer_id_to_obj_map d ! i = None"
  shows "ctl_inv held (d\<lparr>peer_id_to_obj_map := (peer_id_to_obj_map d)[i := Some p]\<rparr>)"
    (is "ctl_inv held ?d")
proof -
  note I = ctl_inv_dest [OF inv]
  have len: "i < length (peer_id_to_obj_map d)" using I(3) i by (simp add: idmap_ok_def)
  have al: "alive d p" by (rule refs_ok_dest(4) [OF I(5)]) simp
  have "idmap_ok ?d"
    using I(3) al set_update_subset_insert [of "peer_id_to_obj_map d" i "Some p"]
    by (auto simp: idmap_ok_def tabs_map_update)
  moreover have "refs_ok held ?d"
  proof (rule refs_ok_shift [OF I(5)])
    show "peer_refs held ?d q = peer_refs (held(p := Suc (held p))) d q" for q
      using count_list_update [OF len, of "Some p" "Some q"] free
      by (simp add: peer_refs_def tabs_map_update split: if_splits)
    show "alive d q" if "0 < held q" for q
      using refs_ok_dest(4) [OF I(5), of q] that by (cases "q = p") auto
  qed (simp_all add: tabs_map_update)
  ultimately show ?thesis using I unfolding ctl_inv_def tabs_map_update by blast
qed

lemma ctl_inv_unmap:
  assumes inv: "ctl_inv held d" and i: "i \<le> max_peer_id d"
    and p: "peer_id_to_obj_map d ! i = Some p"
  shows "ctl_inv (held(p := Suc (held p)))
           (d\<lparr>peer_id_to_obj_map := (peer_id_to_obj_map d)[i := None]\<rparr>)"
    (is "ctl_inv ?held ?d")
proof -
  note I = ctl_inv_dest [OF inv]
  have len: "i < length (peer_id_to_obj_map d)" using I(3) i by (simp add: idmap_ok_def)
  have mem: "Some p \<in> set (peer_id_to_obj_map d)" using len p by (metis nth_mem)
  then have al: "alive d p" using I(3) by (auto simp: idmap_ok_def)
  have "idmap_ok ?d"
    using I(3) set_update_subset_insert [of "peer_id_to_obj_map d" i None]
    by (auto simp: idmap_ok_def tabs_map_update)
  moreover have "refs_ok ?held ?d"
  proof (rule refs_ok_shift [OF I(5)])
    show "peer_refs ?held ?d q = peer_refs held d q" for q
      using count_list_update [OF len, of None "Some q"] p
      by (auto simp: peer_refs_def tabs_map_update split: if_splits)
    show "alive d q" if "0 < ?held q" for q
      using refs_ok_dest(4) [OF I(5), of q] that al by (cases "q = p") auto
  qed (simp_all add: tabs_map_update)
  ultimately show ?thesis using I unfolding ctl_inv_def tabs_map_update by blast
qed

lemma ctl_inv_unmap_none:
  assumes inv: "ctl_inv held d" and "peer_id_to_obj_map d ! i = None"
  shows "ctl_inv held (d\<lparr>peer_id_to_obj_map := (peer_id_to_obj_map d)[i := None]\<rparr>)"
  using assms by (metis (no_types) list_update_id ctl_pdev.surjective ctl_pdev.update_convs(6))

lemma ctl_inv_found:
  assumes "ctl_inv held d" and "p \<in> set (hash_bins d ! ol_txrx_peer_find_hash_index d mac)"
  shows "alive d p"
  using hash_ok_dest(3) [OF ctl_inv_dest(1) [OF assms(1)] hash_ok_dest(5) [OF ctl_inv_dest(1) [OF assms(1)]]]
    assms(2) by blast

lemma find_in_set: "find P xs = Some x \<Longrightarrow> x \<in> set xs"
  by (auto simp: find_Some_iff)

text \<open>A lookup by address, and the reference it leaves with the caller.\<close>

definition hold :: "nat option \<Rightarrow> (nat \<Rightarrow> nat) \<Rightarrow> nat \<Rightarrow> nat" where
  "hold r held = (case r of None \<Rightarrow> held | Some p \<Rightarrow> held(p := Suc (held p)))"

lemma ctl_inv_take:
  assumes "ctl_inv held d" and "\<And>p. r = Some p \<Longrightarrow> alive d p"
  shows "ctl_inv (hold (fst (take_ref r d)) held) (snd (take_ref r d))"
  using assms ctl_inv_take_ref [of held d]
  by (cases r) (simp_all add: take_ref_def hold_def)

lemma ctl_inv_hash_find:
  assumes "ctl_inv held d"
  shows "ctl_inv (hold (fst (ol_txrx_peer_find_hash_find d mac cv)) held)
           (snd (ol_txrx_peer_find_hash_find d mac cv))"
  unfolding ol_txrx_peer_find_hash_find_def
  by (rule ctl_inv_take [OF assms]) (drule find_in_set, erule ctl_inv_found [OF assms])

lemma ctl_inv_vdev_find_hash:
  assumes "ctl_inv held d"
  shows "ctl_inv (hold (fst (ol_txrx_peer_vdev_find_hash d v mac cv)) held)
           (snd (ol_txrx_peer_vdev_find_hash d v mac cv))"
  unfolding ol_txrx_peer_vdev_find_hash_def
  by (rule ctl_inv_take [OF assms]) (drule find_in_set, erule ctl_inv_found [OF assms])

lemma ctl_inv_assoc_find:
  assumes "ctl_inv held d" and "valive d v"
  shows "ctl_inv (hold (fst (ol_txrx_assoc_peer_find v d)) held) (snd (ol_txrx_assoc_peer_find v d))"
  unfolding ol_txrx_assoc_peer_find_def
proof (rule ctl_inv_take [OF assms(1)])
  fix p
  assume "(case vc_last_real (vdev_at d v) of
       Some p \<Rightarrow> if pc_peer_ids (peer_at d p) ! 0 \<noteq> HTT_INVALID_PEER then Some p else None
     | None \<Rightarrow> None) = Some p"
  then have "vlast d v = Some p" by (auto simp: vlast_def split: option.splits if_splits)
  then show "alive d p"
    using vdevs_ok_dest(3) [OF ctl_inv_dest(2) [OF assms(1)] assms(2)] by blast
qed

lemma ctl_inv_find_by_addr:
  assumes "ctl_inv held d"
  shows "ctl_inv held (snd (ol_txrx_peer_find_by_addr mac d))"
proof (cases rule: hash_find_cases [of d mac False])
  case none
  then show ?thesis using assms by (simp add: ol_txrx_peer_find_by_addr_def)
next
  case (found p)
  then have "ctl_inv (held(p := Suc (held p))) (upd_cpeer p (\<lambda>x. x\<lparr>pc_ref_cnt := pc_ref_cnt x + 1\<rparr>) d)"
    using ctl_inv_hash_find [OF assms, of mac False] by (simp add: hold_def)
  then show ?thesis
    by (simp add: ol_txrx_peer_find_by_addr_def found(1) ctl_inv_release)
qed

lemma borrows_find_peer: "borrows (\<lambda>d. snd (ol_txrx_find_peer_by_addr mac d))"
  unfolding borrows_def
proof
  fix d
  show "\<exists>p f es. inert f \<and> snd (ol_txrx_find_peer_by_addr mac d) = log_ev es (upd_cpeer p f d)"
  proof (cases rule: hash_find_cases [of d mac True])
    case none
    then show ?thesis using borrow_idle [of d] by (simp add: ol_txrx_find_peer_by_addr_def)
  next
    case (found p)
    then show ?thesis using borrow_one [of "\<lambda>x. x" p "[]" d]
      by (simp add: ol_txrx_find_peer_by_addr_def inert_def)
  qed
qed

section \<open>Messages of the target\<close>

lemma add_id_loop_first:
  "ids ! 0 = HTT_INVALID_PEER \<Longrightarrow> ids \<noteq> [] \<Longrightarrow> snd (add_id_loop ids i) = ids[0 := i]"
  by (cases ids) simp_all

lemma add_id_loop_length [simp]: "length (snd (add_id_loop ids i)) = length ids"
  by (induction ids i rule: add_id_loop.induct) (auto split: prod.split)

lemma add_id_loop_later:
  "ids ! 0 \<noteq> HTT_INVALID_PEER \<Longrightarrow> ids \<noteq> [] \<Longrightarrow> snd (add_id_loop ids i) ! 0 = ids ! 0"
  by (cases ids) (auto split: prod.split)

lemma add_id_form:
  "snd (ol_txrx_peer_find_add_id_to_obj p i d) =
   upd_cpeer p (\<lambda>x. x\<lparr>pc_peer_ids := snd (add_id_loop (pids d p) i)\<rparr>) d"
  by (simp add: ol_txrx_peer_find_add_id_to_obj_def pids_def split: prod.split)

text \<open>After the first id, the reference that waited for it is the reference of the mapping: the
  one the lookup took is given back.\<close>

lemma ctl_inv_first_id:
  assumes inv: "ctl_inv held d" and al: "alive d p" and first: "pids d p ! 0 = HTT_INVALID_PEER"
    and mapped: "Some p \<in> set (peer_id_to_obj_map d)" and i: "i < HTT_INVALID_PEER"
  shows "ctl_inv held (snd (ol_txrx_peer_find_add_id_to_obj p i (ol_txrx_peer_unref_delete p d)))"
proof -
  note I = ctl_inv_dest [OF inv]
  note R = refs_ok_dest [OF I(5)]
  have "count_list (peer_id_to_obj_map d) (Some p) \<noteq> 0"
    using mapped by (simp add: count_list_0_iff)
  then have two: "2 \<le> peer_refs held d p" using first by (simp add: peer_refs_def)
  have eq: "ol_txrx_peer_unref_delete p d = ref_dec p d"
    using R(1) [OF al] two by (intro unref_delete_dec al) simp_all
  have ids: "pids (ref_dec p d) p = pids d p" by (simp add: ref_dec_views)
  have len: "pids d p \<noteq> []" "length (pids d p) = MAX_NUM_PEER_ID_PER_PEER"
    using R(3) [OF al] by (auto simp: MAX_NUM_PEER_ID_PER_PEER_def)
  let ?f = "(\<lambda>x. x\<lparr>pc_peer_ids := (pids d p)[0 := i]\<rparr>) \<circ> (\<lambda>x. x\<lparr>pc_ref_cnt := pc_ref_cnt x - 1\<rparr>)"
  have form: "snd (ol_txrx_peer_find_add_id_to_obj p i (ol_txrx_peer_unref_delete p d)) = upd_cpeer p ?f d"
    unfolding eq add_id_form ids add_id_loop_first [OF first len(1)] ref_dec_upd_after ..
  show ?thesis
    unfolding form
  proof (rule ctl_inv_upd_ref [OF inv])
    have V: "pref (upd_cpeer p ?f d) q = (if q = p then pref d q - 1 else pref d q)"
      "pids (upd_cpeer p ?f d) q = (if q = p then (pids d p)[0 := i] else pids d q)"
      "pvalid (upd_cpeer p ?f d) q = pvalid d q" for q
      using al by (simp_all add: peer_views_upd) (simp_all add: views)
    have refs: "peer_refs held (upd_cpeer p ?f d) q =
        (if q = p then peer_refs held d q - 1 else peer_refs held d q)" for q
      using first i len(1) by (simp add: peer_refs_def V upd_cpeer_fields)
    show "refs_ok held (upd_cpeer p ?f d)"
    proof (rule refs_okI)
      fix q assume "alive (upd_cpeer p ?f d) q"
      then have q: "alive d q" by (simp add: peer_views_upd)
      show "pref (upd_cpeer p ?f d) q = int (peer_refs held (upd_cpeer p ?f d) q)"
        unfolding refs V using R(1) [OF q] two by (cases "q = p") simp_all
      show "0 < peer_refs held (upd_cpeer p ?f d) q"
        unfolding refs using R(2) [OF q] two by (cases "q = p") simp_all
      show "length (pids (upd_cpeer p ?f d) q) = MAX_NUM_PEER_ID_PER_PEER"
        unfolding V using R(3) [OF q] len(2) by (cases "q = p") simp_all
    next
      show "alive (upd_cpeer p ?f d) q" if "0 < held q" for q
        using R(4) [OF that] by (simp add: peer_views_upd)
    qed
  qed simp_all
qed

lemma ctl_inv_later_id:
  assumes inv: "ctl_inv held d" and al: "alive d p" and later: "pids d p ! 0 \<noteq> HTT_INVALID_PEER"
  shows "ctl_inv held (snd (ol_txrx_peer_find_add_id_to_obj p i d))"
  unfolding add_id_form
proof (rule ctl_inv_upd_ref [OF inv])
  note R = refs_ok_dest [OF ctl_inv_dest(5) [OF inv]]
  let ?f = "\<lambda>x. x\<lparr>pc_peer_ids := snd (add_id_loop (pids d p) i)\<rparr>"
  have len: "pids d p \<noteq> []" "length (pids d p) = MAX_NUM_PEER_ID_PER_PEER"
    using R(3) [OF al] by (auto simp: MAX_NUM_PEER_ID_PER_PEER_def)
  have V: "pref (upd_cpeer p ?f d) q = pref d q" "pvalid (upd_cpeer p ?f d) q = pvalid d q"
    "pids (upd_cpeer p ?f d) q = (if q = p then snd (add_id_loop (pids d p) i) else pids d q)" for q
    using al by (simp_all add: peer_views_upd) (simp_all add: views)
  have refs: "peer_refs held (upd_cpeer p ?f d) q = peer_refs held d q" for q
    using later add_id_loop_later [OF later len(1)] by (simp add: peer_refs_def V upd_cpeer_fields)
  show "refs_ok held (upd_cpeer p ?f d)"
    by (rule refs_okI) (use R len(2) in \<open>auto simp: refs V peer_views_upd(1)\<close>)
qed simp_all

lemma ctl_inv_add_id:
  assumes inv: "ctl_inv held d" and i: "i \<le> max_peer_id d"
    and free: "peer_id_to_obj_map d ! i = None"
  shows "ctl_inv held (ol_txrx_peer_find_add_id mac i d)"
proof (cases rule: hash_find_cases [of d mac False])
  case none
  then show ?thesis using inv by (simp add: ol_txrx_peer_find_add_id_def)
next
  case (found p)
  let ?d1 = "upd_cpeer p (\<lambda>x. x\<lparr>pc_ref_cnt := pc_ref_cnt x + 1\<rparr>) d"
  let ?d2 = "?d1\<lparr>peer_id_to_obj_map := (peer_id_to_obj_map ?d1)[i := Some p]\<rparr>"
  have "ctl_inv (held(p := Suc (held p))) ?d1"
    using ctl_inv_hash_find [OF inv, of mac False] found(1) by (simp add: hold_def)
  then have inv2: "ctl_inv held ?d2"
    by (rule ctl_inv_map) (use i free in \<open>simp_all add: upd_cpeer_fields\<close>)
  have lim: "i < length (peer_id_to_obj_map d)" "i < HTT_INVALID_PEER"
    using ctl_inv_dest(3) [OF inv] i by (simp_all add: idmap_ok_def)
  have mem: "Some p \<in> set (peer_id_to_obj_map ?d2)"
    using set_update_memI [OF lim(1)] by (simp add: upd_cpeer_fields)
  then have al: "alive ?d2 p" using ctl_inv_dest(3) [OF inv2] unfolding idmap_ok_def by blast
  show ?thesis
  proof (cases "pids ?d2 p ! 0 = HTT_INVALID_PEER")
    case True
    then have "ol_txrx_peer_find_add_id mac i d =
        snd (ol_txrx_peer_find_add_id_to_obj p i (ol_txrx_peer_unref_delete p ?d2))"
      by (simp add: ol_txrx_peer_find_add_id_def found(1) pids_def)
    then show ?thesis using ctl_inv_first_id [OF inv2 al True mem lim(2)] by simp
  next
    case False
    then have "ol_txrx_peer_find_add_id mac i d = snd (ol_txrx_peer_find_add_id_to_obj p i ?d2)"
      by (simp add: ol_txrx_peer_find_add_id_def found(1) pids_def)
    then show ?thesis using ctl_inv_later_id [OF inv2 al False] by simp
  qed
qed

lemma ctl_inv_map_handler:
  assumes "ctl_inv held d" and "i \<le> max_peer_id d" and "peer_id_to_obj_map d ! i = None"
  shows "ctl_inv held (ol_rx_peer_map_handler i mac tx_ready d)"
  using ctl_inv_add_id [OF assms, of mac]
  by (simp add: ol_rx_peer_map_handler_def Let_def split: option.split)

lemma ctl_inv_unmap_handler:
  assumes inv: "ctl_inv held d" and i: "i \<le> max_peer_id d"
  shows "ctl_inv held (ol_rx_peer_unmap_handler i d)"
proof -
  have ne: "i \<noteq> HTT_INVALID_PEER"
    using ctl_inv_dest(3) [OF inv] i by (simp add: idmap_ok_def)
  show ?thesis
  proof (cases "peer_id_to_obj_map d ! i")
    case None
    then show ?thesis
      using ctl_inv_unmap_none [OF inv None] ne by (simp add: ol_rx_peer_unmap_handler_def)
  next
    case (Some p)
    then show ?thesis
      using ctl_inv_release [OF ctl_inv_unmap [OF inv i Some]] ne
      by (simp add: ol_rx_peer_unmap_handler_def)
  qed
qed

lemma ctl_inv_tx_ready: "ctl_inv held (ol_txrx_peer_tx_ready_handler i d) = ctl_inv held d"
  by (simp add: ol_txrx_peer_tx_ready_handler_def split: option.split)

end
