(* ===== verification/PeerAttach.thy ===== *)
theory PeerAttach
  imports PeerOps
begin

text \<open>
  Attaching and detaching peers and virtual devices keeps the invariant of the peer tables.
\<close>

section \<open>Detaching a peer\<close>

text \<open>The state in which \<open>ol_txrx_peer_detach\<close> gives the reference of the attachment back.\<close>

definition detached :: "nat \<Rightarrow> ctl_pdev \<Rightarrow> ctl_pdev" where
  "detached p d =
    (let v = pvdev d p;
         d1 = upd_cpeer p (\<lambda>x. x\<lparr>pc_rx_discard := True, pc_valid := False,
                                 pc_delete_in_progress := True\<rparr>) d;
         d2 = d1\<lparr>local_ids := OL_TXRX_LOCAL_PEER_ID_FREE (plocal d p) (local_ids d)\<rparr>
     in if vlast d v = Some p then upd_cvdev v (\<lambda>x. x\<lparr>vc_last_real := None\<rparr>) d2 else d2)"

lemma detach_form:
  assumes "alive d p"
  shows "ol_txrx_peer_detach p d = ol_txrx_peer_unref_delete p (detached p d)"
  using assms
  by (auto simp: ol_txrx_peer_detach_def detached_def Let_def upd_cpeer_def upd_cvdev_def views
      intro!: arg_cong [of _ _ "ol_txrx_peer_unref_delete p"])

lemma detached_views:
  assumes "alive d p"
  shows "alive (detached p d) = alive d" "pmac (detached p d) = pmac d" "pvdev (detached p d) = pvdev d"
    "pref (detached p d) = pref d" "pids (detached p d) = pids d" "plocal (detached p d) = plocal d"
    "pvalid (detached p d) q = (q \<noteq> p \<and> pvalid d q)"
    "valive (detached p d) = valive d" "vpeers (detached p d) = vpeers d"
    "vlisted (detached p d) = vlisted d" "vpending (detached p d) = vpending d"
    "valive d w \<Longrightarrow> vlast (detached p d) w =
       (if w = pvdev d p \<and> vlast d w = Some p then None else vlast d w)"
    "hash_bins (detached p d) = hash_bins d" "hash_mask (detached p d) = hash_mask d"
    "hash_idx_bits (detached p d) = hash_idx_bits d"
    "peer_id_to_obj_map (detached p d) = peer_id_to_obj_map d"
    "self_peer (detached p d) = self_peer d" "max_peer_id (detached p d) = max_peer_id d"
    "monitor_mode (detached p d) = monitor_mode d"
    "local_ids (detached p d) = OL_TXRX_LOCAL_PEER_ID_FREE (plocal d p) (local_ids d)"
  using assms
  by (cases "pd_vdevs d (pvdev d p)";
      auto simp: detached_def Let_def upd_cpeer_def upd_cvdev_def views fun_eq_iff)+

lemma locals_ok_detached:
  assumes ok: "locals_ok d" and p: "alive d p" "pvalid d p"
  shows "locals_ok (detached p d)"
proof -
  note L = locals_ok_dest [OF ok]
  note V = detached_views [OF p(1)]
  let ?i = "plocal d p"
  let ?N = OL_TXRX_NUM_LOCAL_PEER_IDS
  let ?l = "OL_TXRX_LOCAL_PEER_ID_FREE ?i (local_ids d)"
  have inv: "lp_inv ?l"
  proof (cases "?i < ?N")
    case True
    then have "?i \<in> lp_used (local_ids d)"
      using L(3) [OF p True] by (simp add: lp_used_def)
    then show ?thesis by (rule lp_free_step(1) [OF L(1)])
  next
    case False
    then show ?thesis using L(1) by (simp add: OL_TXRX_LOCAL_PEER_ID_FREE_def)
  qed
  have map: "lp_map ?l ! j = (if j = ?i then None else lp_map (local_ids d) ! j)" if "j < ?N" for j
    using that L(1) num_less_invalid [of j]
    by (auto simp: OL_TXRX_LOCAL_PEER_ID_FREE_def lp_inv_def nth_list_update)
  show ?thesis
    unfolding locals_ok_def V
  proof (intro conjI allI impI)
    show "lp_inv ?l" by (rule inv)
    fix j q
    assume j: "j < ?N" and q: "lp_map ?l ! j = Some q"
    then have "j \<noteq> ?i" "lp_map (local_ids d) ! j = Some q" using map [OF j] by (auto split: if_splits)
    with L(2) [OF j this(2)] show "alive d q" "q \<noteq> p" "pvalid d q" "plocal d q = j" by auto
  next
    fix q
    assume a: "alive d q" "q \<noteq> p \<and> pvalid d q" "plocal d q < ?N"
    then have m: "lp_map (local_ids d) ! plocal d q = Some q" using L(3) by blast
    have "plocal d q \<noteq> ?i" using L(3) [OF p] m a by auto
    then show "lp_map ?l ! plocal d q = Some q" using map [OF a(3)] m by simp
  qed
qed

lemma ctl_inv_detached:
  assumes inv: "ctl_inv held d" and p: "alive d p" "pvalid d p"
  shows "ctl_inv (held(p := Suc (held p))) (detached p d)"
proof -
  note I = ctl_inv_dest [OF inv]
  note V = detached_views [OF p(1)]
  note D = vdevs_ok_dest [OF I(2)]
  have h: "hash_ok (detached p d) = hash_ok d"
    by (simp only: hash_ok_def hash_sized_def V hash_index_cong [OF V(14,15)])
  have im: "idmap_ok (detached p d) = idmap_ok d"
    by (simp only: idmap_ok_def V)
  have vd: "vdevs_ok (detached p d)"
    unfolding vdevs_ok_def V(1-6,8-11)
  proof (intro conjI allI impI)
    fix w q assume w: "valive d w" and q: "vlast (detached p d) w = Some q"
    from q have "vlast d w = Some q" "w = pvdev d p \<longrightarrow> q \<noteq> p"
      unfolding V(12) [OF w] by (auto split: if_splits)
    with D(3) [OF w this(1)] show "alive d q" "pvalid (detached p d) q" "pvdev d q = w"
      unfolding V(7) by auto
  next
    fix w q assume w: "valive d w"
    show "distinct (vpeers d w)" "vpending d w = (\<not> vlisted d w)"
      by (rule D(1) [OF w], rule D(4) [OF w])
    show "alive d q" "pvdev d q = w" if "q \<in> set (vpeers d w)"
      using D(2) [OF w that] by simp_all
    show "vpeers d w \<noteq> []" if "vpending d w"
      by (rule D(5) [OF w that])
  next
    fix q assume q: "alive d q"
    show "valive d (pvdev d q)" "q \<in> set (vpeers d (pvdev d q))"
      by (rule D(6) [OF q], rule D(7) [OF q])
  qed
  have refs: "refs_ok (held(p := Suc (held p))) (detached p d)"
  proof (rule refs_ok_shift [OF I(5)])
    show "peer_refs (held(p := Suc (held p))) (detached p d) q = peer_refs held d q" for q
      using p(2) by (simp add: peer_refs_def V)
    show "alive d q" if "0 < (held(p := Suc (held p))) q" for q
      using that p(1) refs_ok_dest(4) [OF I(5), of q] by (cases "q = p") auto
  qed (simp_all only: V)
  show ?thesis
    unfolding ctl_inv_def h im using I vd refs locals_ok_detached [OF I(4) p] by blast
qed

lemma ctl_inv_detach:
  assumes "ctl_inv held d" and "alive d p" and "pvalid d p"
  shows "ctl_inv held (ol_txrx_peer_detach p d)"
  unfolding detach_form [OF assms(2)]
  by (rule ctl_inv_release) (rule ctl_inv_detached [OF assms])

section \<open>Virtual devices\<close>

lemma ctl_inv_vdev_attach:
  assumes inv: "ctl_inv held d" and new: "\<not> valive d v"
  shows "ctl_inv held (snd (ol_txrx_vdev_attach mac vid mode (Some v) d))"
proof -
  let ?d = "snd (ol_txrx_vdev_attach mac vid mode (Some v) d)"
  note I = ctl_inv_dest [OF inv]
  note D = vdevs_ok_dest [OF I(2)]
  have pd: "pd_peers ?d = pd_peers d"
    by (simp add: ol_txrx_vdev_attach_def log_ev_def)
  note P = peer_views_cong [OF pd]
  have F: "hash_bins ?d = hash_bins d" "hash_mask ?d = hash_mask d" "hash_idx_bits ?d = hash_idx_bits d"
    "peer_id_to_obj_map ?d = peer_id_to_obj_map d" "local_ids ?d = local_ids d"
    "self_peer ?d = self_peer d" "max_peer_id ?d = max_peer_id d" "monitor_mode ?d = monitor_mode d"
    by (simp_all add: ol_txrx_vdev_attach_def log_ev_def)
  have V: "valive ?d w = (w = v \<or> valive d w)" "vpeers ?d w = (if w = v then [] else vpeers d w)"
    "vlast ?d w = (if w = v then None else vlast d w)" "vlisted ?d w = (if w = v then True else vlisted d w)"
    "vpending ?d w = (if w = v then False else vpending d w)" for w
    by (auto simp: ol_txrx_vdev_attach_def log_ev_def views)
  have "hash_ok ?d = hash_ok d" "idmap_ok ?d = idmap_ok d" "locals_ok ?d = locals_ok d"
    "refs_ok held ?d = refs_ok held d"
    by (simp_all only: hash_ok_def hash_sized_def idmap_ok_def locals_ok_def refs_ok_def peer_refs_def
        P F hash_index_cong [OF F(2,3)])
  moreover have "vdevs_ok ?d"
    unfolding vdevs_ok_def P
  proof (intro conjI allI impI)
    fix q assume q: "alive d q"
    then have "pvdev d q \<noteq> v" using D(6) new by auto
    then show "valive ?d (pvdev d q)" "q \<in> set (vpeers ?d (pvdev d q))"
      unfolding V using D(6,7) [OF q] by auto
  qed (use D in \<open>auto simp: V split: if_splits\<close>)
  ultimately show ?thesis using I unfolding ctl_inv_def by blast
qed

lemma ctl_inv_vdev_gone:
  assumes inv: "ctl_inv held d" and v: "valive d v" "vpeers d v = []"
    and F: "pd_peers d' = pd_peers d" "pd_vdevs d' = (pd_vdevs d)(v := None)"
      "hash_bins d' = hash_bins d" "hash_mask d' = hash_mask d" "hash_idx_bits d' = hash_idx_bits d"
      "peer_id_to_obj_map d' = peer_id_to_obj_map d" "local_ids d' = local_ids d"
      "self_peer d' = self_peer d" "max_peer_id d' = max_peer_id d" "monitor_mode d' = monitor_mode d"
  shows "ctl_inv held d'"
proof -
  note I = ctl_inv_dest [OF inv]
  note D = vdevs_ok_dest [OF I(2)]
  note P = peer_views_cong [OF F(1)]
  have V: "valive d' w = (w \<noteq> v \<and> valive d w)" "w \<noteq> v \<Longrightarrow> vpeers d' w = vpeers d w"
    "w \<noteq> v \<Longrightarrow> vlast d' w = vlast d w" "w \<noteq> v \<Longrightarrow> vlisted d' w = vlisted d w"
    "w \<noteq> v \<Longrightarrow> vpending d' w = vpending d w" for w
    by (simp_all add: views F)
  have "hash_ok d' = hash_ok d" "idmap_ok d' = idmap_ok d" "locals_ok d' = locals_ok d"
    "refs_ok held d' = refs_ok held d"
    by (simp_all only: hash_ok_def hash_sized_def idmap_ok_def locals_ok_def refs_ok_def peer_refs_def
        P F hash_index_cong [OF F(4,5)])
  moreover have "vdevs_ok d'"
    unfolding vdevs_ok_def P
  proof (intro conjI allI impI)
    fix q assume q: "alive d q"
    then have "pvdev d q \<noteq> v" using D(7) [OF q] v(2) by auto
    then show "valive d' (pvdev d q)" "q \<in> set (vpeers d' (pvdev d q))"
      unfolding V(1) using D(6,7) [OF q] by (auto simp: V)
  qed (use D in \<open>auto simp: V\<close>)
  ultimately show ?thesis using I unfolding ctl_inv_def by blast
qed

lemma ctl_inv_vdev_detach:
  assumes inv: "ctl_inv held d" and v: "valive d v"
  shows "ctl_inv held (ol_txrx_vdev_detach v callback d)"
proof -
  define d1 where "d1 = (if is_high_latency d
      then log_ev (map (\<lambda>i. Ev_vdev_queue_free v (i + OL_TX_NUM_TIDS)) [0..<OL_TX_VDEV_NUM_QUEUES]) d
      else d)"
  have inv1: "ctl_inv held d1" and same: "pd_vdevs d1 = pd_vdevs d"
    using inv by (simp_all add: d1_def log_ev_def[symmetric] peer_simps)
  have v1: "valive d1 v" and ps: "vpeers d1 v = vpeers d v"
    using v by (simp_all add: views same)
  let ?d2 = "upd_cvdev v (\<lambda>x. x\<lparr>vc_listed := False\<rparr>) d1"
  have p2: "vc_peers (vdev_at ?d2 v) = vpeers d1 v"
    using v1 by (auto simp: upd_cvdev_def views)
  show ?thesis
  proof (cases "vpeers d1 v = []")
    case True
    have "ol_txrx_vdev_detach v callback d = vdev_free v callback (log_ev [Ev_htt_vdev_detach v] ?d2)"
      unfolding ol_txrx_vdev_detach_def Let_def d1_def [symmetric] using p2 True by simp
    moreover have "ctl_inv held (vdev_free v callback (log_ev [Ev_htt_vdev_detach v] ?d2))"
      by (rule ctl_inv_vdev_gone [OF inv1 v1 True])
        (simp_all add: vdev_free_def clear_desc_vdevs_def Let_def peer_simps)
    ultimately show ?thesis by simp
  next
    case False
    let ?d3 = "upd_cvdev v (\<lambda>x. x\<lparr>vc_delete_pending := True, vc_delete_callback := callback\<rparr>) ?d2"
    have eq: "ol_txrx_vdev_detach v callback d = ?d3"
      unfolding ol_txrx_vdev_detach_def Let_def d1_def [symmetric] using p2 False by simp
    note I = ctl_inv_dest [OF inv1]
    note D = vdevs_ok_dest [OF I(2)]
    have P: "pd_peers ?d3 = pd_peers d1" by (simp add: peer_simps)
    note P = peer_views_cong [OF P]
    have F: "hash_bins ?d3 = hash_bins d1" "hash_mask ?d3 = hash_mask d1"
      "hash_idx_bits ?d3 = hash_idx_bits d1" "peer_id_to_obj_map ?d3 = peer_id_to_obj_map d1"
      "local_ids ?d3 = local_ids d1" "self_peer ?d3 = self_peer d1"
      "max_peer_id ?d3 = max_peer_id d1" "monitor_mode ?d3 = monitor_mode d1"
      by (simp_all add: peer_simps)
    have V: "valive ?d3 = valive d1" "vpeers ?d3 = vpeers d1" "vlast ?d3 = vlast d1"
      "vlisted ?d3 w = (w \<noteq> v \<and> vlisted d1 w)" "vpending ?d3 w = (w = v \<or> vpending d1 w)" for w
      using v1 by (auto simp: views upd_cvdev_def fun_eq_iff)
    have "hash_ok ?d3 = hash_ok d1" "idmap_ok ?d3 = idmap_ok d1" "locals_ok ?d3 = locals_ok d1"
      "refs_ok held ?d3 = refs_ok held d1"
      by (simp_all only: hash_ok_def hash_sized_def idmap_ok_def locals_ok_def refs_ok_def peer_refs_def
          P F hash_index_cong [OF F(2,3)])
    moreover have "vdevs_ok ?d3"
      unfolding vdevs_ok_def P V(1-3)
      by (intro conjI allI impI) (use D False in \<open>auto simp: V(4,5)\<close>)
    ultimately show ?thesis using I unfolding eq ctl_inv_def by blast
  qed
qed

section \<open>Attaching a peer\<close>

text \<open>The tables after \<open>attach_create\<close>: the intermediate states up to the state update, and what
  follows it.\<close>

definition attach_base :: "nat \<Rightarrow> mac_addr \<Rightarrow> nat \<Rightarrow> ctl_pdev \<Rightarrow> ctl_pdev" where
  "attach_base v mac p d =
    (let d1 = d\<lparr>pd_peers := (pd_peers d)(p \<mapsto> new_peer v mac)\<rparr>;
         d3 = log_ev ((if is_high_latency d1 then [Ev_txqs_init p] else []) @ [Ev_peer_pause p]) d1;
         d4 = upd_cvdev v (\<lambda>x. x\<lparr>vc_peers := vc_peers x @ [p]\<rparr>) d3;
         d5 = set_last_real v p d4;
         d6 = log_ev [Ev_rx_peer_init p] d5;
         d7 = upd_cpeer p (\<lambda>x. x\<lparr>pc_peer_ids := replicate MAX_NUM_PEER_ID_PER_PEER HTT_INVALID_PEER,
                               pc_delete_in_progress := False, pc_ref_cnt := 2,
                               pc_valid := True\<rparr>) d6
     in d7)"

definition attach_mid :: "nat \<Rightarrow> nat \<Rightarrow> ctl_pdev \<Rightarrow> ctl_pdev" where
  "attach_mid v p d7 =
    upd_cpeer p (\<lambda>x. x\<lparr>pc_state := ol_txrx_peer_state_invalid\<rparr>)
      (set_bss_peer v p (ol_txrx_peer_find_hash_add d7 p))"

definition attach_end :: "nat \<Rightarrow> nat \<Rightarrow> ctl_pdev \<Rightarrow> ctl_pdev" where
  "attach_end v p d10 =
    (let d12 = set_self_peer v p
                 (ol_txrx_peer_state_update (pc_mac (peer_at d10 p)) ol_txrx_peer_state_disc d10)
     in case OL_TXRX_LOCAL_PEER_ID_ALLOC p (local_ids d12) of
          (i, l) \<Rightarrow> upd_cpeer p (\<lambda>x. x\<lparr>pc_local_id := i\<rparr>) (d12\<lparr>local_ids := l\<rparr>))"

lemma attach_create_form:
  "attach_create v mac (Some p) d = (Some p, attach_end v p (attach_mid v p (attach_base v mac p d)))"
  by (simp add: attach_create_def attach_end_def attach_mid_def attach_base_def Let_def
      split: prod.split)

lemma set_last_real_fields [peer_simps]:
  "pd_peers (set_last_real v p d) = pd_peers d" "hash_bins (set_last_real v p d) = hash_bins d"
  "hash_mask (set_last_real v p d) = hash_mask d"
  "hash_idx_bits (set_last_real v p d) = hash_idx_bits d"
  "peer_id_to_obj_map (set_last_real v p d) = peer_id_to_obj_map d"
  "local_ids (set_last_real v p d) = local_ids d" "self_peer (set_last_real v p d) = self_peer d"
  "max_peer_id (set_last_real v p d) = max_peer_id d"
  "monitor_mode (set_last_real v p d) = monitor_mode d"
  "valive (set_last_real v p d) = valive d" "vpeers (set_last_real v p d) = vpeers d"
  "vlisted (set_last_real v p d) = vlisted d" "vpending (set_last_real v p d) = vpending d"
  by (cases "pd_vdevs d v"; auto simp: set_last_real_def upd_cvdev_def views fun_eq_iff)+

lemma set_last_real_vlast:
  "vlast (set_last_real v p d) w = vlast d w \<or> w = v \<and> vlast (set_last_real v p d) w = Some p"
  by (cases "pd_vdevs d v"; auto simp: set_last_real_def upd_cvdev_def views)

lemma attach_base_fields:
  assumes "valive d v"
  shows "pd_peers (attach_base v mac p d) q =
      (if q = p then Some ((new_peer v mac)
         \<lparr>pc_peer_ids := replicate MAX_NUM_PEER_ID_PER_PEER HTT_INVALID_PEER,
          pc_delete_in_progress := False, pc_ref_cnt := 2, pc_valid := True\<rparr>) else pd_peers d q)"
    "hash_bins (attach_base v mac p d) = hash_bins d"
    "hash_mask (attach_base v mac p d) = hash_mask d"
    "hash_idx_bits (attach_base v mac p d) = hash_idx_bits d"
    "peer_id_to_obj_map (attach_base v mac p d) = peer_id_to_obj_map d"
    "local_ids (attach_base v mac p d) = local_ids d"
    "self_peer (attach_base v mac p d) = self_peer d"
    "max_peer_id (attach_base v mac p d) = max_peer_id d"
    "monitor_mode (attach_base v mac p d) = monitor_mode d"
    "valive (attach_base v mac p d) = valive d"
    "vlisted (attach_base v mac p d) = vlisted d"
    "vpending (attach_base v mac p d) = vpending d"
    "vpeers (attach_base v mac p d) w = (if w = v then vpeers d v @ [p] else vpeers d w)"
    "vlast (attach_base v mac p d) w = vlast d w \<or>
       w = v \<and> vlast (attach_base v mac p d) w = Some p"
proof -
  define d4 where "d4 = upd_cvdev v (\<lambda>x. x\<lparr>vc_peers := vc_peers x @ [p]\<rparr>)
     (log_ev ((if is_high_latency d then [Ev_txqs_init p] else []) @ [Ev_peer_pause p])
        (d\<lparr>pd_peers := (pd_peers d)(p \<mapsto> new_peer v mac)\<rparr>))"
  have form: "attach_base v mac p d =
      upd_cpeer p (\<lambda>x. x\<lparr>pc_peer_ids := replicate MAX_NUM_PEER_ID_PER_PEER HTT_INVALID_PEER,
                        pc_delete_in_progress := False, pc_ref_cnt := 2, pc_valid := True\<rparr>)
        (log_ev [Ev_rx_peer_init p] (set_last_real v p d4))"
    by (simp add: attach_base_def d4_def Let_def)
  have d4: "valive d4 = valive d" "vlisted d4 = vlisted d" "vpending d4 = vpending d"
    "vlast d4 = vlast d" "vpeers d4 w = (if w = v then vpeers d v @ [p] else vpeers d w)" for w
    using assms by (auto simp: d4_def upd_cvdev_def log_ev_def views fun_eq_iff)
  show "pd_peers (attach_base v mac p d) q =
      (if q = p then Some ((new_peer v mac)
         \<lparr>pc_peer_ids := replicate MAX_NUM_PEER_ID_PER_PEER HTT_INVALID_PEER,
          pc_delete_in_progress := False, pc_ref_cnt := 2, pc_valid := True\<rparr>) else pd_peers d q)"
    by (simp add: form d4_def peer_simps)
  show "hash_bins (attach_base v mac p d) = hash_bins d"
    "hash_mask (attach_base v mac p d) = hash_mask d"
    "hash_idx_bits (attach_base v mac p d) = hash_idx_bits d"
    "peer_id_to_obj_map (attach_base v mac p d) = peer_id_to_obj_map d"
    "local_ids (attach_base v mac p d) = local_ids d"
    "self_peer (attach_base v mac p d) = self_peer d"
    "max_peer_id (attach_base v mac p d) = max_peer_id d"
    "monitor_mode (attach_base v mac p d) = monitor_mode d"
    by (simp_all add: form d4_def peer_simps)
  show "valive (attach_base v mac p d) = valive d" "vlisted (attach_base v mac p d) = vlisted d"
    "vpending (attach_base v mac p d) = vpending d"
    "vpeers (attach_base v mac p d) w = (if w = v then vpeers d v @ [p] else vpeers d w)"
    by (simp_all add: form peer_simps d4)
  show "vlast (attach_base v mac p d) w = vlast d w \<or> w = v \<and> vlast (attach_base v mac p d) w = Some p"
    using set_last_real_vlast [of v p d4 w] by (simp add: form peer_simps d4)
qed

text \<open>The rest touches of the peers' relevant fields only the local id of the new one.\<close>

lemma set_bss_peer_form: "\<exists>f. inert f \<and> set_bss_peer v p d = upd_cpeer p f d"
proof (cases "pc_mac (peer_at d p) = vc_mac (vdev_at d v)")
  case True
  then have "set_bss_peer v p d = upd_cpeer p (\<lambda>x. x\<lparr>pc_bss_peer := True\<rparr>) d"
    by (simp add: set_bss_peer_def)
  moreover have "inert (\<lambda>x. x\<lparr>pc_bss_peer := True\<rparr>)" by (simp add: inert_def)
  ultimately show ?thesis by blast
next
  case False
  then have "set_bss_peer v p d = upd_cpeer p (\<lambda>x. x) d" by (simp add: set_bss_peer_def)
  moreover have "inert (\<lambda>x. x)" by (simp add: inert_def)
  ultimately show ?thesis by blast
qed

lemma set_self_peer_fields [peer_simps]:
  "pd_peers (set_self_peer v p d) = pd_peers d" "hash_bins (set_self_peer v p d) = hash_bins d"
  "hash_mask (set_self_peer v p d) = hash_mask d"
  "hash_idx_bits (set_self_peer v p d) = hash_idx_bits d"
  "peer_id_to_obj_map (set_self_peer v p d) = peer_id_to_obj_map d"
  "local_ids (set_self_peer v p d) = local_ids d"
  "max_peer_id (set_self_peer v p d) = max_peer_id d"
  "monitor_mode (set_self_peer v p d) = monitor_mode d"
  "valive (set_self_peer v p d) = valive d" "vpeers (set_self_peer v p d) = vpeers d"
  "vlast (set_self_peer v p d) = vlast d"
  "vlisted (set_self_peer v p d) = vlisted d" "vpending (set_self_peer v p d) = vpending d"
  "self_peer (set_self_peer v p d) =
     (if monitor_mode d \<and> self_peer d = None then Some p else self_peer d)"
  by (cases "pd_vdevs d v"; auto simp: set_self_peer_def upd_cvdev_def views fun_eq_iff)+

lemma inert_views:
  assumes "inert f"
  shows "alive (upd_cpeer p f d) = alive d" "pmac (upd_cpeer p f d) = pmac d"
    "pvdev (upd_cpeer p f d) = pvdev d" "pvalid (upd_cpeer p f d) = pvalid d"
    "pref (upd_cpeer p f d) = pref d" "pids (upd_cpeer p f d) = pids d"
    "plocal (upd_cpeer p f d) = plocal d"
  using assms by (simp_all add: inert_def peer_views_upd fun_eq_iff) (simp_all add: views)

text \<open>The invariant of the tables with a new peer, over their views.\<close>

lemma hash_ok_new:
  assumes ok: "hash_ok d" and new: "\<not> alive d p"
    and A: "\<And>r. alive D r = (r = p \<or> alive d r)" "\<And>r. pmac D r = (if r = p then mac else pmac d r)"
    and F: "hash_mask D = hash_mask d" "hash_idx_bits D = hash_idx_bits d"
      "hash_bins D = (hash_bins d)[ol_txrx_peer_find_hash_index d mac :=
         hash_bins d ! ol_txrx_peer_find_hash_index d mac @ [p]]"
  shows "hash_ok D"
proof -
  let ?i = "ol_txrx_peer_find_hash_index d"
  note H = hash_ok_dest [OF ok]
  have idx: "ol_txrx_peer_find_hash_index D = ?i"
    by (rule ext) (rule hash_index_cong [OF F(1,2)])
  have len: "length (hash_bins D) = length (hash_bins d)" by (simp add: F(3))
  have bin: "hash_bins D ! i = (if i = ?i mac then hash_bins d ! i @ [p] else hash_bins d ! i)"
    if "i < length (hash_bins d)" for i
    using that by (auto simp: F(3) nth_list_update)
  have fresh: "p \<notin> set (hash_bins d ! i)" if "i < length (hash_bins d)" for i
    using H(3) [OF that] new by blast
  show ?thesis
    unfolding hash_ok_def idx len
  proof (intro conjI allI impI)
    show "hash_sized D" using H(1) unfolding hash_sized_def F(1,2) len .
    show "distinct (hash_bins D ! i)" if i: "i < length (hash_bins d)" for i
      unfolding bin [OF i] using H(2) [OF i] fresh [OF i] by auto
    fix i r assume i: "i < length (hash_bins d)" and "r \<in> set (hash_bins D ! i)"
    then have "r = p \<and> i = ?i mac \<or> r \<noteq> p \<and> r \<in> set (hash_bins d ! i)"
      unfolding bin [OF i] using fresh [OF i] by (auto split: if_splits)
    then show "alive D r" "?i (pmac D r) = i"
      unfolding A using H(3) [OF i, of r] by auto
  next
    fix r assume "alive D r"
    then consider "r = p" | "r \<noteq> p" "alive d r" unfolding A by blast
    then show "r \<in> set (hash_bins D ! ?i (pmac D r))"
    proof cases
      case 1
      then show ?thesis by (simp add: A bin [OF H(5)])
    next
      case 2
      then show ?thesis using H(4) [OF 2(2)] by (auto simp: A bin [OF H(5)])
    qed
  qed
qed

lemma vdevs_ok_new:
  assumes ok: "vdevs_ok d" and v: "valive d v" "\<not> vpending d v" and new: "\<not> alive d p"
    and A: "\<And>r. alive D r = (r = p \<or> alive d r)" "\<And>r. pvdev D r = (if r = p then v else pvdev d r)"
      "\<And>r. pvalid D r = (r = p \<or> pvalid d r)"
    and V: "valive D = valive d" "vlisted D = vlisted d" "vpending D = vpending d"
      "\<And>w. vpeers D w = (if w = v then vpeers d v @ [p] else vpeers d w)"
      "\<And>w. vlast D w = vlast d w \<or> w = v \<and> vlast D w = Some p"
  shows "vdevs_ok D"
proof -
  note D = vdevs_ok_dest [OF ok]
  have fresh: "p \<notin> set (vpeers d w)" if "valive d w" for w
    using D(2) [OF that] new by blast
  show ?thesis
    unfolding vdevs_ok_def V(1-3)
  proof (intro conjI allI impI)
    fix w assume w: "valive d w"
    show "distinct (vpeers D w)" using D(1) [OF w] fresh [OF w] by (auto simp: V(4))
    show "vpending d w = (\<not> vlisted d w)" by (rule D(4) [OF w])
    show "vpeers D w \<noteq> []" if "vpending d w" using D(5) [OF w that] by (simp add: V(4))
    fix r
    show "alive D r" "pvdev D r = w" if "r \<in> set (vpeers D w)"
    proof -
      have "r = p \<and> w = v \<or> r \<noteq> p \<and> r \<in> set (vpeers d w)"
        using that fresh [OF w] by (auto simp: V(4) split: if_splits)
      then show "alive D r" "pvdev D r = w" unfolding A using D(2) [OF w, of r] by auto
    qed
    show "alive D r" "pvalid D r" "pvdev D r = w" if "vlast D w = Some r"
    proof -
      have "r = p \<and> w = v \<or> vlast d w = Some r" using V(5) [of w] that by auto
      moreover have "r \<noteq> p" if "vlast d w = Some r" using D(3) [OF w that] new by blast
      ultimately show "alive D r" "pvalid D r" "pvdev D r = w"
        unfolding A using D(3) [OF w, of r] by auto
    qed
  next
    fix r assume "alive D r"
    then consider "r = p" | "r \<noteq> p" "alive d r" unfolding A by blast
    then show "valive d (pvdev D r)" "r \<in> set (vpeers D (pvdev D r))"
      by (cases; use v D(6,7) [of r] in \<open>auto simp: A V(4)\<close>)+
  qed
qed

lemma locals_ok_new:
  assumes ok: "locals_ok d" and new: "\<not> alive d p"
    and al: "OL_TXRX_LOCAL_PEER_ID_ALLOC p (local_ids d) = (i, l)"
    and A: "\<And>r. alive D r = (r = p \<or> alive d r)" "\<And>r. plocal D r = (if r = p then i else plocal d r)"
      "\<And>r. pvalid D r = (r = p \<or> pvalid d r)" "local_ids D = l"
  shows "locals_ok D"
proof -
  note L = locals_ok_dest [OF ok]
  let ?N = OL_TXRX_NUM_LOCAL_PEER_IDS
  from L(1) have "lp_inv l \<and> (\<forall>j < ?N. lp_map l ! j =
      (if j = i then Some p else lp_map (local_ids d) ! j)) \<and>
      (i < ?N \<longrightarrow> lp_map (local_ids d) ! i = None)"
  proof (cases rule: lp_alloc_cases [where p = p])
    case full
    then have i: "i = OL_TXRX_INVALID_LOCAL_PEER_ID" and "l = local_ids d"
      using al by simp_all
    then show ?thesis using L(1) i num_less_invalid by auto
  next
    case (got j t)
    then have "j = i" "t = l" using al by (simp_all add: lp_alloc_def split: if_splits)
    then show ?thesis
      using got L(1) by (auto simp: lp_inv_def lp_free_def nth_list_update)
  qed
  then have inv: "lp_inv l" and map: "\<And>j. j < ?N \<Longrightarrow> lp_map l ! j =
      (if j = i then Some p else lp_map (local_ids d) ! j)"
    and free: "i < ?N \<Longrightarrow> lp_map (local_ids d) ! i = None" by blast+
  show ?thesis
    unfolding locals_ok_def A(4)
  proof (intro conjI allI impI)
    show "lp_inv l" by (rule inv)
    fix j r assume j: "j < ?N" and r: "lp_map l ! j = Some r"
    then have "r = p \<and> j = i \<or> lp_map (local_ids d) ! j = Some r"
      using map [OF j] by (auto split: if_splits)
    then show "alive D r" "pvalid D r" "plocal D r = j"
      unfolding A using L(2) [OF j, of r] new by auto
  next
    fix r assume a: "alive D r" "pvalid D r" "plocal D r < ?N"
    show "lp_map l ! plocal D r = Some r"
    proof (cases "r = p")
      case True
      then show ?thesis using map a(3) by (simp add: A)
    next
      case False
      then have o: "alive d r" "pvalid d r" "plocal d r < ?N" using a by (simp_all add: A)
      have "plocal d r \<noteq> i" using L(3) [OF o] free o(3) by auto
      then show ?thesis using map [OF o(3)] L(3) [OF o] False by (simp add: A)
    qed
  qed
qed

lemma ctl_inv_new_peer:
  assumes inv: "ctl_inv held d" and v: "valive d v" "\<not> vpending d v" and new: "\<not> alive d p"
    and al: "OL_TXRX_LOCAL_PEER_ID_ALLOC p (local_ids d) = (i, l)"
    and A: "\<And>r. alive D r = (r = p \<or> alive d r)" "\<And>r. pmac D r = (if r = p then mac else pmac d r)"
      "\<And>r. pvdev D r = (if r = p then v else pvdev d r)" "\<And>r. pvalid D r = (r = p \<or> pvalid d r)"
      "\<And>r. plocal D r = (if r = p then i else plocal d r)"
      "\<And>r. pref D r = (if r = p then 2 else pref d r)"
      "\<And>r. pids D r = (if r = p then replicate MAX_NUM_PEER_ID_PER_PEER HTT_INVALID_PEER else pids d r)"
    and F: "hash_mask D = hash_mask d" "hash_idx_bits D = hash_idx_bits d"
      "hash_bins D = (hash_bins d)[ol_txrx_peer_find_hash_index d mac :=
         hash_bins d ! ol_txrx_peer_find_hash_index d mac @ [p]]"
      "peer_id_to_obj_map D = peer_id_to_obj_map d" "local_ids D = l"
      "max_peer_id D = max_peer_id d" "monitor_mode D = monitor_mode d"
      "self_peer D = (if monitor_mode d \<and> self_peer d = None then Some p else self_peer d)"
    and V: "valive D = valive d" "vlisted D = vlisted d" "vpending D = vpending d"
      "\<And>w. vpeers D w = (if w = v then vpeers d v @ [p] else vpeers d w)"
      "\<And>w. vlast D w = vlast d w \<or> w = v \<and> vlast D w = Some p"
  shows "ctl_inv held D"
proof -
  note I = ctl_inv_dest [OF inv]
  have h: "hash_ok D" by (rule hash_ok_new [OF I(1) new A(1,2) F(1-3)])
  have vd: "vdevs_ok D" by (rule vdevs_ok_new [OF I(2) v new A(1,3,4) V])
  have lo: "locals_ok D" by (rule locals_ok_new [OF I(4) new al A(1,5,4) F(5)])
  have im: "idmap_ok D"
    using I(3) unfolding idmap_ok_def F A by (auto split: if_splits)
  note R = refs_ok_dest [OF I(5)]
  have none: "held p = 0" "count_list (peer_id_to_obj_map d) (Some p) = 0"
    using R(4) [of p] new I(3) by (auto simp: idmap_ok_def count_list_0_iff)
  have refs: "peer_refs held D r = (if r = p then 2 else peer_refs held d r)" if "alive D r" for r
  proof (cases "r = p")
    case True
    then show ?thesis by (simp add: peer_refs_def A F none MAX_NUM_PEER_ID_PER_PEER_def)
  next
    case False
    then have "pvalid D r = pvalid d r" by (simp add: A)
    then show ?thesis using False by (simp add: peer_refs_def A F)
  qed
  have "refs_ok held D"
  proof (rule refs_okI)
    fix r assume r: "alive D r"
    then have a: "r \<noteq> p \<Longrightarrow> alive d r" by (simp add: A)
    show "pref D r = int (peer_refs held D r)" "0 < peer_refs held D r"
      "length (pids D r) = MAX_NUM_PEER_ID_PER_PEER"
      unfolding refs [OF r] using R(1-3) [OF a] by (auto simp: A)
  next
    show "alive D r" if "0 < held r" for r using R(4) [OF that] by (simp add: A)
  qed
  with h vd lo im show ?thesis unfolding ctl_inv_def by blast
qed

lemma ctl_inv_attach_create:
  assumes inv: "ctl_inv held d" and v: "valive d v" "\<not> vpending d v" and new: "\<not> alive d p"
  shows "ctl_inv held (snd (attach_create v mac (Some p) d))"
proof -
  define d7 where "d7 = attach_base v mac p d"
  define d8 where "d8 = ol_txrx_peer_find_hash_add d7 p"
  obtain f1 where f1: "inert f1" "set_bss_peer v p d8 = upd_cpeer p f1 d8"
    using set_bss_peer_form by blast
  define d9 where "d9 = upd_cpeer p f1 d8"
  define d10 where "d10 = upd_cpeer p (\<lambda>x. x\<lparr>pc_state := ol_txrx_peer_state_invalid\<rparr>) d9"
  obtain q f2 es where f2: "inert f2"
    "ol_txrx_peer_state_update (pc_mac (peer_at d10 p)) ol_txrx_peer_state_disc d10 =
       log_ev es (upd_cpeer q f2 d10)"
    using borrows_state_update unfolding borrows_def by blast
  define d11 where "d11 = log_ev es (upd_cpeer q f2 d10)"
  define d12 where "d12 = set_self_peer v p d11"
  obtain i l where al: "OL_TXRX_LOCAL_PEER_ID_ALLOC p (local_ids d) = (i, l)"
    by (cases "OL_TXRX_LOCAL_PEER_ID_ALLOC p (local_ids d)") auto
  let ?D = "upd_cpeer p (\<lambda>x. x\<lparr>pc_local_id := i\<rparr>) (d12\<lparr>local_ids := l\<rparr>)"
  have f3: "inert (\<lambda>x. x\<lparr>pc_state := ol_txrx_peer_state_invalid\<rparr>)" by (simp add: inert_def)
  note B = attach_base_fields [OF v(1), of mac p, folded d7_def]
  have same: "hash_mask d12 = hash_mask d" "hash_idx_bits d12 = hash_idx_bits d"
    "peer_id_to_obj_map d12 = peer_id_to_obj_map d" "local_ids d12 = local_ids d"
    "max_peer_id d12 = max_peer_id d" "monitor_mode d12 = monitor_mode d"
    "valive d12 = valive d" "vlisted d12 = vlisted d" "vpending d12 = vpending d"
    "vpeers d12 = vpeers d7" "vlast d12 = vlast d7" "hash_bins d12 = hash_bins d8"
    "self_peer d12 = (if monitor_mode d \<and> self_peer d = None then Some p else self_peer d)"
  proof -
    have "pd_vdevs d8 = pd_vdevs d7" by (simp add: d8_def ol_txrx_peer_find_hash_add_def Let_def)
    note V = vdev_views_cong [OF this]
    show "hash_mask d12 = hash_mask d" "hash_idx_bits d12 = hash_idx_bits d"
      "peer_id_to_obj_map d12 = peer_id_to_obj_map d" "local_ids d12 = local_ids d"
      "max_peer_id d12 = max_peer_id d" "monitor_mode d12 = monitor_mode d"
      "self_peer d12 = (if monitor_mode d \<and> self_peer d = None then Some p else self_peer d)"
      by (simp_all add: d12_def d11_def d10_def d9_def peer_simps)
        (simp_all add: d8_def ol_txrx_peer_find_hash_add_def Let_def B)
    show "valive d12 = valive d" "vlisted d12 = vlisted d" "vpending d12 = vpending d"
      "vpeers d12 = vpeers d7" "vlast d12 = vlast d7" "hash_bins d12 = hash_bins d8"
      by (simp_all add: d12_def d11_def d10_def d9_def peer_simps V B)
  qed
  have pv: "alive d12 = alive d7" "pmac d12 = pmac d7" "pvdev d12 = pvdev d7" "pvalid d12 = pvalid d7"
    "pref d12 = pref d7" "pids d12 = pids d7" "plocal d12 = plocal d7"
  proof -
    have 8: "pd_peers d8 = pd_peers d7" by (simp add: d8_def ol_txrx_peer_find_hash_add_def Let_def)
    have 12: "pd_peers d12 = pd_peers (upd_cpeer q f2 d10)" by (simp add: d12_def d11_def peer_simps)
    note E = peer_views_cong [OF 12] inert_views [OF f2(1)] inert_views [OF f3, of p d9, folded d10_def]
      inert_views [OF f1(1), of p d8, folded d9_def] peer_views_cong [OF 8]
    show "alive d12 = alive d7" "pmac d12 = pmac d7" "pvdev d12 = pvdev d7" "pvalid d12 = pvalid d7"
      "pref d12 = pref d7" "pids d12 = pids d7" "plocal d12 = plocal d7"
      by (simp_all only: E)
  qed
  have eq: "snd (attach_create v mac (Some p) d) = ?D"
    unfolding attach_create_form attach_mid_def d7_def [symmetric] d8_def [symmetric] f1(2)
      d9_def [symmetric] d10_def [symmetric] attach_end_def f2(2) d11_def [symmetric]
      d12_def [symmetric] Let_def same(4) al by simp
  have p7: "pd_peers d7 p = Some ((new_peer v mac)
         \<lparr>pc_peer_ids := replicate MAX_NUM_PEER_ID_PER_PEER HTT_INVALID_PEER,
          pc_delete_in_progress := False, pc_ref_cnt := 2, pc_valid := True\<rparr>)"
    by (simp add: B)
  have q7: "pd_peers d7 r = pd_peers d r" if "r \<noteq> p" for r using that by (simp add: B)
  have bins: "hash_bins d12 = (hash_bins d)[ol_txrx_peer_find_hash_index d mac :=
      hash_bins d ! ol_txrx_peer_find_hash_index d mac @ [p]]"
    using hash_index_cong [OF B(3,4)]
    by (simp add: same d8_def ol_txrx_peer_find_hash_add_def Let_def B p7 new_peer_def)
  have vw: "alive (d12\<lparr>local_ids := l\<rparr>) = alive d12" "pmac (d12\<lparr>local_ids := l\<rparr>) = pmac d12"
    "pvdev (d12\<lparr>local_ids := l\<rparr>) = pvdev d12" "pvalid (d12\<lparr>local_ids := l\<rparr>) = pvalid d12"
    "pref (d12\<lparr>local_ids := l\<rparr>) = pref d12" "pids (d12\<lparr>local_ids := l\<rparr>) = pids d12"
    "plocal (d12\<lparr>local_ids := l\<rparr>) = plocal d12" "valive (d12\<lparr>local_ids := l\<rparr>) = valive d12"
    "vpeers (d12\<lparr>local_ids := l\<rparr>) = vpeers d12" "vlast (d12\<lparr>local_ids := l\<rparr>) = vlast d12"
    "vlisted (d12\<lparr>local_ids := l\<rparr>) = vlisted d12" "vpending (d12\<lparr>local_ids := l\<rparr>) = vpending d12"
    by (simp_all add: views fun_eq_iff)
  have upd: "pmac ?D = pmac (d12\<lparr>local_ids := l\<rparr>)" "pvdev ?D = pvdev (d12\<lparr>local_ids := l\<rparr>)"
    "pref ?D = pref (d12\<lparr>local_ids := l\<rparr>)" "pids ?D = pids (d12\<lparr>local_ids := l\<rparr>)"
    "pvalid ?D = pvalid (d12\<lparr>local_ids := l\<rparr>)"
    by (simp_all add: peer_views_upd fun_eq_iff) (simp_all add: views)
  show ?thesis
    unfolding eq
  proof (rule ctl_inv_new_peer [OF inv v new al])
    show "alive ?D r = (r = p \<or> alive d r)" for r
      using p7 q7 [of r] by (cases "r = p") (simp_all add: peer_views_upd vw pv(1) alive_def)
    have "alive d12 p" using p7 by (simp add: pv(1) alive_def)
    then show "plocal ?D r = (if r = p then i else plocal d r)" for r
      using q7 [of r] by (simp add: peer_views_upd vw pv) (simp add: plocal_def)
    show "pmac ?D r = (if r = p then mac else pmac d r)"
      "pvdev ?D r = (if r = p then v else pvdev d r)"
      "pref ?D r = (if r = p then 2 else pref d r)"
      "pids ?D r = (if r = p then replicate MAX_NUM_PEER_ID_PER_PEER HTT_INVALID_PEER else pids d r)"
      for r
      using p7 q7 [of r] unfolding upd vw pv by (simp_all add: pmac_def pvdev_def pref_def pids_def new_peer_def)
    show "pvalid ?D r = (r = p \<or> pvalid d r)" for r
      using p7 q7 [of r] unfolding upd vw pv by (cases "r = p") (simp_all add: pvalid_def)
    show "hash_mask ?D = hash_mask d" "hash_idx_bits ?D = hash_idx_bits d"
      "hash_bins ?D = (hash_bins d)[ol_txrx_peer_find_hash_index d mac :=
         hash_bins d ! ol_txrx_peer_find_hash_index d mac @ [p]]"
      "peer_id_to_obj_map ?D = peer_id_to_obj_map d" "local_ids ?D = l"
      "max_peer_id ?D = max_peer_id d" "monitor_mode ?D = monitor_mode d"
      "self_peer ?D = (if monitor_mode d \<and> self_peer d = None then Some p else self_peer d)"
      by (simp_all add: upd_cpeer_fields same(1-6,13) bins)
    show "valive ?D = valive d" "vlisted ?D = vlisted d" "vpending ?D = vpending d"
      "vpeers ?D w = (if w = v then vpeers d v @ [p] else vpeers d w)"
      "vlast ?D w = vlast d w \<or> w = v \<and> vlast ?D w = Some p" for w
      unfolding vdev_views_upd_cpeer vw same by (simp_all add: B)
  qed
qed

end
