(* ===== verification/PeerRuns.thy ===== *)
theory PeerRuns
  imports PeerAttach
begin

text \<open>
  Runs of the operations on the peer tables, and the theorems on references and pointers they
  satisfy. The state of a run is the device with the ghost counter of the callers' references.
\<close>

section \<open>Waiting for a deletion\<close>

lemma attach_check_loop_inv:
  "ctl_inv held (snd (attach_check_loop mac v qs wait d)) = ctl_inv held d"
proof (induction mac v qs wait d rule: attach_check_loop.induct)
  case (2 mac v q qs wait d)
  have "ctl_inv held (upd_cvdev v (\<lambda>x. x\<lparr>vc_wait_on_peer_id := pc_local_id (peer_at d q),
      vc_delete_complete := False\<rparr>) d) = ctl_inv held d"
    by (rule ctl_inv_upd_cvdev) simp_all
  with 2 show ?case by (auto simp del: mac_addr_cmp_0)
qed simp

lemma attach_check_inv: "ctl_inv held (snd (attach_check v mac d)) = ctl_inv held d"
  by (simp add: attach_check_def attach_check_loop_inv)

lemma attach_check_loop_same:
  "pd_peers (snd (attach_check_loop mac v qs wait d)) = pd_peers d \<and>
   vpending (snd (attach_check_loop mac v qs wait d)) = vpending d \<and>
   valive (snd (attach_check_loop mac v qs wait d)) = valive d"
proof (induction mac v qs wait d rule: attach_check_loop.induct)
  case (2 mac v q qs wait d)
  have "vpending (upd_cvdev v (\<lambda>x. x\<lparr>vc_wait_on_peer_id := pc_local_id (peer_at d q),
      vc_delete_complete := False\<rparr>) d) = vpending d"
    by (auto simp: vdev_views_upd fun_eq_iff) (auto simp: views)
  with 2 show ?case by (auto simp: peer_simps simp del: mac_addr_cmp_0)
qed simp

section \<open>Operations\<close>

datatype peer_op =
    PVdev_attach nat mac_addr nat wlan_op_mode
  | PVdev_detach nat bool
  | PPeer_attach nat mac_addr nat
  | PPeer_attach_resume nat mac_addr bool nat
  | PPeer_detach nat
  | PPeer_map nat mac_addr bool
  | PPeer_unmap nat
  | PPeer_tx_ready nat
  | PState_update mac_addr ol_txrx_peer_state
  | PPeer_update mac_addr peer_update_param
  | PKey_installed nat nat
  | PFind_by_addr mac_addr
  | PFind_local_id mac_addr
  | PHash_find mac_addr bool
  | PVdev_find nat mac_addr bool
  | PAssoc_find nat
  | PRelease nat

type_synonym peer_state = "(nat \<Rightarrow> nat) \<times> ctl_pdev"

text \<open>The attach up to the point where it waits, or to its end.\<close>

definition attach_start :: "nat \<Rightarrow> mac_addr \<Rightarrow> nat \<Rightarrow> ctl_pdev \<Rightarrow> ctl_pdev" where
  "attach_start v mac p d =
    (case attach_check v mac d of
       (Attach_go, d1) \<Rightarrow> snd (attach_create v mac (Some p) d1)
     | (_, d1) \<Rightarrow> d1)"

fun peer_step :: "peer_state \<Rightarrow> peer_op \<Rightarrow> peer_state" where
  "peer_step (held, d) (PVdev_attach v mac vid mode) =
     (held, snd (ol_txrx_vdev_attach mac vid mode (Some v) d))"
| "peer_step (held, d) (PVdev_detach v cb) = (held, ol_txrx_vdev_detach v cb d)"
| "peer_step (held, d) (PPeer_attach v mac p) = (held, attach_start v mac p d)"
| "peer_step (held, d) (PPeer_attach_resume v mac rc p) =
     (held, snd (attach_resume v mac rc (Some p) d))"
| "peer_step (held, d) (PPeer_detach p) = (held, ol_txrx_peer_detach p d)"
| "peer_step (held, d) (PPeer_map i mac ready) = (held, ol_rx_peer_map_handler i mac ready d)"
| "peer_step (held, d) (PPeer_unmap i) = (held, ol_rx_peer_unmap_handler i d)"
| "peer_step (held, d) (PPeer_tx_ready i) = (held, ol_txrx_peer_tx_ready_handler i d)"
| "peer_step (held, d) (PState_update mac st) = (held, ol_txrx_peer_state_update mac st d)"
| "peer_step (held, d) (PPeer_update mac param) = (held, ol_txrx_peer_update mac param d)"
| "peer_step (held, d) (PKey_installed p val) =
     (held, ol_txrx_peer_keyinstalled_state_update p val d)"
| "peer_step (held, d) (PFind_by_addr mac) = (held, snd (ol_txrx_peer_find_by_addr mac d))"
| "peer_step (held, d) (PFind_local_id mac) = (held, snd (ol_txrx_find_peer_by_addr mac d))"
| "peer_step (held, d) (PHash_find mac cv) =
     (case ol_txrx_peer_find_hash_find d mac cv of (r, d1) \<Rightarrow> (hold r held, d1))"
| "peer_step (held, d) (PVdev_find v mac cv) =
     (case ol_txrx_peer_vdev_find_hash d v mac cv of (r, d1) \<Rightarrow> (hold r held, d1))"
| "peer_step (held, d) (PAssoc_find v) =
     (case ol_txrx_assoc_peer_find v d of (r, d1) \<Rightarrow> (hold r held, d1))"
| "peer_step (held, d) (PRelease p) = (held(p := held p - 1), ol_txrx_peer_unref_delete p d)"

text \<open>What the callers, the allocator and the target guarantee: new objects are at addresses that
  are not in use, pointers the callers pass are alive, a peer is detached once, a peer id is
  mapped only while it is free and never out of range, and only references that are held are
  given back.\<close>

fun peer_ok :: "peer_state \<Rightarrow> peer_op \<Rightarrow> bool" where
  "peer_ok (held, d) (PVdev_attach v mac vid mode) = (pd_vdevs d v = None)"
| "peer_ok (held, d) (PVdev_detach v cb) = (valive d v \<and> vlisted d v)"
| "peer_ok (held, d) (PPeer_attach v mac p) = (valive d v \<and> vlisted d v \<and> \<not> alive d p)"
| "peer_ok (held, d) (PPeer_attach_resume v mac rc p) = (valive d v \<and> vlisted d v \<and> \<not> alive d p)"
| "peer_ok (held, d) (PPeer_detach p) = (alive d p \<and> pvalid d p)"
| "peer_ok (held, d) (PPeer_map i mac ready) =
     (i \<le> max_peer_id d \<and> peer_id_to_obj_map d ! i = None)"
| "peer_ok (held, d) (PPeer_unmap i) = (i \<le> max_peer_id d)"
| "peer_ok (held, d) (PAssoc_find v) = valive d v"
| "peer_ok (held, d) (PRelease p) = (0 < held p)"
| "peer_ok (held, d) _ = True"

fun peer_run_inv :: "peer_state \<Rightarrow> bool" where
  "peer_run_inv (held, d) = ctl_inv held d"

lemma not_pending: "ctl_inv held d \<Longrightarrow> valive d v \<Longrightarrow> vlisted d v \<Longrightarrow> \<not> vpending d v"
  using vdevs_ok_dest(4) [OF ctl_inv_dest(2)] by blast

lemma ctl_inv_attach_start:
  assumes inv: "ctl_inv held d" and v: "valive d v" "vlisted d v" and p: "\<not> alive d p"
  shows "ctl_inv held (attach_start v mac p d)"
proof -
  obtain r d1 where c: "attach_check v mac d = (r, d1)" by (cases "attach_check v mac d") auto
  have inv1: "ctl_inv held d1" using attach_check_inv [of held v mac d] inv c by simp
  show ?thesis
  proof (cases r)
    case Attach_go
    have same: "pd_peers d1 = pd_peers d" "vpending d1 = vpending d" "valive d1 = valive d"
      using attach_check_loop_same [of mac v "vc_peers (vdev_at d v)" False d] c
      by (simp_all add: attach_check_def)
    have "ctl_inv held (snd (attach_create v mac (Some p) d1))"
      using not_pending [OF inv v] v(1) p
      by (intro ctl_inv_attach_create inv1) (simp_all add: same(2,3) peer_views_cong(1) [OF same(1)])
    then show ?thesis using Attach_go c by (simp add: attach_start_def)
  qed (use inv1 c in \<open>simp_all add: attach_start_def\<close>)
qed

lemma ctl_inv_attach_resume:
  assumes inv: "ctl_inv held d" and v: "valive d v" "vlisted d v" and p: "\<not> alive d p"
  shows "ctl_inv held (snd (attach_resume v mac rc (Some p) d))"
proof (cases rc)
  case True
  then show ?thesis
    using ctl_inv_attach_create [OF inv v(1) not_pending [OF inv v] p] by (simp add: attach_resume_def)
next
  case False
  have "ctl_inv held (upd_cvdev v (\<lambda>x. x\<lparr>vc_wait_on_peer_id := OL_TXRX_INVALID_LOCAL_PEER_ID\<rparr>) d) =
      ctl_inv held d"
    by (rule ctl_inv_upd_cvdev) simp_all
  with False inv show ?thesis by (simp add: attach_resume_def)
qed

lemma ctl_inv_release_held:
  assumes "ctl_inv held d" and "0 < held p"
  shows "ctl_inv (held(p := held p - 1)) (ol_txrx_peer_unref_delete p d)"
proof -
  have "(held(p := held p - 1))(p := Suc ((held(p := held p - 1)) p)) = held"
    using assms(2) by auto
  then show ?thesis using ctl_inv_release [of "held(p := held p - 1)" p d] assms(1) by simp
qed

lemma peer_step_inv: "peer_run_inv s \<Longrightarrow> peer_ok s e \<Longrightarrow> peer_run_inv (peer_step s e)"
proof (cases s)
  case (Pair held d)
  assume inv: "peer_run_inv s" and ok: "peer_ok s e"
  then have i: "ctl_inv held d" by (simp add: Pair)
  show ?thesis
  proof (cases e)
    case (PHash_find mac cv)
    then show ?thesis
      using ctl_inv_hash_find [OF i, of mac cv] by (simp add: Pair case_prod_unfold)
  next
    case (PVdev_find v mac cv)
    then show ?thesis
      using ctl_inv_vdev_find_hash [OF i, of v mac cv] by (simp add: Pair case_prod_unfold)
  next
    case (PAssoc_find v)
    then show ?thesis
      using ctl_inv_assoc_find [OF i, of v] ok by (simp add: Pair case_prod_unfold)
  next
    case (PKey_installed p val)
    have "inert (\<lambda>x. x\<lparr>pc_keyinstalled := val\<rparr>)" by (simp add: inert_def)
    then show ?thesis
      using i PKey_installed
      by (simp add: Pair ol_txrx_peer_keyinstalled_state_update_def ctl_inv_inert)
  next
    case (PVdev_attach v mac vid mode)
    have "\<not> valive d v" using ok PVdev_attach by (simp add: Pair valive_def)
    then show ?thesis using ctl_inv_vdev_attach [OF i] PVdev_attach by (simp add: Pair)
  next
    case (PVdev_detach v cb)
    then show ?thesis using ctl_inv_vdev_detach [OF i] ok by (simp add: Pair)
  next
    case (PPeer_attach v mac p)
    then show ?thesis using ctl_inv_attach_start [OF i] ok by (simp add: Pair)
  next
    case (PPeer_attach_resume v mac rc p)
    then show ?thesis using ctl_inv_attach_resume [OF i] ok by (simp add: Pair)
  next
    case (PPeer_detach p)
    then show ?thesis using ctl_inv_detach [OF i] ok by (simp add: Pair)
  next
    case (PPeer_map j mac ready)
    then show ?thesis using ctl_inv_map_handler [OF i] ok by (simp add: Pair)
  next
    case (PPeer_unmap j)
    then show ?thesis using ctl_inv_unmap_handler [OF i] ok by (simp add: Pair)
  next
    case (PPeer_tx_ready j)
    then show ?thesis using i by (simp add: Pair ctl_inv_tx_ready)
  next
    case (PState_update mac st)
    then show ?thesis using i by (simp add: Pair ctl_inv_borrows [OF borrows_state_update])
  next
    case (PPeer_update mac param)
    then show ?thesis using i by (simp add: Pair ctl_inv_borrows [OF borrows_update])
  next
    case (PFind_by_addr mac)
    then show ?thesis using ctl_inv_find_by_addr [OF i] by (simp add: Pair)
  next
    case (PFind_local_id mac)
    then show ?thesis using i by (simp add: Pair ctl_inv_borrows [OF borrows_find_peer])
  next
    case (PRelease p)
    then show ?thesis using ctl_inv_release_held [OF i] ok by (simp add: Pair)
  qed
qed

interpretation peer_runs: run_invariant peer_step peer_ok peer_run_inv
  by unfold_locales (rule peer_step_inv)

section \<open>The attached device\<close>

text \<open>The tables of a device after \<open>ol_txrx_peer_find_attach\<close> and the initialisation of the pool
  of local ids, before any object is attached.\<close>

definition blank_pdev :: "nat \<Rightarrow> bool \<Rightarrow> bool \<Rightarrow> bool \<Rightarrow> nat option list \<Rightarrow> ctl_pdev" where
  "blank_pdev maxid hl addba monitor descs =
    \<lparr>pd_peers = \<lambda>_. None, pd_vdevs = \<lambda>_. None, hash_bins = [], hash_mask = 0, hash_idx_bits = 0,
     peer_id_to_obj_map = [], local_ids = OL_TXRX_LOCAL_PEER_ID_POOL_INIT, self_peer = None,
     desc_vdevs = descs, max_peer_id = maxid, is_high_latency = hl, host_addba = addba,
     monitor_mode = monitor, peer_log = []\<rparr>"

definition attached_pdev :: "nat \<Rightarrow> bool \<Rightarrow> bool \<Rightarrow> bool \<Rightarrow> nat option list \<Rightarrow> ctl_pdev" where
  "attached_pdev maxid hl addba monitor descs =
    snd (ol_txrx_peer_find_attach True True (blank_pdev maxid hl addba monitor descs))"

lemma attached_pdev_inv:
  assumes "maxid < HTT_INVALID_PEER"
  shows "ctl_inv (\<lambda>_. 0) (attached_pdev maxid hl addba monitor descs)"
proof -
  let ?b = "(blank_pdev maxid hl addba monitor descs)
    \<lparr>peer_id_to_obj_map := replicate (maxid + 1) None\<rparr>"
  define D where "D = snd (ol_txrx_peer_find_hash_attach True ?b)"
  have lt: "max_peer_id ?b < 2 ^ 16"
    using assms by (simp add: blank_pdev_def HTT_INVALID_PEER_def)
  note H = hash_attach_sized [OF lt, folded D_def]
  have eq: "attached_pdev maxid hl addba monitor descs = D"
    using H(1) by (simp add: D_def attached_pdev_def ol_txrx_peer_find_attach_def
        ol_txrx_peer_find_map_attach_def case_prod_unfold) (simp add: blank_pdev_def)
  have same: "pd_vdevs D = pd_vdevs ?b" "peer_id_to_obj_map D = peer_id_to_obj_map ?b"
    "local_ids D = local_ids ?b" "self_peer D = self_peer ?b" "max_peer_id D = max_peer_id ?b"
    by (simp_all add: D_def ol_txrx_peer_find_hash_attach_def Let_def)
  have none: "\<not> alive D p" "\<not> valive D v" for p v
    unfolding alive_def valive_def H(4) same by (simp_all add: blank_pdev_def)
  have "hash_ok D"
    unfolding hash_ok_def
  proof (intro conjI allI impI)
    fix i assume "i < length (hash_bins D)"
    then have "hash_bins D ! i = []" using H(3) nth_mem by blast
    then show "distinct (hash_bins D ! i)" by simp
    show "alive D p" "ol_txrx_peer_find_hash_index D (pmac D p) = i"
      if "p \<in> set (hash_bins D ! i)" for p
      using that \<open>hash_bins D ! i = []\<close> by simp_all
  qed (use H(2) none in simp_all)
  moreover have "vdevs_ok D" "refs_ok (\<lambda>_. 0) D"
    by (simp_all add: vdevs_ok_def refs_ok_def none)
  moreover have "idmap_ok D"
    using assms unfolding idmap_ok_def same by (auto simp: blank_pdev_def)
  moreover have "locals_ok D"
    unfolding locals_ok_def same
    by (auto simp: blank_pdev_def none lp_inv_init) (simp_all add: OL_TXRX_LOCAL_PEER_ID_POOL_INIT_def)
  ultimately show ?thesis unfolding eq ctl_inv_def by blast
qed

abbreviation peer_start :: "nat \<Rightarrow> bool \<Rightarrow> bool \<Rightarrow> bool \<Rightarrow> nat option list \<Rightarrow> peer_state" where
  "peer_start maxid hl addba monitor descs \<equiv> (\<lambda>_. 0, attached_pdev maxid hl addba monitor descs)"

lemma peer_run_reaches:
  assumes "maxid < HTT_INVALID_PEER"
    and "admissible peer_step peer_ok (peer_start maxid hl addba monitor descs) ops"
    and "run_ops peer_step (peer_start maxid hl addba monitor descs) ops = (held, d)"
  shows "ctl_inv held d"
  using peer_runs.run_inv [OF _ assms(2)] attached_pdev_inv [OF assms(1)] assms(3) by simp

section \<open>Theorems on runs\<close>

text \<open>Property C22. In every run of attachments, detachments, PEER_MAP and PEER_UNMAP messages,
  state changes and lookups, the reference count of a peer in memory is exactly what its
  references add up to: one while it is attached, one per peer id that is mapped to it, one until
  its first PEER_MAP arrives, and those its callers hold. It is never 0: memory is freed in the
  same step as the last reference goes, and a peer that is detached, was mapped, is unmapped and
  is held by nobody is not in memory any more.\<close>

theorem peer_ref_count_exact:
  assumes "maxid < HTT_INVALID_PEER"
    and "admissible peer_step peer_ok (peer_start maxid hl addba monitor descs) ops"
    and "run_ops peer_step (peer_start maxid hl addba monitor descs) ops = (held, d)"
    and "pd_peers d p = Some x"
  shows "pc_ref_cnt x =
      (if pc_valid x then 1 else 0) + int (count_list (peer_id_to_obj_map d) (Some p)) +
      (if pc_peer_ids x ! 0 = HTT_INVALID_PEER then 1 else 0) + int (held p) \<and>
    0 < pc_ref_cnt x"
proof -
  have al: "alive d p" using assms(4) by (simp add: alive_def)
  note R = refs_ok_dest [OF ctl_inv_dest(5) [OF peer_run_reaches [OF assms(1-3)]]]
  show ?thesis
    using R(1) [OF al] R(2) [OF al] assms(4)
    by (auto simp: peer_refs_def pref_def pvalid_def pids_def split: if_splits)
qed

text \<open>Property C23. No table ever points to freed memory: in every run, the peers in the hash table,
  in the map from peer ids, in the map from local ids and in the lists of the virtual devices are
  in memory, the last real peer of a virtual device is in memory and still attached, and the
  virtual device of every peer in memory is in memory too.\<close>

theorem peer_tables_no_dangling_pointer:
  assumes "maxid < HTT_INVALID_PEER"
    and "admissible peer_step peer_ok (peer_start maxid hl addba monitor descs) ops"
    and "run_ops peer_step (peer_start maxid hl addba monitor descs) ops = (held, d)"
  shows "(\<forall>b p. b \<in> set (hash_bins d) \<longrightarrow> p \<in> set b \<longrightarrow> pd_peers d p \<noteq> None) \<and>
    (\<forall>p. Some p \<in> set (peer_id_to_obj_map d) \<longrightarrow> pd_peers d p \<noteq> None) \<and>
    (\<forall>p. Some p \<in> set (lp_map (local_ids d)) \<longrightarrow> pd_peers d p \<noteq> None) \<and>
    (\<forall>v y p. pd_vdevs d v = Some y \<longrightarrow> p \<in> set (vc_peers y) \<longrightarrow> pd_peers d p \<noteq> None) \<and>
    (\<forall>v y p. pd_vdevs d v = Some y \<longrightarrow> vc_last_real y = Some p \<longrightarrow>
       (\<exists>x. pd_peers d p = Some x \<and> pc_valid x)) \<and>
    (\<forall>p x. pd_peers d p = Some x \<longrightarrow> pd_vdevs d (pc_vdev x) \<noteq> None)"
proof -
  have inv: "ctl_inv held d" by (rule peer_run_reaches [OF assms])
  note I = ctl_inv_dest [OF inv]
  note D = vdevs_ok_dest [OF I(2)]
  show ?thesis
  proof (intro conjI allI impI)
    fix b p assume "b \<in> set (hash_bins d)" and p: "p \<in> set b"
    then obtain i where "i < length (hash_bins d)" "b = hash_bins d ! i" by (auto simp: in_set_conv_nth)
    then show "pd_peers d p \<noteq> None"
      using hash_ok_dest(3) [OF I(1), of i p] p by (simp add: alive_def)
  next
    fix p assume "Some p \<in> set (peer_id_to_obj_map d)"
    then show "pd_peers d p \<noteq> None" using I(3) by (auto simp: idmap_ok_def alive_def)
  next
    fix p assume "Some p \<in> set (lp_map (local_ids d))"
    then obtain i where "i < OL_TXRX_NUM_LOCAL_PEER_IDS" "lp_map (local_ids d) ! i = Some p"
      using locals_ok_dest(1) [OF I(4)] by (auto simp: in_set_conv_nth lp_inv_def)
    then show "pd_peers d p \<noteq> None" using locals_ok_dest(2) [OF I(4)] by (simp add: alive_def)
  next
    fix v y p assume "pd_vdevs d v = Some y" "p \<in> set (vc_peers y)"
    then show "pd_peers d p \<noteq> None" using D(2) [of v p] by (simp add: views)
  next
    fix v y p assume "pd_vdevs d v = Some y" "vc_last_real y = Some p"
    then show "\<exists>x. pd_peers d p = Some x \<and> pc_valid x" using D(3) [of v p] by (auto simp: views)
  next
    fix p x assume "pd_peers d p = Some x"
    then show "pd_vdevs d (pc_vdev x) \<noteq> None" using D(6) [of p] by (simp add: views)
  qed
qed

text \<open>Property C25. A virtual device whose deletion was asked for while it had peers waits for the
  last of them: in every run it has at least one peer as long as it is in memory, so the deletion
  of the last peer frees it in the same step, and a virtual device with peers is never freed.\<close>

theorem vdev_deleted_with_last_peer:
  assumes "maxid < HTT_INVALID_PEER"
    and "admissible peer_step peer_ok (peer_start maxid hl addba monitor descs) ops"
    and "run_ops peer_step (peer_start maxid hl addba monitor descs) ops = (held, d)"
  shows "(\<forall>v y. pd_vdevs d v = Some y \<longrightarrow> vc_listed y \<or> vc_peers y \<noteq> []) \<and>
    (\<forall>p x. pd_peers d p = Some x \<longrightarrow>
       (\<exists>y. pd_vdevs d (pc_vdev x) = Some y \<and> p \<in> set (vc_peers y)))"
proof -
  note D = vdevs_ok_dest [OF ctl_inv_dest(2) [OF peer_run_reaches [OF assms]]]
  show ?thesis
  proof (intro conjI allI impI)
    fix v y assume "pd_vdevs d v = Some y"
    then show "vc_listed y \<or> vc_peers y \<noteq> []" using D(4,5) [of v] by (auto simp: views)
  next
    fix p x assume "pd_peers d p = Some x"
    then show "\<exists>y. pd_vdevs d (pc_vdev x) = Some y \<and> p \<in> set (vc_peers y)"
      using D(6,7) [of p] by (auto simp: views)
  qed
qed

text \<open>Property C26. Local ids identify the attached peers: in every run the peer that is found by
  the local id of an attached peer is that peer, so no two attached peers share an id, and an id
  that finds a peer is the id of that peer and the peer is attached.\<close>

theorem local_id_identifies_peer:
  assumes "maxid < HTT_INVALID_PEER"
    and "admissible peer_step peer_ok (peer_start maxid hl addba monitor descs) ops"
    and "run_ops peer_step (peer_start maxid hl addba monitor descs) ops = (held, d)"
  shows "(\<forall>p x. pd_peers d p = Some x \<longrightarrow> pc_valid x \<longrightarrow>
       pc_local_id x < OL_TXRX_NUM_LOCAL_PEER_IDS \<longrightarrow>
       ol_txrx_peer_find_by_local_id (local_ids d) (pc_local_id x) = Some p) \<and>
    (\<forall>i p. ol_txrx_peer_find_by_local_id (local_ids d) i = Some p \<longrightarrow>
       (\<exists>x. pd_peers d p = Some x \<and> pc_valid x \<and> pc_local_id x = i))"
proof -
  note L = locals_ok_dest [OF ctl_inv_dest(4) [OF peer_run_reaches [OF assms]]]
  show ?thesis
  proof (intro conjI allI impI)
    fix p x assume "pd_peers d p = Some x" "pc_valid x" and i: "pc_local_id x < OL_TXRX_NUM_LOCAL_PEER_IDS"
    then show "ol_txrx_peer_find_by_local_id (local_ids d) (pc_local_id x) = Some p"
      using L(3) [of p] num_less_invalid [OF i]
      by (simp add: ol_txrx_peer_find_by_local_id_def views)
  next
    fix i p assume "ol_txrx_peer_find_by_local_id (local_ids d) i = Some p"
    then have "i < OL_TXRX_NUM_LOCAL_PEER_IDS" "lp_map (local_ids d) ! i = Some p"
      by (auto simp: ol_txrx_peer_find_by_local_id_def split: if_splits)
    then show "\<exists>x. pd_peers d p = Some x \<and> pc_valid x \<and> pc_local_id x = i"
      using L(2) [of i p] by (auto simp: views)
  qed
qed

text \<open>A local id that is given back can be allocated again at once: after the id of an
  attached peer was freed, the allocation for any peer succeeds, even if the pool was empty.\<close>

theorem freed_local_id_is_reused:
  assumes "lp_inv l" and "i < OL_TXRX_NUM_LOCAL_PEER_IDS" and "lp_map l ! i \<noteq> None"
  shows "fst (OL_TXRX_LOCAL_PEER_ID_ALLOC p (OL_TXRX_LOCAL_PEER_ID_FREE i l)) \<noteq>
    OL_TXRX_INVALID_LOCAL_PEER_ID"
proof -
  have "i \<in> lp_used l" using assms(2,3) by (simp add: lp_used_def)
  from local_peer_id_pool.free_makes_room [OF assms(1) this, of p] show ?thesis
    by (auto simp: lp_alloc_def split: prod.splits if_splits)
qed

lemma attach_mid_peers:
  fixes d p v mac
  assumes "valive d v"
  defines "d10 \<equiv> attach_mid v p (attach_base v mac p d)"
  shows "r \<noteq> p \<Longrightarrow> pd_peers d10 r = pd_peers d r"
    and "\<exists>x. pd_peers d10 p = Some x \<and> pc_mac x = mac \<and> pc_state x = ol_txrx_peer_state_invalid \<and>
           pc_tx_filter x = None \<and> pc_valid x \<and> pc_vdev x = v"
    and "hash_bins d10 = (hash_bins d)[ol_txrx_peer_find_hash_index d mac :=
           hash_bins d ! ol_txrx_peer_find_hash_index d mac @ [p]]"
    and "ol_txrx_peer_find_hash_index d10 = ol_txrx_peer_find_hash_index d"
proof -
  note B = attach_base_fields [OF assms(1), of mac p]
  let ?d7 = "attach_base v mac p d"
  let ?d8 = "ol_txrx_peer_find_hash_add ?d7 p"
  have h8: "pd_peers ?d8 = pd_peers ?d7" "hash_mask ?d8 = hash_mask d" "hash_idx_bits ?d8 = hash_idx_bits d"
    by (simp_all add: ol_txrx_peer_find_hash_add_def Let_def B)
  have b8: "hash_bins ?d8 = (hash_bins d)[ol_txrx_peer_find_hash_index d mac :=
      hash_bins d ! ol_txrx_peer_find_hash_index d mac @ [p]]"
    using hash_index_cong [OF B(3,4)]
    by (simp add: ol_txrx_peer_find_hash_add_def Let_def B new_peer_def)
  obtain f where f: "set_bss_peer v p ?d8 = upd_cpeer p f ?d8"
    and keep: "\<And>x. pc_mac (f x) = pc_mac x \<and> pc_tx_filter (f x) = pc_tx_filter x \<and> pc_valid (f x) = pc_valid x \<and>
      pc_vdev (f x) = pc_vdev x"
  proof (cases "pc_mac (peer_at ?d8 p) = vc_mac (vdev_at ?d8 v)")
    case True
    then show ?thesis
      by (intro that [of "\<lambda>x. x\<lparr>pc_bss_peer := True\<rparr>"]) (simp_all add: set_bss_peer_def)
  next
    case False
    then show ?thesis by (intro that [of "\<lambda>x. x"]) (simp_all add: set_bss_peer_def)
  qed
  have d10: "d10 = upd_cpeer p (\<lambda>x. x\<lparr>pc_state := ol_txrx_peer_state_invalid\<rparr>) (upd_cpeer p f ?d8)"
    by (simp add: d10_def attach_mid_def f)
  show "r \<noteq> p \<Longrightarrow> pd_peers d10 r = pd_peers d r"
    by (simp add: d10 upd_cpeer_fields h8 B)
  show "\<exists>x. pd_peers d10 p = Some x \<and> pc_mac x = mac \<and> pc_state x = ol_txrx_peer_state_invalid \<and>
      pc_tx_filter x = None \<and> pc_valid x \<and> pc_vdev x = v"
    by (simp add: d10 upd_cpeer_fields h8 B keep) (simp add: new_peer_def)
  show "hash_bins d10 = (hash_bins d)[ol_txrx_peer_find_hash_index d mac :=
      hash_bins d ! ol_txrx_peer_find_hash_index d mac @ [p]]"
    by (simp add: d10 upd_cpeer_fields b8)
  show "ol_txrx_peer_find_hash_index d10 = ol_txrx_peer_find_hash_index d"
    by (rule ext, rule hash_index_cong) (simp_all add: d10 upd_cpeer_fields h8)
qed

lemma attach_create_peer:
  assumes "valive d v"
  shows "\<exists>x. pd_peers (snd (attach_create v mac (Some p) d)) p = Some x \<and> pc_mac x = mac \<and> pc_valid x \<and>
           pc_vdev x = v \<and> pc_local_id x = fst (OL_TXRX_LOCAL_PEER_ID_ALLOC p (local_ids d))"
    and "alive (snd (attach_create v mac (Some p) d)) r = (r = p \<or> alive d r)"
proof -
  define d10 where "d10 = attach_mid v p (attach_base v mac p d)"
  note M = attach_mid_peers [OF assms, where p = p and mac = mac, folded d10_def]
  obtain q f es where f: "inert f"
    "ol_txrx_peer_state_update (pc_mac (peer_at d10 p)) ol_txrx_peer_state_disc d10 =
      log_ev es (upd_cpeer q f d10)"
    using borrows_state_update unfolding borrows_def by blast
  have eq: "pd_peers (snd (attach_create v mac (Some p) d)) =
      (pd_peers (upd_cpeer q f d10))(p := map_option
         (\<lambda>x. x\<lparr>pc_local_id := fst (OL_TXRX_LOCAL_PEER_ID_ALLOC p (local_ids d10))\<rparr>)
         (pd_peers (upd_cpeer q f d10) p))"
    unfolding attach_create_form d10_def [symmetric] attach_end_def f(2)
    by (simp add: peer_simps case_prod_unfold)
  have l: "local_ids d10 = local_ids d"
    by (simp add: d10_def attach_mid_def attach_base_def set_bss_peer_def Let_def
        ol_txrx_peer_find_hash_add_def peer_simps)
  show "\<exists>x. pd_peers (snd (attach_create v mac (Some p) d)) p = Some x \<and> pc_mac x = mac \<and> pc_valid x \<and>
           pc_vdev x = v \<and> pc_local_id x = fst (OL_TXRX_LOCAL_PEER_ID_ALLOC p (local_ids d))"
    using M(2) f(1) by (auto simp: eq upd_cpeer_fields inert_def l)
  show "alive (snd (attach_create v mac (Some p) d)) r = (r = p \<or> alive d r)"
    using M(1) [of r] M(2) by (cases "r = p"; cases "pd_peers d r") (auto simp: eq upd_cpeer_fields alive_def)
qed

lemma find_append_Some: "find P xs = Some x \<Longrightarrow> find P (xs @ ys) = Some x"
  by (induction xs) (auto split: if_splits)

lemma find_mem_cong: "(\<And>x. x \<in> set xs \<Longrightarrow> P x = Q x) \<Longrightarrow> find P xs = find Q xs"
  by (induction xs) auto

text \<open>The lookup in the state update of the attachment, when an older peer has the address.\<close>

lemma attach_finds_older:
  fixes d p v mac
  assumes inv: "ctl_inv held d" and v: "valive d v" and p: "\<not> alive d p"
    and q: "fst (ol_txrx_peer_find_hash_find d mac True) = Some q"
  defines "d10 \<equiv> attach_mid v p (attach_base v mac p d)"
  shows "ol_txrx_peer_find_hash_find d10 mac True =
      (Some q, upd_cpeer q (\<lambda>x. x\<lparr>pc_ref_cnt := pc_ref_cnt x + 1\<rparr>) d10)"
    and "q \<noteq> p" and "alive d q"
proof -
  let ?i = "ol_txrx_peer_find_hash_index d mac"
  let ?P = "\<lambda>d r. ol_txrx_peer_find_mac_addr_cmp mac (pc_mac (peer_at d r)) = 0 \<and>
      (\<not> True \<or> pc_valid (peer_at d r))"
  note M = attach_mid_peers [OF v, where p = p and mac = mac, folded d10_def]
  note H = hash_ok_dest [OF ctl_inv_dest(1) [OF inv]]
  have find: "find (?P d) (hash_bins d ! ?i) = Some q"
    using q unfolding ol_txrx_peer_find_hash_find_def fst_take_ref .
  then have mem: "q \<in> set (hash_bins d ! ?i)" by (rule find_in_set)
  then show al: "alive d q" using H(3) [OF H(5)] by blast
  then show "q \<noteq> p" using p by blast
  have "find (?P d10) (hash_bins d ! ?i) = find (?P d) (hash_bins d ! ?i)"
  proof (rule find_mem_cong)
    fix r assume "r \<in> set (hash_bins d ! ?i)"
    then have "r \<noteq> p" using H(3) [OF H(5)] p by blast
    then show "?P d10 r = ?P d r" by (simp add: M(1))
  qed
  then have "find (?P d10) (hash_bins d ! ?i @ [p]) = Some q"
    using find by (simp add: find_append_Some)
  moreover have "hash_bins d10 ! ?i = hash_bins d ! ?i @ [p]"
    using H(5) by (simp add: M(3))
  ultimately show "ol_txrx_peer_find_hash_find d10 mac True =
      (Some q, upd_cpeer q (\<lambda>x. x\<lparr>pc_ref_cnt := pc_ref_cnt x + 1\<rparr>) d10)"
    unfolding ol_txrx_peer_find_hash_find_def M(4) by (simp add: take_ref_def)
qed

text \<open>Property C27. A peer whose address is already the address of an attached peer of another
  virtual device is not put into the state the attachment announces: the state update at the end
  of the attachment looks the peer up by its address, finds the older peer, and puts that one
  back into the disconnected state, while the new peer stays in the invalid state without a
  transmit filter.\<close>

theorem attach_with_known_address_resets_older_peer:
  assumes "ctl_inv held d" and "valive d v" and "\<not> alive d p"
    and "fst (ol_txrx_peer_find_hash_find d mac True) = Some q"
  shows "pc_state (peer_at (snd (attach_create v mac (Some p) d)) p) = ol_txrx_peer_state_invalid \<and>
    pc_tx_filter (peer_at (snd (attach_create v mac (Some p) d)) p) = None \<and>
    pc_state (peer_at (snd (attach_create v mac (Some p) d)) q) = ol_txrx_peer_state_disc"
proof -
  define d10 where "d10 = attach_mid v p (attach_base v mac p d)"
  note M = attach_mid_peers [OF assms(2), where p = p and mac = mac, folded d10_def]
  note O = attach_finds_older [OF assms, folded d10_def]
  define d11 where "d11 = ol_txrx_peer_state_update mac ol_txrx_peer_state_disc d10"
  obtain x where x: "pd_peers d10 p = Some x" "pc_mac x = mac"
    "pc_state x = ol_txrx_peer_state_invalid" "pc_tx_filter x = None" using M(2) by blast
  obtain y where y: "pd_peers d10 q = Some y" using O(2,3) M(1) by (auto simp: alive_def)
  have p11: "pd_peers d11 p = Some x"
    using O(2) x(1) by (simp add: d11_def ol_txrx_peer_state_update_def O(1) Let_def ref_dec_form peer_simps)
  have q11: "\<exists>z. pd_peers d11 q = Some z \<and> pc_state z = ol_txrx_peer_state_disc"
    using y by (simp add: d11_def ol_txrx_peer_state_update_def O(1) Let_def ref_dec_form peer_simps)
  have "pd_peers (snd (attach_create v mac (Some p) d)) r =
      map_option (\<lambda>x. if r = p then x\<lparr>pc_local_id := fst (OL_TXRX_LOCAL_PEER_ID_ALLOC p (local_ids d11))\<rparr>
        else x) (pd_peers d11 r)" for r
    unfolding attach_create_form d10_def [symmetric] attach_end_def
    using x by (simp add: d11_def [symmetric] peer_simps case_prod_unfold option.map_ident)
  with p11 q11 x O(2) show ?thesis by auto
qed

end
