(* ===== verification/HttRxInd.thy ===== *)
theory HttRxInd
  imports HttT2h PeerRuns
begin

unbundle bit_operations_syntax

text \<open>
  Reading an rx indication (the accessors of \<open>htt_t2h.c\<close>), and what the dispatched messages do to the
  rx path and to the peer tables: each recorded call becomes the operation of the receiver's model.
\<close>

section \<open>Accessors\<close>

definition htt_rx_ind_flush :: "htt_msg \<Rightarrow> bool" where
  "htt_rx_ind_flush m = (fget HTT_RX_IND_FLUSH_VALID (hm_word m 0) \<noteq> 0)"

definition htt_rx_ind_flush_seq_num_range :: "htt_msg \<Rightarrow> nat \<times> nat" where
  "htt_rx_ind_flush_seq_num_range m =
     (fget HTT_RX_IND_FLUSH_SEQ_NUM_START (hm_word m 1), fget HTT_RX_IND_FLUSH_SEQ_NUM_END (hm_word m 1))"

definition htt_rx_ind_release :: "htt_msg \<Rightarrow> bool" where
  "htt_rx_ind_release m = (fget HTT_RX_IND_REL_VALID (hm_word m 0) \<noteq> 0)"

definition htt_rx_ind_release_seq_num_range :: "htt_msg \<Rightarrow> nat \<times> nat" where
  "htt_rx_ind_release_seq_num_range m =
     (fget HTT_RX_IND_REL_SEQ_NUM_START (hm_word m 1), fget HTT_RX_IND_REL_SEQ_NUM_END (hm_word m 1))"

definition htt_rx_ind_mpdu_range_info :: "htt_pdev \<Rightarrow> htt_msg \<Rightarrow> nat \<Rightarrow> nat \<times> nat" where
  "htt_rx_ind_mpdu_range_info s m mpdu_range_num =
     (let w = hm_word m (rx_mpdu_range_offset_words s + mpdu_range_num)
      in (fget HTT_RX_IND_MPDU_STATUS w, fget HTT_RX_IND_MPDU_COUNT w))"

definition htt_rx_frag_ind_flush_seq_num_range :: "htt_msg \<Rightarrow> nat \<times> nat" where
  "htt_rx_frag_ind_flush_seq_num_range m =
     (fget HTT_RX_IND_FLUSH_SEQ_NUM_START (hm_word m 1), fget HTT_RX_IND_FLUSH_SEQ_NUM_END (hm_word m 1))"

definition htt_rx_ind_ext_tid :: "htt_msg \<Rightarrow> nat" where
  "htt_rx_ind_ext_tid m = fget HTT_RX_IND_EXT_TID (hm_word m 0)"

text \<open>
  The measurements: an \<open>int8_t\<close> read from a byte is negative from 0x80 on. The PPDU descriptor is at
  word 2, the header's suffix at word 11.
\<close>

definition s8 :: "nat \<Rightarrow> int" where
  "s8 b = (if b < 128 then int b else int b - 256)"

definition HTT_RSSI_INVALID :: int where "HTT_RSSI_INVALID = 0x7fff"
definition HTT_TGT_RSSI_INVALID :: int where "HTT_TGT_RSSI_INVALID = 0x80"
definition HTT_NOISE_FLOOR_INVALID :: int where "HTT_NOISE_FLOOR_INVALID = 0x7f"
definition ppdu_desc_word :: nat where "ppdu_desc_word = 2"
definition hdr_suffix_word :: nat where "hdr_suffix_word = ppdu_desc_word + HTT_RX_PPDU_DESC_SIZE32"

definition htt_rx_ind_rssi_dbm :: "htt_msg \<Rightarrow> int" where
  "htt_rx_ind_rssi_dbm m =
     (let w = hm_word m ppdu_desc_word in
      if fget HTT_RX_IND_START_VALID w = 0 then HTT_RSSI_INVALID
      else
        let rssi = s8 (fget HTT_RX_IND_RSSI_CMB w)
        in if HTT_TGT_RSSI_INVALID = rssi then HTT_RSSI_INVALID else rssi)"

definition htt_rx_ind_rssi_dbm_chain :: "htt_msg \<Rightarrow> int \<Rightarrow> int" where
  "htt_rx_ind_rssi_dbm_chain m chain =
     (if chain < 0 \<or> chain > 3 then HTT_RSSI_INVALID
      else if fget HTT_RX_IND_START_VALID (hm_word m ppdu_desc_word) = 0 then HTT_RSSI_INVALID
      else
        let rssi = s8 (fget HTT_RX_IND_RSSI_PRI20 (hm_word m (ppdu_desc_word + 1 + nat chain)))
        in if HTT_TGT_RSSI_INVALID = rssi then HTT_RSSI_INVALID else rssi)"

definition htt_rx_ind_noise_floor_chain :: "htt_msg \<Rightarrow> int \<Rightarrow> int" where
  "htt_rx_ind_noise_floor_chain m chain =
     (if chain < 0 \<or> chain > 1 then HTT_NOISE_FLOOR_INVALID
      else if fget HTT_RX_IND_START_VALID (hm_word m ppdu_desc_word) = 0 then HTT_NOISE_FLOOR_INVALID
      else if chain = 0 then s8 (fget HTT_RX_IND_NOISE_FLOOR_CHAIN0 (hm_word m hdr_suffix_word))
      else s8 (fget HTT_RX_IND_NOISE_FLOOR_CHAIN1 (hm_word m hdr_suffix_word)))"

text \<open>The result -1 in an unsigned variable is its greatest value.\<close>

definition htt_rx_ind_legacy_rate :: "htt_msg \<Rightarrow> nat \<times> nat" where
  "htt_rx_ind_legacy_rate m =
     (let w = hm_word m ppdu_desc_word in
      if fget HTT_RX_IND_START_VALID w = 0 then (255, 255)
      else (fget HTT_RX_IND_LEGACY_RATE w, fget HTT_RX_IND_LEGACY_RATE_SEL w))"

definition htt_rx_ind_timestamp :: "htt_msg \<Rightarrow> nat \<times> nat" where
  "htt_rx_ind_timestamp m =
     (let w = hm_word m ppdu_desc_word in
      if fget HTT_RX_IND_END_VALID w = 0 then (2 ^ 32 - 1, 255)
      else (unat (hm_word m (ppdu_desc_word + 6)), fget HTT_RX_IND_TIMESTAMP_SUBMICROSEC w))"

definition htt_rx_ind_tsf32 :: "htt_msg \<Rightarrow> nat" where
  "htt_rx_ind_tsf32 m =
     (if fget HTT_RX_IND_END_VALID (hm_word m ppdu_desc_word) = 0 then 2 ^ 32 - 1
      else unat (hm_word m (ppdu_desc_word + 5)))"

section \<open>The rx path behind the messages\<close>

text \<open>
  The status codes of an MPDU range; codes without a name select the same branches as
  \<open>htt_rx_status_err_misc\<close>.
\<close>

definition rx_status_of :: "nat \<Rightarrow> htt_rx_status" where
  "rx_status_of c =
     (if c = 0 then htt_rx_status_unknown else if c = 1 then htt_rx_status_ok
      else if c = 2 then htt_rx_status_err_fcs else if c = 3 then htt_rx_status_err_dup
      else if c = 4 then htt_rx_status_err_replay else if c = 5 then htt_rx_status_err_inv_peer
      else if c = 8 then htt_rx_status_ctrl_mgmt_null else if c = 9 then htt_rx_status_tkip_mic_err
      else htt_rx_status_err_misc)"

text \<open>
  The frames behind an indication come from the device (\<open>htt_rx_amsdu_pop\<close>, \<open>htt_rx_frag_pop\<close>): the
  MPDUs in the order in which they are popped, of which each range takes its count, and the fragment.
\<close>

record rx_frames =
  fr_mpdus :: "rx_mpdu list"
  fr_msdu :: rx_msdu

fun take_ranges :: "(nat \<times> nat) list \<Rightarrow> rx_mpdu list \<Rightarrow> (htt_rx_status \<times> rx_mpdu list) list" where
  "take_ranges [] ms = []"
| "take_ranges ((status, num) # rs) ms = (rx_status_of status, take num ms) # take_ranges rs (drop num ms)"

definition rx_ind_of :: "htt_pdev \<Rightarrow> htt_msg \<Rightarrow> nat \<Rightarrow> rx_mpdu list \<Rightarrow> rx_ind" where
  "rx_ind_of s m num_mpdu_ranges ms =
     \<lparr>ri_flush = (if htt_rx_ind_flush m then Some (htt_rx_ind_flush_seq_num_range m) else None),
      ri_release = (if htt_rx_ind_release m then Some (htt_rx_ind_release_seq_num_range m) else None),
      ri_ranges = take_ranges (map (htt_rx_ind_mpdu_range_info s m) [0..<num_mpdu_ranges]) ms\<rparr>"

fun t2h_rx_op :: "htt_pdev \<Rightarrow> htt_msg \<Rightarrow> rx_frames \<Rightarrow> t2h_call \<Rightarrow> rx_op option" where
  "t2h_rx_op s m fr (Rx_indication peer_id tid n) =
     Some (RxIndication peer_id tid (rx_ind_of s m n (fr_mpdus fr)))"
| "t2h_rx_op s m fr (Rx_frag_indication peer_id tid) =
     Some (RxFragIndication peer_id tid
       (if htt_rx_ind_flush m then Some (fst (htt_rx_frag_ind_flush_seq_num_range m)) else None) (fr_msdu fr))"
| "t2h_rx_op s m fr (Rx_flush peer_id tid a b act) = Some (RxFlush peer_id tid a b act)"
| "t2h_rx_op s m fr (Rx_pn_ind peer_id tid a b ies) = Some (RxPnInd peer_id tid a b ies)"
| "t2h_rx_op s m fr (Rx_addba peer_id tid win start) = Some (RxAddba peer_id tid win)"
| "t2h_rx_op s m fr (Rx_delba peer_id tid) = Some (RxDelba peer_id tid)"
| "t2h_rx_op s m fr _ = None"

section \<open>The peer tables behind the messages\<close>

definition mac_of :: "nat list \<Rightarrow> mac_addr" where
  "mac_of bs = (let b = (\<lambda>i. word_of_nat (bs ! i)) in mac_raw (b 0) (b 1) (b 2) (b 3) (b 4) (b 5))"

fun t2h_peer_op :: "t2h_call \<Rightarrow> peer_op option" where
  "t2h_peer_op (Peer_map peer_id vid mac tx_ready) = Some (PPeer_map peer_id (mac_of mac) tx_ready)"
| "t2h_peer_op (Peer_unmap peer_id) = Some (PPeer_unmap peer_id)"
| "t2h_peer_op _ = None"

end
