(* ===== verification/TxComplProps.thy ===== *)
theory TxComplProps
  imports TxCompl
begin

text \<open>
  Completions do not touch the queues, the scheduler or the credit: they only release descriptors and
  group credit. A run of the scheduler moves credit into frames handed to the target. The life of a
  downloaded frame: it is released once, by the later one of its download and its completion, unless
  the download failed.
\<close>

section \<open>What completions leave alone\<close>

definition tx_core :: "ol_txrx_pdev \<Rightarrow>
    (txq_id \<Rightarrow> ol_tx_frms_queue) \<times> ol_tx_sched_wrr_adv \<times> bool \<times> (nat \<Rightarrow> ol_tx_cat) \<times> int \<times> ol_tx_desc list" where
  "tx_core p = (txqs p, scheduler p, sched_attached p, tid_to_ac p, target_tx_credit p, target_descs p)"

text \<open>The frames handed to the target so far, and the credit that is left.\<close>

definition tx_account :: "ol_txrx_pdev \<Rightarrow> int" where
  "tx_account p = target_tx_credit p + int (length (target_descs p))"

lemma tx_core_account: "tx_core p' = tx_core p \<Longrightarrow> tx_account p' = tx_account p"
  by (simp add: tx_core_def tx_account_def)

lemma tx_core_inv: "tx_core p' = tx_core p \<Longrightarrow> tx_inv p' = tx_inv p"
  by (simp add: tx_core_def tx_inv_def qcat_def [abs_def])

lemma tx_core_simps [simp]:
  "tx_core (upd_slot i f p) = tx_core p" "tx_core (nbuf_log es p) = tx_core p"
  "tx_core (p\<lparr>rsrc_cnt := n\<rparr>) = tx_core p" "tx_core (p\<lparr>num_free := k\<rparr>) = tx_core p"
  "tx_core (p\<lparr>freelist := h\<rparr>) = tx_core p" "tx_core (p\<lparr>grp_credit := gc\<rparr>) = tx_core p"
  by (simp_all add: tx_core_def upd_slot_def nbuf_log_def)

lemma tx_core_free [simp]: "tx_core (ol_tx_desc_free i p) = tx_core p"
  by (simp add: ol_tx_desc_free_def ol_tx_desc_push_free_def Let_def)

lemma tx_core_nonstd [simp]: "tx_core (ol_tx_desc_frame_free_nonstd p d e) = tx_core p"
  by (simp add: ol_tx_desc_frame_free_nonstd_def Let_def)

lemma tx_core_list_loop [simp]: "tx_core (fst (ol_tx_desc_list_loop p ds ms)) = tx_core p"
  by (induction ds arbitrary: p ms) simp_all

lemma tx_core_list_free [simp]: "tx_core (ol_tx_desc_frame_list_free p ds e) = tx_core p"
  by (simp add: ol_tx_desc_frame_list_free_def case_prod_unfold Let_def)

lemma tx_core_no_refs [simp]: "tx_core (snd (OL_TX_DESC_NO_REFS i p)) = tx_core p"
  by (simp add: OL_TX_DESC_NO_REFS_def Let_def)

lemma tx_core_group [simp]: "tx_core (ol_tx_desc_update_group_credit i n a p) = tx_core p"
  by (simp add: ol_tx_desc_update_group_credit_def ol_txrx_update_group_credit_def split: option.split)

lemma tx_core_msdu_complete [simp]: "tx_core (snd (ol_tx_msdu_complete d st ds p)) = tx_core p"
  by (simp add: ol_tx_msdu_complete_def)

lemma tx_core_completion_loop [simp]: "tx_core (snd (completion_loop st is ds p)) = tx_core p"
  by (induction "is" arbitrary: ds p) (simp_all add: Let_def case_prod_unfold)

lemma tx_core_inspect_loop [simp]: "tx_core (snd (inspect_loop is ds p)) = tx_core p"
  by (induction "is" arbitrary: ds p) (simp_all add: Let_def case_prod_unfold)

section \<open>The credit account of the transmit path\<close>

lemma sched_account:
  assumes "tx_inv p"
  shows "tx_account (ol_tx_sched env p) = tx_account p"
proof (cases "tx_sched_status p = ol_tx_scheduler_idle")
  case False
  then show ?thesis by (simp add: sched_busy)
next
  case True
  then obtain bs p1 p2 where run: "sched_run env p bs p1 p2" using ol_tx_sched_run [OF assms] by blast
  let ?ds = "concat (map snd bs)"
  have "length ?ds = length (filter (pkt_alloc_fails env) ?ds) + length (filter (\<lambda>d. \<not> pkt_alloc_fails env d) ?ds)"
    using sum_length_filter_compl by metis
  then show ?thesis
    using run by (simp add: sched_run_def dispatched_def pool_same_def tx_account_def)
qed

definition keeps_account :: "(ol_txrx_pdev \<Rightarrow> ol_txrx_pdev) \<Rightarrow> bool" where
  "keeps_account f \<longleftrightarrow> (\<forall>p. tx_inv p \<longrightarrow> tx_inv (f p) \<and> tx_account (f p) = tx_account p)"

lemma keeps_accountI: "(\<And>p. tx_inv p \<Longrightarrow> tx_inv (f p) \<and> tx_account (f p) = tx_account p) \<Longrightarrow> keeps_account f"
  by (simp add: keeps_account_def)

lemma keeps_accountD: "keeps_account f \<Longrightarrow> tx_inv p \<Longrightarrow> tx_inv (f p) \<and> tx_account (f p) = tx_account p"
  by (simp add: keeps_account_def)

lemma core_keeps: "(\<And>p. tx_core (f p) = tx_core p) \<Longrightarrow> keeps_account f"
  by (rule keeps_accountI) (simp add: tx_core_inv [of "f _"] tx_core_account [of "f _"])

lemma sched_keeps: "keeps_account (ol_tx_sched env)"
  by (rule keeps_accountI) (simp add: sched_inv sched_account)

lemma keeps_comp: "keeps_account f \<Longrightarrow> keeps_account g \<Longrightarrow> keeps_account (\<lambda>p. g (f p))"
  by (simp add: keeps_account_def)

lemma completion_keeps: "keeps_account (ol_tx_completion_handler env st ids)"
  unfolding ol_tx_completion_handler_def Let_def case_prod_unfold
  by (rule keeps_comp [OF keeps_comp [OF sched_keeps core_keeps] sched_keeps]) simp

lemma inspect_keeps: "keeps_account (ol_tx_inspect_handler env ids)"
  unfolding ol_tx_inspect_handler_def Let_def case_prod_unfold
  by (rule keeps_comp [OF core_keeps sched_keeps]) simp

lemma single_completion_keeps: "keeps_account (ol_tx_single_completion_handler env st i)"
proof (rule keeps_accountI)
  fix p assume inv: "tx_inv p"
  show "tx_inv (ol_tx_single_completion_handler env st i p) \<and>
    tx_account (ol_tx_single_completion_handler env st i p) = tx_account p"
  proof (cases "ol_tx_desc_find_check i p")
    case None
    then show ?thesis using inv by (simp add: ol_tx_single_completion_handler_def)
  next
    case (Some d)
    define f where "f p = (let p = upd_slot i (\<lambda>sl. sl\<lparr>sl_status := st\<rparr>) p;
        (no_refs, p) = OL_TX_DESC_NO_REFS i p;
        p = (if no_refs then ol_tx_desc_frame_free_nonstd p d (st \<noteq> htt_tx_status_ok) else p)
      in p\<lparr>rsrc_cnt := rsrc_cnt p + 1\<rparr>)" for p
    have "keeps_account (\<lambda>p. ol_tx_sched env (f p))"
      by (rule keeps_comp [OF core_keeps sched_keeps]) (simp add: f_def Let_def case_prod_unfold)
    moreover have "ol_tx_single_completion_handler env st i p = ol_tx_sched env (f p)"
      unfolding ol_tx_single_completion_handler_def Some f_def Let_def case_prod_unfold by simp
    ultimately show ?thesis using keeps_accountD [OF _ inv] by metis
  qed
qed

lemma group_step_descs [simp]: "target_descs (group_vdev_step g old new v p) = target_descs p"
  by (simp add: group_vdev_step_def ol_tx_set_vdev_group_ptr_def Let_def split: option.split)

lemma group_steps_descs [simp]: "target_descs (fold (group_vdev_step g old new) vs p) = target_descs p"
  by (induction vs arbitrary: p) simp_all

lemma group_credit_descs [simp]: "target_descs (ol_txrx_update_group_credit g n a p) = target_descs p"
  by (simp add: ol_txrx_update_group_credit_def)

lemma groups_keep: "keeps_account (ol_txrx_update_tx_queue_groups g n a vm am)"
  by (rule keeps_accountI)
     (simp add: update_groups_inv, simp add: ol_txrx_update_tx_queue_groups_def tx_account_def Let_def)

section \<open>A failed download\<close>

lemma nonstd_std_frame:
  assumes "pkt_type d \<noteq> ol_tx_frm_no_free" and "pkt_type d < OL_TXRX_MGMT_TYPE_BASE"
  shows "freelist (ol_tx_desc_frame_free_nonstd p d e) = Elem (desc_id d)"
    and "nbuf_events (ol_tx_desc_frame_free_nonstd p d e) = nbuf_events p @ [Nbuf_tx_free (first_words p (desc_id d)) e]"
    and "first_words (ol_tx_desc_frame_free_nonstd p d e) = (first_words p)(desc_id d := freelist p)"
  using assms by (auto simp: ol_tx_desc_frame_free_nonstd_def Let_def desc_free_fields nbuf_log_def fun_eq_iff)

text \<open>A free list whose head links to itself gives out this one descriptor, and the buffer stored in it next.\<close>

lemma self_loop_alloc:
  assumes "freelist p = Elem i" and "first_words p i = Elem i"
  shows "\<exists>d p1 d' p2. ol_tx_desc_hl v p b len = Some (d, p1) \<and> desc_id d = i \<and>
    ol_tx_desc_hl v' p1 b' len' = Some (d', p2) \<and> desc_id d' = i \<and> freelist p2 = Netbuf b"
  using assms by (simp add: ol_tx_desc_hl_def ol_tx_desc_alloc_hl_def ol_tx_desc_alloc_def)

lemma self_loop_chain:
  assumes "w i = Elem i"
  shows "\<not> free_chain w (Elem i) is"
proof
  assume "free_chain w (Elem i) is"
  moreover have "free_chain w (Elem i) js \<Longrightarrow> False" for js
    using assms by (induction js) auto
  ultimately show False by blast
qed


text \<open>The state behind the allocation of a frame (netbuf 7) for virtual device 0 and its download.\<close>

definition demo_downloaded :: ol_txrx_pdev where
  "demo_downloaded = (case ol_tx_desc_hl 0 demo_attached 7 100 of
     Some (d, p) \<Rightarrow> upd_slot (desc_id d) (\<lambda>sl. sl\<lparr>sl_frame := d, ref_cnt := 2\<rparr>) p | None \<Rightarrow> demo_attached)"

lemma demo_downloaded_words: "freelist demo_downloaded = Elem 1" "first_words demo_downloaded 0 = Netbuf 7"
  and demo_downloaded_slot: "sl_frame (tx_slots demo_downloaded 0) = \<lparr>desc_id = 0, netbuf_len = 100, pkt_type = ol_tx_frm_std\<rparr>"
    "ref_cnt (tx_slots demo_downloaded 0) = 2"
  and demo_downloaded_events: "nbuf_events demo_downloaded = []"
  by (simp_all add: demo_downloaded_def demo_attached_def ol_tx_desc_hl_def ol_tx_desc_alloc_hl_def ol_tx_desc_alloc_def
      ol_txrx_pdev_attach_def ol_tx_sched_attach_def)


end
