(* ===== verification/HttProps.thy ===== *)
theory HttProps
  imports HttT2h TxComplProps
begin

unbundle bit_operations_syntax

text \<open>
  What the message handlers guarantee: the loop over the group elements of a credit update ends
  exactly when one of its first 128 elements is marked as the last one; the arguments of every call
  fit the C types of its parameters; a message is freed or passed on exactly once.
\<close>

section \<open>The loop over group elements\<close>

abbreviation group_last :: "htt_msg \<Rightarrow> nat \<Rightarrow> bool" where
  "group_last m k \<equiv> fget HTT_TXQ_GROUP_EXT (hm_word m (1 + 2 * k)) = 0"

lemma group_credit_loop_end: "group_credit_loop m i False p = Some p"
  by (subst group_credit_loop.simps) simp

lemma group_offset_step: "k < 128 \<Longrightarrow> u8 (2 * k + HTT_TX_GROUP_INDEX_OFFSET) = (if k = 127 then 0 else 2 * Suc k)"
  by (auto simp: HTT_TX_GROUP_INDEX_OFFSET_def)

lemma group_credit_loop_step:
  assumes "k < 128"
  shows "group_credit_loop m (2 * k) True p =
    (if group_last m k then Some (group_element m (2 * k) p)
     else group_credit_loop m (if k = 127 then 0 else 2 * Suc k) True (group_element m (2 * k) p))"
  by (subst group_credit_loop.simps) (simp only: group_offset_step [OF assms], simp add: group_credit_loop_end)

lemma group_credit_loop_runs:
  assumes "j \<le> k" and "k < 128" and "group_last m k" and "\<And>i. j \<le> i \<Longrightarrow> i < k \<Longrightarrow> \<not> group_last m i"
  shows "group_credit_loop m (2 * j) True p = Some (fold (\<lambda>i. group_element m (2 * i)) [j..<Suc k] p)"
  using assms
proof (induction "k - j" arbitrary: j p)
  case 0
  then show ?case by (simp add: group_credit_loop_step)
next
  case (Suc n)
  then have j: "j < k" by simp
  have "group_credit_loop m (2 * j) True p = group_credit_loop m (2 * Suc j) True (group_element m (2 * j) p)"
    using group_credit_loop_step [of j m p] j Suc.prems(2) Suc.prems(4) [of j] by simp
  also have "\<dots> = Some (fold (\<lambda>i. group_element m (2 * i)) [Suc j..<Suc k] (group_element m (2 * j) p))"
    using Suc.prems by (intro Suc.hyps(1)) (use Suc.hyps(2) j in auto)
  also have "\<dots> = Some (fold (\<lambda>i. group_element m (2 * i)) [j..<Suc k] p)"
    using j by (simp only: upt_conv_Cons [of j "Suc k"] less_SucI fold_simps)
  finally show ?case .
qed

lemma group_credit_loop_returns:
  assumes "group_credit_loop m i b p = Some r"
  shows "b \<longrightarrow> (\<forall>j<128. i = 2 * j \<longrightarrow> (\<exists>k<128. group_last m k))"
proof (rule group_credit_loop.raw_induct
    [where P = "\<lambda>m i b p r. b \<longrightarrow> (\<forall>j<128. i = 2 * j \<longrightarrow> (\<exists>k<128. group_last m k))"])
  show "group_credit_loop m i b p = Some r" by (rule assms)
next
  fix loop and m i b p r
  assume IH: "\<And>m i b p r. loop m i b p = Some r \<Longrightarrow>
      b \<longrightarrow> (\<forall>j<128. i = 2 * j \<longrightarrow> (\<exists>k<128. group_last m k))"
    and run: "(if \<not> b then Some p
      else loop m (u8 (i + HTT_TX_GROUP_INDEX_OFFSET))
             (fget HTT_TXQ_GROUP_EXT (hm_word m (1 + i)) \<noteq> 0) (group_element m i p)) = Some r"
  have "\<exists>k<128. group_last m k" if "b" "j < 128" "i = 2 * j" for j
  proof (cases "group_last m j")
    case True
    then show ?thesis using that(2) by blast
  next
    case False
    then have ret: "loop m (u8 (i + HTT_TX_GROUP_INDEX_OFFSET)) True (group_element m i p) = Some r"
      using run that by simp
    have "\<exists>j'<128. u8 (i + HTT_TX_GROUP_INDEX_OFFSET) = 2 * j'"
      using group_offset_step [OF that(2)] that(2,3)
      by (intro exI [of _ "if j = 127 then 0 else Suc j"]) auto
    then show ?thesis using IH [OF ret] by blast
  qed
  then show "b \<longrightarrow> (\<forall>j<128. i = 2 * j \<longrightarrow> (\<exists>k<128. group_last m k))" by blast
qed

lemma find_upt_SomeD: "find P [0..<n] = Some k \<Longrightarrow> k < n \<and> P k \<and> (\<forall>i<k. \<not> P i)"
  by (auto simp: find_Some_iff)

lemma group_credit_process_eq:
  "htt_tx_group_credit_process m p =
    (if fget HTT_TX_CREDIT_TXQ_GRP (hm_word m 0) = 0 then Some p
     else map_option (\<lambda>k. fold (\<lambda>i. group_element m (2 * i)) [0..<Suc k] p)
            (find (\<lambda>k. fget HTT_TXQ_GROUP_EXT (hm_word m (1 + 2 * k)) = 0) [0..<128]))"
proof (cases "fget HTT_TX_CREDIT_TXQ_GRP (hm_word m 0) = 0")
  case True
  then show ?thesis by (simp add: htt_tx_group_credit_process_def group_credit_loop_end)
next
  case flag: False
  show ?thesis
  proof (cases "find (group_last m) [0..<128]")
    case None
    then have none: "\<not> (\<exists>k<128. group_last m k)" by (auto simp: find_None_iff)
    have "group_credit_loop m 0 True p = None"
    proof (cases "group_credit_loop m 0 True p")
      case (Some r)
      have "\<forall>j<128::nat. 0 = 2 * j \<longrightarrow> (\<exists>k<128. group_last m k)"
        using group_credit_loop_returns [OF Some] by blast
      then show ?thesis using none by (auto dest: spec [of _ 0])
    qed
    then show ?thesis using flag None by (simp add: htt_tx_group_credit_process_def)
  next
    case (Some k)
    then have "group_credit_loop m (2 * 0) True p = Some (fold (\<lambda>i. group_element m (2 * i)) [0..<Suc k] p)"
      using find_upt_SomeD [OF Some] by (intro group_credit_loop_runs) auto
    then show ?thesis using flag Some by (simp add: htt_tx_group_credit_process_def)
  qed
qed

lemma keeps_fold: "(\<And>x. keeps_account (f x)) \<Longrightarrow> keeps_account (fold f xs)"
  by (induction xs) (simp_all add: keeps_account_def)

lemma group_process_keeps:
  assumes "htt_tx_group_credit_process m p = Some r" and "tx_inv p"
  shows "tx_inv r" and "tx_account r = tx_account p"
proof -
  have el: "keeps_account (group_element m i)" for i
    using groups_keep by (auto simp: keeps_account_def group_element_def Let_def)
  have "keeps_account (fold (\<lambda>i. group_element m (2 * i)) is)" for "is"
    by (rule keeps_fold) (rule el)
  then have "tx_inv r \<and> tx_account r = tx_account p"
    using assms by (auto simp only: group_credit_process_eq keeps_account_def option.inject
        map_option_eq_Some split: if_splits)
  then show "tx_inv r" and "tx_account r = tx_account p" by simp_all
qed

text \<open>
  Property C29. The loop over the group elements of a credit update: it ends if and only if the
  message has no group elements or one of the words 1, 3, ..., 255 carries no extension flag, and
  then exactly the elements up to the first such one are applied, in order. There is no test
  against the message length: the offset wraps around at 256, so a message in which none of these
  words ends the list keeps the host in the loop for ever.
\<close>

theorem htt_tx_group_credit_process_terminates:
  "htt_tx_group_credit_process m p =
    (if fget HTT_TX_CREDIT_TXQ_GRP (hm_word m 0) = 0 then Some p
     else map_option (\<lambda>k. fold (\<lambda>i. group_element m (2 * i)) [0..<Suc k] p)
            (find (\<lambda>k. fget HTT_TXQ_GROUP_EXT (hm_word m (1 + 2 * k)) = 0) [0..<128]))"
  by (rule group_credit_process_eq)

section \<open>Types of the dispatched calls\<close>

lemma dispatch_fields:
  "field_bits HTT_RX_IND_PEER_ID 16"
  "field_bits HTT_RX_IND_EXT_TID 5"
  "field_bits HTT_RX_IND_NUM_MPDU_RANGES 8"
  "field_bits HTT_RX_FLUSH_PEER_ID 16"
  "field_bits HTT_RX_FLUSH_TID 8"
  "field_bits HTT_RX_FLUSH_SEQ_NUM_START 8"
  "field_bits HTT_RX_FLUSH_SEQ_NUM_END 8"
  "field_bits HTT_RX_PN_IND_PEER_ID 16"
  "field_bits HTT_RX_PN_IND_TID 8"
  "field_bits HTT_RX_PN_IND_SEQ_NUM_START 8"
  "field_bits HTT_RX_PN_IND_SEQ_NUM_END 8"
  "field_bits HTT_RX_PN_IND_PN_IE_CNT 8"
  "field_bits HTT_RX_OFFLOAD_DELIVER_IND_MSDU_CNT 16"
  "field_bits HTT_RX_PEER_MAP_VDEV_ID 8"
  "field_bits HTT_RX_PEER_MAP_PEER_ID 16"
  "field_bits HTT_SEC_IND_SEC_TYPE 7"
  "field_bits HTT_SEC_IND_UNICAST 1"
  "field_bits HTT_SEC_IND_PEER_ID 16"
  "field_bits HTT_RX_ADDBA_WIN_SIZE 8"
  "field_bits HTT_RX_ADDBA_TID 4"
  "field_bits HTT_RX_ADDBA_PEER_ID 12"
  "field_bits HTT_TX_COMPL_IND_STATUS 3"
  "field_bits HTT_TX_COMPL_IND_TID 4"
  "field_bits HTT_TX_COMPL_IND_NUM 8"
  "field_bits HTT_RX_OFLD_PKT_ERR_MIC_ERR_KEYID 8"
  "field_bits HTT_PEER_RATE_REPORT_MSG_PEER_COUNT 16"
  "field_bits HTT_PEER_RATE_REPORT_MSG_PEER_ID 16"
  "field_bits HTT_PEER_RATE_REPORT_MSG_PHY 4"
  by (simp_all add: field_bits_def mask_eq_exp_minus_1 push_bit_eq_mult
      HTT_RX_IND_PEER_ID_def HTT_RX_IND_EXT_TID_def HTT_RX_IND_NUM_MPDU_RANGES_def HTT_RX_FLUSH_PEER_ID_def HTT_RX_FLUSH_TID_def HTT_RX_FLUSH_SEQ_NUM_START_def HTT_RX_FLUSH_SEQ_NUM_END_def HTT_RX_PN_IND_PEER_ID_def HTT_RX_PN_IND_TID_def HTT_RX_PN_IND_SEQ_NUM_START_def HTT_RX_PN_IND_SEQ_NUM_END_def HTT_RX_PN_IND_PN_IE_CNT_def HTT_RX_OFFLOAD_DELIVER_IND_MSDU_CNT_def HTT_RX_PEER_MAP_VDEV_ID_def HTT_RX_PEER_MAP_PEER_ID_def HTT_SEC_IND_SEC_TYPE_def HTT_SEC_IND_UNICAST_def HTT_SEC_IND_PEER_ID_def HTT_RX_ADDBA_WIN_SIZE_def HTT_RX_ADDBA_TID_def HTT_RX_ADDBA_PEER_ID_def HTT_TX_COMPL_IND_STATUS_def HTT_TX_COMPL_IND_TID_def HTT_TX_COMPL_IND_NUM_def HTT_RX_OFLD_PKT_ERR_MIC_ERR_KEYID_def HTT_PEER_RATE_REPORT_MSG_PEER_COUNT_def HTT_PEER_RATE_REPORT_MSG_PEER_ID_def HTT_PEER_RATE_REPORT_MSG_PHY_def)

lemmas field_lt = dispatch_fields [THEN fget_less]

lemma field_lt_word: "fget f w < 2 ^ n \<Longrightarrow> n \<le> k \<Longrightarrow> fget f w < 2 ^ k"
  by (meson less_le_trans one_le_numeral power_increasing)

lemma hm_byte_less [simp]: "hm_byte m i < 256"
proof -
  have "hm_byte m i = take_bit 8 (unat (drop_bit (8 * (i mod 4)) (hm_word m (i div 4))))"
    by (simp add: hm_byte_def unsigned_take_bit_eq)
  then show ?thesis using take_bit_nat_less_exp [of 8] by simp
qed

text \<open>
  The widths of the parameters of the called functions: ids of peers and counts of MSDUs have 16 bits,
  TIDs, window sizes, virtual devices and MPDU ranges 8. An rx indication is passed on only with a
  TID below \<open>OL_TXRX_NUM_EXT_TIDS\<close>.
\<close>

fun call_typed :: "t2h_call \<Rightarrow> bool" where
  "call_typed (Rx_indication p t n) = (p < 2 ^ 16 \<and> t < OL_TXRX_NUM_EXT_TIDS \<and> n < 2 ^ 8)"
| "call_typed (Rx_mon_indication p t n) = (p < 2 ^ 16 \<and> t < OL_TXRX_NUM_EXT_TIDS \<and> n < 2 ^ 8)"
| "call_typed (Rx_frag_indication p t) = (p < 2 ^ 16 \<and> t < 2 ^ 8)"
| "call_typed (Rx_flush p t a b act) = (p < 2 ^ 16 \<and> t < 2 ^ 8 \<and> a < 2 ^ 16 \<and> b < 2 ^ 16)"
| "call_typed (Rx_pn_ind p t a b ies) =
     (p < 2 ^ 16 \<and> t < 2 ^ 8 \<and> a < 2 ^ 16 \<and> b < 2 ^ 16 \<and> length ies < 2 ^ 8 \<and> list_all (\<lambda>x. x < 2 ^ 8) ies)"
| "call_typed (Rx_addba p t win start) = (p < 2 ^ 16 \<and> t < 2 ^ 8 \<and> win < 2 ^ 8 \<and> start < 2 ^ 16)"
| "call_typed (Rx_delba p t) = (p < 2 ^ 16 \<and> t < 2 ^ 8)"
| "call_typed (Rx_offload_deliver n) = (n < 2 ^ 16)"
| "call_typed (Peer_map p v a tx_ready) =
     (p < 2 ^ 16 \<and> v < 2 ^ 8 \<and> length a = 6 \<and> list_all (\<lambda>x. x < 2 ^ 8) a)"
| "call_typed (Peer_unmap p) = (p < 2 ^ 16)"
| "call_typed (Sec_ind p st unicast key pn) = (p < 2 ^ 16 \<and> st < 2 ^ 7 \<and> unicast < 2)"
| "call_typed (Tx_failure_indication t n st) = (t < 2 ^ 8 \<and> n < 2 ^ 32 \<and> st < 2 ^ 32)"
| "call_typed (Fw_stats cookie pos) = (cookie < 2 ^ 64)"
| "call_typed (Wdi_event ev pos len) = (len < 2 ^ 32)"
| "call_typed (Indicate_mic_err v key da sa ta pn) =
     (key < 2 ^ 8 \<and> length da = 6 \<and> length sa = 6 \<and> length pn = 6)"
| "call_typed (Peer_link_status rs) =
     (length rs < 2 ^ 16 \<and> list_all (\<lambda>(p, phy, rate). p < 2 ^ 16 \<and> phy < 2 ^ 8 \<and> rate < 2 ^ 32) rs)"
| "call_typed _ = True"

lemma calls_emit [simp]: "htt_calls (emit c s) = htt_calls s @ [c]"
  by (simp add: emit_def)

lemma calls_on_tx [simp]: "htt_calls (on_tx f s) = htt_calls s"
  by (simp add: on_tx_def)

lemma calls_credit_update [simp]: "htt_calls (snd (htt_tx_credit_update s)) = htt_calls s"
  by (simp add: htt_tx_credit_update_def Let_def)

lemma calls_extra_credit [simp]: "htt_calls (t2h_extra_credit k s) = htt_calls s"
  by (simp add: t2h_extra_credit_def Let_def)

lemma calls_exchange_credit [simp]: "htt_calls (snd (t2h_exchange_credit k s)) = htt_calls s"
  by (simp add: t2h_exchange_credit_def Let_def case_prod_unfold)

lemma calls_compl_credit [simp]: "htt_calls (t2h_compl_credit cfg n s) = htt_calls s"
  by (simp add: t2h_compl_credit_def Let_def case_prod_unfold)

lemma fit: "field_bits f n \<Longrightarrow> n \<le> k \<Longrightarrow> fget f w < 2 ^ k"
  by (rule field_lt_word [OF fget_less])

lemmas fits8 = dispatch_fields(2,3,5-7,9-12,14,16,17,19,20,22-25,28) [THEN fit, of 8]
lemmas fits16 = dispatch_fields(1,4,6-8,10,11,13,15,18,21,26,27) [THEN fit, of 16]
lemmas fits32 = dispatch_fields(22,24) [THEN fit, of 32]

lemma unat_lt32: "unat (w :: 32 word) < 2 ^ 32"
  using unsigned_less [of w] by simp

lemma unat_cookie: "unat (a :: 32 word) + 2 ^ 32 * unat (b :: 32 word) < 2 ^ 64"
  using unat_lt32 [of a] unat_lt32 [of b] by simp

lemma typed_steps:
  assumes "list_all call_typed (htt_calls s)"
  shows "list_all call_typed (htt_calls (t2h_version_conf m s))"
    "list_all call_typed (htt_calls (t2h_rx_flush m s))"
    "list_all call_typed (htt_calls (t2h_rx_offload_deliver m s))"
    "list_all call_typed (htt_calls (t2h_rx_frag_ind m s))"
    "list_all call_typed (htt_calls (t2h_rx_addba m s))"
    "list_all call_typed (htt_calls (t2h_rx_delba m s))"
    "list_all call_typed (htt_calls (t2h_peer_map cfg m s))"
    "list_all call_typed (htt_calls (t2h_peer_unmap cfg m s))"
    "list_all call_typed (htt_calls (t2h_sec_ind m s))"
    "list_all call_typed (htt_calls (t2h_mgmt_tx_compl cfg e m s))"
    "list_all call_typed (htt_calls (t2h_stats_conf m s))"
  using assms fits8 [simplified] fits16 [simplified] dispatch_fields(16,17) [THEN fget_less, simplified]
    unat_cookie [simplified]
  by (simp_all add: t2h_version_conf_def t2h_rx_flush_def t2h_rx_offload_deliver_def t2h_rx_frag_ind_def
      t2h_rx_addba_def t2h_rx_delba_def t2h_peer_map_def t2h_peer_unmap_def t2h_sec_ind_def
      t2h_mgmt_tx_compl_def t2h_stats_conf_def Let_def case_prod_unfold htt_t2h_mac_addr_deswizzle_def
      list_all_iff)

lemma typed_pktlog:
  "list_all call_typed (htt_calls s) \<Longrightarrow> list_all call_typed (htt_calls (t2h_pktlog m s))"
  by (simp add: t2h_pktlog_def Let_def usub_def split: option.split)

lemma typed_pkt_err:
  "list_all call_typed (htt_calls s) \<Longrightarrow> list_all call_typed (htt_calls (t2h_rx_ofld_pkt_err e m s))"
  using fits8 [simplified] by (simp add: t2h_rx_ofld_pkt_err_def split: option.split)

lemma typed_rate_report:
  "list_all call_typed (htt_calls s) \<Longrightarrow> list_all call_typed (htt_calls (t2h_rate_report cfg e m s))"
  using fits16 [simplified] fits8 [simplified] unat_lt32 [simplified]
  by (simp add: t2h_rate_report_def Let_def rate_report_def list_all_iff)

lemma typed_credit_update:
  "t2h_tx_credit_update cfg e m s = Some s' \<Longrightarrow> list_all call_typed (htt_calls s) \<Longrightarrow>
    list_all call_typed (htt_calls s')"
  by (auto simp: t2h_tx_credit_update_def Let_def case_prod_unfold split: if_splits option.splits)

lemma typed_rx_ind:
  "list_all call_typed (htt_calls s) \<Longrightarrow> list_all call_typed (htt_calls (t2h_rx_ind cfg m s))"
  using fits16 [simplified] fits8 [simplified] by (simp add: t2h_rx_ind_def Let_def)

lemma typed_tx_compl:
  "list_all call_typed (htt_calls s) \<Longrightarrow> list_all call_typed (htt_calls (t2h_tx_compl cfg e m s))"
  using fits32 [simplified] fits8 [simplified] by (simp add: t2h_tx_compl_def Let_def HTT_TX_COMPL_IND_STAT_FAIL_NOTIFY_def)

lemma typed_rx_pn_ind:
  "list_all call_typed (htt_calls s) \<Longrightarrow> list_all call_typed (htt_calls (t2h_rx_pn_ind m s))"
  using fits16 [simplified] fits8 [simplified]
  by (simp add: t2h_rx_pn_ind_def Let_def list_all_iff)

lemma typed_tx_inspect:
  "list_all call_typed (htt_calls s) \<Longrightarrow> list_all call_typed (htt_calls (t2h_tx_inspect e m s))"
  by (simp add: t2h_tx_inspect_def Let_def)

lemmas typed_intros = typed_steps typed_pktlog typed_pkt_err typed_rate_report typed_rx_ind
  typed_tx_compl typed_rx_pn_ind typed_tx_inspect

lemma typed_lp:
  "htt_t2h_lp_msg_handler cfg e m s = Some s' \<Longrightarrow> list_all call_typed (htt_calls s) \<Longrightarrow>
    list_all call_typed (htt_calls s')"
  by (auto simp: htt_t2h_lp_msg_handler_def Let_def intro: typed_intros dest: typed_credit_update
      split: if_splits)

text \<open>
  Property C30. Every call that the message handler makes for a message of the target, whatever its
  bits, has arguments within the width of the callee's parameters: no peer id, TID, window size,
  index or count is cut off at the call, byte strings have their length, and an rx indication carries
  a TID below the number of TIDs.
\<close>

theorem t2h_calls_typed:
  assumes "htt_t2h_msg_handler cfg e status m s = Some s'" and "list_all call_typed (htt_calls s)"
  shows "list_all call_typed (htt_calls s')"
  using assms by (auto simp: htt_t2h_msg_handler_def Let_def intro: typed_intros dest: typed_lp split: if_splits)

text \<open>The state after \<open>htt_attach\<close>: the bus takes \<open>HTT_MAX_BUS_CREDIT\<close> downloads.\<close>

definition htt_attached :: "ol_txrx_pdev \<Rightarrow> htt_pdev" where
  "htt_attached p = \<lparr>tgt_ver_major = 0, tgt_ver_minor = 0, target_delta = 0, bus_delta = HTT_MAX_BUS_CREDIT,
     rx_mpdu_range_offset_words = 0, rx_ind_msdu_byte_idx = 0, htc_err_cnt = 0, htt_txrx = p, htt_calls = []\<rparr>"

definition demo_htt_cfg :: htt_cfg where
  "demo_htt_cfg = \<lparr>default_tx_comp_req = False, is_full_reorder_offload = False, tx_free_at_download = False,
     cfg_monitor_mode = False, cfg_max_peer_id = 15\<rparr>"

definition demo_t2h_env :: t2h_env where
  "demo_t2h_env = \<lparr>t2h_tx = demo_env, t2h_mem_ok = True, t2h_peer = (\<lambda>_. None)\<rparr>"

text \<open>A request to start block-ack with a window of 64 for TID 3 of peer 7.\<close>

definition demo_addba_msg :: htt_msg where
  "demo_addba_msg = htt_msg_of [fset HTT_RX_ADDBA_PEER_ID 7 (fset HTT_RX_ADDBA_TID 3
     (fset HTT_RX_ADDBA_WIN_SIZE 64 (fset HTT_T2H_MSG_TYPE 0x5 0)))]"

lemma demo_addba_word: "hm_word demo_addba_msg 0 = 0x00734005"
  by (simp add: demo_addba_msg_def htt_msg_of_def fset_def HTT_RX_ADDBA_PEER_ID_def HTT_RX_ADDBA_TID_def
      HTT_RX_ADDBA_WIN_SIZE_def HTT_T2H_MSG_TYPE_def push_bit_eq_mult)

lemma demo_addba_fields:
  "fget HTT_T2H_MSG_TYPE 0x00734005 = 5" "fget HTT_RX_ADDBA_PEER_ID 0x00734005 = 7"
  "fget HTT_RX_ADDBA_TID 0x00734005 = 3" "fget HTT_RX_ADDBA_WIN_SIZE 0x00734005 = 64"
  by (simp_all add: fget_def HTT_RX_ADDBA_PEER_ID_def HTT_RX_ADDBA_TID_def HTT_RX_ADDBA_WIN_SIZE_def
      HTT_T2H_MSG_TYPE_def drop_bit_eq_div)

lemma demo_addba_run:
  "htt_t2h_msg_handler demo_htt_cfg demo_t2h_env A_OK demo_addba_msg (htt_attached p) =
    Some (emit Msg_free (emit (Rx_addba 7 3 64 0) (htt_attached p)))"
  by (simp add: htt_t2h_msg_handler_def htt_t2h_lp_msg_handler_def demo_addba_word demo_addba_fields
      t2h_rx_addba_def)

theorem t2h_calls_typed_witness:
  "list_all call_typed (htt_calls (emit Msg_free (emit (Rx_addba 7 3 64 0) (htt_attached demo_attached))))"
  using t2h_calls_typed [OF demo_addba_run, of demo_attached] by (simp add: htt_attached_def)

section \<open>Who frees a message\<close>

text \<open>
  A message is done when it is freed or handed to a receiver that frees it (the frames of these
  indications are in the message itself).
\<close>

fun msg_done :: "t2h_call \<Rightarrow> bool" where
  "msg_done Msg_free = True"
| "msg_done (Rx_indication p t n) = True"
| "msg_done (Rx_mon_indication p t n) = True"
| "msg_done (Rx_frag_indication p t) = True"
| "msg_done (Rx_offload_deliver n) = True"
| "msg_done _ = False"

definition done_last :: "t2h_call list \<Rightarrow> bool" where
  "done_last cs \<longleftrightarrow> cs \<noteq> [] \<and> msg_done (last cs) \<and> filter msg_done (butlast cs) = []"

lemma done_last_snoc [simp]: "done_last (cs @ [c]) \<longleftrightarrow> msg_done c \<and> filter msg_done cs = []"
  by (auto simp: done_last_def)

lemma done_last_one [simp]: "done_last [c] \<longleftrightarrow> msg_done c"
  by (simp add: done_last_def)

lemma done_last_two [simp]: "done_last [b, c] \<longleftrightarrow> msg_done c \<and> \<not> msg_done b"
  by (simp add: done_last_def)

lemma done_last_three [simp]: "done_last [a, b, c] \<longleftrightarrow> msg_done c \<and> \<not> msg_done b \<and> \<not> msg_done a"
  by (auto simp: done_last_def)

lemma done_steps:
  assumes "htt_calls s = []"
  shows "done_last (htt_calls (t2h_version_conf m s))"
    "done_last (htt_calls (t2h_rx_flush m s))"
    "done_last (htt_calls (t2h_rx_offload_deliver m s))"
    "done_last (htt_calls (t2h_rx_frag_ind m s))"
    "done_last (htt_calls (t2h_rx_addba m s))"
    "done_last (htt_calls (t2h_rx_delba m s))"
    "done_last (htt_calls (t2h_peer_map cfg m s))"
    "done_last (htt_calls (t2h_peer_unmap cfg m s))"
    "done_last (htt_calls (t2h_sec_ind m s))"
    "done_last (htt_calls (t2h_mgmt_tx_compl cfg e m s))"
    "done_last (htt_calls (t2h_stats_conf m s))"
    "done_last (htt_calls (t2h_rate_report cfg e m s))"
    "done_last (htt_calls (t2h_rx_pn_ind m s))"
    "done_last (htt_calls (t2h_tx_inspect e m s))"
    "done_last (htt_calls (t2h_tx_compl cfg e m s))"
  using assms
  by (simp_all add: t2h_version_conf_def t2h_rx_flush_def t2h_rx_offload_deliver_def t2h_rx_frag_ind_def
      t2h_rx_addba_def t2h_rx_delba_def t2h_peer_map_def t2h_peer_unmap_def t2h_sec_ind_def
      t2h_mgmt_tx_compl_def t2h_stats_conf_def Let_def case_prod_unfold t2h_rate_report_def
      t2h_rx_pn_ind_def t2h_tx_inspect_def t2h_tx_compl_def)

lemma done_branches:
  assumes "htt_calls s = []"
  shows "done_last (htt_calls (t2h_pktlog m s))"
    "done_last (htt_calls (t2h_rx_ofld_pkt_err e m s))"
    "done_last (htt_calls (t2h_rx_ind cfg m s))"
  using assms
  by (simp_all add: t2h_pktlog_def t2h_rx_ofld_pkt_err_def t2h_rx_ind_def Let_def split: option.split)

lemma done_credit_update:
  "t2h_tx_credit_update cfg e m s = Some s' \<Longrightarrow> htt_calls s = [] \<Longrightarrow> done_last (htt_calls s')"
  by (auto simp: t2h_tx_credit_update_def Let_def case_prod_unfold split: if_splits option.splits)

lemma done_lp:
  assumes "htt_t2h_lp_msg_handler cfg e m s = Some s'" and "htt_calls s = []"
    and "\<not> (fget HTT_T2H_MSG_TYPE (hm_word m 0) = 0x22 \<and> fget HTT_T2H_PAYLOAD_PRESENT (hm_word m 0) = 0)"
  shows "done_last (htt_calls s')"
  using assms
  by (auto simp: htt_t2h_lp_msg_handler_def Let_def intro: done_steps done_branches dest: done_credit_update
      split: if_splits)

lemma cfr_without_payload:
  "fget HTT_T2H_MSG_TYPE (hm_word m 0) = 0x22 \<Longrightarrow> fget HTT_T2H_PAYLOAD_PRESENT (hm_word m 0) = 0 \<Longrightarrow>
    htt_t2h_msg_handler cfg e A_OK m s = Some s"
  by (simp add: htt_t2h_msg_handler_def htt_t2h_lp_msg_handler_def)

text \<open>
  Property C31. The handler is done with a message exactly once, and that is the last thing it does:
  no call reads a message that was freed or given away, and no error path frees it twice. The one
  exception is a CFR dump without payload, for which the handler returns without any call, so that
  the message is never freed.
\<close>

theorem t2h_msg_freed_exactly_once:
  assumes "htt_t2h_msg_handler cfg e status m s = Some s'" and "htt_calls s = []"
  shows "if status = A_OK \<and> fget HTT_T2H_MSG_TYPE (hm_word m 0) = 0x22 \<and>
              fget HTT_T2H_PAYLOAD_PRESENT (hm_word m 0) = 0
         then s' = s else done_last (htt_calls s')"
proof (cases "status = A_OK \<and> fget HTT_T2H_MSG_TYPE (hm_word m 0) = 0x22 \<and>
    fget HTT_T2H_PAYLOAD_PRESENT (hm_word m 0) = 0")
  case True
  then show ?thesis using assms(1) cfr_without_payload [of m cfg e s] by simp
next
  case False
  then have "done_last (htt_calls s')"
    using assms by (auto simp: htt_t2h_msg_handler_def Let_def intro: done_steps done_branches dest: done_lp
        split: if_splits)
  then show ?thesis by (simp only: if_not_P [OF False])
qed

theorem t2h_msg_freed_exactly_once_witness:
  "done_last (htt_calls (emit Msg_free (emit (Rx_addba 7 3 64 0) (htt_attached demo_attached)))) \<and>
   htt_t2h_msg_handler demo_htt_cfg demo_t2h_env A_OK (htt_msg_of [0x22]) (htt_attached demo_attached) =
     Some (htt_attached demo_attached)"
  using t2h_msg_freed_exactly_once [OF demo_addba_run, of demo_attached]
    cfr_without_payload [of "htt_msg_of [0x22]" demo_htt_cfg demo_t2h_env "htt_attached demo_attached"]
  by (simp add: htt_attached_def demo_addba_word demo_addba_fields htt_msg_of_def fget_def
      HTT_T2H_MSG_TYPE_def HTT_T2H_PAYLOAD_PRESENT_def drop_bit_eq_div)

end
