(* ===== verification/HttCredit.thy ===== *)
theory HttCredit
  imports HttProps
begin

unbundle bit_operations_syntax

text \<open>
  The account of the tx credit over runs of messages from the target and completed downloads
  (\<open>htt_t2h.c\<close>, \<open>htt_tx.c\<close>, \<open>htt_h2t.c\<close>), in the mode in which credit is exchanged at the bus.
\<close>

section \<open>The account of the tx credit\<close>

text \<open>
  The credit of the target goes from \<open>target_delta\<close>, where it waits for the bus, to the tx credit of
  the scheduler, and from there into frames handed to the target. The bus has room for
  \<open>HTT_MAX_BUS_CREDIT\<close> downloads; \<open>bus_delta\<close> is what is left of it.
\<close>

definition credit_account :: "htt_pdev \<Rightarrow> int" where
  "credit_account s = target_delta s + tx_account (htt_txrx s)"

definition bus_account :: "htt_pdev \<Rightarrow> int" where
  "bus_account s = bus_delta s + tx_account (htt_txrx s)"

text \<open>
  What a message reports, unless it would take the target's credit out of its limits, and what its
  handler loses: the completion handlers subtract a negative result of the exchange from the tx
  credit, although \<open>htt_tx_credit_update\<close> has not added it to the two deltas.
\<close>

definition within_limits :: "htt_pdev \<Rightarrow> int \<Rightarrow> bool" where
  "within_limits s n \<longleftrightarrow> target_delta s + n \<le> MAX_TARGET_TX_CREDIT \<and> target_delta s + n \<ge> - MAX_TARGET_TX_CREDIT"

definition update_delta :: "htt_msg \<Rightarrow> int" where
  "update_delta m = (let n = int (fget HTT_TX_CREDIT_DELTA_ABS (hm_word m 0))
     in if fget HTT_TX_CREDIT_SIGN_BIT (hm_word m 0) \<noteq> 0 then - n else n)"

definition compl_reported :: "htt_cfg \<Rightarrow> htt_msg \<Rightarrow> nat option" where
  "compl_reported cfg m =
     (let w = hm_word m 0; n = fget HTT_TX_COMPL_IND_NUM w
      in if compl_len_ok n m \<and>
            \<not> (tx_free_at_download cfg \<and> fget HTT_TX_COMPL_IND_STATUS w = HTT_TX_COMPL_IND_STAT_FAIL_NOTIFY)
         then Some n else None)"

definition lost_with :: "htt_pdev \<Rightarrow> int \<Rightarrow> int" where
  "lost_with s n = max 0 (- min (target_delta s + n) (bus_delta s))"

text \<open>Reported and lost credit of a message that was received.\<close>

definition credit_in :: "htt_cfg \<Rightarrow> htt_msg \<Rightarrow> htt_pdev \<Rightarrow> int \<times> int" where
  "credit_in cfg m s =
     (let msg_type = fget HTT_T2H_MSG_TYPE (hm_word m 0) in
      if msg_type = 0xf then (if within_limits s (update_delta m) then (update_delta m, 0) else (0, 0))
      else if msg_type = 0x7 then
        (case compl_reported cfg m of
           None \<Rightarrow> (0, 0)
         | Some n \<Rightarrow> if within_limits s (int n) then (int n, lost_with s (int n)) else (0, 0))
      else if msg_type = 0xe then (1, lost_with s 1)
      else (0, 0))"

text \<open>A step of the account: the tx queues stay consistent, so much is reported and so much lost.\<close>

definition account_step :: "int \<Rightarrow> int \<Rightarrow> htt_pdev \<Rightarrow> htt_pdev \<Rightarrow> bool" where
  "account_step reported lost s s' \<longleftrightarrow>
     tx_inv (htt_txrx s') \<and> credit_account s' = credit_account s + reported - lost \<and>
     bus_account s' = bus_account s - lost"

lemma account_step_trans:
  "account_step a b s t \<Longrightarrow> account_step c d t u \<Longrightarrow> account_step (a + c) (b + d) s u"
  by (simp add: account_step_def)

lemma account_refl: "tx_inv (htt_txrx s) \<Longrightarrow> account_step 0 0 s s"
  by (simp add: account_step_def)

lemma account_emit [simp]: "account_step a b s (emit c t) = account_step a b s t"
  "account_step a b (emit c s) t = account_step a b s t"
  by (simp_all add: account_step_def emit_def credit_account_def bus_account_def)

lemma account_on_tx:
  assumes "account_step a b s t" and "keeps_account f"
  shows "account_step a b s (on_tx f t)"
  using assms(1) keeps_accountD [OF assms(2), of "htt_txrx t"]
  by (simp add: account_step_def on_tx_def credit_account_def bus_account_def)

lemma credit_fields [simp]: "htt_txrx (snd (htt_tx_credit_update s)) = htt_txrx s"
  by (simp add: htt_tx_credit_update_def Let_def)

lemma target_credit_inv [simp]: "tx_inv (ol_tx_target_credit_update n p) = tx_inv p"
  "tx_account (ol_tx_target_credit_update n p) = tx_account p + n"
  by (simp_all add: ol_tx_target_credit_update_def tx_account_def)

text \<open>The exchange in the completion handlers.\<close>

lemma exchange_completion:
  assumes "tx_inv (htt_txrx s)" and "htt_tx_credit_update (s\<lparr>target_delta := target_delta s + n\<rparr>) = (d, t)"
  shows "account_step n (lost_with s n) s (if d \<noteq> 0 then on_tx (ol_tx_target_credit_update d) t else t)"
  using assms
  by (auto simp: account_step_def credit_account_def bus_account_def on_tx_def lost_with_def
      htt_tx_credit_update_def Let_def min_def max_def split: if_splits)

lemma tx_compl_account:
  assumes "tx_inv (htt_txrx s)" and "\<not> default_tx_comp_req cfg"
  shows "account_step (if within_limits s (int n) then int n else 0)
    (if within_limits s (int n) then lost_with s (int n) else 0) s (t2h_compl_credit cfg n s)"
proof (cases "within_limits s (int n)")
  case False
  then have "t2h_compl_credit cfg n s = s"
    by (auto simp: t2h_compl_credit_def within_limits_def Let_def)
  then show ?thesis using False assms(1) by (simp add: account_refl)
next
  case True
  obtain d t where run: "htt_tx_credit_update (s\<lparr>target_delta := target_delta s + int n\<rparr>) = (d, t)"
    by (rule prod.exhaust)
  have "t2h_compl_credit cfg n s = (if d \<noteq> 0 then on_tx (ol_tx_target_credit_update d) t else t)"
    using True assms(2) by (auto simp: t2h_compl_credit_def within_limits_def Let_def run)
  then show ?thesis using exchange_completion [OF assms(1) run] True by simp
qed

text \<open>The exchange in a credit update; its result is added to the tx credit when it is positive.\<close>

lemma exchange_update:
  assumes "tx_inv (htt_txrx s)" and "t2h_exchange_credit n s = (d, t)"
  shows "tx_inv (htt_txrx t)" and "credit_account t + max 0 d = credit_account s + n"
    and "bus_account t + max 0 d = bus_account s"
  using assms
  by (auto simp: t2h_exchange_credit_def htt_tx_credit_update_def t2h_extra_credit_def credit_account_def
      bus_account_def tx_account_def on_tx_def Let_def max_def split: if_splits)

lemma completion_handler_account:
  assumes "tx_inv p"
  shows "tx_inv (ol_tx_credit_completion_handler env d p)"
    and "tx_account (ol_tx_credit_completion_handler env d p) = tx_account p + max 0 d"
  using assms by (simp_all add: ol_tx_credit_completion_handler_def sched_inv sched_account)

lemma update_account:
  assumes inv: "tx_inv (htt_txrx s)" and cfg: "\<not> default_tx_comp_req cfg"
    and run: "t2h_tx_credit_update cfg e m s = Some s'"
  shows "account_step (if within_limits s (update_delta m) then update_delta m else 0) 0 s s'"
proof (cases "within_limits s (update_delta m)")
  case False
  then have "s' = emit Msg_free s"
    using run by (auto simp: t2h_tx_credit_update_def within_limits_def update_delta_def Let_def)
  then show ?thesis using False inv by (simp add: account_refl)
next
  case True
  obtain d t where ex: "t2h_exchange_credit (update_delta m) s = (d, t)" by (rule prod.exhaust)
  note ex_acc = exchange_update [OF inv ex]
  have "(case htt_tx_group_credit_process m (htt_txrx t) of None \<Rightarrow> None
      | Some p \<Rightarrow> Some (emit Msg_free (t\<lparr>htt_txrx := ol_tx_credit_completion_handler (t2h_tx e) d p\<rparr>))) = Some s'"
    using run True cfg ex by (simp add: t2h_tx_credit_update_def within_limits_def update_delta_def Let_def)
  then obtain p where p: "htt_tx_group_credit_process m (htt_txrx t) = Some p"
    and s': "s' = emit Msg_free (t\<lparr>htt_txrx := ol_tx_credit_completion_handler (t2h_tx e) d p\<rparr>)"
    by (auto split: option.splits)
  note pk = group_process_keeps [OF p ex_acc(1)]
  show ?thesis
    using True ex_acc(2,3) pk completion_handler_account [OF pk(1)]
    by (simp add: s' account_step_def credit_account_def bus_account_def emit_def)
qed

lemma account_other_fields [simp]:
  "account_step a b s (t\<lparr>htc_err_cnt := k\<rparr>) = account_step a b s t"
  "account_step a b s (t\<lparr>tgt_ver_major := k\<rparr>) = account_step a b s t"
  "account_step a b s (t\<lparr>tgt_ver_minor := k\<rparr>) = account_step a b s t"
  "account_step a b s (t\<lparr>rx_mpdu_range_offset_words := k\<rparr>) = account_step a b s t"
  "account_step a b s (t\<lparr>rx_ind_msdu_byte_idx := k\<rparr>) = account_step a b s t"
  by (simp_all add: account_step_def credit_account_def bus_account_def)

lemma quiet_account:
  assumes "tx_inv (htt_txrx s)"
  shows "account_step 0 0 s (t2h_version_conf m s)" "account_step 0 0 s (t2h_rx_flush m s)"
    "account_step 0 0 s (t2h_rx_offload_deliver m s)" "account_step 0 0 s (t2h_rx_frag_ind m s)"
    "account_step 0 0 s (t2h_rx_addba m s)" "account_step 0 0 s (t2h_rx_delba m s)"
    "account_step 0 0 s (t2h_peer_map cfg m s)" "account_step 0 0 s (t2h_peer_unmap cfg m s)"
    "account_step 0 0 s (t2h_sec_ind m s)" "account_step 0 0 s (t2h_stats_conf m s)"
    "account_step 0 0 s (t2h_rate_report cfg e m s)" "account_step 0 0 s (t2h_rx_pn_ind m s)"
    "account_step 0 0 s (t2h_pktlog m s)" "account_step 0 0 s (t2h_rx_ofld_pkt_err e m s)"
    "account_step 0 0 s (t2h_rx_ind cfg m s)"
  using assms account_refl [OF assms]
  by (simp_all add: t2h_version_conf_def t2h_rx_flush_def t2h_rx_offload_deliver_def t2h_rx_frag_ind_def
      t2h_rx_addba_def t2h_rx_delba_def t2h_peer_map_def t2h_peer_unmap_def t2h_sec_ind_def
      t2h_stats_conf_def t2h_rate_report_def t2h_rx_pn_ind_def t2h_pktlog_def t2h_rx_ofld_pkt_err_def
      t2h_rx_ind_def Let_def split: option.split)

lemma inspect_account:
  assumes "tx_inv (htt_txrx s)"
  shows "account_step 0 0 s (t2h_tx_inspect e m s)"
  using account_refl [OF assms] account_on_tx [OF account_refl [OF assms] inspect_keeps]
  by (simp add: t2h_tx_inspect_def Let_def)

lemma mgmt_account:
  assumes "tx_inv (htt_txrx s)" and "\<not> default_tx_comp_req cfg"
  shows "account_step 1 (lost_with s 1) s (t2h_mgmt_tx_compl cfg e m s)"
proof -
  obtain d t where run: "htt_tx_credit_update (s\<lparr>target_delta := target_delta s + 1\<rparr>) = (d, t)"
    by (rule prod.exhaust)
  have "keeps_account (ol_tx_desc_update_group_credit i n a)" for i n a
    by (rule core_keeps) simp
  note on = account_on_tx [OF account_on_tx [OF exchange_completion [OF assms(1) run] this]
      single_completion_keeps]
  show ?thesis
    using on assms(2) by (simp only: t2h_mgmt_tx_compl_def Let_def run account_emit if_True simp_thms prod.case)
qed

lemma limits_emit [simp]: "within_limits (emit c s) n = within_limits s n" "lost_with (emit c s) n = lost_with s n"
  by (simp_all add: within_limits_def lost_with_def emit_def)

lemma compl_account:
  assumes "tx_inv (htt_txrx s)" and "\<not> default_tx_comp_req cfg"
  shows "account_step
    (case compl_reported cfg m of None \<Rightarrow> 0 | Some n \<Rightarrow> if within_limits s (int n) then int n else 0)
    (case compl_reported cfg m of None \<Rightarrow> 0
      | Some n \<Rightarrow> if within_limits s (int n) then lost_with s (int n) else 0)
    s (t2h_tx_compl cfg e m s)"
proof -
  let ?n = "fget HTT_TX_COMPL_IND_NUM (hm_word m 0)"
  let ?c = "Tx_failure_indication (fget HTT_TX_COMPL_IND_TID (hm_word m 0))
    (fget HTT_TX_COMPL_IND_NUM (hm_word m 0)) (fget HTT_TX_COMPL_IND_STATUS (hm_word m 0))"
  have inv: "tx_inv (htt_txrx (emit ?c s))" using assms(1) by (simp add: emit_def)
  show ?thesis
    using account_on_tx [OF tx_compl_account [OF inv assms(2), of ?n] completion_keeps] account_refl [OF assms(1)]
    by (cases "within_limits s (int ?n)")
       (simp_all add: t2h_tx_compl_def compl_reported_def Let_def cong: if_cong)
qed

lemma lp_account:
  assumes "tx_inv (htt_txrx s)" and "\<not> default_tx_comp_req cfg"
    and "htt_t2h_lp_msg_handler cfg e m s = Some s'" and "fget HTT_T2H_MSG_TYPE (hm_word m 0) \<noteq> 0x7"
  shows "account_step (fst (credit_in cfg m s)) (snd (credit_in cfg m s)) s s'"
proof (cases "fget HTT_T2H_MSG_TYPE (hm_word m 0) \<in> {0xf, 0xe}")
  case True
  then show ?thesis
    using assms update_account [OF assms(1,2), of e m s'] mgmt_account [OF assms(1,2), of e m]
    by (auto simp: htt_t2h_lp_msg_handler_def credit_in_def Let_def split: if_splits)
next
  case False
  then have "credit_in cfg m s = (0, 0)" using assms(4) by (simp add: credit_in_def Let_def)
  moreover have "account_step 0 0 s s'"
    using assms(3) False quiet_account [OF assms(1)] account_refl [OF assms(1)]
    by (auto simp: htt_t2h_lp_msg_handler_def Let_def split: if_splits)
  ultimately show ?thesis by simp
qed

lemma handler_account:
  assumes "tx_inv (htt_txrx s)" and "\<not> default_tx_comp_req cfg"
    and "htt_t2h_msg_handler cfg e A_OK m s = Some s'"
  shows "account_step (fst (credit_in cfg m s)) (snd (credit_in cfg m s)) s s'"
proof (cases "fget HTT_T2H_MSG_TYPE (hm_word m 0) \<in> {0x1, 0x7, 0x10, 0xd, 0x12, 0x20}")
  case False
  then have "htt_t2h_lp_msg_handler cfg e m s = Some s'"
    using assms(3) by (simp add: htt_t2h_msg_handler_def Let_def)
  then show ?thesis using lp_account [OF assms(1,2)] False by simp
next
  case True
  show ?thesis
  proof (cases "fget HTT_T2H_MSG_TYPE (hm_word m 0) = 0x7")
    case type7: True
    then show ?thesis
      using assms(3) compl_account [OF assms(1,2), of m e]
      by (auto simp: htt_t2h_msg_handler_def credit_in_def Let_def split: option.splits if_splits)
  next
    case False
    then have "credit_in cfg m s = (0, 0)" using True by (auto simp: credit_in_def Let_def)
    moreover have "account_step 0 0 s s'"
      using assms(3) True False quiet_account [OF assms(1)] inspect_account [OF assms(1)]
        account_refl [OF assms(1)]
      by (auto simp: htt_t2h_msg_handler_def Let_def split: if_splits)
    ultimately show ?thesis by simp
  qed
qed

text \<open>
  Runs of messages and completed downloads. A failed download gives the credit of its frame back.
\<close>

datatype htt_op = T2h t2h_env htt_msg | Sent htt_env "(bool \<times> nat) option"

fun htt_op_step :: "htt_cfg \<Rightarrow> htt_op \<Rightarrow> htt_pdev \<Rightarrow> htt_pdev option" where
  "htt_op_step cfg (T2h e m) s = htt_t2h_msg_handler cfg e A_OK m s"
| "htt_op_step cfg (Sent env part2) s = Some (htt_h2t_send_complete cfg env part2 s)"

fun htt_run :: "htt_cfg \<Rightarrow> htt_op list \<Rightarrow> htt_pdev \<Rightarrow> htt_pdev option" where
  "htt_run cfg [] s = Some s"
| "htt_run cfg (op # ops) s = (case htt_op_step cfg op s of None \<Rightarrow> None | Some t \<Rightarrow> htt_run cfg ops t)"

text \<open>What a run reports, what it loses, and the room its downloads give back to the bus.\<close>

fun given_back :: "(bool \<times> nat) option \<Rightarrow> int" where
  "given_back (Some (False, i)) = 1"
| "given_back _ = 0"

fun op_sums :: "htt_cfg \<Rightarrow> htt_op \<Rightarrow> htt_pdev \<Rightarrow> int \<times> int \<times> int" where
  "op_sums cfg (T2h e m) s = (fst (credit_in cfg m s), snd (credit_in cfg m s), 0)"
| "op_sums cfg (Sent env part2) s = (given_back part2, 0, 1 + given_back part2)"

fun run_sums :: "htt_cfg \<Rightarrow> htt_op list \<Rightarrow> htt_pdev \<Rightarrow> int \<times> int \<times> int" where
  "run_sums cfg [] s = (0, 0, 0)"
| "run_sums cfg (op # ops) s =
     (case htt_op_step cfg op s of
        None \<Rightarrow> (0, 0, 0)
      | Some t \<Rightarrow>
          (case (op_sums cfg op s, run_sums cfg ops t) of
             ((a, b, c), (a', b', c')) \<Rightarrow> (a + a', b + b', c + c')))"

lemma mgmt_done_core [simp]: "tx_core (mgmt_download_done d b p) = tx_core p"
  by (simp add: mgmt_download_done_def)

lemma credit_incr: "tx_inv (OL_TX_TARGET_CREDIT_INCR d p) = tx_inv p"
  "tx_account (OL_TX_TARGET_CREDIT_INCR d p) = tx_account p + 1"
  by (simp_all add: OL_TX_TARGET_CREDIT_INCR_def tx_account_def htt_tx_msdu_credit_def)

lemma download_done_base:
  assumes "tx_inv p"
  shows "tx_inv (ol_tx_download_done_base ok i p)"
    and "tx_account (ol_tx_download_done_base ok i p) = tx_account p + (if ok then 0 else 1)"
proof -
  let ?m = "mgmt_download_done (sl_frame (tx_slots p i)) ok p"
  have m: "tx_inv ?m" "tx_account ?m = tx_account p"
    using assms tx_core_inv [OF mgmt_done_core] tx_core_account [OF mgmt_done_core] by simp_all
  have "tx_inv (ol_tx_download_done_base ok i p) \<and>
    tx_account (ol_tx_download_done_base ok i p) = tx_account p + (if ok then 0 else 1)"
  proof (cases ok)
    case True
    then have core: "tx_core (ol_tx_download_done_base ok i p) = tx_core p"
      by (simp add: ol_tx_download_done_base_def Let_def case_prod_unfold)
    show ?thesis using tx_core_inv [OF core] tx_core_account [OF core] assms True by simp
  next
    case False
    then show ?thesis
      using m tx_core_account [OF tx_core_nonstd]
      by (simp add: ol_tx_download_done_base_def Let_def credit_incr)
  qed
  then show "tx_inv (ol_tx_download_done_base ok i p)"
    and "tx_account (ol_tx_download_done_base ok i p) = tx_account p + (if ok then 0 else 1)" by simp_all
qed

lemma download_done:
  assumes "tx_inv p" and "f = ol_tx_download_done_hl_free \<or> f = ol_tx_download_done_hl_retain"
  shows "tx_inv (f ok i p) \<and> tx_account (f ok i p) = tx_account p + (if ok then 0 else 1)"
proof -
  have "tx_core (ol_tx_download_done_hl_free ok i p) = tx_core (ol_tx_download_done_base ok i p)"
    by (simp add: ol_tx_download_done_hl_free_def Let_def)
  note free = tx_core_inv [OF this] tx_core_account [OF this]
  show ?thesis
    using assms(2)
  proof
    assume f: "f = ol_tx_download_done_hl_free"
    show ?thesis unfolding f free using download_done_base [OF assms(1)] by blast
  next
    assume f: "f = ol_tx_download_done_hl_retain"
    show ?thesis
      unfolding f ol_tx_download_done_hl_retain_def using download_done_base [OF assms(1)] by blast
  qed
qed

lemma sent_account:
  assumes "tx_inv (htt_txrx s)" and "\<not> default_tx_comp_req cfg"
  shows "tx_inv (htt_txrx (htt_h2t_send_complete cfg env part2 s)) \<and>
    credit_account (htt_h2t_send_complete cfg env part2 s) = credit_account s + given_back part2 \<and>
    bus_account (htt_h2t_send_complete cfg env part2 s) = bus_account s + (1 + given_back part2)"
proof -
  define t where "t = (case part2 of None \<Rightarrow> s
    | Some (ok, i) \<Rightarrow> on_tx (if tx_free_at_download cfg then ol_tx_download_done_hl_free ok i
                       else ol_tx_download_done_hl_retain ok i) s)"
  have t: "tx_inv (htt_txrx t)" "tx_account (htt_txrx t) = tx_account (htt_txrx s) + given_back part2"
    "target_delta t = target_delta s" "bus_delta t = bus_delta s"
    using assms(1) download_done [OF assms(1)]
    by (auto simp: t_def on_tx_def split: option.split bool.split)
  obtain d u where run: "htt_tx_credit_update (t\<lparr>bus_delta := bus_delta t + 1\<rparr>) = (d, u)"
    by (rule prod.exhaust)
  have u: "htt_txrx u = htt_txrx t" "target_delta u + max 0 d = target_delta t"
    "bus_delta u + max 0 d = bus_delta t + 1"
    using run by (auto simp: htt_tx_credit_update_def Let_def split: if_splits)
  have "htt_h2t_send_complete cfg env part2 s =
      (if d \<noteq> 0 then on_tx (ol_tx_credit_completion_handler env d) u else u)"
    using assms(2) run by (simp add: htt_h2t_send_complete_def t_def)
  then show ?thesis
    using t u completion_handler_account [OF t(1)]
    by (cases "d = 0") (simp_all add: credit_account_def bus_account_def on_tx_def)
qed

lemma op_account:
  assumes "tx_inv (htt_txrx s)" and "\<not> default_tx_comp_req cfg" and "htt_op_step cfg op s = Some t"
    and "op_sums cfg op s = (a, b, c)"
  shows "tx_inv (htt_txrx t) \<and> credit_account t = credit_account s + a - b \<and>
    bus_account t = bus_account s + c - b"
proof (cases op)
  case (T2h e m)
  then show ?thesis
    using handler_account [OF assms(1,2), of e m t] assms(3,4) by (auto simp: account_step_def)
next
  case (Sent env part2)
  then show ?thesis
    using sent_account [OF assms(1,2), of env part2] assms(3,4) by auto
qed


text \<open>33 downloads are on their way; the target reports 10 credits, and then one completed frame.\<close>

definition demo_busy :: htt_pdev where
  "demo_busy = (htt_attached demo_attached)\<lparr>bus_delta := 0\<rparr>"

definition demo_update_msg :: htt_msg where "demo_update_msg = htt_msg_of [0x000a000f]"
definition demo_compl_msg :: htt_msg where "demo_compl_msg = htt_msg_of [0x00010007, 0xffff0000]"

lemmas field_eval = fget_def htt_msg_of_def drop_bit_eq_div HTT_T2H_MSG_TYPE_def HTT_TX_CREDIT_DELTA_ABS_def
  HTT_TX_CREDIT_SIGN_BIT_def HTT_TX_CREDIT_TXQ_GRP_def HTT_TX_COMPL_IND_NUM_def HTT_TX_COMPL_IND_STATUS_def
  HTT_TX_COMPL_IND_TID_def

lemma demo_update_fields: "update_delta demo_update_msg = 10" "fget HTT_T2H_MSG_TYPE (hm_word demo_update_msg 0) = 0xf"
  "fget HTT_TX_CREDIT_TXQ_GRP (hm_word demo_update_msg 0) = 0"
  by (simp_all add: demo_update_msg_def update_delta_def field_eval)

lemma demo_compl_fields: "compl_reported demo_htt_cfg demo_compl_msg = Some 1"
  "fget HTT_T2H_MSG_TYPE (hm_word demo_compl_msg 0) = 7"
  by (simp_all add: demo_compl_msg_def compl_reported_def demo_htt_cfg_def field_eval compl_len_ok_def
      HTT_TX_COMPL_BYTES_PER_MSDU_ID_def HTT_TX_COMPL_HEAD_SZ_def)

lemma demo_busy_update:
  "\<exists>t. htt_t2h_msg_handler demo_htt_cfg demo_t2h_env A_OK demo_update_msg demo_busy = Some t \<and>
    target_delta t = 0 \<and> bus_delta t = -10"
proof -
  have credit: "target_tx_credit demo_attached = 0"
    by (simp add: demo_attached_def ol_txrx_pdev_attach_def ol_tx_sched_attach_def)
  have "htt_t2h_msg_handler demo_htt_cfg demo_t2h_env A_OK demo_update_msg demo_busy =
      t2h_tx_credit_update demo_htt_cfg demo_t2h_env demo_update_msg demo_busy"
    by (simp add: htt_t2h_msg_handler_def htt_t2h_lp_msg_handler_def demo_update_fields)
  then show ?thesis
    using demo_update_fields credit
    by (simp add: t2h_tx_credit_update_def update_delta_def Let_def demo_busy_def htt_attached_def
        MAX_TARGET_TX_CREDIT_def t2h_exchange_credit_def htt_tx_credit_update_def t2h_extra_credit_def
        HTT_MAX_BUS_CREDIT_def on_tx_def htt_tx_group_credit_process_def group_credit_loop_end
        demo_htt_cfg_def emit_def)
qed


end
