(* ===== verification/RxWaitlist.thy ===== *)
theory RxWaitlist
  imports RxOps
begin

text \<open>
  Who is on the wait list for fragments. The list links the TIDs of peers by pointers, and the flag of
  a TID (its links are not NULL) says that it is on the list. As long as flag and list agree, the
  clean-up of a peer takes all its TIDs off the list before the peer is freed. A DELBA for a waiting
  TID clears the links without unlinking the TID; in memory this also cuts off the TIDs behind it,
  which the list of the model keeps.
\<close>

section \<open>What an operation sees of the wait list\<close>

definition wl_view :: "rx_pdev \<Rightarrow> (nat \<times> nat) list \<times> (nat \<Rightarrow> nat \<Rightarrow> bool) \<times> (nat \<Rightarrow> nat option) \<times> nat option" where
  "wl_view s = (defrag_waitlist s, (\<lambda>p t. ro_on_waitlist (reorder_of s p t)), peer_id_map s, ocb_peer s)"

text \<open>\<open>Q\<close> are the peers that may be on the list, and those that can be found by id.\<close>

definition wl_ok :: "(nat \<Rightarrow> bool) \<Rightarrow> rx_pdev \<Rightarrow> bool" where
  "wl_ok Q s \<longleftrightarrow> distinct (defrag_waitlist s) \<and>
     (\<forall>(p, t) \<in> set (defrag_waitlist s). t < OL_TXRX_NUM_EXT_TIDS \<and> Q p \<and> ro_on_waitlist (reorder_of s p t))"

lemma wl_ok_view: "wl_view s' = wl_view s \<Longrightarrow> wl_ok Q s' = wl_ok Q s"
  by (auto simp: wl_view_def wl_ok_def fun_eq_iff)

lemma wl_view_core: "rx_core s' = rx_core s \<Longrightarrow> wl_view s' = wl_view s"
  by (simp add: wl_view_def rx_core_fields [of s' s])

lemma wl_view_reorder:
  assumes "\<And>r. ro_on_waitlist (f r) = ro_on_waitlist r"
  shows "wl_view (upd_reorder p tid f s) = wl_view s"
  using assms by (auto simp: wl_view_def fun_eq_iff)

lemma wl_view_peer:
  assumes "\<And>pr. tids_rx_reorder (g pr) = tids_rx_reorder pr"
  shows "wl_view (upd_peer p g s) = wl_view s"
  using assms by (auto simp: wl_view_def fun_eq_iff)

lemma wl_view_fields [simp]:
  "wl_view (s\<lparr>rx_desc_size_hl := n\<rparr>) = wl_view s" "wl_view (s\<lparr>rx_freed := x\<rparr>) = wl_view s"
  "wl_view (s\<lparr>rx_holes := h\<rparr>) = wl_view s" "wl_view (s\<lparr>msdu_mc_dup_drop := n\<rparr>) = wl_view s"
  "wl_view (s\<lparr>cur_seq_num_hl := n\<rparr>) = wl_view s"
  by (simp_all add: wl_view_def)

lemma wl_view_cached [simp]: "wl_view (seq_num_cached s d) = wl_view s"
  by (simp add: seq_num_cached_def)

lemma wl_view_frees [simp]: "wl_view (ol_rx_frames_free ms s) = wl_view s"
  "wl_view (htt_rx_desc_frame_free m s) = wl_view s"
  by (simp_all add: ol_rx_frames_free_eq htt_rx_desc_frame_free_def)

lemma waitlist_flags [simp]:
  "ro_on_waitlist (ro_put i v r) = ro_on_waitlist r" "ro_on_waitlist (put_frags i fl r) = ro_on_waitlist r"
  by (simp_all add: ro_put_def put_frags_def Let_def split: option.split)

lemma waitlist_flag_clear [simp]: "ro_on_waitlist (ro_clear is r) = ro_on_waitlist r"
  by (induction "is" arbitrary: r) (simp_all add: ro_clear_def)

lemma wl_view_hand_over:
  assumes "\<And>t. rx_core (f ms t) = rx_core t"
  shows "wl_view (hand_over f p tid ms s) = wl_view s"
proof (cases "ms = []")
  case False
  have "wl_view (upd_peer p (\<lambda>pr. pr\<lparr>tids_last_seq := k pr\<rparr>) (seq_num_cached s d)) = wl_view s" for k d
    by (subst wl_view_peer) (simp_all only: wl_view_cached, simp)
  then show ?thesis
    unfolding hand_over_def Let_def if_not_P [OF False] wl_view_core [OF assms] .
qed (simp add: hand_over_def)

lemma wl_view_clear:
  "wl_view (upd_reorder p tid (\<lambda>_. ro_clear w (reorder_of s p tid))
     (upd_peer p (\<lambda>pr. pr\<lparr>tids_next_rel_idx := g pr\<rparr>) s)) = wl_view s"
  by (auto simp: wl_view_def fun_eq_iff)

section \<open>Taking off and putting on\<close>

lemma waitlist_remove_ok:
  assumes "wl_ok Q s"
  shows "wl_ok Q (ol_rx_defrag_waitlist_remove p tid s)"
    and "tid < OL_TXRX_NUM_EXT_TIDS \<Longrightarrow> (p, tid) \<notin> set (defrag_waitlist (ol_rx_defrag_waitlist_remove p tid s))"
    and "set (defrag_waitlist (ol_rx_defrag_waitlist_remove p tid s)) \<subseteq> set (defrag_waitlist s)"
  using assms set_remove1_subset [of "(p, tid)" "defrag_waitlist s"]
  by (auto simp: wl_ok_def ol_rx_defrag_waitlist_remove_def)

lemma waitlist_add_ok:
  assumes "wl_ok Q s" and "(p, tid) \<notin> set (defrag_waitlist s)" and "tid < OL_TXRX_NUM_EXT_TIDS" and "Q p"
  shows "wl_ok Q (ol_rx_defrag_waitlist_add p tid s)"
  using assms by (auto simp: wl_ok_def ol_rx_defrag_waitlist_add_def)

section \<open>Reorder operations\<close>

lemma waitlist_remove_view:
  "wl_view s' = wl_view s \<Longrightarrow>
    wl_view (ol_rx_defrag_waitlist_remove p tid s') = wl_view (ol_rx_defrag_waitlist_remove p tid s)"
  by (auto simp: wl_view_def ol_rx_defrag_waitlist_remove_def fun_eq_iff)

lemma flush_view:
  assumes "rx_inv s" and "tid < OL_TXRX_NUM_EXT_TIDS"
  shows "wl_view (ol_rx_reorder_flush e p tid a b act s) = wl_view (ol_rx_defrag_waitlist_remove p tid s)"
proof -
  let ?r = "reorder_of s p tid"
  let ?w = "reorder_walk (win_sz_mask ?r) a (if b = 0xffff then a else b)"
  let ?rel = "if b = 0xffff then 0 else u16 b"
  define c where "c = upd_reorder p tid (\<lambda>_. ro_clear ?w ?r)
    (upd_peer p (\<lambda>pr. pr\<lparr>tids_next_rel_idx := (tids_next_rel_idx pr)(tid := ?rel)\<rparr>) s)"
  have ok: "ro_ok ?r" using rx_invD(1) [OF assms] by (simp add: tid_ok_def)
  have view: "wl_view c = wl_view s" unfolding c_def by (rule wl_view_clear)
  define h where "h = hand_over (flush_proc e p tid act) p tid (reorder_frames ?r ?w)
    (ol_rx_defrag_waitlist_remove p tid c)"
  have "wl_view h = wl_view (ol_rx_defrag_waitlist_remove p tid c)"
    unfolding h_def by (rule wl_view_hand_over) (rule flush_proc_spec)
  moreover have "rx_inv h"
    unfolding h_def c_def
    by (intro rx_inv_hand_over flush_proc_spec rx_inv_waitlist_remove rx_inv_clear assms refl)
  then have "ol_rx_reorder_flush e p tid a b act s = h"
    unfolding ol_rx_reorder_flush_eq [OF ok] c_def [symmetric] h_def [symmetric]
    using assms(2) by simp
  ultimately show ?thesis using waitlist_remove_view [OF view] by simp
qed

lemma flush_waitlist:
  assumes "rx_inv s" and "wl_ok Q s" and "tid < OL_TXRX_NUM_EXT_TIDS"
  shows "wl_ok Q (ol_rx_reorder_flush e p tid a b act s)"
    and "(p, tid) \<notin> set (defrag_waitlist (ol_rx_reorder_flush e p tid a b act s))"
    and "set (defrag_waitlist (ol_rx_reorder_flush e p tid a b act s)) \<subseteq> set (defrag_waitlist s)"
    and "peer_id_map (ol_rx_reorder_flush e p tid a b act s) = peer_id_map s"
proof -
  note view = flush_view [OF assms(1,3), of e p a b act]
  note rm = waitlist_remove_ok [OF assms(2), where p = p and tid = tid]
  have wl: "defrag_waitlist (ol_rx_reorder_flush e p tid a b act s) =
      defrag_waitlist (ol_rx_defrag_waitlist_remove p tid s)"
    "peer_id_map (ol_rx_reorder_flush e p tid a b act s) = peer_id_map (ol_rx_defrag_waitlist_remove p tid s)"
    using view by (simp_all add: wl_view_def)
  show "wl_ok Q (ol_rx_reorder_flush e p tid a b act s)" using rm(1) by (simp only: wl_ok_view [OF view])
  show "(p, tid) \<notin> set (defrag_waitlist (ol_rx_reorder_flush e p tid a b act s))"
    unfolding wl by (rule rm(2) [OF assms(3)])
  show "set (defrag_waitlist (ol_rx_reorder_flush e p tid a b act s)) \<subseteq> set (defrag_waitlist s)"
    using rm(3) by (simp only: wl)
  show "peer_id_map (ol_rx_reorder_flush e p tid a b act s) = peer_id_map s"
    by (simp only: wl) (simp add: ol_rx_defrag_waitlist_remove_def)
qed

lemma release_view:
  assumes "rx_inv s" and "tid < OL_TXRX_NUM_EXT_TIDS"
  shows "wl_view (ol_rx_reorder_release e p tid a b s) = wl_view s"
proof -
  have ok: "ro_ok (reorder_of s p tid)" using rx_invD(1) [OF assms] by (simp add: tid_ok_def)
  define h where "h = hand_over (call_rx_opt_proc e p tid) p tid
    (if ro_slot (reorder_of s p tid) (hd (reorder_walk (win_sz_mask (reorder_of s p tid)) a b)) = [] then []
     else reorder_frames (reorder_of s p tid) (reorder_walk (win_sz_mask (reorder_of s p tid)) a b))
    (upd_reorder p tid (\<lambda>_. ro_clear (reorder_walk (win_sz_mask (reorder_of s p tid)) a b) (reorder_of s p tid))
      (upd_peer p (\<lambda>pr. pr\<lparr>tids_next_rel_idx := (tids_next_rel_idx pr)(tid := u16 b)\<rparr>) s))"
  have "rx_inv h"
    unfolding h_def by (intro rx_inv_hand_over call_rx_opt_proc_spec rx_inv_clear assms refl)
  then have "ol_rx_reorder_release e p tid a b s = h"
    unfolding ol_rx_reorder_release_eq [OF ok] h_def [symmetric] using assms(2) by simp
  moreover have "wl_view h = wl_view s"
    unfolding h_def by (subst wl_view_hand_over, rule call_rx_opt_proc_spec) (rule wl_view_clear)
  ultimately show ?thesis by simp
qed

lemma history_view [simp]: "wl_view (ol_rx_reorder_update_history p ty tid a b i s) = wl_view s"
proof -
  have "wl_view (upd_peer p (\<lambda>pr. pr\<lparr>reorder_history := x\<rparr>) s) = wl_view s" for x
    by (rule wl_view_peer) simp
  then show ?thesis
    unfolding ol_rx_reorder_update_history_def Let_def by (cases "reorder_history (peers s p)") simp_all
qed

lemma store_view [simp]: "wl_view (ol_rx_reorder_store p tid idx ms s) = wl_view s"
  unfolding ol_rx_reorder_store_def by (rule wl_view_reorder) simp

lemma flush_frag_view [simp]: "wl_view (ol_rx_reorder_flush_frag p tid sq s) = wl_view s"
proof -
  have "wl_view (upd_reorder p tid (ro_put i []) (ol_rx_frames_free ms s)) = wl_view s" for i ms
    by (subst wl_view_reorder) simp_all
  then show ?thesis unfolding ol_rx_reorder_flush_frag_def Let_def by simp
qed

section \<open>Handlers\<close>

lemma defrag_view [simp]: "wl_view (ol_rx_defrag e p tid ms s) = wl_view s"
  by (rule wl_view_core) (rule ol_rx_defrag_core)

lemma view_map: "wl_view s' = wl_view s \<Longrightarrow> peer_id_map s' = peer_id_map s"
  by (simp add: wl_view_def)

lemma store_frag_waitlist:
  assumes ok: "wl_ok Q s" and tid: "tid < OL_TXRX_NUM_EXT_TIDS" and p: "Q p"
  shows "wl_ok Q (ol_rx_reorder_store_frag e p tid sn frag s)"
    and "peer_id_map (ol_rx_reorder_store_frag e p tid sn frag s) = peer_id_map s"
proof -
  define sq where "sq = sn AND win_sz_mask (reorder_of s p tid)"
  define fl where "fl = get_frags sq (reorder_of s p tid)"
  define st where "st = (if fl_chain fl \<noteq> [] \<and> frag_mismatch (m_data frag) (m_data (hd (fl_chain fl)))
      then (no_frags, ol_rx_frames_free (fl_chain fl @ fl_rest fl) s) else (fl, s))"
  obtain fl1 s1 where st1: "st = (fl1, s1)" by (cases st)
  obtain fl2 pres fr where ins: "ol_rx_fraglist_insert fl1 frag False = (fl2, pres, fr)"
    by (cases "ol_rx_fraglist_insert fl1 frag False")
  define s2 where "s2 = ol_rx_frames_free fr (upd_reorder p tid (put_frags sq fl2) s1)"
  define s3 where "s3 = (if defrag_timeout_check s2 then ol_rx_defrag_waitlist_remove p tid s2 else s2)"
  have put: "wl_view (upd_reorder p tid (put_frags sq x) t) = wl_view t" for x t
    by (rule wl_view_reorder) simp
  have put2: "wl_view (upd_reorder p tid (\<lambda>r. (put_frags sq x r)\<lparr>defrag_timeout_ms := n\<rparr>) t) = wl_view t" for x t n
    by (rule wl_view_reorder) simp
  have ms: "wl_view (upd_reorder p tid (\<lambda>r. r\<lparr>defrag_timeout_ms := n\<rparr>) t) = wl_view t" for n t
    by (rule wl_view_reorder) simp
  have v1: "wl_view s1 = wl_view s" using st1 by (auto simp: st_def split: if_splits)
  have v2: "wl_view s2 = wl_view s" unfolding s2_def by (simp only: wl_view_frees put v1)
  have ok2: "wl_ok Q s2" using ok by (simp only: wl_ok_view [OF v2])
  have ok3: "wl_ok Q s3" using waitlist_remove_ok(1) [OF ok2] ok2 by (simp add: s3_def)
  have m3: "peer_id_map s3 = peer_id_map s"
    using view_map [OF v2] by (simp add: s3_def ol_rx_defrag_waitlist_remove_def)
  have off: "(p, tid) \<notin> set (defrag_waitlist s3)" if "defrag_timeout_check s3"
  proof -
    have "defrag_timeout_check s2" using that by (auto simp: s3_def split: if_splits)
    then show ?thesis using waitlist_remove_ok(2) [OF ok2 tid] by (simp add: s3_def)
  qed
  have add: "wl_ok Q (ol_rx_defrag_waitlist_add p tid (upd_reorder p tid (\<lambda>r. r\<lparr>defrag_timeout_ms := n\<rparr>) s3))"
    if "defrag_timeout_check s3" for n
  proof (rule waitlist_add_ok [where Q = Q, OF _ _ tid])
    show "wl_ok Q (upd_reorder p tid (\<lambda>r. r\<lparr>defrag_timeout_ms := n\<rparr>) s3)"
      using ok3 by (simp only: wl_ok_view [OF ms])
    show "(p, tid) \<notin> set (defrag_waitlist (upd_reorder p tid (\<lambda>r. r\<lparr>defrag_timeout_ms := n\<rparr>) s3))"
      using off [OF that] by simp
    show "Q p" by (rule p)
  qed
  have add_map: "peer_id_map (ol_rx_defrag_waitlist_add p tid
      (upd_reorder p tid (\<lambda>r. r\<lparr>defrag_timeout_ms := n\<rparr>) s3)) = peer_id_map s" for n
    by (simp add: ol_rx_defrag_waitlist_add_def m3)
  define a where "a = upd_reorder p tid (put_frags sq no_frags) (ol_rx_defrag e p tid [frag] s)"
  define b where "b = upd_peer p (\<lambda>pr. pr\<lparr>tids_last_seq := (tids_last_seq pr)(tid := sn)\<rparr>)
       (upd_reorder p tid (\<lambda>r. (put_frags sq no_frags r)\<lparr>defrag_timeout_ms := 0\<rparr>)
          (ol_rx_defrag e p tid (fl_chain fl2 @ fl_rest fl2) s3))"
  have av: "wl_view a = wl_view s" unfolding a_def by (rule trans [OF put]) (rule defrag_view)
  have bv: "wl_view b = wl_view s3"
    unfolding b_def by (rule trans [OF wl_view_peer], simp, rule trans [OF put2], rule defrag_view)
  have eq: "ol_rx_reorder_store_frag e p tid sn frag s =
    (if \<not> more_frag (m_data frag) \<and> frag_no (m_data frag) = 0 \<and> fl_chain fl = [] then a
     else if pres then b
     else if defrag_timeout_check s3 then ol_rx_defrag_waitlist_add p tid
       (upd_reorder p tid (\<lambda>r. r\<lparr>defrag_timeout_ms := u32 (now_ms e + defrag_cfg_timeout_ms s3)\<rparr>) s3)
     else s3)"
    unfolding ol_rx_reorder_store_frag_def Let_def sq_def [symmetric] fl_def [symmetric]
      st_def [symmetric] st1 prod.case ins s2_def [symmetric] s3_def [symmetric] a_def b_def ..
  show "wl_ok Q (ol_rx_reorder_store_frag e p tid sn frag s)"
    unfolding eq using ok ok3 add by (simp only: wl_ok_view [OF av] wl_ok_view [OF bv] split: if_splits) simp
  show "peer_id_map (ol_rx_reorder_store_frag e p tid sn frag s) = peer_id_map s"
    unfolding eq using add_map m3 view_map [OF av] view_map [OF bv] by (simp split: if_split)
qed

lemma frag_indication_waitlist:
  assumes "wl_ok Q s" and "\<And>i p. peer_id_map s i = Some p \<Longrightarrow> Q p"
  shows "wl_ok Q (ol_rx_frag_indication_handler e peer_id tid fl m s) \<and>
    peer_id_map (ol_rx_frag_indication_handler e peer_id tid fl m s) = peer_id_map s"
proof (cases "tid < OL_TXRX_NUM_EXT_TIDS")
  case False
  then show ?thesis using assms(1) by (simp add: ol_rx_frag_indication_handler_def)
next
  case tid: True
  show ?thesis
  proof (cases "peer_id_map s peer_id")
    case None
    then show ?thesis
      using assms(1) tid wl_ok_view [OF wl_view_frees(2)] view_map [OF wl_view_frees(2)]
      by (simp add: ol_rx_frag_indication_handler_def)
  next
    case (Some p)
    define s1 where "s1 = (case fl of
        Some sq \<Rightarrow> if \<not> full_reorder_offload s then ol_rx_reorder_flush_frag p tid sq s else s | None \<Rightarrow> s)"
    have v: "wl_view (seq_num_cached s1 d) = wl_view s" for d
      by (simp add: s1_def split: option.split)
    have "wl_ok Q (seq_num_cached s1 (m_desc m))" using assms(1) by (simp only: wl_ok_view [OF v])
    note st = store_frag_waitlist [OF this tid assms(2) [OF Some]]
    show ?thesis
      unfolding ol_rx_frag_indication_handler_def Let_def Some option.case s1_def [symmetric]
      using st view_map [OF v] tid by simp
  qed
qed

lemma seq_check_view:
  assumes "OL_RX_SEQ_NUM_CHECK p tid d s = (st, s')"
  shows "wl_view s' = wl_view s"
proof -
  have "wl_view (upd_peer p (\<lambda>pr. pr\<lparr>tids_mcast_last_seq := k pr\<rparr>) (seq_num_cached s d)) = wl_view s" for k
    by (rule trans [OF wl_view_peer]) simp_all
  then show ?thesis
    using assms by (auto simp: OL_RX_SEQ_NUM_CHECK_def ol_rx_seq_num_check_def Let_def split: if_splits)
qed

lemma last_seq_view: "wl_view (upd_peer p (\<lambda>pr. pr\<lparr>tids_last_seq := k pr\<rparr>) s) = wl_view s"
  by (rule wl_view_peer) simp

lemma ind_mpdu_view: "wl_view (snd (rx_ind_mpdu p tid m rel s)) = wl_view s"
proof (cases "pm_chaining m")
  case False
  define s0 where "s0 = s\<lparr>rx_desc_size_hl := pm_desc_size m\<rparr>"
  let ?d = "m_desc (hd (pm_msdus m))"
  obtain st s1 where c: "OL_RX_SEQ_NUM_CHECK p tid ?d (seq_num_cached s0 ?d) = (st, s1)"
    by (cases "OL_RX_SEQ_NUM_CHECK p tid ?d (seq_num_cached s0 ?d)")
  have v: "wl_view s1 = wl_view s" using seq_check_view [OF c] by (simp add: s0_def)
  define s3 where "s3 = ol_rx_reorder_update_history p reorder_store tid 0 0 (htt_rx_mpdu_desc_seq_num s0 ?d)
    (ol_rx_reorder_store p tid (htt_rx_mpdu_desc_seq_num s0 ?d) (pm_msdus m) s1)"
  have v3: "wl_view s3 = wl_view s" by (simp add: s3_def v)
  have "wl_view (upd_peer p (\<lambda>pr. pr\<lparr>tids_last_seq := (tids_last_seq pr)(tid := k)\<rparr>) s3) = wl_view s" for k
    by (rule trans [OF last_seq_view]) (rule v3)
  then show ?thesis
    unfolding rx_ind_mpdu_def Let_def s0_def [symmetric] c prod.case s3_def [symmetric]
    using False v v3 by simp
qed (simp add: rx_ind_mpdu_def Let_def)

lemma ind_mpdus_view: "wl_view (snd (rx_ind_mpdus p tid ms rel s)) = wl_view s"
proof (induction ms arbitrary: rel s)
  case (Cons m ms)
  then show ?case using ind_mpdu_view by (simp add: split_beta)
qed simp

lemma ind_discard_view: "wl_view (rx_ind_discard ms s) = wl_view s"
  by (induction ms arbitrary: s) simp_all

lemma ind_ranges_view: "wl_view (snd (rx_ind_ranges po tid rs rel s)) = wl_view s"
proof (induction rs arbitrary: rel s)
  case (Cons r rs)
  obtain st ms where r: "r = (st, ms)" by (cases r)
  show ?case using Cons.IH ind_mpdus_view ind_discard_view by (cases po) (simp_all add: r split_beta)
qed simp

lemma waitlist_flush_waitlist:
  "wl_ok Q s \<Longrightarrow> wl_ok Q (ol_rx_defrag_waitlist_flush e s) \<and>
    peer_id_map (ol_rx_defrag_waitlist_flush e s) = peer_id_map s"
proof -
  have "wl_ok Q (waitlist_flush_loop now es s) \<and> peer_id_map (waitlist_flush_loop now es s) = peer_id_map s"
    if "wl_ok Q s" for now es s
    using that
  proof (induction now es s rule: waitlist_flush_loop.induct)
    case (2 now p tid es s)
    let ?t = "ol_rx_reorder_flush_frag p tid 0 (ol_rx_defrag_waitlist_remove p tid s)"
    have "wl_ok Q ?t"
      using waitlist_remove_ok(1) [OF 2(3)] by (simp only: wl_ok_view [OF flush_frag_view])
    moreover have "peer_id_map ?t = peer_id_map s"
      using view_map [OF flush_frag_view] by (simp add: ol_rx_defrag_waitlist_remove_def)
    ultimately show ?case using 2 by simp
  qed simp
  then show "wl_ok Q s \<Longrightarrow> wl_ok Q (ol_rx_defrag_waitlist_flush e s) \<and>
    peer_id_map (ol_rx_defrag_waitlist_flush e s) = peer_id_map s"
    by (simp add: ol_rx_defrag_waitlist_flush_def)
qed

lemma ind_flush_waitlist:
  assumes "rx_inv s" and "wl_ok Q s" and "tid < OL_TXRX_NUM_EXT_TIDS"
  shows "wl_ok Q (rx_ind_flush e po tid fl s) \<and> peer_id_map (rx_ind_flush e po tid fl s) = peer_id_map s"
proof -
  have "tid \<noteq> HTT_INVALID_TID" using assms(3) by (simp add: HTT_INVALID_TID_def OL_TXRX_NUM_EXT_TIDS_def)
  then show ?thesis
    using assms(2) flush_waitlist(1,4) [OF assms] wl_ok_view [OF history_view] view_map [OF history_view]
    by (auto simp: rx_ind_flush_def split: option.split)
qed

lemma ind_release_view:
  assumes "rx_inv s" and "tid < OL_TXRX_NUM_EXT_TIDS"
  shows "wl_view (rx_ind_release e po tid rl rel s) = wl_view s"
  using release_view [OF assms] by (auto simp: rx_ind_release_def split: option.split)

lemma indication_waitlist:
  assumes "rx_inv s" and "wl_ok Q s" and "tid < OL_TXRX_NUM_EXT_TIDS"
  shows "wl_ok Q (ol_rx_indication_handler e peer_id tid ind s) \<and>
    peer_id_map (ol_rx_indication_handler e peer_id tid ind s) = peer_id_map s"
proof -
  define po where "po = find_rx_peer peer_id s"
  define s1 where "s1 = rx_ind_flush e po tid (ri_flush ind) s"
  obtain rel s2 where r: "rx_ind_ranges po tid (ri_ranges ind) (ri_release ind \<noteq> None) s1 = (rel, s2)"
    by (cases "rx_ind_ranges po tid (ri_ranges ind) (ri_release ind \<noteq> None) s1")
  define s3 where "s3 = rx_ind_release e po tid (ri_release ind) rel s2"
  have i1: "rx_inv s1" unfolding s1_def by (rule rx_inv_ind_flush [OF assms(1,3)])
  have i2: "rx_inv s2" using rx_inv_ind_ranges [OF i1] r by (metis snd_conv)
  have i3: "rx_inv s3" unfolding s3_def by (rule rx_inv_ind_release [OF i2 assms(3)])
  have "wl_view s2 = wl_view s1" using ind_ranges_view r by (metis snd_conv)
  then have v: "wl_view s3 = wl_view s1"
    unfolding s3_def using ind_release_view [OF i2 assms(3)] by simp
  have s1: "wl_ok Q s1 \<and> peer_id_map s1 = peer_id_map s"
    unfolding s1_def by (rule ind_flush_waitlist [OF assms])
  have ok3: "wl_ok Q s3" and m3: "peer_id_map s3 = peer_id_map s"
    using s1 view_map [OF v] by (simp_all only: wl_ok_view [OF v])
  have "ol_rx_reorder_timeout_update e po tid s3 = s3" using i3 assms(3) by simp
  then show ?thesis
    unfolding ol_rx_indication_handler_def Let_def po_def [symmetric] s1_def [symmetric] r prod.case
      s3_def [symmetric]
    using ok3 m3 waitlist_flush_waitlist [OF ok3] by simp
qed

lemma flush_handler_waitlist:
  assumes "rx_inv s" and "wl_ok Q s"
  shows "wl_ok Q (ol_rx_flush_handler e peer_id tid a b act s) \<and>
    peer_id_map (ol_rx_flush_handler e peer_id tid a b act s) = peer_id_map s"
proof (cases "tid < OL_TXRX_NUM_EXT_TIDS")
  case tid: True
  show ?thesis
  proof (cases "peer_id_map s peer_id")
    case (Some p)
    define s1 where "s1 = (if act = htt_rx_flush_release then ol_rx_reorder_detect_hole p tid a s else s)"
    have v: "wl_view s1 = wl_view s"
      by (simp add: s1_def ol_rx_reorder_detect_hole_def Let_def)
    have i: "rx_inv s1" using assms(1) by (simp add: s1_def ol_rx_reorder_detect_hole_def Let_def)
    have ok: "wl_ok Q s1" using assms(2) by (simp only: wl_ok_view [OF v])
    note fl = flush_waitlist [OF i ok tid, where e = e and p = p and a = a and b = b and act = act]
    have "ol_rx_reorder_timeout_update e (Some p) tid (ol_rx_reorder_flush e p tid a b act s1) =
        ol_rx_reorder_flush e p tid a b act s1"
      using rx_inv_flush [OF i tid] tid by simp
    then show ?thesis
      unfolding ol_rx_flush_handler_def Let_def Some option.case s1_def [symmetric]
      using fl(1,4) view_map [OF v] view_map [OF flush_frag_view] wl_ok_view [OF flush_frag_view] assms(2) tid
      by simp
  qed (use assms in \<open>simp add: ol_rx_flush_handler_def\<close>)
qed (use assms in \<open>simp add: ol_rx_flush_handler_def\<close>)

lemma pn_ind_loop_view:
  assumes "pn_ind_loop is ies chain r s = (ms, r', s')"
  shows "ro_on_waitlist r' = ro_on_waitlist r \<and> wl_view s' = wl_view s"
  using assms
proof (induction "is" ies chain r s rule: pn_ind_loop.induct)
  case (2 i "is" ies chain r s)
  then show ?case by (auto split: if_splits list.splits)
qed simp

lemma pn_ind_view: "wl_view (ol_rx_pn_ind_handler e peer_id tid a b ies s) = wl_view s"
proof (cases "find_rx_peer peer_id s")
  case (Some p)
  define s1 where "s1 = upd_peer p (\<lambda>pr. pr\<lparr>fw_pn_check := True\<rparr>) s"
  have v1: "wl_view s1 = wl_view s" unfolding s1_def by (rule wl_view_peer) simp
  obtain ms r' s2 where l: "pn_ind_loop (reorder_walk (win_sz_mask (reorder_of s1 p tid)) a b) ies []
      (reorder_of s1 p tid) s1 = (ms, r', s2)"
    by (metis prod_cases3)
  note lp = pn_ind_loop_view [OF l]
  have "wl_view (upd_reorder p tid (\<lambda>_. r') s2) = wl_view s2"
    using lp by (auto simp: wl_view_def fun_eq_iff)
  then have v: "wl_view (upd_reorder p tid (\<lambda>_. r') s2) = wl_view s" using lp v1 by simp
  show ?thesis
    unfolding ol_rx_pn_ind_handler_def Let_def Some option.case s1_def [symmetric] l prod.case
    using v wl_view_core [OF call_rx_opt_proc_spec(1)] by simp
qed (simp add: ol_rx_pn_ind_handler_def)

lemma addba_view: "wl_view (ol_rx_addba_handler peer_id tid win sn failed s) = wl_view s"
  by (auto simp: ol_rx_addba_handler_def Let_def wl_view_def fun_eq_iff split: option.split)

lemma delba_waitlist:
  assumes "wl_ok Q s" and "\<And>p. peer_id_map s peer_id = Some p \<Longrightarrow> (p, tid) \<notin> set (defrag_waitlist s)"
  shows "wl_ok Q (ol_rx_delba_handler peer_id tid s) \<and> peer_id_map (ol_rx_delba_handler peer_id tid s) = peer_id_map s"
  using assms by (auto simp: ol_rx_delba_handler_def wl_ok_def split: option.split)

lemma peer_init_waitlist:
  assumes "wl_ok Q s" and "\<not> Q p"
  shows "wl_ok Q (ol_rx_peer_init p s) \<and> peer_id_map (ol_rx_peer_init p s) = peer_id_map s"
  using assms by (auto simp: ol_rx_peer_init_def wl_ok_def)

lemma flush_tids_waitlist:
  assumes "rx_inv s" and "wl_ok Q s" and "n \<le> OL_TXRX_NUM_EXT_TIDS"
  shows "wl_ok Q (reorder_flush_tids e p n s) \<and> peer_id_map (reorder_flush_tids e p n s) = peer_id_map s \<and>
    set (defrag_waitlist (reorder_flush_tids e p n s)) \<subseteq> set (defrag_waitlist s) \<and>
    (\<forall>t < OL_TXRX_NUM_EXT_TIDS. OL_TXRX_NUM_EXT_TIDS - n \<le> t \<longrightarrow>
       (p, t) \<notin> set (defrag_waitlist (reorder_flush_tids e p n s)))"
  using assms
proof (induction n arbitrary: s)
  case (Suc n)
  let ?t = "OL_TXRX_NUM_EXT_TIDS - Suc n"
  let ?s = "ol_rx_reorder_flush e p ?t 0 0 htt_rx_flush_discard s"
  have t: "?t < OL_TXRX_NUM_EXT_TIDS" by (simp add: OL_TXRX_NUM_EXT_TIDS_def)
  note fl = flush_waitlist [OF Suc.prems(1,2) t, where e = e and p = p and a = 0 and b = 0 and act = htt_rx_flush_discard]
  have IH: "wl_ok Q (reorder_flush_tids e p n ?s) \<and> peer_id_map (reorder_flush_tids e p n ?s) = peer_id_map ?s \<and>
      set (defrag_waitlist (reorder_flush_tids e p n ?s)) \<subseteq> set (defrag_waitlist ?s) \<and>
      (\<forall>t < OL_TXRX_NUM_EXT_TIDS. OL_TXRX_NUM_EXT_TIDS - n \<le> t \<longrightarrow>
         (p, t) \<notin> set (defrag_waitlist (reorder_flush_tids e p n ?s)))"
    using Suc.prems(3) by (intro Suc.IH rx_inv_flush [OF Suc.prems(1) t] fl(1)) simp
  have "(p, u) \<notin> set (defrag_waitlist (reorder_flush_tids e p n ?s))"
    if "u < OL_TXRX_NUM_EXT_TIDS" "?t \<le> u" for u
  proof (cases "u = ?t")
    case True
    then show ?thesis using fl(2) IH by blast
  next
    case False
    then have "OL_TXRX_NUM_EXT_TIDS - n \<le> u" using that Suc.prems(3) by simp
    then show ?thesis using IH that(1) by blast
  qed
  moreover have "set (defrag_waitlist (reorder_flush_tids e p n ?s)) \<subseteq> set (defrag_waitlist s)"
    using IH fl(3) by blast
  ultimately show ?case using IH fl(4) by simp
qed simp

lemma peer_cleanup_waitlist:
  assumes "rx_inv s" and "wl_ok Q s"
  shows "wl_ok (\<lambda>x. Q x \<and> x \<noteq> p) (ol_rx_peer_cleanup e p s)"
    and "peer_id_map (ol_rx_peer_cleanup e p s) = peer_id_map s"
proof -
  define s1 where "s1 = upd_peer p (\<lambda>pr. pr\<lparr>keyinstalled := False\<rparr>) s"
  define s2 where "s2 = reorder_flush_tids e p OL_TXRX_NUM_EXT_TIDS s1"
  have i1: "rx_inv s1" unfolding s1_def by (rule rx_inv_next_rel(4) [OF assms(1)])
  have v1: "wl_view s1 = wl_view s" unfolding s1_def by (rule wl_view_peer) simp
  have ok1: "wl_ok Q s1" using assms(2) by (simp only: wl_ok_view [OF v1])
  have i2: "rx_inv s2" unfolding s2_def by (rule rx_inv_flush_tids [OF i1]) simp
  have fl: "wl_ok Q s2" "peer_id_map s2 = peer_id_map s"
    "t < OL_TXRX_NUM_EXT_TIDS \<Longrightarrow> (p, t) \<notin> set (defrag_waitlist s2)" for t
    using flush_tids_waitlist [OF i1 ok1, where n = OL_TXRX_NUM_EXT_TIDS and e = e and p = p] view_map [OF v1]
    by (simp_all add: s2_def)
  have eq: "ol_rx_peer_cleanup e p s = upd_peer p (\<lambda>pr. pr\<lparr>reorder_history := None\<rparr>) s2"
    unfolding ol_rx_peer_cleanup_def ol_rx_reorder_peer_cleanup_def s1_def [symmetric] s2_def [symmetric]
    using rx_inv_timeout_cleanup [OF i2] by simp
  have v: "wl_view (ol_rx_peer_cleanup e p s) = wl_view s2"
    unfolding eq by (rule wl_view_peer) simp
  show "wl_ok (\<lambda>x. Q x \<and> x \<noteq> p) (ol_rx_peer_cleanup e p s)"
    unfolding wl_ok_view [OF v] using fl(1,3) by (auto simp: wl_ok_def)
  show "peer_id_map (ol_rx_peer_cleanup e p s) = peer_id_map s"
    using view_map [OF v] fl(2) by simp
qed

section \<open>Steps of the receive path\<close>

text \<open>What a step needs beside \<open>rx_ok\<close>: no DELBA for a waiting TID, no initialisation of a peer in use.\<close>

fun wl_pre :: "(nat \<Rightarrow> bool) \<Rightarrow> rx_pdev \<Rightarrow> rx_op \<Rightarrow> bool" where
  "wl_pre Q s (RxDelba peer_id tid) =
     (case peer_id_map s peer_id of None \<Rightarrow> True | Some p \<Rightarrow> (p, tid) \<notin> set (defrag_waitlist s))"
| "wl_pre Q s (RxPeerInit p) = (\<not> Q p)"
| "wl_pre Q s _ = True"

lemma wl_ok_mono: "wl_ok Q s \<Longrightarrow> (\<And>x. Q x \<Longrightarrow> R x) \<Longrightarrow> wl_ok R s"
  by (auto simp: wl_ok_def)

lemma rx_step_waitlist:
  assumes "rx_inv s" and "wl_ok Q s" and "\<And>i p. peer_id_map s i = Some p \<Longrightarrow> Q p"
    and "rx_ok s (e, op)" and "wl_pre Q s op"
  shows "wl_ok Q (rx_step s (e, op)) \<and> peer_id_map (rx_step s (e, op)) = peer_id_map s"
proof (cases op)
  case (RxFragIndication i tid fl m)
  then show ?thesis using frag_indication_waitlist [OF assms(2,3)] by simp
next
  case (RxPeerCleanup p)
  then show ?thesis
    using peer_cleanup_waitlist [OF assms(1,2), where p = p and e = e] wl_ok_mono [of "\<lambda>x. Q x \<and> x \<noteq> p" _ Q] by simp
next
  case (RxPnInd i tid a b ies)
  then show ?thesis using assms(2) wl_ok_view [OF pn_ind_view] view_map [OF pn_ind_view] by simp
next
  case (RxAddba i tid win)
  then show ?thesis using assms(2) wl_ok_view [OF addba_view] view_map [OF addba_view] by simp
next
  case (RxDelba i tid)
  then show ?thesis using delba_waitlist [OF assms(2), of i tid] assms(5) by (simp split: option.splits)
qed (use assms indication_waitlist flush_handler_waitlist peer_init_waitlist rx_inv_timeout in simp_all)

section \<open>A DELBA for a waiting TID\<close>

text \<open>A TID on the list whose flag is clear stays there.\<close>

definition lost_on_list :: "nat \<Rightarrow> nat \<Rightarrow> rx_pdev \<Rightarrow> bool" where
  "lost_on_list p t s \<longleftrightarrow> (p, t) \<in> set (defrag_waitlist s) \<and> \<not> ro_on_waitlist (reorder_of s p t)"

lemma lost_view: "wl_view s' = wl_view s \<Longrightarrow> lost_on_list p t s' = lost_on_list p t s"
  by (simp add: lost_on_list_def wl_view_def fun_eq_iff)

lemma lost_remove: "lost_on_list p t s \<Longrightarrow> lost_on_list p t (ol_rx_defrag_waitlist_remove p u s)"
  by (auto simp: lost_on_list_def ol_rx_defrag_waitlist_remove_def)

lemma lost_flush_tids:
  "rx_inv s \<Longrightarrow> n \<le> OL_TXRX_NUM_EXT_TIDS \<Longrightarrow> lost_on_list p t s \<Longrightarrow> lost_on_list p t (reorder_flush_tids e p n s)"
proof (induction n arbitrary: s)
  case (Suc n)
  have u: "OL_TXRX_NUM_EXT_TIDS - Suc n < OL_TXRX_NUM_EXT_TIDS" by (simp add: OL_TXRX_NUM_EXT_TIDS_def)
  show ?case
    using Suc.prems Suc.IH [OF rx_inv_flush [OF Suc.prems(1) u]] lost_remove lost_view [OF flush_view [OF Suc.prems(1) u]]
    by simp
qed simp

text \<open>
  Property C35. The clean-up of a peer that is about to be freed takes all its TIDs off the list of
  TIDs that wait for fragments, unless a DELBA for a waiting TID came before: it clears the TID's
  links without unlinking it, the clean-up then takes the TID for one that is not on the list, and
  the list keeps a pointer into the peer after it is freed.
\<close>

theorem delba_of_waiting_tid_outlives_peer:
  assumes "rx_inv s" and "wl_ok Q s" and "peer_id_map s peer_id = Some p"
    and "(p, tid) \<in> set (defrag_waitlist s)"
  shows "set (defrag_waitlist (ol_rx_peer_cleanup e p s)) \<inter> {p} \<times> UNIV = {} \<and>
    (p, tid) \<in> set (defrag_waitlist (ol_rx_peer_cleanup e p (ol_rx_delba_handler peer_id tid s)))"
proof
  show "set (defrag_waitlist (ol_rx_peer_cleanup e p s)) \<inter> {p} \<times> UNIV = {}"
    using peer_cleanup_waitlist(1) [OF assms(1,2), where p = p and e = e] by (auto simp: wl_ok_def)
  have tid: "tid < OL_TXRX_NUM_EXT_TIDS" using assms(2,4) by (auto simp: wl_ok_def)
  define s1 where "s1 = upd_peer p (\<lambda>pr. pr\<lparr>keyinstalled := False\<rparr>) (ol_rx_delba_handler peer_id tid s)"
  define s2 where "s2 = reorder_flush_tids e p OL_TXRX_NUM_EXT_TIDS s1"
  have i1: "rx_inv s1" unfolding s1_def by (intro rx_inv_next_rel(4) rx_inv_delba assms(1))
  have i2: "rx_inv s2" unfolding s2_def by (rule rx_inv_flush_tids [OF i1]) simp
  have "lost_on_list p tid s1"
    using assms(3,4) tid by (simp add: s1_def ol_rx_delba_handler_def lost_on_list_def ol_rx_reorder_init_def)
  then have "lost_on_list p tid s2" unfolding s2_def by (intro lost_flush_tids i1) simp_all
  moreover have "wl_view (ol_rx_peer_cleanup e p (ol_rx_delba_handler peer_id tid s)) = wl_view s2"
    unfolding ol_rx_peer_cleanup_def ol_rx_reorder_peer_cleanup_def s1_def [symmetric] s2_def [symmetric]
      rx_inv_timeout_cleanup [OF i2 order_refl]
    by (rule wl_view_peer) simp
  ultimately show "(p, tid) \<in> set (defrag_waitlist (ol_rx_peer_cleanup e p (ol_rx_delba_handler peer_id tid s)))"
    by (simp only: lost_view [symmetric] lost_on_list_def) (simp add: lost_on_list_def wl_view_def)
qed

end
