(* ===== verification/PeerRx.thy ===== *)
theory PeerRx
  imports PeerRuns RxWaitlist
begin

text \<open>
  What the life of peers means for the receive path: the calls of \<open>ol_rx_peer_init\<close> and
  \<open>ol_rx_peer_cleanup\<close> that an operation on peers makes, in order. No peer is freed without the
  clean-up of its receive state, and none is initialised while it is in use.
\<close>

section \<open>Calls into the receive path\<close>

fun rx_call :: "peer_event \<Rightarrow> rx_op list" where
  "rx_call (Ev_rx_peer_init p) = [RxPeerInit p]"
| "rx_call (Ev_rx_peer_cleanup v p) = [RxPeerCleanup p]"
| "rx_call _ = []"

definition rx_calls :: "ctl_pdev \<Rightarrow> rx_op list" where
  "rx_calls d = concat (map rx_call (peer_log d))"

definition pview :: "ctl_pdev \<Rightarrow> rx_op list \<times> (nat \<Rightarrow> bool)" where
  "pview d = (rx_calls d, alive d)"

definition silent :: "peer_event list \<Rightarrow> bool" where
  "silent es \<longleftrightarrow> concat (map rx_call es) = []"

lemma silent_simps [simp]: "silent []" "silent (e # es) \<longleftrightarrow> rx_call e = [] \<and> silent es"
  "silent (es @ fs) \<longleftrightarrow> silent es \<and> silent fs"
  by (auto simp: silent_def)

lemma silent_map [simp]: "(\<And>x. rx_call (f x) = []) \<Longrightarrow> silent (map f xs)"
  by (simp add: silent_def)

lemma pview_log [simp]: "silent es \<Longrightarrow> pview (log_ev es d) = pview d"
  by (auto simp: pview_def rx_calls_def log_ev_def alive_def [abs_def] silent_def fun_eq_iff)

lemma pview_upd [simp]: "pview (upd_cpeer p f d) = pview d" "pview (upd_cvdev v g d) = pview d"
  by (auto simp: pview_def rx_calls_def upd_cpeer_def upd_cvdev_def alive_def fun_eq_iff)

lemma pview_fields [simp]:
  "pview (d\<lparr>peer_id_to_obj_map := m\<rparr>) = pview d" "pview (d\<lparr>local_ids := l\<rparr>) = pview d"
  "pview (d\<lparr>hash_bins := h\<rparr>) = pview d" "pview (d\<lparr>self_peer := s\<rparr>) = pview d"
  "pview (d\<lparr>pd_vdevs := vs\<rparr>) = pview d" "pview (d\<lparr>desc_vdevs := dv\<rparr>) = pview d"
  by (auto simp: pview_def rx_calls_def alive_def [abs_def])

lemma pview_tables [simp]:
  "pview (ol_txrx_peer_find_hash_add d p) = pview d" "pview (ol_txrx_peer_find_hash_remove d p) = pview d"
  "pview (snd (take_ref r d)) = pview d" "pview (snd (ol_txrx_peer_find_hash_find d mac cv)) = pview d"
  "pview (snd (ol_txrx_peer_vdev_find_hash d v mac cv)) = pview d" "pview (ref_dec p d) = pview d"
  "pview (snd (ol_txrx_peer_find_add_id_to_obj p i d)) = pview d"
  by (simp_all add: ol_txrx_peer_find_hash_add_def ol_txrx_peer_find_hash_remove_def take_ref_def Let_def
      ol_txrx_peer_find_hash_find_def ol_txrx_peer_vdev_find_hash_def ref_dec_def
      ol_txrx_peer_find_add_id_to_obj_def split: option.split prod.split)

lemma pview_parts [simp]:
  "pview (clear_self_peer p d) = pview d" "pview (complete_wait i v d) = pview d"
  "pview (free_tx_queues p d) = pview d" "pview (set_last_real v p d) = pview d"
  "pview (set_bss_peer v p d) = pview d" "pview (set_self_peer v p d) = pview d"
  "pview (clear_desc_vdevs v d) = pview d"
  by (simp_all add: clear_self_peer_def complete_wait_def free_tx_queues_def set_last_real_def
      set_bss_peer_def set_self_peer_def clear_desc_vdevs_def)

lemma pview_vdev [simp]:
  "pview (vdev_free v cb d) = pview d" "pview (free_empty_vdev v d) = pview d"
  "pview (ol_txrx_vdev_detach v cb d) = pview d" "pview (snd (ol_txrx_vdev_attach mac vid mode a d)) = pview d"
  by (simp_all add: vdev_free_def free_empty_vdev_def ol_txrx_vdev_detach_def ol_txrx_vdev_attach_def Let_def
      split: option.split)

lemma pview_find:
  "ol_txrx_peer_find_hash_find d mac cv = (r, d1) \<Longrightarrow> pview d1 = pview d"
  "ol_txrx_peer_vdev_find_hash d v mac cv = (r, d1) \<Longrightarrow> pview d1 = pview d"
  using pview_tables(4) [of d mac cv] pview_tables(5) [of d v mac cv] by simp_all

lemma pview_updates [simp]:
  "pview (ol_txrx_peer_state_update mac st d) = pview d" "pview (ol_txrx_peer_update mac param d) = pview d"
  "pview (ol_txrx_peer_keyinstalled_state_update p val d) = pview d"
  "pview (snd (ol_txrx_find_peer_by_addr mac d)) = pview d" "pview (snd (ol_txrx_assoc_peer_find v d)) = pview d"
  "pview (ol_txrx_peer_tx_ready_handler i d) = pview d"
  by (auto simp: ol_txrx_peer_state_update_def ol_txrx_peer_update_def Let_def
      ol_txrx_peer_keyinstalled_state_update_def ol_txrx_find_peer_by_addr_def ol_txrx_assoc_peer_find_def
      ol_txrx_peer_tx_ready_handler_def dest: pview_find split: prod.split option.split peer_update_param.split)

lemma pview_attach_check:
  "pview (snd (attach_check_loop mac v qs w d)) = pview d"
  by (induction mac v qs w d rule: attach_check_loop.induct) simp_all

section \<open>Deletion and creation\<close>

text \<open>
  The step from one state to another as the receive path sees it: the calls in between, that every
  peer that went was cleaned up, and that the initialised ones are new.
\<close>

definition peer_calls :: "ctl_pdev \<Rightarrow> ctl_pdev \<Rightarrow> rx_op list \<Rightarrow> bool" where
  "peer_calls d d' ops \<longleftrightarrow> rx_calls d' = rx_calls d @ ops \<and>
     (\<forall>p. alive d p \<longrightarrow> alive d' p \<or> RxPeerCleanup p \<in> set ops) \<and>
     (\<forall>op \<in> set ops. (\<exists>p. op = RxPeerCleanup p) \<or> (\<exists>p. op = RxPeerInit p \<and> \<not> alive d p))"

definition tells :: "ctl_pdev \<Rightarrow> ctl_pdev \<Rightarrow> bool" where
  "tells d d' \<longleftrightarrow> (\<exists>ops. peer_calls d d' ops)"

lemma tells_same: "pview d' = pview d \<Longrightarrow> tells d d'"
  unfolding tells_def peer_calls_def by (intro exI [of _ "[]"]) (simp add: pview_def)

lemma tells_after: "tells d d' \<Longrightarrow> pview d'' = pview d' \<Longrightarrow> tells d d''"
  unfolding tells_def peer_calls_def by (simp add: pview_def)

lemma tells_before: "pview d' = pview d \<Longrightarrow> tells d' d'' \<Longrightarrow> tells d d''"
  unfolding tells_def peer_calls_def by (simp add: pview_def)

lemma tells_delete: "tells d (peer_delete p d)"
proof -
  define v where "v = pc_vdev (peer_at d p)"
  define d3 where "d3 = upd_cvdev v (\<lambda>x. x\<lparr>vc_peers := remove1 p (vc_peers x)\<rparr>)
    (ol_txrx_peer_find_hash_remove (clear_self_peer p d) p)"
  define d9 where "d9 = log_ev [Ev_reorder_arrays_free p] (free_tx_queues p (free_empty_vdev v
    (complete_wait (pc_local_id (peer_at d p)) v
      (upd_cpeer p (\<lambda>x. x\<lparr>pc_delete_in_progress := False\<rparr>) (log_ev [Ev_rx_peer_cleanup v p] d3)))))"
  have del: "peer_delete p d = d9\<lparr>pd_peers := (pd_peers d9)(p := None)\<rparr>"
    by (simp add: peer_delete_def Let_def d9_def d3_def v_def)
  have "pview d3 = pview d" by (simp add: d3_def)
  moreover have "pview d9 = pview (log_ev [Ev_rx_peer_cleanup v p] d3)" by (simp add: d9_def)
  ultimately have "rx_calls d9 = rx_calls d @ [RxPeerCleanup p]" "alive d9 = alive d"
    by (auto simp: pview_def rx_calls_def log_ev_def alive_def [abs_def])
  then have "peer_calls d (peer_delete p d) [RxPeerCleanup p]"
    by (auto simp: peer_calls_def del rx_calls_def alive_def fun_eq_iff)
  then show ?thesis unfolding tells_def by blast
qed

lemma tells_unref: "tells d (ol_txrx_peer_unref_delete p d)"
proof -
  let ?d1 = "upd_cpeer p (\<lambda>x. x\<lparr>pc_ref_cnt := pc_ref_cnt x - 1\<rparr>) d"
  have "tells d (peer_delete p ?d1)" by (rule tells_before [OF _ tells_delete]) simp
  then show ?thesis by (simp add: ol_txrx_peer_unref_delete_def Let_def tells_same)
qed

lemma tells_create:
  assumes "\<not> alive d p"
  shows "tells d (snd (attach_create v mac (Some p) d))"
proof -
  define d1 where "d1 = d\<lparr>pd_peers := (pd_peers d)(p \<mapsto> new_peer v mac)\<rparr>"
  define d5 where "d5 = set_last_real v p (upd_cvdev v (\<lambda>x. x\<lparr>vc_peers := vc_peers x @ [p]\<rparr>)
    (log_ev ((if is_high_latency d1 then [Ev_txqs_init p] else []) @ [Ev_peer_pause p]) d1))"
  define d6 where "d6 = log_ev [Ev_rx_peer_init p] d5"
  have "pview (snd (attach_create v mac (Some p) d)) = pview d6"
    by (simp add: attach_create_def Let_def d1_def [symmetric] d5_def [symmetric] d6_def [symmetric]
        split: prod.split)
  moreover have "pview d5 = pview d1" by (simp add: d5_def)
  then have "peer_calls d d6 [RxPeerInit p]"
    using assms
    by (auto simp: peer_calls_def d6_def d1_def pview_def rx_calls_def log_ev_def alive_def [abs_def] fun_eq_iff)
  ultimately show ?thesis using tells_after unfolding tells_def by blast
qed

lemma tells_add_id: "tells d (ol_txrx_peer_find_add_id mac i d)"
proof -
  obtain r d1 where f: "ol_txrx_peer_find_hash_find d mac False = (r, d1)"
    by (cases "ol_txrx_peer_find_hash_find d mac False")
  note v1 = pview_find(1) [OF f]
  show ?thesis
  proof (cases r)
    case None
    then show ?thesis using v1 by (simp add: ol_txrx_peer_find_add_id_def f tells_same)
  next
    case (Some p)
    let ?d2 = "d1\<lparr>peer_id_to_obj_map := (peer_id_to_obj_map d1)[i := Some p]\<rparr>"
    have v2: "pview ?d2 = pview d" using v1 by simp
    have "tells d (if c then ol_txrx_peer_unref_delete p ?d2 else ?d2)" for c
      using tells_before [OF v2 tells_unref] tells_same [OF v2] by simp
    then have "tells d (snd (ol_txrx_peer_find_add_id_to_obj p i
        (if c then ol_txrx_peer_unref_delete p ?d2 else ?d2)))" for c
      by (rule tells_after) simp
    then show ?thesis by (simp add: ol_txrx_peer_find_add_id_def f Some Let_def)
  qed
qed

lemma tells_map_handler: "tells d (ol_rx_peer_map_handler i mac ready d)"
  by (rule tells_after [OF tells_add_id [of d mac i]]) (simp add: ol_rx_peer_map_handler_def Let_def split: option.split)

lemma tells_unmap_handler: "tells d (ol_rx_peer_unmap_handler i d)"
proof -
  let ?d1 = "d\<lparr>peer_id_to_obj_map := (peer_id_to_obj_map d)[i := None]\<rparr>"
  have "tells d (ol_txrx_peer_unref_delete p ?d1)" for p
    by (rule tells_before [OF _ tells_unref]) simp
  then show ?thesis
    by (auto simp: ol_rx_peer_unmap_handler_def Let_def tells_same split: option.split)
qed

lemma tells_detach: "tells d (ol_txrx_peer_detach p d)"
  unfolding ol_txrx_peer_detach_def Let_def by (rule tells_before [OF _ tells_unref]) simp

lemma tells_find_by_addr: "tells d (snd (ol_txrx_peer_find_by_addr mac d))"
proof -
  obtain r d1 where f: "ol_txrx_peer_find_hash_find d mac False = (r, d1)"
    by (cases "ol_txrx_peer_find_hash_find d mac False")
  note v1 = pview_find(1) [OF f]
  show ?thesis
    using tells_before [OF v1 tells_unref] tells_same [OF v1]
    by (cases r) (simp_all add: ol_txrx_peer_find_by_addr_def f)
qed

lemma attach_check_view: "attach_check v mac d = (r, d1) \<Longrightarrow> pview d1 = pview d"
  using pview_attach_check [of mac v "vc_peers (vdev_at d v)" False d] by (simp add: attach_check_def)

lemma tells_attach_start:
  assumes "\<not> alive d p"
  shows "tells d (attach_start v mac p d)"
proof -
  obtain r d1 where c: "attach_check v mac d = (r, d1)" by (cases "attach_check v mac d")
  note v1 = attach_check_view [OF c]
  have "\<not> alive d1 p" using v1 assms by (simp add: pview_def)
  from tells_before [OF v1 tells_create [OF this]] tells_same [OF v1] show ?thesis
    by (cases r) (simp_all add: attach_start_def c)
qed

lemma tells_attach_resume:
  assumes "\<not> alive d p"
  shows "tells d (snd (attach_resume v mac rc (Some p) d))"
  using tells_create [OF assms] by (simp add: attach_resume_def tells_same)

lemma pview_assoc_find: "ol_txrx_assoc_peer_find v d = (r, d1) \<Longrightarrow> pview d1 = pview d"
  using pview_updates(5) [of v d] by simp

lemma peer_step_tells: "peer_ok (hs, d) op \<Longrightarrow> tells d (snd (peer_step (hs, d) op))"
  by (cases op) (auto simp: tells_map_handler tells_unmap_handler tells_detach tells_unref tells_find_by_addr
      tells_attach_start tells_attach_resume intro!: tells_same dest: pview_find pview_assoc_find split: prod.split)

end
