(* ===== verification/RxDemo.thy ===== *)
theory RxDemo
  imports RxOps
begin

unbundle bit_operations_syntax

text \<open>
  A concrete device with one peer, and the properties of the receive path applied to it.
\<close>

section \<open>A device\<close>

definition demo_desc :: "nat \<Rightarrow> 32 word \<Rightarrow> hl_htt_rx_desc" where
  "demo_desc sn pn = \<lparr>rd_seq_num = sn, rd_encrypted = True, rd_mcast_bcast = False, rd_fragment = False,
     pn_31_0 = pn, pn_63_32 = 0, pn_95_64 = 0, pn_127_96 = 0, rd_first_msdu = True, rd_last_msdu = True,
     rd_discard = False, rd_forward = False, rd_retry = False, rd_tid = 0\<rparr>"

definition demo_msdu :: "nat \<Rightarrow> nat \<Rightarrow> 32 word \<Rightarrow> rx_msdu" where
  "demo_msdu i sn pn = \<lparr>m_id = i, m_desc = demo_desc sn pn, m_data = replicate 40 0\<rparr>"

definition demo_reorder :: "nat \<Rightarrow> ol_rx_reorder" where
  "demo_reorder t = \<lparr>win_sz = 1, win_sz_mask = 0, num_mpdus = 0, ro_base = [], ro_array = None,
     ro_frag_rest = [], tm_active = False, tm_timestamp_ms = 0, ro_on_waitlist = False,
     defrag_timeout_ms = 0, ro_tid = t\<rparr>"

definition demo_peer :: rx_peer where
  "demo_peer = \<lparr>rxp_vdev = 0, rxp_local_id = 1, rx_opt_proc = OL_RX_PN_CHECK, fw_pn_check = False,
     sec_ucast = htt_sec_type_aes_ccmp, sec_mcast = htt_sec_type_aes_ccmp, michael_key = (\<lambda>_. replicate 8 0),
     keyinstalled = True, tids_rx_reorder = demo_reorder, tids_last_pn = (\<lambda>_. \<lparr>pn128_0 = 5, pn128_1 = 0\<rparr>),
     tids_last_pn_valid = (\<lambda>_. True), tids_next_rel_idx = (\<lambda>_. 0xFFFF), tids_last_seq = (\<lambda>_. 9),
     tids_mcast_last_seq = (\<lambda>_. 0), reorder_history = None\<rparr>"

definition demo_vdev :: rx_vdev where
  "demo_vdev = \<lparr>rxv_opmode = wlan_op_mode_sta, rxv_safemode = False, rxv_drop_unenc = False,
     rxv_privacy_filters = [], rxv_disable_intrabss_fwd = False, rxv_fwd_tx_packets = 0,
     rxv_fwd_rx_packets = 0\<rparr>"

definition demo_rx :: rx_pdev where
  "demo_rx = \<lparr>is_high_latency = True, full_reorder_offload = False, native_wifi = False, dup_check = True,
     defrag_timeout_check = False, defrag_cfg_timeout_ms = 1000, rx_desc_size_hl = 20, cur_seq_num_hl = 0,
     pn_replays = (\<lambda>_. 0), msdu_mc_dup_drop = 0, rx_vdevs = (\<lambda>_. demo_vdev), peers = (\<lambda>_. demo_peer),
     peer_id_map = (\<lambda>i. if i = 3 then Some 0 else None), ocb_peer = None, defrag_waitlist = [],
     vt_list = (\<lambda>_. []), vt_duration_ms = (\<lambda>_. 100), vt_timer = (\<lambda>_. None), rx_holes = [],
     rx_freed = [], rx_osif = [], rx_fwd = []\<rparr>"

definition demo_rx_env :: rx_env where
  "demo_rx_env = \<lparr>now_ms = 500, stack_pn = \<lparr>pn128_0 = 0, pn128_1 = 0\<rparr>, nbuf_copy = Some,
     nbuf_cat_ok = (\<lambda>_ _. True), vdev_tx = (\<lambda>_. None)\<rparr>"

text \<open>The same device after a block-ack agreement for a window of two frames on TID 0.\<close>

definition demo_ba :: rx_pdev where
  "demo_ba = ol_rx_addba_handler 3 0 2 0 False demo_rx"

lemmas demo_defs = demo_desc_def demo_msdu_def demo_reorder_def demo_peer_def demo_vdev_def demo_rx_def
  demo_rx_env_def

lemma demo_rx_inv: "rx_inv demo_rx"
  by (auto simp: rx_inv_def demo_defs tid_ok_def ro_ok_def ro_slots_def ro_slot_def history_ok_def
      intro: exI [of _ "0::nat"])

lemma demo_ba_inv: "rx_inv demo_ba"
  unfolding demo_ba_def by (rule rx_inv_addba [OF demo_rx_inv]) simp

lemma demo_ba_reorder: "reorder_of demo_ba 0 0 = (demo_reorder 0)\<lparr>win_sz := 2, ro_array := Some [[], []], win_sz_mask := 1\<rparr>"
  by (simp add: demo_ba_def ol_rx_addba_handler_def demo_defs OL_TXRX_NUM_EXT_TIDS_def g_log2ceil_def
      numeral_2_eq_2)

lemma demo_ba_ok: "ro_ok (reorder_of demo_ba 0 0)"
  using rx_invD(1) [OF demo_ba_inv, of 0 0] by (simp add: tid_ok_def OL_TXRX_NUM_EXT_TIDS_def)

lemma demo_returns: "tx_returns_own demo_rx_env"
  by (simp add: tx_returns_own_def demo_rx_env_def)

section \<open>Witnesses\<close>

lemma ol_rx_reorder_flush_in_window_order_witness:
  "ro_slot (reorder_of (ol_rx_reorder_flush demo_rx_env 0 0 1 2 htt_rx_flush_discard
     (ol_rx_reorder_store 0 0 1 [demo_msdu 0 1 6] demo_ba)) 0 0) 1 = []"
proof -
  define s where "s = ol_rx_reorder_store 0 0 1 [demo_msdu 0 1 6] demo_ba"
  note st = store_slot(1,2) [OF demo_ba_ok, where idx = 1 and mpdu = "[demo_msdu 0 1 6]", folded s_def]
  have m: "win_sz_mask (reorder_of s 0 0) = 1" unfolding st(2) by (simp add: demo_ba_reorder)
  have w: "in_window (reorder_of s 0 0) 1 2 1" by (simp add: in_window_def m walk_len_def numeral_2_eq_2)
  show ?thesis
    using ol_rx_reorder_flush_in_window_order [OF st(1), of demo_rx_env 1 2 htt_rx_flush_discard] m w
    unfolding s_def [symmetric] by auto
qed

lemma ol_rx_reorder_flush_loses_nothing_witness:
  "rx_logs demo_ba + held 0 0 demo_ba \<subseteq>#
     rx_logs (ol_rx_reorder_flush demo_rx_env 0 0 0 1 htt_rx_flush_release demo_ba) +
     held 0 0 (ol_rx_reorder_flush demo_rx_env 0 0 0 1 htt_rx_flush_release demo_ba)"
  by (rule ol_rx_reorder_flush_loses_nothing [OF demo_ba_ok demo_returns])
    (simp add: demo_ba_reorder demo_reorder_def)

text \<open>Two frames in the window of \<open>demo_ba\<close>, both with a new packet number.\<close>

definition demo_stored :: rx_pdev where
  "demo_stored = store_all 0 0 [(1, [demo_msdu 1 1 7]), (0, [demo_msdu 0 0 6])] demo_ba"

lemma demo_stored_reorder:
  "reorder_of demo_stored 0 0 =
     (demo_reorder 0)\<lparr>win_sz := 2, ro_array := Some [[demo_msdu 0 0 6], [demo_msdu 1 1 7]], win_sz_mask := 1\<rparr>"
  by (simp add: demo_stored_def ol_rx_reorder_store_def demo_ba_reorder ro_put_def ro_slot_def ro_slots_def
      demo_reorder_def and_one_eq)

lemma demo_stored_ok: "ro_ok (reorder_of demo_stored 0 0)"
  using store_all_slot [OF demo_ba_ok, of "[(1, [demo_msdu 1 1 7]), (0, [demo_msdu 0 0 6])]"]
  by (simp add: demo_stored_def)

lemma demo_pn: "htt_rx_mpdu_desc_pn_hl (demo_desc sn pn) 48 \<lparr>pn128_0 = 0, pn128_1 = 0\<rparr> = \<lparr>pn128_0 = ucast pn, pn128_1 = 0\<rparr>"
  by (simp add: htt_rx_mpdu_desc_pn_hl_def demo_desc_def put_word32_lo_def put_word32_hi_def)

lemma demo_next: "ol_rx_mpdu_list_next (demo_msdu i sn pn # ms) = ([demo_msdu i sn pn], ms)"
  by (simp add: ol_rx_mpdu_list_next.simps demo_msdu_def demo_desc_def)

lemma demo_pn_step:
  assumes "(pn128_0 l AND 0xffffffffffff) < (ucast pn AND 0xffffffffffff)"
  shows "pn_check_loop demo_rx_env \<lparr>pc_sec = htt_sec_type_aes_ccmp, pc_ucast = u, pc_opmode = m, pc_replay_type = t\<rparr>
      (demo_msdu i sn pn # ms) True l demo_rx =
    (let (out, r) = pn_check_loop demo_rx_env \<lparr>pc_sec = htt_sec_type_aes_ccmp, pc_ucast = u, pc_opmode = m, pc_replay_type = t\<rparr>
       ms True \<lparr>pn128_0 = ucast pn, pn128_1 = 0\<rparr> demo_rx in (demo_msdu i sn pn # out, r))"
proof -
  have d: "m_desc (demo_msdu i sn pn) = demo_desc sn pn" "rd_encrypted (demo_desc sn pn)" "rd_first_msdu (demo_desc sn pn)"
    by (simp_all add: demo_msdu_def demo_desc_def)
  have "is_high_latency demo_rx" "stack_pn demo_rx_env = \<lparr>pn128_0 = 0, pn128_1 = 0\<rparr>"
    by (simp_all add: demo_rx_def demo_rx_env_def)
  moreover have "\<not> (ucast pn AND 0xffffffffffff) \<le> (pn128_0 l AND 0xffffffffffff)" using assms by (simp only: not_le)
  ultimately show ?thesis
    by (simp add: pn_check_loop.simps demo_next Let_def d demo_pn htt_rx_mpdu_desc_pn_def htt_rx_mpdu_is_encrypted_def
        rx_pn_cmp_def ol_rx_pn_cmp48_def)
qed

lemma demo_call:
  assumes "rx_view s = rx_view demo_rx" and "ms = map (\<lambda>(i, sn, pn). demo_msdu i sn pn) xs" and "xs \<noteq> []"
    and "pn_check_loop demo_rx_env \<lparr>pc_sec = htt_sec_type_aes_ccmp, pc_ucast = True, pc_opmode = wlan_op_mode_sta,
      pc_replay_type = OL_RX_CCMP_REPLAYS\<rparr> ms True \<lparr>pn128_0 = 5, pn128_1 = 0\<rparr> demo_rx = (ms, True, l, demo_rx)"
  shows "rx_osif (call_rx_opt_proc demo_rx_env 0 0 ms s) = [(0, ms)]"
proof -
  have fwd: "ol_rx_fwd_check_loop e v ms t = (ms, t)" for e v t
    unfolding assms(2) by (induction xs) (auto simp: demo_msdu_def demo_desc_def)
  have del: "ol_rx_deliver_loop demo_vdev pr f ms t = (ms, t)" for pr f t
    unfolding assms(2)
    by (induction xs arbitrary: f) (auto simp: demo_msdu_def demo_desc_def ol_rx_filter_def demo_vdev_def Let_def)
  have ne: "ms \<noteq> []" "\<not> rd_mcast_bcast (m_desc (hd ms))"
    using assms(2,3) by (cases xs; auto simp: demo_msdu_def demo_desc_def)+
  have peer: "fw_pn_check demo_peer = False" "sec_ucast demo_peer = htt_sec_type_aes_ccmp" "rxp_vdev demo_peer = 0"
    "rx_opt_proc demo_peer = OL_RX_PN_CHECK" "tids_last_pn_valid demo_peer 0" "tids_last_pn demo_peer 0 = \<lparr>pn128_0 = 5, pn128_1 = 0\<rparr>"
    by (simp_all add: demo_peer_def)
  have dev: "peers demo_rx = (\<lambda>_. demo_peer)" "rx_vdevs demo_rx = (\<lambda>_. demo_vdev)" "\<not> full_reorder_offload demo_rx"
    "rx_osif demo_rx = []" "rxv_opmode demo_vdev = wlan_op_mode_sta"
    by (simp_all add: demo_rx_def demo_vdev_def)
  have "rx_osif (call_rx_opt_proc demo_rx_env 0 0 ms demo_rx) = [(0, ms)]"
    using ne by (simp add: call_rx_opt_proc_def dev peer ol_rx_pn_check_def ol_rx_pn_check_base_def Let_def peer_sec_type_def
        replay_type_of_def assms(4) ol_rx_fwd_check_def fwd ol_rx_deliver_def del osif_rx_def)
  then show ?thesis using view_out(2) [OF call_cong [OF assms(1)]] by simp
qed

lemma demo_ba_view: "rx_view demo_ba = rx_view demo_rx"
proof -
  have "peer_id_map demo_rx 3 = Some 0" by (simp add: demo_rx_def)
  then show ?thesis by (simp add: demo_ba_def ol_rx_addba_handler_def Let_def)
qed

lemma demo_stored_delivers:
  "rx_osif (call_rx_opt_proc demo_rx_env 0 0 [demo_msdu 0 0 6, demo_msdu 1 1 7] demo_stored) =
     [(0, [demo_msdu 0 0 6, demo_msdu 1 1 7])]"
  by (rule demo_call [where xs = "[(0, 0, 6), (1, 1, 7)]"])
    (simp_all add: demo_stored_def store_all_view demo_ba_view demo_pn_step)

lemma demo_stored_slots:
  "Suc (win_sz_mask (reorder_of demo_stored 0 0)) = 2" "ro_slot (reorder_of demo_stored 0 0) 0 = [demo_msdu 0 0 6]"
  "ro_slot (reorder_of demo_stored 0 0) 1 = [demo_msdu 1 1 7]"
  by (simp_all add: demo_stored_reorder demo_reorder_def ro_slot_def ro_slots_def)

lemma demo_window:
  "window_frames (reorder_of demo_stored 0 0) 0 2 = [demo_msdu 0 0 6, demo_msdu 1 1 7]"
  "in_window (reorder_of demo_stored 0 0) 0 2 1"
proof -
  have w: "walk_len 2 0 2 = 2" "[0..<2] = [0, 1 :: nat]" by (simp_all add: walk_len_def upt_rec)
  show "window_frames (reorder_of demo_stored 0 0) 0 2 = [demo_msdu 0 0 6, demo_msdu 1 1 7]"
    unfolding window_frames_def demo_stored_slots(1) Let_def w
    by (simp add: demo_stored_slots demo_stored_slots(3) [unfolded One_nat_def])
  show "in_window (reorder_of demo_stored 0 0) 0 2 1"
    unfolding in_window_def demo_stored_slots(1) Let_def w(1) by simp
qed

lemma ol_rx_reorder_release_frames_witness:
  "rx_osif (ol_rx_reorder_release demo_rx_env 0 0 0 2 demo_stored) = [(0, [demo_msdu 0 0 6, demo_msdu 1 1 7])] \<and>
   ro_slot (reorder_of (ol_rx_reorder_release demo_rx_env 0 0 0 2 demo_stored) 0 0) 1 = []"
proof -
  have "ro_frag_rest (reorder_of demo_stored 0 0) = []" by (simp add: demo_stored_reorder demo_reorder_def)
  note th = ol_rx_reorder_release_frames [OF demo_stored_ok this, of demo_rx_env 0 2,
      unfolded demo_stored_slots(1) demo_window(1)]
  have "ro_slot (reorder_of demo_stored 0 0) (0 mod 2) \<noteq> []" by (simp add: demo_stored_slots)
  with conjunct2 [OF conjunct2 [OF th]]
  have "rx_view (ol_rx_reorder_release demo_rx_env 0 0 0 2 demo_stored) =
      rx_view (call_rx_opt_proc demo_rx_env 0 0 [demo_msdu 0 0 6, demo_msdu 1 1 7] demo_stored)"
    by (simp only: if_True not_False_eq_True)
  note view_out(2) [OF this]
  moreover have "ro_slot (reorder_of (ol_rx_reorder_release demo_rx_env 0 0 0 2 demo_stored) 0 0) 1 = []"
    using conjunct1 [OF th, THEN spec, THEN mp, of 1] demo_window(2) by (simp only: if_True)
  ultimately show ?thesis by (simp only: demo_stored_delivers)
qed

lemma reorder_restores_sequence_order_witness:
  "\<exists>t. rx_freed t = rx_freed demo_ba \<and> rx_osif t = rx_osif demo_ba \<and> rx_fwd t = rx_fwd demo_ba \<and>
     rx_view t = rx_view demo_ba \<and> ol_rx_reorder_flush demo_rx_env 0 0 7 9 htt_rx_flush_release
       (store_all 0 0 [(8, [demo_msdu 1 8 7]), (7, [demo_msdu 0 7 6])] demo_ba) =
       ol_rx_reorder_timeout_remove 0 0 (call_rx_opt_proc demo_rx_env 0 0 [demo_msdu 0 7 6, demo_msdu 1 8 7] t)"
proof -
  have "ro_slot (reorder_of demo_ba 0 0) i = []" if "i < 2" for i
    using that by (auto simp: demo_ba_reorder ro_slot_def ro_slots_def less_2_cases_iff)
  then show ?thesis
    using reorder_restores_sequence_order
      [OF demo_ba_ok, where e = demo_rx_env and a = 7 and ms = "[[demo_msdu 0 7 6], [demo_msdu 1 8 7]]"
        and xs = "[(8, [demo_msdu 1 8 7]), (7, [demo_msdu 0 7 6])]"]
    by (simp add: demo_ba_reorder)
qed

lemma ol_rx_reorder_seq_num_check_accepts_witness:
  "ol_rx_reorder_seq_num_check 0 0 9 demo_rx = htt_rx_status_err_replay"
  using ol_rx_reorder_seq_num_check_accepts [of 9 demo_rx 0 0] by (simp add: demo_defs)

lemma rx_pn_check_strictly_increasing_witness:
  "\<exists>outs s'. pn_check_batches demo_rx_env 0 0 [[demo_msdu 0 1 6], [demo_msdu 1 2 6], [demo_msdu 2 3 7]] demo_rx = (outs, s') \<and>
    sorted_wrt (<) (5 # map (pn_value htt_sec_type_aes_ccmp)
      (accepted_pns demo_rx_env (pn_ctx_of 0 False demo_rx) demo_rx (concat (map mpdus outs))))"
proof -
  obtain outs s' where r: "pn_check_batches demo_rx_env 0 0
      [[demo_msdu 0 1 6], [demo_msdu 1 2 6], [demo_msdu 2 3 7]] demo_rx = (outs, s')"
    by (metis surj_pair)
  have "pn_checked 0 False demo_rx" by (simp add: pn_checked_def demo_defs peer_sec_type_def)
  then show ?thesis
    using rx_pn_check_strictly_increasing [OF _ _ r, of False] r
    by (simp add: peer_last_pn_def demo_defs peer_sec_type_def last_pn_of_def pn_value_def)
qed

lemma ol_rx_pn_check_base_partition_witness:
  "\<exists>out s'. ol_rx_pn_check_base demo_rx_env 0 0 [demo_msdu 0 1 5, demo_msdu 1 2 6] demo_rx = (out, s') \<and>
     subseq out [demo_msdu 0 1 5, demo_msdu 1 2 6]"
proof -
  obtain out s' where r: "ol_rx_pn_check_base demo_rx_env 0 0 [demo_msdu 0 1 5, demo_msdu 1 2 6] demo_rx = (out, s')"
    by (metis surj_pair)
  then show ?thesis using ol_rx_pn_check_base_partition [OF r] by blast
qed

lemma rx_path_consistent_witness:
  "rx_inv (run_ops rx_step demo_rx
     [(demo_rx_env, RxAddba 3 0 2), (demo_rx_env, RxDelba 3 0), (demo_rx_env, RxTimeout CAT_BE)])"
  using rx_path_consistent [OF demo_rx_inv, of "[(demo_rx_env, RxAddba 3 0 2), (demo_rx_env, RxDelba 3 0),
      (demo_rx_env, RxTimeout CAT_BE)]"] by simp

lemma reorder_timer_never_armed_witness:
  "vt_timer (run_ops rx_step demo_rx [(demo_rx_env, RxAddba 3 0 2),
     (demo_rx_env, RxIndication 3 0 (mpdu_ind (1, 2) \<lparr>pm_msdus = [demo_msdu 0 2 6], pm_chaining = False, pm_desc_size = 20\<rparr>))])
     CAT_BE = None"
  using reorder_timer_never_armed [OF demo_rx_inv, of "[(demo_rx_env, RxAddba 3 0 2),
     (demo_rx_env, RxIndication 3 0 (mpdu_ind (1, 2) \<lparr>pm_msdus = [demo_msdu 0 2 6], pm_chaining = False,
        pm_desc_size = 20\<rparr>))]" CAT_BE] by (simp add: OL_TXRX_NUM_EXT_TIDS_def)

definition demo_mpdu :: "nat \<Rightarrow> rx_mpdu" where
  "demo_mpdu sn = \<lparr>pm_msdus = [demo_msdu 0 sn 6], pm_chaining = False, pm_desc_size = 20\<rparr>"

lemma demo_delivers: "rx_osif (call_rx_opt_proc demo_rx_env 0 0 [demo_msdu 0 10 6] demo_rx) = [(0, [demo_msdu 0 10 6])]"
  by (rule demo_call [where xs = "[(0, 10, 6)]"]) (simp_all add: demo_pn_step)


section \<open>Witnesses for defragmentation\<close>

definition demo_frag :: "nat \<Rightarrow> 8 word \<Rightarrow> bool \<Rightarrow> rx_msdu" where
  "demo_frag i no mf =
     set_data ([0x08, if mf then 0x04 else 0] @ replicate 20 0 @ [no, 0] @ replicate 16 1) (demo_msdu i 0 0)"

lemma demo_frag_no: "frag_no (m_data (demo_frag i 0 b)) = 0" "frag_no (m_data (demo_frag i 1 b)) = 1"
  "frag_no (m_data (demo_frag i 2 b)) = 2" "more_frag (m_data (demo_frag i n b)) = b"
  by (simp_all add: demo_frag_def frag_no_def i_seq_def byte_at_def more_frag_def fc_byte_def nth_append)

lemma ol_rx_defrag_mic_is_michael_witness:
  "ol_rx_defrag_mic (replicate 8 0) (replicate 40 0) 24 9 =
     Some (michael (replicate 8 0) (ol_rx_defrag_michdr (replicate 40 0) @ replicate 9 0))"
  using ol_rx_defrag_mic_is_michael [of "replicate 40 0" 24 9 "replicate 8 0"] by simp

lemma ol_rx_frag_tkip_demic_exact_witness:
  "ol_rx_frag_tkip_demic (replicate 8 0) 24 (replicate 32 0 @
     michael (replicate 8 0) (ol_rx_defrag_michdr (replicate 32 0) @ drop 24 (replicate 32 0))) = Some (replicate 32 0)"
  by (subst ol_rx_frag_tkip_demic_exact) (simp_all add: length_michael)

text \<open>Two fragments as CCMP sends them.\<close>

definition demo_ccmp :: "rx_msdu \<Rightarrow> rx_msdu" where
  "demo_ccmp m = set_data (take 24 (m_data m) @ [0, 0, 0, 0x20, 0, 0, 0, 0] @ drop 24 (m_data m) @ replicate 8 0) m"

lemma demo_ccmp_encapsulated: "encapsulated htt_sec_type_aes_ccmp 24 (demo_frag i no mf) (demo_ccmp (demo_frag i no mf))"
  unfolding encapsulated_def demo_ccmp_def
  by (intro conjI exI [of _ f_ccmp] exI [of _ "[0, 0, 0, 0x20, 0, 0, 0, 0]"] exI [of _ "replicate 8 0"])
    (simp_all add: cipher_of_def f_ccmp_def demo_frag_def)


lemma increasing_fragments_complete_exactly_witness:
  "insert_all no_frags [demo_frag 0 0 True, demo_frag 1 1 False] =
    (\<lparr>fl_chain = [demo_frag 0 0 True, demo_frag 1 1 False], fl_rest = []\<rparr>, True, [])"
  using increasing_fragments_complete_exactly [of "[demo_frag 0 0 True, demo_frag 1 1 False]"]
  by (simp add: demo_frag_no upt_rec)

lemma late_fragment_is_lost_witness:
  "insert_all \<lparr>fl_chain = [demo_frag 1 1 True], fl_rest = []\<rparr> [demo_frag 0 0 True, demo_frag 2 2 False] =
    (\<lparr>fl_chain = [demo_frag 1 1 True, demo_frag 2 2 False], fl_rest = []\<rparr>, False, [])"
  by (rule late_fragment_is_lost) (simp_all add: demo_frag_no)

lemma incomplete_msdu_declared_complete_witness:
  "insert_all no_frags [demo_frag 2 2 False, demo_frag 1 1 True] =
    (\<lparr>fl_chain = [demo_frag 2 2 False], fl_rest = [demo_frag 1 1 True]\<rparr>, True, [])"
  by (rule incomplete_msdu_declared_complete) (simp_all add: demo_frag_no)

definition demo_waiting :: rx_pdev where
  "demo_waiting = ol_rx_defrag_waitlist_add 0 0 (upd_reorder 0 0 (ro_put 0 [demo_frag 0 0 True]) demo_rx)"

lemma ol_rx_defrag_waitlist_flush_exact_witness:
  "rx_freed (ol_rx_defrag_waitlist_flush demo_rx_env demo_waiting) = [demo_frag 0 0 True]"
proof -
  have "waiting demo_waiting"
    by (simp add: waiting_def demo_waiting_def ol_rx_defrag_waitlist_add_def demo_defs ro_put_def
        OL_TXRX_NUM_EXT_TIDS_def)
  from ol_rx_defrag_waitlist_flush_exact [OF this, of demo_rx_env] show ?thesis
    by (simp add: demo_waiting_def ol_rx_defrag_waitlist_add_def demo_defs ro_put_def expired_def
        waiting_frags_def ro_slot_def ro_slots_def)
qed

end
