(* ===== verification/PeerDemo.thy ===== *)
theory PeerDemo
  imports PeerRuns
begin

text \<open>
  A run on a small device, a virtual device with one station, and the properties of \<open>PeerRuns\<close>
  applied to it.
\<close>

definition demo_mac :: mac_addr where "demo_mac = mac_raw 2 0 0 0 0 7"
definition demo_vdev_mac :: mac_addr where "demo_vdev_mac = mac_raw 2 0 0 0 0 1"

definition demo_pdev :: ctl_pdev where "demo_pdev = attached_pdev 3 True False False [Some 10]"

definition demo_pdev1 :: ctl_pdev where
  "demo_pdev1 = snd (ol_txrx_vdev_attach demo_vdev_mac 0 wlan_op_mode_sta (Some 10) demo_pdev)"

definition demo_pdev2 :: ctl_pdev where
  "demo_pdev2 = snd (attach_create 10 demo_mac (Some 20) demo_pdev1)"

definition demo_ops :: "peer_op list" where
  "demo_ops =
    [PVdev_attach 10 demo_vdev_mac 0 wlan_op_mode_sta, PPeer_attach 10 demo_mac 20, PPeer_unmap 2]"

lemma attached_pdev_empty:
  "pd_vdevs (attached_pdev maxid hl addba mon descs) = (\<lambda>_. None)"
  "pd_peers (attached_pdev maxid hl addba mon descs) = (\<lambda>_. None)"
  "max_peer_id (attached_pdev maxid hl addba mon descs) = maxid"
  "peer_id_to_obj_map (attached_pdev maxid hl addba mon descs) = replicate (maxid + 1) None"
  by (simp_all add: attached_pdev_def ol_txrx_peer_find_attach_def ol_txrx_peer_find_map_attach_def
      ol_txrx_peer_find_hash_attach_def Let_def blank_pdev_def)

lemma demo_pdev1_views:
  "valive demo_pdev1 10" "vlisted demo_pdev1 10" "\<not> vpending demo_pdev1 10" "\<not> alive demo_pdev1 p"
  "vc_peers (vdev_at demo_pdev1 10) = []" "max_peer_id demo_pdev1 = 3"
  "peer_id_to_obj_map demo_pdev1 = replicate 4 None"
  by (simp_all add: demo_pdev1_def demo_pdev_def ol_txrx_vdev_attach_def log_ev_def views
      attached_pdev_empty eval_nat_numeral)

lemma demo_inv1: "ctl_inv (\<lambda>_. 0) demo_pdev1"
  unfolding demo_pdev1_def
proof (rule ctl_inv_vdev_attach)
  show "ctl_inv (\<lambda>_. 0) demo_pdev"
    unfolding demo_pdev_def by (rule attached_pdev_inv) (simp add: HTT_INVALID_PEER_def)
  show "\<not> valive demo_pdev 10" by (simp add: demo_pdev_def valive_def attached_pdev_empty)
qed

lemma demo_start: "attach_start 10 demo_mac 20 demo_pdev1 = demo_pdev2"
  by (simp add: attach_start_def attach_check_def demo_pdev1_views demo_pdev2_def)

lemma attach_create_tables:
  "max_peer_id (snd (attach_create v mac (Some p) d)) = max_peer_id d \<and>
   peer_id_to_obj_map (snd (attach_create v mac (Some p) d)) = peer_id_to_obj_map d \<and>
   pd_peers (snd (attach_create v mac (Some p) d)) p \<noteq> None"
proof -
  define d10 where "d10 = attach_mid v p (attach_base v mac p d)"
  obtain q f es where f: "ol_txrx_peer_state_update (pc_mac (peer_at d10 p)) ol_txrx_peer_state_disc d10 =
      log_ev es (upd_cpeer q f d10)"
    using borrows_state_update unfolding borrows_def by blast
  have "pd_peers d10 p \<noteq> None"
    and "max_peer_id d10 = max_peer_id d" and "peer_id_to_obj_map d10 = peer_id_to_obj_map d"
    by (simp_all add: d10_def attach_mid_def attach_base_def set_bss_peer_def Let_def
        ol_txrx_peer_find_hash_add_def peer_simps)
  then show ?thesis
    unfolding attach_create_form d10_def [symmetric] attach_end_def f
    by (auto simp: case_prod_unfold peer_simps)
qed

lemmas demo_tables = attach_create_tables [of 10 demo_mac 20 demo_pdev1, folded demo_pdev2_def]

lemma demo_admissible: "admissible peer_step peer_ok (peer_start 3 True False False [Some 10]) demo_ops"
proof -
  have 0: "pd_vdevs demo_pdev 10 = None" by (simp add: demo_pdev_def attached_pdev_empty)
  show ?thesis
    unfolding demo_ops_def demo_pdev_def [symmetric]
    using demo_tables
    by (simp add: 0 demo_pdev1_def [symmetric] demo_pdev1_views demo_start)
qed

lemma unmap_unused: "peer_id_to_obj_map d ! i = None \<Longrightarrow> i \<noteq> HTT_INVALID_PEER \<Longrightarrow>
    ol_rx_peer_unmap_handler i d = d"
proof -
  assume a: "peer_id_to_obj_map d ! i = None" and i: "i \<noteq> HTT_INVALID_PEER"
  then have "(peer_id_to_obj_map d)[i := None] = peer_id_to_obj_map d"
    by (metis list_update_id)
  with a i show ?thesis by (simp add: ol_rx_peer_unmap_handler_def)
qed

lemma demo_run:
  "run_ops peer_step (peer_start 3 True False False [Some 10]) demo_ops = (\<lambda>_. 0, demo_pdev2)"
proof -
  have "ol_rx_peer_unmap_handler 2 demo_pdev2 = demo_pdev2"
    using demo_tables
    by (intro unmap_unused) (simp_all add: HTT_INVALID_PEER_def demo_pdev1_views)
  then show ?thesis
    unfolding demo_ops_def demo_pdev_def [symmetric]
    by (simp add: demo_pdev1_def [symmetric] demo_start)
qed

lemma three_valid: "(3::nat) < HTT_INVALID_PEER"
  by (simp add: HTT_INVALID_PEER_def)

theorem peer_ref_count_exact_witness:
  "\<exists>x. pd_peers demo_pdev2 20 = Some x \<and> 0 < pc_ref_cnt x \<and>
     pc_ref_cnt x = (if pc_valid x then 1 else 0) +
       (if pc_peer_ids x ! 0 = HTT_INVALID_PEER then 1 else 0)"
proof -
  obtain x where x: "pd_peers demo_pdev2 20 = Some x" using demo_tables by blast
  have "Some 20 \<notin> set (peer_id_to_obj_map demo_pdev2)"
    using demo_tables by (simp add: demo_pdev1_views)
  then have "count_list (peer_id_to_obj_map demo_pdev2) (Some 20) = 0"
    by (simp add: count_list_0_iff)
  with x peer_ref_count_exact [OF three_valid demo_admissible demo_run x] show ?thesis by auto
qed

theorem vdev_deleted_with_last_peer_witness:
  "\<exists>x y. pd_peers demo_pdev2 20 = Some x \<and> pd_vdevs demo_pdev2 (pc_vdev x) = Some y \<and> 20 \<in> set (vc_peers y)"
proof -
  obtain x where "pd_peers demo_pdev2 20 = Some x" using demo_tables by blast
  with vdev_deleted_with_last_peer [OF three_valid demo_admissible demo_run] show ?thesis by blast
qed

theorem freed_local_id_is_reused_witness:
  "fst (OL_TXRX_LOCAL_PEER_ID_ALLOC 21 (OL_TXRX_LOCAL_PEER_ID_FREE 0
     (snd (OL_TXRX_LOCAL_PEER_ID_ALLOC 20 OL_TXRX_LOCAL_PEER_ID_POOL_INIT)))) \<noteq>
   OL_TXRX_INVALID_LOCAL_PEER_ID"
proof (rule freed_local_id_is_reused)
  let ?l = "snd (OL_TXRX_LOCAL_PEER_ID_ALLOC 20 OL_TXRX_LOCAL_PEER_ID_POOL_INIT)"
  have eq: "OL_TXRX_LOCAL_PEER_ID_ALLOC 20 OL_TXRX_LOCAL_PEER_ID_POOL_INIT = (0, ?l)"
    and m: "lp_map ?l ! 0 = Some 20"
    by (simp_all add: OL_TXRX_LOCAL_PEER_ID_ALLOC_def OL_TXRX_LOCAL_PEER_ID_POOL_INIT_def
        OL_TXRX_NUM_LOCAL_PEER_IDS_def nth_append)
  have "lp_alloc 20 OL_TXRX_LOCAL_PEER_ID_POOL_INIT = Some (0, ?l)"
    unfolding lp_alloc_def by (subst eq) (simp add: OL_TXRX_INVALID_LOCAL_PEER_ID_def)
  then show "lp_inv ?l" by (rule local_peer_id_pool.alloc_inv [OF lp_inv_init])
  show "lp_map ?l ! 0 \<noteq> None" using m by simp
  show "0 < OL_TXRX_NUM_LOCAL_PEER_IDS" by (simp add: OL_TXRX_NUM_LOCAL_PEER_IDS_def)
qed

text \<open>The address of the attached peer, attached once more on the same device.\<close>

theorem peer_hash_refines_list_witness:
  "fst (ol_txrx_peer_find_hash_find
          (hash_run (snd (ol_txrx_peer_find_hash_attach True demo_pdev2)) [Hash_add 20]) demo_mac False) =
   find (\<lambda>p. pc_mac (peer_at demo_pdev2 p) = demo_mac) [20]"
  using peer_hash_refines_list [of demo_pdev2 "[Hash_add 20]" demo_mac False] demo_tables
  by (simp add: demo_pdev1_views)

lemma demo_inv2: "ctl_inv (\<lambda>_. 0) demo_pdev2"
  unfolding demo_pdev2_def
  by (rule ctl_inv_attach_create [OF demo_inv1]) (simp_all add: demo_pdev1_views)

lemma demo_only: "alive demo_pdev2 r = (r = 20)"
  using attach_create_peer(2) [OF demo_pdev1_views(1), of demo_mac 20 r] demo_pdev1_views(4) [of r]
  unfolding demo_pdev2_def by blast

lemma find_only:
  assumes "x \<in> set xs" and "\<And>y. y \<in> set xs \<Longrightarrow> y = x" and "P x"
  shows "find P xs = Some x"
proof (cases "find P xs")
  case None
  then show ?thesis using assms(1,3) unfolding find_None_iff by blast
next
  case (Some y)
  then show ?thesis using assms(2) [OF find_in_set] by blast
qed

lemma demo_peer:
  "\<exists>x. pd_peers demo_pdev2 20 = Some x \<and> pc_mac x = demo_mac \<and> pc_valid x \<and> pc_vdev x = 10 \<and>
     pc_local_id x = fst (OL_TXRX_LOCAL_PEER_ID_ALLOC 20 (local_ids demo_pdev1))"
  using attach_create_peer(1) [OF demo_pdev1_views(1), of demo_mac 20] by (simp only: demo_pdev2_def)

lemma demo_alive: "alive demo_pdev2 20"
  by (simp only: demo_only)

lemma demo_bin:
  "20 \<in> set (hash_bins demo_pdev2 ! ol_txrx_peer_find_hash_index demo_pdev2 demo_mac)"
  using hash_ok_dest(4) [OF ctl_inv_dest(1) [OF demo_inv2] demo_alive] demo_peer
  by (auto simp only: pmac_def option.sel)

lemma demo_bin_only:
  assumes "r \<in> set (hash_bins demo_pdev2 ! ol_txrx_peer_find_hash_index demo_pdev2 demo_mac)"
  shows "r = 20"
  using hash_ok_dest(3) [OF ctl_inv_dest(1) [OF demo_inv2] hash_ok_dest(5) [OF ctl_inv_dest(1) [OF demo_inv2]]
      assms] demo_only by blast

lemma demo_find: "fst (ol_txrx_peer_find_hash_find demo_pdev2 demo_mac True) = Some 20"
  unfolding ol_txrx_peer_find_hash_find_def fst_take_ref
  by (rule find_only [OF demo_bin demo_bin_only]) (use demo_peer in auto)

lemma demo_vdev: "valive demo_pdev2 10"
  using vdevs_ok_dest(6) [OF ctl_inv_dest(2) [OF demo_inv2] demo_alive] demo_peer
  by (auto simp only: pvdev_def option.sel)

lemma demo_local:
  "\<exists>x. pd_peers demo_pdev2 20 = Some x \<and> pc_valid x \<and> pc_local_id x = 0"
proof -
  have "local_ids demo_pdev1 = OL_TXRX_LOCAL_PEER_ID_POOL_INIT"
    by (simp add: demo_pdev1_def demo_pdev_def ol_txrx_vdev_attach_def log_ev_def attached_pdev_def
        ol_txrx_peer_find_attach_def ol_txrx_peer_find_map_attach_def
        ol_txrx_peer_find_hash_attach_def Let_def blank_pdev_def)
  moreover have "fst (OL_TXRX_LOCAL_PEER_ID_ALLOC 20 OL_TXRX_LOCAL_PEER_ID_POOL_INIT) = 0"
    by (simp add: OL_TXRX_LOCAL_PEER_ID_ALLOC_def OL_TXRX_LOCAL_PEER_ID_POOL_INIT_def
        OL_TXRX_NUM_LOCAL_PEER_IDS_def nth_append)
  ultimately show ?thesis using demo_peer by auto
qed

theorem peer_tables_no_dangling_pointer_witness:
  "(\<exists>b. b \<in> set (hash_bins demo_pdev2) \<and> 20 \<in> set b) \<and> pd_peers demo_pdev2 20 \<noteq> None"
proof -
  have "\<exists>b. b \<in> set (hash_bins demo_pdev2) \<and> 20 \<in> set b"
    using demo_bin nth_mem [OF hash_ok_dest(5) [OF ctl_inv_dest(1) [OF demo_inv2]]] by blast
  with peer_tables_no_dangling_pointer [OF three_valid demo_admissible demo_run] show ?thesis by blast
qed

theorem local_id_identifies_peer_witness:
  "ol_txrx_peer_find_by_local_id (local_ids demo_pdev2) 0 = Some 20"
proof -
  have "0 < OL_TXRX_NUM_LOCAL_PEER_IDS" by (simp add: OL_TXRX_NUM_LOCAL_PEER_IDS_def)
  with local_id_identifies_peer [OF three_valid demo_admissible demo_run] demo_local show ?thesis
    by metis
qed

theorem attach_with_known_address_resets_older_peer_witness:
  "pc_state (peer_at (snd (attach_create 10 demo_mac (Some 21) demo_pdev2)) 21) = ol_txrx_peer_state_invalid"
proof -
  have "\<not> alive demo_pdev2 21" by (simp add: demo_only)
  from attach_with_known_address_resets_older_peer [OF demo_inv2 demo_vdev this demo_find] show ?thesis
    by blast
qed

end
