(* ===== verification/HttHost.thy ===== *)
theory HttHost
  imports HttRxInd HttCredit PeerRx RxDemo PeerDemo
begin

text \<open>
  The host as a whole: the messages of the target, the completed downloads, the operations of the
  transmit path and those of the control path on peers, on one state. Each call that the message
  handler makes runs the receiver's operation; the calls that the peer operations make into the
  receive path run there; a lookup by id in the receive path reads the peer tables.

  The transmit queues of a peer are not tied to its life here: their operations are \<open>Host_tx\<close> steps
  of their own.
\<close>

section \<open>State and steps\<close>

record host =
  h_htt :: htt_pdev
  h_rx :: rx_pdev
  h_ps :: peer_state

text \<open>An operation on peers, and what it calls in the receive path.\<close>

definition host_peers :: "rx_env \<Rightarrow> peer_op \<Rightarrow> host \<Rightarrow> host" where
  "host_peers re pop h =
     (let ps = peer_step (h_ps h) pop;
          ops = drop (length (rx_calls (snd (h_ps h)))) (rx_calls (snd ps));
          r = run_ops rx_step (h_rx h) (map (Pair re) ops)
      in h\<lparr>h_ps := ps, h_rx := r\<lparr>peer_id_map := ol_txrx_peer_find_by_id (snd ps)\<rparr>\<rparr>)"

definition host_call :: "rx_env \<Rightarrow> rx_frames \<Rightarrow> htt_pdev \<Rightarrow> htt_msg \<Rightarrow> host \<Rightarrow> t2h_call \<Rightarrow> host" where
  "host_call re fr s m h c =
     (case t2h_rx_op s m fr c of
        Some rop \<Rightarrow> h\<lparr>h_rx := rx_step (h_rx h) (re, rop)\<rparr>
      | None \<Rightarrow>
          (case t2h_peer_op c of
             Some pop \<Rightarrow> host_peers re pop h
           | None \<Rightarrow> h))"

datatype host_op =
    Host_msg t2h_env rx_env rx_frames htt_msg
  | Host_sent htt_env "(bool \<times> nat) option"
  | Host_tx tx_op
  | Host_ctl rx_env peer_op
  | Host_timeout rx_env ol_tx_cat

text \<open>The message in hand: the calls are those of this message.\<close>

definition host_handle :: "htt_cfg \<Rightarrow> t2h_env \<Rightarrow> htt_msg \<Rightarrow> host \<Rightarrow> htt_pdev option" where
  "host_handle cfg e m h = htt_t2h_msg_handler cfg e A_OK m ((h_htt h)\<lparr>htt_calls := []\<rparr>)"

fun host_step :: "htt_cfg \<Rightarrow> host \<Rightarrow> host_op \<Rightarrow> host" where
  "host_step cfg h (Host_msg e re fr m) =
     (case host_handle cfg e m h of
        None \<Rightarrow> h
      | Some s \<Rightarrow> run_ops (host_call re fr s m) (h\<lparr>h_htt := s\<rparr>) (htt_calls s))"
| "host_step cfg h (Host_sent env part2) = h\<lparr>h_htt := htt_h2t_send_complete cfg env part2 (h_htt h)\<rparr>"
| "host_step cfg h (Host_tx op) = h\<lparr>h_htt := on_tx (\<lambda>p. tx_step p op) (h_htt h)\<rparr>"
| "host_step cfg h (Host_ctl re pop) = host_peers re pop h"
| "host_step cfg h (Host_timeout re ac) = h\<lparr>h_rx := rx_step (h_rx h) (re, RxTimeout ac)\<rparr>"

text \<open>
  What the target and the callers guarantee. Of the target: a block-ack window has at most 64 frames,
  a peer id is mapped while it is free, a list of group elements ends, and no DELBA for a TID that
  waits for fragments. HTT and the peer tables read the same greatest peer id.
\<close>

fun call_ok :: "htt_cfg \<Rightarrow> host \<Rightarrow> t2h_call \<Rightarrow> bool" where
  "call_ok cfg h (Rx_addba i tid win start) = (win \<le> 64)"
| "call_ok cfg h (Rx_delba i tid) =
     (case peer_id_map (h_rx h) i of None \<Rightarrow> True | Some p \<Rightarrow> (p, tid) \<notin> set (defrag_waitlist (h_rx h)))"
| "call_ok cfg h (Peer_map i v a ready) =
     (cfg_max_peer_id cfg = max_peer_id (snd (h_ps h)) \<and> peer_id_to_obj_map (snd (h_ps h)) ! i = None)"
| "call_ok cfg h (Peer_unmap i) = (cfg_max_peer_id cfg = max_peer_id (snd (h_ps h)))"
| "call_ok cfg h _ = True"

fun host_ok :: "htt_cfg \<Rightarrow> host \<Rightarrow> host_op \<Rightarrow> bool" where
  "host_ok cfg h (Host_msg e re fr m) =
     (case host_handle cfg e m h of
        None \<Rightarrow> False
      | Some s \<Rightarrow> admissible (host_call re fr s m) (call_ok cfg) (h\<lparr>h_htt := s\<rparr>) (htt_calls s))"
| "host_ok cfg h (Host_tx op) = tx_op_ok (htt_txrx (h_htt h)) op"
| "host_ok cfg h (Host_ctl re pop) = peer_ok (h_ps h) pop"
| "host_ok cfg h _ = True"

section \<open>The invariant\<close>

text \<open>
  The invariants of the three parts, and between them: the receive path finds the peers of the tables,
  and the wait list for fragments holds TIDs of allocated peers only.
\<close>

definition host_inv :: "host \<Rightarrow> bool" where
  "host_inv h \<longleftrightarrow> tx_inv (htt_txrx (h_htt h)) \<and> rx_inv (h_rx h) \<and> peer_run_inv (h_ps h) \<and>
     peer_id_map (h_rx h) = ol_txrx_peer_find_by_id (snd (h_ps h)) \<and>
     wl_ok (alive (snd (h_ps h))) (h_rx h)"

lemma found_alive:
  assumes "peer_run_inv ps" and "ol_txrx_peer_find_by_id (snd ps) i = Some p"
  shows "alive (snd ps) p"
proof -
  obtain hs d where ps: "ps = (hs, d)" by (cases ps)
  have "idmap_ok d" using ctl_inv_dest(3) assms(1) by (simp add: ps)
  then have map: "length (peer_id_to_obj_map d) = max_peer_id d + 1"
    "Some q \<in> set (peer_id_to_obj_map d) \<Longrightarrow> alive d q" for q
    by (simp_all add: idmap_ok_def)
  have "i \<le> max_peer_id d" "peer_id_to_obj_map d ! i = Some p"
    using assms(2) by (auto simp: ps ol_txrx_peer_find_by_id_def split: if_splits option.splits)
  then have "Some p \<in> set (peer_id_to_obj_map d)" using map(1) by (metis less_Suc_eq_le Suc_eq_plus1 nth_mem)
  then show ?thesis using map(2) by (simp add: ps)
qed

lemma host_invD:
  assumes "host_inv h"
  shows "rx_inv (h_rx h)" "wl_ok (alive (snd (h_ps h))) (h_rx h)"
    "peer_id_map (h_rx h) i = Some p \<Longrightarrow> alive (snd (h_ps h)) p"
  using assms found_alive by (auto simp: host_inv_def)

text \<open>The calls of a peer operation in the receive path.\<close>

lemma rx_calls_run:
  assumes "rx_inv r" and "wl_ok Q r"
    and "\<And>op. op \<in> set ops \<Longrightarrow> (\<exists>p. op = RxPeerCleanup p) \<or> (\<exists>p. op = RxPeerInit p \<and> \<not> Q p)"
  shows "rx_inv (run_ops rx_step r (map (Pair re) ops)) \<and>
    wl_ok (\<lambda>x. Q x \<and> RxPeerCleanup x \<notin> set ops) (run_ops rx_step r (map (Pair re) ops))"
  using assms
proof (induction ops arbitrary: r Q)
  case (Cons op ops)
  let ?r = "rx_step r (re, op)"
  define Q' where "Q' x \<longleftrightarrow> Q x \<and> op \<noteq> RxPeerCleanup x" for x
  consider (cleanup) p where "op = RxPeerCleanup p" | (init) p where "op = RxPeerInit p" "\<not> Q p"
    using Cons.prems(3) by (meson list.set_intros(1))
  then have step: "rx_inv ?r \<and> wl_ok Q' ?r"
  proof cases
    case cleanup
    then have "wl_ok (\<lambda>x. Q x \<and> x \<noteq> p) ?r"
      using peer_cleanup_waitlist(1) [OF Cons.prems(1,2)] by simp
    then have "wl_ok Q' ?r" by (rule wl_ok_mono) (simp add: Q'_def cleanup)
    then show ?thesis using rx_inv_rx_peer_cleanup [OF Cons.prems(1)] by (simp add: cleanup)
  next
    case init
    then have "wl_ok Q ?r" using peer_init_waitlist [OF Cons.prems(2)] by simp
    then have "wl_ok Q' ?r" by (rule wl_ok_mono) (simp add: Q'_def init)
    then show ?thesis using rx_inv_peer_init [OF Cons.prems(1)] by (simp add: init)
  qed
  have "rx_inv (run_ops rx_step ?r (map (Pair re) ops)) \<and>
      wl_ok (\<lambda>x. Q' x \<and> RxPeerCleanup x \<notin> set ops) (run_ops rx_step ?r (map (Pair re) ops))"
  proof (rule Cons.IH)
    show "rx_inv ?r" and "wl_ok Q' ?r" using step by blast+
    show "(\<exists>p. o' = RxPeerCleanup p) \<or> (\<exists>p. o' = RxPeerInit p \<and> \<not> Q' p)" if "o' \<in> set ops" for o'
      using Cons.prems(3) [of o'] that by (auto simp: Q'_def)
  qed
  moreover have "(\<lambda>x. Q' x \<and> RxPeerCleanup x \<notin> set ops) = (\<lambda>x. Q x \<and> RxPeerCleanup x \<notin> set (op # ops))"
    by (auto simp: Q'_def)
  ultimately show ?case by simp
qed simp

lemma id_map_field [simp]: "rx_inv (r\<lparr>peer_id_map := f\<rparr>) = rx_inv r" "wl_ok Q (r\<lparr>peer_id_map := f\<rparr>) = wl_ok Q r"
  by (simp_all add: rx_inv_def wl_ok_def)

lemma host_peers_inv:
  assumes inv: "host_inv h" and ok: "peer_ok (h_ps h) pop"
  shows "host_inv (host_peers re pop h)"
proof -
  obtain hs d where ps: "h_ps h = (hs, d)" by (cases "h_ps h")
  let ?ps = "peer_step (hs, d) pop"
  obtain ops where calls: "peer_calls d (snd ?ps) ops"
    using peer_step_tells ok unfolding tells_def by (metis ps)
  define r where "r = run_ops rx_step (h_rx h) (map (Pair re) ops)"
  have h': "host_peers re pop h =
      h\<lparr>h_ps := ?ps, h_rx := r\<lparr>peer_id_map := ol_txrx_peer_find_by_id (snd ?ps)\<rparr>\<rparr>"
    using calls by (simp add: host_peers_def Let_def ps peer_calls_def r_def)
  have "rx_inv r \<and> wl_ok (\<lambda>x. alive d x \<and> RxPeerCleanup x \<notin> set ops) r"
    unfolding r_def using host_invD(1,2) [OF inv] calls
    by (intro rx_calls_run) (auto simp: ps peer_calls_def)
  moreover have "alive (snd ?ps) x" if "alive d x \<and> RxPeerCleanup x \<notin> set ops" for x
    using calls that by (auto simp: peer_calls_def)
  ultimately have "rx_inv r" "wl_ok (alive (snd ?ps)) r" using wl_ok_mono by blast+
  moreover have "peer_run_inv ?ps" using inv ok by (intro peer_step_inv) (simp_all add: host_inv_def ps)
  ultimately show ?thesis using inv by (simp add: h' host_inv_def)
qed

section \<open>The calls of a message\<close>

text \<open>What the handler itself checks before it calls the receivers.\<close>

fun call_guard :: "htt_cfg \<Rightarrow> t2h_call \<Rightarrow> bool" where
  "call_guard cfg (Rx_indication i tid n) = (tid < OL_TXRX_NUM_EXT_TIDS)"
| "call_guard cfg (Peer_map i v a ready) = (i \<le> cfg_max_peer_id cfg)"
| "call_guard cfg (Peer_unmap i) = (i \<le> cfg_max_peer_id cfg)"
| "call_guard cfg _ = True"

lemma guard_steps:
  assumes "htt_calls s = []"
  shows "list_all (call_guard cfg) (htt_calls (t2h_version_conf m s))"
    "list_all (call_guard cfg) (htt_calls (t2h_rx_flush m s))"
    "list_all (call_guard cfg) (htt_calls (t2h_rx_offload_deliver m s))"
    "list_all (call_guard cfg) (htt_calls (t2h_rx_frag_ind m s))"
    "list_all (call_guard cfg) (htt_calls (t2h_rx_addba m s))"
    "list_all (call_guard cfg) (htt_calls (t2h_rx_delba m s))"
    "list_all (call_guard cfg) (htt_calls (t2h_peer_map cfg m s))"
    "list_all (call_guard cfg) (htt_calls (t2h_peer_unmap cfg m s))"
    "list_all (call_guard cfg) (htt_calls (t2h_sec_ind m s))"
    "list_all (call_guard cfg) (htt_calls (t2h_mgmt_tx_compl cfg e m s))"
    "list_all (call_guard cfg) (htt_calls (t2h_stats_conf m s))"
    "list_all (call_guard cfg) (htt_calls (t2h_rate_report cfg e m s))"
    "list_all (call_guard cfg) (htt_calls (t2h_rx_pn_ind m s))"
    "list_all (call_guard cfg) (htt_calls (t2h_tx_inspect e m s))"
    "list_all (call_guard cfg) (htt_calls (t2h_tx_compl cfg e m s))"
  using assms
  by (simp_all add: t2h_version_conf_def t2h_rx_flush_def t2h_rx_offload_deliver_def t2h_rx_frag_ind_def
      t2h_rx_addba_def t2h_rx_delba_def t2h_peer_map_def t2h_peer_unmap_def t2h_sec_ind_def
      t2h_mgmt_tx_compl_def t2h_stats_conf_def Let_def case_prod_unfold t2h_rate_report_def
      t2h_rx_pn_ind_def t2h_tx_inspect_def t2h_tx_compl_def)

lemma guard_branches:
  assumes "htt_calls s = []"
  shows "list_all (call_guard cfg) (htt_calls (t2h_pktlog m s))"
    "list_all (call_guard cfg) (htt_calls (t2h_rx_ofld_pkt_err e m s))"
    "list_all (call_guard cfg) (htt_calls (t2h_rx_ind cfg m s))"
  using assms
  by (simp_all add: t2h_pktlog_def t2h_rx_ofld_pkt_err_def t2h_rx_ind_def Let_def split: option.split)

lemma guard_credit_update:
  "t2h_tx_credit_update cfg e m s = Some s' \<Longrightarrow> htt_calls s = [] \<Longrightarrow> list_all (call_guard cfg) (htt_calls s')"
  by (auto simp: t2h_tx_credit_update_def Let_def case_prod_unfold split: if_splits option.splits)

lemma guard_lp:
  "htt_t2h_lp_msg_handler cfg e m s = Some s' \<Longrightarrow> htt_calls s = [] \<Longrightarrow> list_all (call_guard cfg) (htt_calls s')"
  by (auto simp: htt_t2h_lp_msg_handler_def Let_def intro: guard_steps guard_branches dest: guard_credit_update
      split: if_splits)

lemma handler_guards:
  assumes "htt_t2h_msg_handler cfg e A_OK m s = Some s'" and "htt_calls s = []"
  shows "list_all (call_guard cfg) (htt_calls s')"
  using assms by (auto simp: htt_t2h_msg_handler_def Let_def intro: guard_steps guard_branches dest: guard_lp
      split: if_splits)

section \<open>The transmit path\<close>

lemma emit_txrx [simp]: "htt_txrx (emit c s) = htt_txrx s"
  by (simp add: emit_def)

lemma on_tx_txrx [simp]: "htt_txrx (on_tx f s) = f (htt_txrx s)"
  by (simp add: on_tx_def)

lemma keeps_inv: "keeps_account f \<Longrightarrow> tx_inv p \<Longrightarrow> tx_inv (f p)"
  by (simp add: keeps_accountD)

lemma tx_inv_default:
  assumes "tx_inv (htt_txrx s)" and "default_tx_comp_req cfg"
  shows "tx_inv (htt_txrx (t2h_tx_compl cfg e m s))" and "tx_inv (htt_txrx (t2h_mgmt_tx_compl cfg e m s))"
    and "t2h_tx_credit_update cfg e m s = Some s' \<Longrightarrow> tx_inv (htt_txrx s')"
proof -
  have "tx_inv (htt_txrx (t2h_compl_credit cfg n t)) = tx_inv (htt_txrx t)" for n t
    using assms(2) by (simp add: t2h_compl_credit_def Let_def)
  then show "tx_inv (htt_txrx (t2h_tx_compl cfg e m s))"
    using assms(1) by (simp add: t2h_tx_compl_def Let_def keeps_inv [OF completion_keeps])
  have "keeps_account (ol_tx_desc_update_group_credit i n a)" for i n a
    by (rule core_keeps) simp
  then show "tx_inv (htt_txrx (t2h_mgmt_tx_compl cfg e m s))"
    using assms by (simp add: t2h_mgmt_tx_compl_def Let_def keeps_inv [OF single_completion_keeps] keeps_inv)
  show "t2h_tx_credit_update cfg e m s = Some s' \<Longrightarrow> tx_inv (htt_txrx s')"
    using assms completion_handler_account(1) group_process_keeps(1)
    by (auto simp: t2h_tx_credit_update_def Let_def split: if_splits option.splits)
qed

lemma quiet_inv:
  assumes "tx_inv (htt_txrx s)"
  shows "account_step 0 0 s t \<Longrightarrow> tx_inv (htt_txrx t)"
  by (simp add: account_step_def)

lemma lp_inv_default:
  assumes "tx_inv (htt_txrx s)" and "default_tx_comp_req cfg"
    and "htt_t2h_lp_msg_handler cfg e m s = Some s'"
  shows "tx_inv (htt_txrx s')"
  using assms(3) tx_inv_default [OF assms(1,2)] quiet_account [OF assms(1), THEN quiet_inv [OF assms(1)]] assms(1)
  by (auto simp: htt_t2h_lp_msg_handler_def Let_def split: if_splits)

lemma handler_tx_inv:
  assumes "tx_inv (htt_txrx s)" and "htt_t2h_msg_handler cfg e A_OK m s = Some s'"
  shows "tx_inv (htt_txrx s')"
proof (cases "default_tx_comp_req cfg")
  case False
  then show ?thesis using handler_account [OF assms(1) _ assms(2)] by (simp add: account_step_def)
next
  case True
  then show ?thesis
    using assms(2) tx_inv_default(1) [OF assms(1) True] lp_inv_default [OF assms(1) True]
      quiet_account [OF assms(1), THEN quiet_inv [OF assms(1)]] assms(1)
      inspect_account [OF assms(1), THEN quiet_inv [OF assms(1)]]
    by (auto simp: htt_t2h_msg_handler_def Let_def split: if_splits)
qed

lemma sent_tx_inv:
  assumes "tx_inv (htt_txrx s)"
  shows "tx_inv (htt_txrx (htt_h2t_send_complete cfg env part2 s))"
proof (cases "default_tx_comp_req cfg")
  case False
  then show ?thesis using sent_account [OF assms] by blast
next
  case True
  then show ?thesis
    using assms download_done [OF assms] by (simp add: htt_h2t_send_complete_def split: option.split)
qed

section \<open>Runs\<close>

lemma host_rx_inv:
  assumes inv: "host_inv h" and ok: "rx_ok (h_rx h) (re, op)" and pre: "wl_pre (alive (snd (h_ps h))) (h_rx h) op"
  shows "host_inv (h\<lparr>h_rx := rx_step (h_rx h) (re, op)\<rparr>)"
proof -
  have "wl_ok (alive (snd (h_ps h))) (rx_step (h_rx h) (re, op)) \<and>
      peer_id_map (rx_step (h_rx h) (re, op)) = peer_id_map (h_rx h)"
    by (rule rx_step_waitlist [OF host_invD [OF inv] ok pre])
  then show ?thesis using inv rx_step_inv [OF _ ok] by (simp add: host_inv_def)
qed

lemma host_call_inv:
  assumes inv: "host_inv h" and ok: "call_ok cfg h c" and guard: "call_guard cfg c"
  shows "host_inv (host_call re fr s m h c)"
proof (cases "t2h_rx_op s m fr c")
  case (Some rop)
  have "rx_ok (h_rx h) (re, rop)" and "wl_pre (alive (snd (h_ps h))) (h_rx h) rop"
    using Some ok guard by (cases c; auto)+
  then show ?thesis using host_rx_inv [OF inv] by (simp add: host_call_def Some)
next
  case None
  show ?thesis
  proof (cases "t2h_peer_op c")
    case (Some pop)
    have "peer_ok (h_ps h) pop"
      using Some ok guard by (cases c; cases "h_ps h") auto
    then show ?thesis using host_peers_inv [OF inv] by (simp add: host_call_def None Some)
  qed (use inv in \<open>simp add: host_call_def None\<close>)
qed

lemma host_calls_inv:
  assumes "host_inv h" and "admissible (host_call re fr s m) (call_ok cfg) h cs" and "list_all (call_guard cfg) cs"
  shows "host_inv (run_ops (host_call re fr s m) h cs)"
  using assms
proof (induction cs arbitrary: h)
  case (Cons c cs)
  then show ?case using host_call_inv [of h cfg c] by simp
qed simp

lemma host_htt_inv: "host_inv h \<Longrightarrow> tx_inv (htt_txrx s) \<Longrightarrow> host_inv (h\<lparr>h_htt := s\<rparr>)"
  by (simp add: host_inv_def)

lemma host_msg_inv:
  assumes inv: "host_inv h" and ok: "host_ok cfg h (Host_msg e re fr m)"
  shows "host_inv (host_step cfg h (Host_msg e re fr m))"
proof (cases "host_handle cfg e m h")
  case None
  then show ?thesis by (simp add: inv)
next
  case (Some s)
  have start: "tx_inv (htt_txrx ((h_htt h)\<lparr>htt_calls := []\<rparr>))" using inv by (simp add: host_inv_def)
  have run: "htt_t2h_msg_handler cfg e A_OK m ((h_htt h)\<lparr>htt_calls := []\<rparr>) = Some s"
    using Some unfolding host_handle_def .
  have "host_inv (h\<lparr>h_htt := s\<rparr>)" by (rule host_htt_inv [OF inv handler_tx_inv [OF start run]])
  moreover have "list_all (call_guard cfg) (htt_calls s)" by (rule handler_guards [OF run]) simp
  moreover have "admissible (host_call re fr s m) (call_ok cfg) (h\<lparr>h_htt := s\<rparr>) (htt_calls s)"
    using ok unfolding host_ok.simps Some option.case .
  ultimately have "host_inv (run_ops (host_call re fr s m) (h\<lparr>h_htt := s\<rparr>) (htt_calls s))"
    using host_calls_inv by blast
  then show ?thesis unfolding host_step.simps Some option.case .
qed

lemma host_step_inv:
  assumes inv: "host_inv h" and ok: "host_ok cfg h op"
  shows "host_inv (host_step cfg h op)"
proof (cases op)
  case (Host_msg e re fr m)
  then show ?thesis using host_msg_inv inv ok by blast
next
  case (Host_sent env part2)
  have "tx_inv (htt_txrx (htt_h2t_send_complete cfg env part2 (h_htt h)))"
    by (rule sent_tx_inv) (use inv in \<open>simp add: host_inv_def\<close>)
  then show ?thesis unfolding Host_sent host_step.simps by (rule host_htt_inv [OF inv])
next
  case (Host_tx t)
  have "tx_inv (htt_txrx (on_tx (\<lambda>p. tx_step p t) (h_htt h)))"
    unfolding on_tx_txrx using ok by (intro tx_step_inv) (use inv in \<open>simp_all add: host_inv_def Host_tx\<close>)
  then show ?thesis unfolding Host_tx host_step.simps by (rule host_htt_inv [OF inv])
next
  case (Host_ctl re pop)
  then show ?thesis using host_peers_inv [OF inv, of pop re] ok by (simp only: host_step.simps host_ok.simps)
next
  case (Host_timeout re ac)
  show ?thesis unfolding Host_timeout host_step.simps by (rule host_rx_inv [OF inv]) simp_all
qed

interpretation host_runs: run_invariant "host_step cfg" "host_ok cfg" host_inv
  by unfold_locales (rule host_step_inv)


section \<open>A run\<close>

text \<open>
  A virtual device and a station are attached, and a message of the target maps peer id 2 to the
  station's address.
\<close>

definition demo_host_cfg :: htt_cfg where "demo_host_cfg = demo_htt_cfg\<lparr>cfg_max_peer_id := 3\<rparr>"

definition demo_host :: host where
  "demo_host = \<lparr>h_htt = htt_attached demo_attached,
     h_rx = demo_rx\<lparr>peer_id_map := ol_txrx_peer_find_by_id demo_pdev\<rparr>, h_ps = (\<lambda>_. 0, demo_pdev)\<rparr>"

definition demo_map_msg :: htt_msg where "demo_map_msg = htt_msg_of [0x00020003, 0x00000002, 0x00000700]"
definition demo_frames :: rx_frames where "demo_frames = \<lparr>fr_mpdus = [], fr_msdu = demo_msdu 0 0 0\<rparr>"

definition demo_host_ops :: "host_op list" where
  "demo_host_ops =
    [Host_ctl demo_rx_env (PVdev_attach 10 demo_vdev_mac 0 wlan_op_mode_sta),
     Host_ctl demo_rx_env (PPeer_attach 10 demo_mac 20),
     Host_msg demo_t2h_env demo_rx_env demo_frames demo_map_msg]"

lemma demo_host_inv: "host_inv demo_host"
proof -
  have "ctl_inv (\<lambda>_. 0) demo_pdev"
    unfolding demo_pdev_def by (rule attached_pdev_inv [OF three_valid])
  then show ?thesis
    using demo_rx_inv demo_attached_inv
    by (simp add: host_inv_def demo_host_def htt_attached_def) (simp add: wl_ok_def demo_rx_def)
qed

lemma host_peers_parts [simp]:
  "h_ps (host_peers re pop h) = peer_step (h_ps h) pop" "h_htt (host_peers re pop h) = h_htt h"
  "peer_id_map (h_rx (host_peers re pop h)) = ol_txrx_peer_find_by_id (snd (peer_step (h_ps h) pop))"
  by (simp_all add: host_peers_def Let_def)

lemma demo_map_eval:
  "fget HTT_T2H_MSG_TYPE (hm_word demo_map_msg 0) = 3" "fget HTT_RX_PEER_MAP_PEER_ID (hm_word demo_map_msg 0) = 2"
  "fget HTT_RX_PEER_MAP_VDEV_ID (hm_word demo_map_msg 0) = 0"
  "htt_t2h_mac_addr_deswizzle demo_map_msg = [2, 0, 0, 0, 0, 7]"
  by (simp_all add: demo_map_msg_def htt_msg_of_def fget_def HTT_T2H_MSG_TYPE_def drop_bit_eq_div
      HTT_RX_PEER_MAP_PEER_ID_def HTT_RX_PEER_MAP_VDEV_ID_def htt_t2h_mac_addr_deswizzle_def hm_byte_def
      take_bit_eq_mod upt_rec)

lemma demo_map_handle:
  "host_handle demo_host_cfg demo_t2h_env demo_map_msg h =
    Some (emit Msg_free (emit (Peer_map 2 0 [2, 0, 0, 0, 0, 7] True) ((h_htt h)\<lparr>htt_calls := []\<rparr>)))"
  by (simp add: host_handle_def htt_t2h_msg_handler_def htt_t2h_lp_msg_handler_def demo_map_eval t2h_peer_map_def
      demo_host_cfg_def)

lemma demo_find_any: "fst (ol_txrx_peer_find_hash_find demo_pdev2 demo_mac False) = Some 20"
  unfolding ol_txrx_peer_find_hash_find_def fst_take_ref
  by (rule find_only [OF demo_bin demo_bin_only]) (use demo_peer in auto)

lemma demo_mapped:
  defines "d \<equiv> ol_rx_peer_map_handler 2 demo_mac True demo_pdev2"
  shows "ol_txrx_peer_find_by_id d 2 = Some 20"
proof -
  obtain x where x: "pd_peers demo_pdev2 20 = Some x" "pc_valid x" using demo_local by blast
  note R = refs_ok_dest [OF ctl_inv_dest(5) [OF demo_inv2]]
  have ref: "0 < pc_ref_cnt x" using R(1,2) [of 20] demo_alive x(1) by (simp add: views)
  have find: "ol_txrx_peer_find_hash_find demo_pdev2 demo_mac False =
      (Some 20, upd_cpeer 20 (\<lambda>x. x\<lparr>pc_ref_cnt := pc_ref_cnt x + 1\<rparr>) demo_pdev2)"
    using demo_find_any unfolding ol_txrx_peer_find_hash_find_def fst_take_ref by (simp add: take_ref_def)
  have len: "length (peer_id_to_obj_map demo_pdev2) = 4" "max_peer_id demo_pdev2 = 3"
    using demo_tables by (simp_all add: demo_pdev1_views)
  show ?thesis
    unfolding d_def ol_rx_peer_map_handler_def ol_txrx_peer_find_add_id_def find
    using x ref len
    by (simp add: Let_def ol_txrx_peer_find_add_id_to_obj_def ol_txrx_peer_unref_delete_def peer_simps
        ol_txrx_peer_find_by_id_def split: prod.split)
qed


theorem delba_of_waiting_tid_outlives_peer_witness:
  "(0, 0) \<in> set (defrag_waitlist (ol_rx_peer_cleanup demo_rx_env 0 (ol_rx_delba_handler 3 0 demo_waiting)))"
proof -
  have inv: "rx_inv demo_waiting"
    by (auto simp: rx_inv_def demo_waiting_def ol_rx_defrag_waitlist_add_def demo_defs tid_ok_def ro_ok_def
        ro_slots_def ro_slot_def ro_put_def history_ok_def intro: exI [of _ "0::nat"])
  have "wl_ok (\<lambda>_. True) demo_waiting" "peer_id_map demo_waiting 3 = Some 0" "(0, 0) \<in> set (defrag_waitlist demo_waiting)"
    by (simp_all add: wl_ok_def demo_waiting_def ol_rx_defrag_waitlist_add_def demo_defs OL_TXRX_NUM_EXT_TIDS_def)
  from delba_of_waiting_tid_outlives_peer [OF inv this] show ?thesis by blast
qed

end
