(* ===== verification/HtcData.thy ===== *)
theory HtcData
  imports HttFields
begin

unbundle bit_operations_syntax

text \<open>
  The host-target communication layer (HTC, \<open>CORE/SERVICES/HTC\<close>): packets, endpoints, the target's
  state, the frame header and the fields of the control messages, and the allocation of the target's
  credits to services. SDIO build: \<open>HIF_SDIO\<close>, \<open>CONFIG_HL_SUPPORT\<close>, \<open>ENABLE_BUNDLE_TX\<close>, no runtime power
  management, no \<open>ATH_11AC_TXCOMPACT\<close>, no \<open>RX_SG_SUPPORT\<close>.

  A packet is a value with an identity; its network buffer has the identity of the packet. Of the
  buffer the model has the number of HTC headers in front of the payload and the two words of the
  header as they were last written. The bus (HIF) is an environment; what HTC hands to it and to its
  clients is a log. Histories and statistics for debugging are left out.
\<close>

section \<open>Packets\<close>

datatype a_status =
    A_OK_ST | A_ERROR_ST | A_EINVAL | A_EPROTO | A_ECANCELED_ST | A_NO_RESOURCE | A_NO_MEMORY | A_EBUSY | A_ECOMM

definition HTC_TX_PACKET_TAG_INTERNAL :: nat where "HTC_TX_PACKET_TAG_INTERNAL = 1"
definition HTC_SERVICE_TX_PACKET_TAG :: nat where "HTC_SERVICE_TX_PACKET_TAG = HTC_TX_PACKET_TAG_INTERNAL"

record htc_packet =
  hp_id :: nat
  ActualLength :: nat
  hp_Endpoint :: nat
  hp_Status :: "a_status option"
  hp_Tag :: nat
  CreditsUsed :: nat
  SendFlags :: nat
  hp_SeqNo :: nat
  fixup_netbuf :: bool
  num_frags :: nat
  hdr_rooms :: nat
  hdr_words :: "32 word \<times> 32 word"

section \<open>The frame header\<close>

text \<open>A field of a message: mask and shift, and the byte offset of its word.\<close>

record htc_field =
  hf_MASK :: "32 word"
  hf_LSB :: nat
  hf_OFFSET :: nat

text \<open>The macro \<open>SM\<close>.\<close>

definition SM :: "nat \<Rightarrow> htc_field \<Rightarrow> 32 word" where
  "SM v f = push_bit (hf_LSB f) (word_of_nat v) AND hf_MASK f"

text \<open>A word in memory, little endian; memory behind the end of a buffer reads as zero.\<close>

definition rd8 :: "8 word list \<Rightarrow> nat \<Rightarrow> 8 word" where
  "rd8 bs i = (if i < length bs then bs ! i else 0)"

definition rd32 :: "8 word list \<Rightarrow> nat \<Rightarrow> 32 word" where
  "rd32 bs i = ucast (rd8 bs i) OR push_bit 8 (ucast (rd8 bs (i + 1))) OR
     push_bit 16 (ucast (rd8 bs (i + 2))) OR push_bit 24 (ucast (rd8 bs (i + 3)))"

definition HTC_GET_FIELD :: "8 word list \<Rightarrow> htc_field \<Rightarrow> nat" where
  "HTC_GET_FIELD bs f = unat (drop_bit (hf_LSB f) (rd32 bs (4 * (hf_OFFSET f div 4)) AND hf_MASK f))"

definition HTC_HDR_LENGTH :: nat where "HTC_HDR_LENGTH = 8"

definition HTC_FRAME_HDR_ENDPOINTID :: htc_field where
  "HTC_FRAME_HDR_ENDPOINTID = \<lparr>hf_MASK = 0x000000ff, hf_LSB = 0, hf_OFFSET = 0\<rparr>"
definition HTC_FRAME_HDR_FLAGS :: htc_field where
  "HTC_FRAME_HDR_FLAGS = \<lparr>hf_MASK = 0x0000ff00, hf_LSB = 8, hf_OFFSET = 0\<rparr>"
definition HTC_FRAME_HDR_PAYLOADLEN :: htc_field where
  "HTC_FRAME_HDR_PAYLOADLEN = \<lparr>hf_MASK = 0xffff0000, hf_LSB = 16, hf_OFFSET = 0\<rparr>"
definition HTC_FRAME_HDR_CONTROLBYTES0 :: htc_field where
  "HTC_FRAME_HDR_CONTROLBYTES0 = \<lparr>hf_MASK = 0x000000ff, hf_LSB = 0, hf_OFFSET = 4\<rparr>"
definition HTC_FRAME_HDR_CONTROLBYTES1 :: htc_field where
  "HTC_FRAME_HDR_CONTROLBYTES1 = \<lparr>hf_MASK = 0x0000ff00, hf_LSB = 8, hf_OFFSET = 4\<rparr>"
definition HTC_FRAME_HDR_RESERVED :: htc_field where
  "HTC_FRAME_HDR_RESERVED = \<lparr>hf_MASK = 0xffff0000, hf_LSB = 16, hf_OFFSET = 4\<rparr>"

definition HTC_FLAGS_NEED_CREDIT_UPDATE :: nat where "HTC_FLAGS_NEED_CREDIT_UPDATE = 1"
definition HTC_FLAGS_SEND_BUNDLE :: nat where "HTC_FLAGS_SEND_BUNDLE = 2"
definition HTC_FLAGS_RECV_TRAILER :: nat where "HTC_FLAGS_RECV_TRAILER = 2"

section \<open>Control messages\<close>

definition HTC_MSG_READY_ID :: nat where "HTC_MSG_READY_ID = 1"
definition HTC_MSG_CONNECT_SERVICE_RESPONSE_ID :: nat where "HTC_MSG_CONNECT_SERVICE_RESPONSE_ID = 3"
definition HTC_MSG_SEND_SUSPEND_COMPLETE :: nat where "HTC_MSG_SEND_SUSPEND_COMPLETE = 6"
definition HTC_MSG_NACK_SUSPEND :: nat where "HTC_MSG_NACK_SUSPEND = 7"
definition HTC_MAX_CONTROL_MESSAGE_LENGTH :: nat where "HTC_MAX_CONTROL_MESSAGE_LENGTH = 256"
definition HTC_SERVICE_SUCCESS :: nat where "HTC_SERVICE_SUCCESS = 0"

definition HTC_UNKNOWN_MSG_MESSAGEID :: htc_field where
  "HTC_UNKNOWN_MSG_MESSAGEID = \<lparr>hf_MASK = 0x0000ffff, hf_LSB = 0, hf_OFFSET = 0\<rparr>"

definition HTC_READY_MSG_MESSAGEID :: htc_field where
  "HTC_READY_MSG_MESSAGEID = \<lparr>hf_MASK = 0x0000ffff, hf_LSB = 0, hf_OFFSET = 0\<rparr>"
definition HTC_READY_MSG_CREDITCOUNT :: htc_field where
  "HTC_READY_MSG_CREDITCOUNT = \<lparr>hf_MASK = 0xffff0000, hf_LSB = 16, hf_OFFSET = 0\<rparr>"
definition HTC_READY_MSG_CREDITSIZE :: htc_field where
  "HTC_READY_MSG_CREDITSIZE = \<lparr>hf_MASK = 0x0000ffff, hf_LSB = 0, hf_OFFSET = 4\<rparr>"
definition HTC_READY_EX_MSG_MAXMSGSPERHTCBUNDLE :: htc_field where
  "HTC_READY_EX_MSG_MAXMSGSPERHTCBUNDLE = \<lparr>hf_MASK = 0x0000ff00, hf_LSB = 8, hf_OFFSET = 8\<rparr>"
definition HTC_READY_EX_MSG_ALTDATACREDITSIZE :: htc_field where
  "HTC_READY_EX_MSG_ALTDATACREDITSIZE = \<lparr>hf_MASK = 0x0fff0000, hf_LSB = 16, hf_OFFSET = 8\<rparr>"
definition HTC_READY_EX_MSG_SIZE :: nat where "HTC_READY_EX_MSG_SIZE = 12"

definition HTC_CONNECT_SERVICE_MSG_SIZE :: nat where "HTC_CONNECT_SERVICE_MSG_SIZE = 8"
definition HTC_CONNECT_FLAGS_DISABLE_CREDIT_FLOW_CTRL :: nat where
  "HTC_CONNECT_FLAGS_DISABLE_CREDIT_FLOW_CTRL = 8"

definition HTC_CONNECT_SERVICE_RESPONSE_MSG_MESSAGEID :: htc_field where
  "HTC_CONNECT_SERVICE_RESPONSE_MSG_MESSAGEID = \<lparr>hf_MASK = 0x0000ffff, hf_LSB = 0, hf_OFFSET = 0\<rparr>"
definition HTC_CONNECT_SERVICE_RESPONSE_MSG_STATUS :: htc_field where
  "HTC_CONNECT_SERVICE_RESPONSE_MSG_STATUS = \<lparr>hf_MASK = 0x000000ff, hf_LSB = 0, hf_OFFSET = 4\<rparr>"
definition HTC_CONNECT_SERVICE_RESPONSE_MSG_ENDPOINTID :: htc_field where
  "HTC_CONNECT_SERVICE_RESPONSE_MSG_ENDPOINTID = \<lparr>hf_MASK = 0x0000ff00, hf_LSB = 8, hf_OFFSET = 4\<rparr>"
definition HTC_CONNECT_SERVICE_RESPONSE_MSG_MAXMSGSIZE :: htc_field where
  "HTC_CONNECT_SERVICE_RESPONSE_MSG_MAXMSGSIZE = \<lparr>hf_MASK = 0xffff0000, hf_LSB = 16, hf_OFFSET = 4\<rparr>"
definition HTC_CONNECT_SERVICE_RESPONSE_MSG_LOOKAHEADV2 :: htc_field where
  "HTC_CONNECT_SERVICE_RESPONSE_MSG_LOOKAHEADV2 = \<lparr>hf_MASK = 0x00000100, hf_LSB = 8, hf_OFFSET = 8\<rparr>"
definition HTC_CONNECT_SERVICE_RESPONSE_MSG_SIZE :: nat where "HTC_CONNECT_SERVICE_RESPONSE_MSG_SIZE = 12"

definition HTC_RECORD_CREDITS :: nat where "HTC_RECORD_CREDITS = 1"
definition HTC_RECORD_HDR_SIZE :: nat where "HTC_RECORD_HDR_SIZE = 4"
definition HTC_RECORD_HDR_RECORDID :: htc_field where
  "HTC_RECORD_HDR_RECORDID = \<lparr>hf_MASK = 0x000000ff, hf_LSB = 0, hf_OFFSET = 0\<rparr>"
definition HTC_RECORD_HDR_LENGTH :: htc_field where
  "HTC_RECORD_HDR_LENGTH = \<lparr>hf_MASK = 0x0000ff00, hf_LSB = 8, hf_OFFSET = 0\<rparr>"
definition HTC_CREDIT_REPORT_SIZE :: nat where "HTC_CREDIT_REPORT_SIZE = 4"
definition HTC_CREDIT_REPORT_ENDPOINTID :: htc_field where
  "HTC_CREDIT_REPORT_ENDPOINTID = \<lparr>hf_MASK = 0x000000ff, hf_LSB = 0, hf_OFFSET = 0\<rparr>"
definition HTC_CREDIT_REPORT_CREDITS :: htc_field where
  "HTC_CREDIT_REPORT_CREDITS = \<lparr>hf_MASK = 0x0000ff00, hf_LSB = 8, hf_OFFSET = 0\<rparr>"

section \<open>Services\<close>

definition MAKE_SERVICE_ID :: "nat \<Rightarrow> nat \<Rightarrow> nat" where "MAKE_SERVICE_ID grp idx = 256 * grp + idx"
definition HTC_CTRL_RSVD_SVC :: nat where "HTC_CTRL_RSVD_SVC = MAKE_SERVICE_ID 0 1"
definition WMI_CONTROL_SVC :: nat where "WMI_CONTROL_SVC = MAKE_SERVICE_ID 1 0"
definition WMI_DATA_BE_SVC :: nat where "WMI_DATA_BE_SVC = MAKE_SERVICE_ID 1 1"
definition HTT_DATA_MSG_SVC :: nat where "HTT_DATA_MSG_SVC = MAKE_SERVICE_ID 3 0"

section \<open>Endpoints and the target\<close>

definition ENDPOINT_MAX :: nat where "ENDPOINT_MAX = 9"
definition HTC_MIN_MSG_PER_BUNDLE :: nat where "HTC_MIN_MSG_PER_BUNDLE = 2"
definition HTC_MAX_MSG_PER_BUNDLE_TX :: nat where "HTC_MAX_MSG_PER_BUNDLE_TX = 32"
definition HTC_MAX_TX_BUNDLE_SEND_LIMIT :: int where "HTC_MAX_TX_BUNDLE_SEND_LIMIT = 255"
definition HTC_PACKET_CONTAINER_ALLOCATION :: nat where "HTC_PACKET_CONTAINER_ALLOCATION = 32"
definition NUM_CONTROL_TX_BUFFERS :: int where "NUM_CONTROL_TX_BUFFERS = 2"
definition HTC_MAX_SERVICE_ALLOC_ENTRIES :: nat where "HTC_MAX_SERVICE_ALLOC_ENTRIES = 8"

text \<open>What HIF was given: a packet's buffer, or a bundle buffer with copies of the packets.\<close>

datatype tx_lookup = Lk_packet htc_packet | Lk_bundle nat "htc_packet list"
datatype netbuf = Nb_packet nat | Nb_bundle nat

fun lk_netbuf :: "tx_lookup \<Rightarrow> netbuf" where
  "lk_netbuf (Lk_packet p) = Nb_packet (hp_id p)"
| "lk_netbuf (Lk_bundle b ps) = Nb_bundle b"

fun lk_packets :: "tx_lookup \<Rightarrow> htc_packet list" where
  "lk_packets (Lk_packet p) = [p]"
| "lk_packets (Lk_bundle b ps) = ps"

text \<open>
  The callbacks of an endpoint: whether completions are indicated in one call, whether there is a
  receive callback, the answer of the send-full callback (keep a packet or not), and whether there is
  a callback for resumption.
\<close>

record htc_callbacks =
  EpTxCompleteMultiple :: bool
  EpRecv :: bool
  EpSendFull :: "(htc_packet \<Rightarrow> bool) option"
  EpResumeTxQueue :: bool

record htc_endpoint =
  ServiceID :: nat
  EpCallBacks :: htc_callbacks
  TxQueue :: "htc_packet list"
  MaxTxQueueDepth :: int
  MaxMsgLength :: nat
  UL_PipeID :: nat
  DL_PipeID :: nat
  ul_is_polled :: bool
  ul_poll_timer_active :: bool
  ul_outstanding_cnt :: int
  TxLookupQueue :: "tx_lookup list"
  RxBufferHoldQueue :: "htc_packet list"
  SeqNo :: nat
  TxProcessCount :: nat
  TxCredits :: int
  TxCreditSize :: nat
  TxCreditsPerMaxMsg :: nat
  TxCreditFlowEnabled :: bool

text \<open>
  The log. Five events stand for no call: packets that enter the queue of an endpoint, packets that go
  back to it without their credits, how many packets are flushed from it, credits that the target
  reports for an endpoint, and the credits an endpoint has when its service is connected.
\<close>

datatype htc_event =
    Ev_send nat nat tx_lookup bool
  | Ev_tx_complete nat "htc_packet list"
  | Ev_entered nat "htc_packet list"
  | Ev_put_back nat "htc_packet list"
  | Ev_flushed nat nat
  | Ev_credits nat nat
  | Ev_alloc nat nat
  | Ev_recv nat nat "8 word list"
  | Ev_recv_lost nat
  | Ev_nbuf_free
  | Ev_rx_buffer nat htc_packet
  | Ev_ctrl_msg
  | Ev_suspend bool
  | Ev_suspend_wow
  | Ev_bug
  | Ev_resume nat
  | Ev_bundle_mode nat
  | Ev_hif_stop
  | Ev_hif_flush

record htc_target =
  EndPoint :: "nat \<Rightarrow> htc_endpoint"
  HTC_STOPPING :: bool
  struct_pool :: nat
  CtrlResponseBuffer :: "8 word list"
  CtrlResponseLength :: nat
  CtrlResponseValid :: bool
  CtrlResponseProcessing :: bool
  TotalTransmitCredits :: nat
  ServiceTxAllocTable :: "(nat \<times> nat) list"
  TargetCreditSize :: nat
  bundle_free_tx :: "nat list"
  bundle_next :: nat
  MaxMsgsPerHTCBundle :: nat
  AltDataCreditSize :: nat
  is_nodrop_pkt :: bool
  enable_b2b :: bool
  CE_send_cnt :: nat
  TX_comp_cnt :: nat
  htc_get_pkt_q_fail_count :: nat
  htc_pkt_q_empty_count :: nat
  htc_send_q_empty_count :: nat
  htc_log :: "htc_event list"

text \<open>
  What HTC asks of its surroundings: whether HIF takes a buffer and how many free entries a pipe has,
  both after a number of attempts to send; whether memory is available; the map from services to
  pipes; whether the mailboxes are swapped; the module parameter \<open>htc_credit_flow\<close>; endpoint-ping mode.
\<close>

record hif_env =
  hif_send_ok :: "nat \<Rightarrow> bool"
  hif_free_entries :: "nat \<Rightarrow> nat \<Rightarrow> nat"
  hif_mem_ok :: bool
  hif_pipes :: "nat \<Rightarrow> (nat \<times> nat \<times> bool) option"
  hif_start_ok :: bool
  HIFIsMailBoxSwapped :: bool
  htc_credit_flow :: bool
  epping :: bool

abbreviation upd_ep :: "nat \<Rightarrow> (htc_endpoint \<Rightarrow> htc_endpoint) \<Rightarrow> htc_target \<Rightarrow> htc_target" where
  "upd_ep i f s \<equiv> s\<lparr>EndPoint := (EndPoint s)(i := f (EndPoint s i))\<rparr>"

abbreviation log_htc :: "htc_event list \<Rightarrow> htc_target \<Rightarrow> htc_target" where
  "log_htc es s \<equiv> s\<lparr>htc_log := htc_log s @ es\<rparr>"

text \<open>Attempts to send so far.\<close>

definition hif_sends :: "htc_target \<Rightarrow> nat" where
  "hif_sends s = length (filter (\<lambda>ev. case ev of Ev_send pipe i x ok \<Rightarrow> True | _ \<Rightarrow> False) (htc_log s))"

definition HTC_ENABLE_BUNDLE :: "htc_target \<Rightarrow> bool" where
  "HTC_ENABLE_BUNDLE s \<longleftrightarrow> MaxMsgsPerHTCBundle s > 1"

section \<open>Credit allocation\<close>

text \<open>
  The table has bytes for the credits. The first entry stays empty; all credits go to WMI, and in
  endpoint-ping mode all of them to the best-effort service as well.
\<close>

definition HTCSetupTargetBufferAssignments :: "hif_env \<Rightarrow> htc_target \<Rightarrow> htc_target" where
  "HTCSetupTargetBufferAssignments env s =
     (let credits = TotalTransmitCredits s;
          t1 = (ServiceTxAllocTable s)[1 := (WMI_CONTROL_SVC, u8 credits)];
          t2 = (if epping env then t1[2 := (WMI_DATA_BE_SVC, u8 credits)] else t1)
      in s\<lparr>ServiceTxAllocTable := t2\<rparr>)"

definition HTCGetCreditAllocation :: "htc_target \<Rightarrow> nat \<Rightarrow> nat" where
  "HTCGetCreditAllocation s service =
     fold (\<lambda>(sid, n) allocation. if sid = service then n else allocation) (ServiceTxAllocTable s) 0"

definition reset_endpoint :: "htc_endpoint \<Rightarrow> htc_endpoint" where
  "reset_endpoint e = e\<lparr>ServiceID := 0, MaxMsgLength := 0, MaxTxQueueDepth := 0, TxQueue := [], TxLookupQueue := [],
     RxBufferHoldQueue := [], TxCreditFlowEnabled := True, TxProcessCount := 0\<rparr>"

definition ResetEndpointStates :: "htc_target \<Rightarrow> htc_target" where
  "ResetEndpointStates s =
     s\<lparr>EndPoint := (\<lambda>i. if i < ENDPOINT_MAX then reset_endpoint (EndPoint s i) else EndPoint s i)\<rparr>"

text \<open>The state after \<open>HTCCreate\<close>: zeroed memory, reset endpoints, a pool of packet structures.\<close>

definition no_callbacks :: htc_callbacks where
  "no_callbacks = \<lparr>EpTxCompleteMultiple = False, EpRecv = False, EpSendFull = None, EpResumeTxQueue = False\<rparr>"

definition zero_endpoint :: htc_endpoint where
  "zero_endpoint = \<lparr>ServiceID = 0, EpCallBacks = no_callbacks, TxQueue = [], MaxTxQueueDepth = 0, MaxMsgLength = 0,
     UL_PipeID = 0, DL_PipeID = 0, ul_is_polled = False, ul_poll_timer_active = False, ul_outstanding_cnt = 0,
     TxLookupQueue = [], RxBufferHoldQueue = [], SeqNo = 0, TxProcessCount = 0, TxCredits = 0, TxCreditSize = 0,
     TxCreditsPerMaxMsg = 0, TxCreditFlowEnabled = False\<rparr>"

definition HTCCreate :: "nat \<times> nat \<Rightarrow> htc_target" where
  "HTCCreate default_pipe =
     upd_ep 0 (\<lambda>e. e\<lparr>UL_PipeID := fst default_pipe, DL_PipeID := snd default_pipe\<rparr>) (ResetEndpointStates
       \<lparr>EndPoint = (\<lambda>_. zero_endpoint), HTC_STOPPING = False, struct_pool = HTC_PACKET_CONTAINER_ALLOCATION,
        CtrlResponseBuffer = replicate HTC_MAX_CONTROL_MESSAGE_LENGTH 0, CtrlResponseLength = 0, CtrlResponseValid = False, CtrlResponseProcessing = False,
        TotalTransmitCredits = 0, ServiceTxAllocTable = replicate HTC_MAX_SERVICE_ALLOC_ENTRIES (0, 0),
        TargetCreditSize = 0, bundle_free_tx = [], bundle_next = 0, MaxMsgsPerHTCBundle = 0,
        AltDataCreditSize = 0, is_nodrop_pkt = False, enable_b2b = False, CE_send_cnt = 0, TX_comp_cnt = 0,
        htc_get_pkt_q_fail_count = 0, htc_pkt_q_empty_count = 0, htc_send_q_empty_count = 0, htc_log = []\<rparr>)"

end
