(* ===== verification/HtcSend.thy ===== *)
theory HtcSend
  imports HtcData
begin

unbundle bit_operations_syntax

text \<open>
  Sending (\<open>htc_send.c\<close>): taking packets off the queue of an endpoint as credits or bus entries allow,
  handing them to HIF one by one or in bundles, completions, credit reports, flushes.

  Locks make each operation one step. A client's callback that sends again, or a completion that
  HIF reports while it takes a buffer, is a step of its own that follows; \<open>TxProcessCount\<close> is
  therefore zero whenever an operation starts, but its test is kept.
\<close>

section \<open>Network buffers and completion\<close>

definition push_hdr :: "htc_packet \<Rightarrow> htc_packet" where
  "push_hdr p = p\<lparr>hdr_rooms := hdr_rooms p + 1\<rparr>"

definition RestoreTxPacket :: "htc_packet \<Rightarrow> htc_packet" where
  "RestoreTxPacket p =
     (if fixup_netbuf p then p\<lparr>fixup_netbuf := False, hdr_rooms := hdr_rooms p - 1\<rparr> else p)"

definition DoSendCompletion :: "nat \<Rightarrow> htc_packet list \<Rightarrow> htc_target \<Rightarrow> htc_target" where
  "DoSendCompletion i ps s =
     (if ps = [] then s
      else if EpTxCompleteMultiple (EpCallBacks (EndPoint s i)) then log_htc [Ev_tx_complete i ps] s
      else log_htc (map (\<lambda>p. Ev_tx_complete i [p]) ps) s)"

definition SendPacketCompletion :: "htc_packet \<Rightarrow> htc_target \<Rightarrow> htc_target" where
  "SendPacketCompletion p s = DoSendCompletion (hp_Endpoint p) [RestoreTxPacket p] s"

section \<open>Bundle buffers\<close>

text \<open>The buffers are allocated for credits of the size that the target announced.\<close>

definition bundle_buffer_size :: "htc_target \<Rightarrow> nat" where
  "bundle_buffer_size s = HTC_MAX_MSG_PER_BUNDLE_TX * TargetCreditSize s"

definition AllocateHTCBundleTxPacket :: "hif_env \<Rightarrow> htc_target \<Rightarrow> nat option \<times> htc_target" where
  "AllocateHTCBundleTxPacket env s =
     (case bundle_free_tx s of
        [] \<Rightarrow> if hif_mem_ok env then (Some (bundle_next s), s\<lparr>bundle_next := bundle_next s + 1\<rparr>) else (None, s)
      | b # bs \<Rightarrow> (Some b, s\<lparr>bundle_free_tx := bs\<rparr>))"

definition FreeHTCBundleTxPacket :: "nat \<Rightarrow> htc_target \<Rightarrow> htc_target" where
  "FreeHTCBundleTxPacket b s = s\<lparr>bundle_free_tx := b # bundle_free_tx s\<rparr>"

text \<open>\<open>HIFSend_head\<close>: the buffer with what is in it, and whether HIF took it.\<close>

definition HIFSend_head :: "hif_env \<Rightarrow> nat \<Rightarrow> tx_lookup \<Rightarrow> htc_target \<Rightarrow> bool \<times> htc_target" where
  "HIFSend_head env i x s =
     (let taken = hif_send_ok env (hif_sends s)
      in (taken, log_htc [Ev_send (UL_PipeID (EndPoint s i)) i x taken] s))"

definition lookup_enqueue :: "nat \<Rightarrow> tx_lookup \<Rightarrow> htc_target \<Rightarrow> htc_target" where
  "lookup_enqueue i x =
     upd_ep i (\<lambda>e. e\<lparr>TxLookupQueue := TxLookupQueue e @ [x], ul_outstanding_cnt := ul_outstanding_cnt e + 1\<rparr>)"

text \<open>The removal undoes the insertion just made, so the element is the last one of the queue.\<close>

definition lookup_remove :: "nat \<Rightarrow> htc_target \<Rightarrow> htc_target" where
  "lookup_remove i = upd_ep i (\<lambda>e. e\<lparr>TxLookupQueue := butlast (TxLookupQueue e)\<rparr>)"

definition HTCSendBundledNetbuf ::
  "hif_env \<Rightarrow> nat \<Rightarrow> nat \<Rightarrow> htc_packet list \<Rightarrow> htc_target \<Rightarrow> bool \<times> htc_target" where
  "HTCSendBundledNetbuf env i b ps s =
     (let (taken, s) = HIFSend_head env i (Lk_bundle b ps) (lookup_enqueue i (Lk_bundle b ps) s)
      in (taken, if taken then s else lookup_remove i s))"

text \<open>The padding behind a packet in a bundle.\<close>

definition creditPad :: "nat \<Rightarrow> nat \<Rightarrow> nat" where
  "creditPad credit_size transferLength =
     (let creditRemainder = transferLength mod credit_size in
      if creditRemainder \<noteq> 0 then
        (if transferLength < credit_size then credit_size - transferLength else creditRemainder)
      else 0)"

definition bundle_header :: "nat \<Rightarrow> htc_packet \<Rightarrow> htc_packet" where
  "bundle_header pad p =
     p\<lparr>hdr_words := (SM (ActualLength p) HTC_FRAME_HDR_PAYLOADLEN OR
          SM (SendFlags p OR HTC_FLAGS_SEND_BUNDLE) HTC_FRAME_HDR_FLAGS OR
          SM (hp_Endpoint p) HTC_FRAME_HDR_ENDPOINTID,
        SM (hp_SeqNo p) HTC_FRAME_HDR_CONTROLBYTES1 OR SM pad HTC_FRAME_HDR_RESERVED)\<rparr>"

text \<open>
  The loop of \<open>HTCIssuePacketsBundle\<close>: \<open>b\<close> is the current bundle buffer, \<open>saved\<close> what is in it and
  \<open>space\<close> what is left of it. The result is what stays in the caller's queue. A bundle is sent when
  the next packet does not fit; a single packet left over then is not bundled.
\<close>

fun bundle_loop ::
  "hif_env \<Rightarrow> nat \<Rightarrow> nat \<Rightarrow> htc_packet list \<Rightarrow> int \<Rightarrow> htc_packet list \<Rightarrow> htc_target \<Rightarrow> htc_packet list \<times> htc_target" where
  "bundle_loop env i b saved space [] s =
     (if saved \<noteq> [] then
        (let (taken, s) = HTCSendBundledNetbuf env i b saved s
         in if taken then ([], s) else (saved, FreeHTCBundleTxPacket b s))
      else ([], FreeHTCBundleTxPacket b s))"
| "bundle_loop env i b saved space (p # ps) s =
     (let csize = TxCreditSize (EndPoint s i);
          len = ActualLength p + HTC_HDR_LENGTH;
          pad = creditPad csize len;
          transferLength = len + pad
      in if space < int transferLength then
           (let (taken, s) = HTCSendBundledNetbuf env i b saved s
            in if \<not> taken then (saved @ p # ps, FreeHTCBundleTxPacket b s)
               else if length ps + 1 < HTC_MIN_MSG_PER_BUNDLE then (p # ps, s)
               else (case AllocateHTCBundleTxPacket env s of
                       (None, s) \<Rightarrow> (p # ps, s)
                     | (Some b, s) \<Rightarrow>
                         bundle_loop env i b [bundle_header pad p]
                           (int (HTC_MAX_MSG_PER_BUNDLE_TX * csize) - int transferLength) ps s))
         else bundle_loop env i b (saved @ [bundle_header pad p]) (space - int transferLength) ps s)"

definition HTCIssuePacketsBundle ::
  "hif_env \<Rightarrow> nat \<Rightarrow> htc_packet list \<Rightarrow> htc_target \<Rightarrow> htc_packet list \<times> htc_target" where
  "HTCIssuePacketsBundle env i ps s =
     (case AllocateHTCBundleTxPacket env s of
        (None, s) \<Rightarrow> (ps, s)
      | (Some b, s) \<Rightarrow> bundle_loop env i b [] (int (HTC_MAX_MSG_PER_BUNDLE_TX * TxCreditSize (EndPoint s i))) ps s)"

text \<open>The four ways through the loop for the next packet.\<close>

lemma bundle_loop_cases:
  obtains (full) taken t where "HTCSendBundledNetbuf env i b saved s = (taken, t)" "\<not> taken"
      "bundle_loop env i b saved space (p # ps) s = (saved @ p # ps, FreeHTCBundleTxPacket b t)"
  | (single) t u where "HTCSendBundledNetbuf env i b saved s = (True, t)"
      "u = t \<or> AllocateHTCBundleTxPacket env t = (None, u)"
      "bundle_loop env i b saved space (p # ps) s = (p # ps, u)"
  | (next_bundle) t b' u pad space' where "HTCSendBundledNetbuf env i b saved s = (True, t)"
      "AllocateHTCBundleTxPacket env t = (Some b', u)"
      "bundle_loop env i b saved space (p # ps) s = bundle_loop env i b' [bundle_header pad p] space' ps u"
  | (same_bundle) pad space' where
      "bundle_loop env i b saved space (p # ps) s = bundle_loop env i b (saved @ [bundle_header pad p]) space' ps s"
proof -
  obtain taken t where send: "HTCSendBundledNetbuf env i b saved s = (taken, t)"
    by (cases "HTCSendBundledNetbuf env i b saved s")
  obtain r u where alloc: "AllocateHTCBundleTxPacket env t = (r, u)"
    by (cases "AllocateHTCBundleTxPacket env t")
  let ?len = "ActualLength p + HTC_HDR_LENGTH"
  let ?pad = "creditPad (TxCreditSize (EndPoint s i)) ?len"
  let ?tl = "?len + ?pad"
  note unroll = bundle_loop.simps(2) [of env i b saved space p ps s, unfolded Let_def send prod.case alloc]
  consider "\<not> space < int ?tl" | "space < int ?tl" "\<not> taken" | "space < int ?tl" "taken" "length ps + 1 < HTC_MIN_MSG_PER_BUNDLE"
    | "space < int ?tl" "taken" "\<not> length ps + 1 < HTC_MIN_MSG_PER_BUNDLE" "r = None"
    | b' where "space < int ?tl" "taken" "\<not> length ps + 1 < HTC_MIN_MSG_PER_BUNDLE" "r = Some b'"
    by (cases r) blast+
  then show thesis
  proof cases
    case 1
    with unroll show thesis by (intro same_bundle [of ?pad "space - int ?tl"]) (simp add: Let_def)
  next
    case 2
    with unroll send show thesis by (intro full [of taken t]) (simp_all add: Let_def)
  next
    case 3
    with unroll send show thesis by (intro single [of t t]) (simp_all add: Let_def)
  next
    case 4
    with unroll send alloc show thesis by (intro single [of t u]) (simp_all add: Let_def)
  next
    case (5 b')
    with unroll send alloc show thesis
      by (intro next_bundle [of t b' u ?pad "int (HTC_MAX_MSG_PER_BUNDLE_TX * TxCreditSize (EndPoint s i)) - int ?tl"])
        (simp_all add: Let_def)
  qed
qed

lemma bundle_loop_length: "length (fst (bundle_loop env i b saved space ps s)) \<le> length saved + length ps"
proof (induction ps arbitrary: b saved space s)
  case (Cons p ps)
  show ?case
  proof (rule bundle_loop_cases [of env i b saved s space p ps])
    fix t b' u pad space'
    assume "bundle_loop env i b saved space (p # ps) s = bundle_loop env i b' [bundle_header pad p] space' ps u"
    then show ?thesis using Cons.IH [of b' "[bundle_header pad p]" space' u] by simp
  next
    fix pad space'
    assume "bundle_loop env i b saved space (p # ps) s = bundle_loop env i b (saved @ [bundle_header pad p]) space' ps s"
    then show ?thesis using Cons.IH [of b "saved @ [bundle_header pad p]" space' s] by simp
  qed simp_all
qed (simp add: Let_def split: prod.split)

lemma issue_bundle_length: "length (fst (HTCIssuePacketsBundle env i ps s)) \<le> length ps"
  using bundle_loop_length [of env i _ "[]"]
  by (auto simp: HTCIssuePacketsBundle_def split: prod.split option.split)

section \<open>Issuing packets\<close>

text \<open>The header of a packet that is sent alone, on an endpoint with credit flow control.\<close>

definition credit_header :: "htc_packet \<Rightarrow> htc_packet" where
  "credit_header p =
     p\<lparr>hdr_words := (SM (ActualLength p) HTC_FRAME_HDR_PAYLOADLEN OR SM (SendFlags p) HTC_FRAME_HDR_FLAGS OR
          SM (hp_Endpoint p) HTC_FRAME_HDR_ENDPOINTID,
        SM (hp_SeqNo p) HTC_FRAME_HDR_CONTROLBYTES1),
       fixup_netbuf := True\<rparr>"

text \<open>
  The loop of \<open>HTCIssuePackets\<close>; the result says whether a packet failed, and what is left in the
  queue. A packet that HIF does not take gets its credits back and stays at the head of the queue.
\<close>

function HTCIssuePackets :: "hif_env \<Rightarrow> nat \<Rightarrow> htc_packet list \<Rightarrow> htc_target \<Rightarrow> bool \<times> htc_packet list \<times> htc_target" where
  "HTCIssuePackets env i ps s =
     (let (ps', s) =
        (if TxCreditFlowEnabled (EndPoint s i) \<and> HTC_ENABLE_BUNDLE s \<and> length ps \<ge> HTC_MIN_MSG_PER_BUNDLE
         then HTCIssuePacketsBundle env i ps s else (ps, s))
      in case ps' of
           [] \<Rightarrow> (True, [], s)
         | p # ps' \<Rightarrow>
             (let p = (if TxCreditFlowEnabled (EndPoint s i) then credit_header p else p);
                  (taken, s) = HIFSend_head env i (Lk_packet p) (lookup_enqueue i (Lk_packet p) s)
              in if taken then HTCIssuePackets env i ps' (s\<lparr>CE_send_cnt := u32 (CE_send_cnt s + 1)\<rparr>)
                 else (False, p # ps',
                   upd_ep i (\<lambda>e. e\<lparr>ul_outstanding_cnt := ul_outstanding_cnt e - 1,
                                   TxCredits := TxCredits e + int (CreditsUsed p)\<rparr>) (lookup_remove i s))))"
  by pat_completeness auto
termination
proof (relation "measure (\<lambda>(env, i, ps, s). length ps)", goal_cases)
  case (2 env i ps s x ps1 s1 p ps' q y taken t)
  have "length (p # ps') \<le> length ps"
    using 2(1,2,3) issue_bundle_length [of env i ps s] by (auto split: if_splits) (metis fst_conv length_Cons)
  then show ?case by simp
qed simp

section \<open>Taking packets off the queue\<close>

definition creditsRequired :: "nat \<Rightarrow> htc_packet \<Rightarrow> nat" where
  "creditsRequired csize p =
     (let transferLength = ActualLength p + HTC_HDR_LENGTH
      in if transferLength \<le> csize then 1
         else transferLength div csize + (if transferLength mod csize \<noteq> 0 then 1 else 0))"

text \<open>The packets taken, those left, and the credits left. Endpoint 0 needs no credits.\<close>

fun credit_loop :: "nat \<Rightarrow> nat \<Rightarrow> nat \<Rightarrow> int \<Rightarrow> htc_packet list \<Rightarrow> htc_packet list \<times> htc_packet list \<times> int" where
  "credit_loop i csize per_max credits [] = ([], [], credits)"
| "credit_loop i csize per_max credits (p # ps) =
     (let required = (if i = 0 then 0 else creditsRequired csize p)
      in if i \<noteq> 0 \<and> credits < int required then ([], p # ps, credits)
         else
           (let credits = credits - int required;
                flags = (if i \<noteq> 0 \<and> credits \<le> int per_max then HTC_FLAGS_NEED_CREDIT_UPDATE else 0);
                (taken, rest, left) = credit_loop i csize per_max credits ps
            in (p\<lparr>CreditsUsed := required, SendFlags := flags\<rparr> # taken, rest, left)))"

definition GetHTCSendPacketsCreditBased :: "nat \<Rightarrow> htc_target \<Rightarrow> htc_packet list \<times> htc_target" where
  "GetHTCSendPacketsCreditBased i s =
     (let e = EndPoint s i;
          (taken, rest, credits) = credit_loop i (TxCreditSize e) (TxCreditsPerMaxMsg e) (TxCredits e) (TxQueue e)
      in (taken, upd_ep i (\<lambda>e. e\<lparr>TxQueue := rest, TxCredits := credits\<rparr>) s))"

fun resource_loop :: "int \<Rightarrow> htc_packet list \<Rightarrow> htc_packet list \<times> htc_packet list" where
  "resource_loop resources [] = ([], [])"
| "resource_loop resources (p # ps) =
     (if resources > 0 then
        (let frags = (if fixup_netbuf p then 1 else num_frags p);
             (taken, rest) = resource_loop (resources - int frags) ps
         in (p\<lparr>SendFlags := 0, CreditsUsed := 0\<rparr> # taken, rest))
      else ([], p # ps))"

definition GetHTCSendPackets :: "nat \<Rightarrow> int \<Rightarrow> htc_target \<Rightarrow> htc_packet list \<times> htc_target" where
  "GetHTCSendPackets i resources s =
     (let (taken, rest) = resource_loop resources (TxQueue (EndPoint s i))
      in (taken, upd_ep i (\<lambda>e. e\<lparr>TxQueue := rest\<rparr>) s))"

lemma credit_loop_parts:
  "credit_loop i csize per_max credits ps = (taken, rest, left) \<Longrightarrow>
    length taken + length rest = length ps \<and> (taken = [] \<longrightarrow> rest = ps)"
proof (induction ps arbitrary: credits taken rest left)
  case (Cons p ps)
  then show ?case by (auto simp: Let_def split: if_splits prod.splits)
qed simp

lemma resource_loop_parts:
  "resource_loop res ps = (taken, rest) \<Longrightarrow> length taken + length rest = length ps"
proof (induction ps arbitrary: res taken rest)
  case (Cons p ps)
  then show ?case by (auto simp: Let_def split: if_splits prod.splits)
qed simp

section \<open>What issuing leaves alone\<close>

definition txq :: "nat \<Rightarrow> htc_target \<Rightarrow> htc_packet list" where
  "txq i s = TxQueue (EndPoint s i)"

lemma txq_fields [simp]:
  "txq i (log_htc es s) = txq i s" "txq i (s\<lparr>bundle_next := b\<rparr>) = txq i s"
  "txq i (s\<lparr>bundle_free_tx := bs\<rparr>) = txq i s" "txq i (s\<lparr>CE_send_cnt := n\<rparr>) = txq i s"
  "txq i (s\<lparr>TX_comp_cnt := n\<rparr>) = txq i s" "txq i (s\<lparr>is_nodrop_pkt := c\<rparr>) = txq i s"
  by (simp_all add: txq_def)

lemma txq_upd: "(\<And>e. TxQueue (f e) = TxQueue e) \<Longrightarrow> txq i (upd_ep j f s) = txq i s"
  by (simp add: txq_def)

lemma txq_send [simp]: "txq i (snd (HIFSend_head env j x s)) = txq i s"
  by (simp add: HIFSend_head_def Let_def)

lemma txq_lookup [simp]: "txq i (lookup_enqueue j x s) = txq i s" "txq i (lookup_remove j s) = txq i s"
  by (simp_all add: lookup_enqueue_def lookup_remove_def txq_def)

lemma txq_bundle_buffers [simp]:
  "txq i (snd (AllocateHTCBundleTxPacket env s)) = txq i s" "txq i (FreeHTCBundleTxPacket b s) = txq i s"
  by (simp_all add: AllocateHTCBundleTxPacket_def FreeHTCBundleTxPacket_def split: list.split)

lemma txq_bundle_send [simp]: "txq i (snd (HTCSendBundledNetbuf env j b ps s)) = txq i s"
proof -
  obtain taken t where h: "HIFSend_head env j (Lk_bundle b ps) (lookup_enqueue j (Lk_bundle b ps) s) = (taken, t)"
    by fastforce
  then have "txq i t = txq i s" by (metis snd_conv txq_lookup(1) txq_send)
  then show ?thesis by (simp add: HTCSendBundledNetbuf_def h)
qed

lemma txq_D:
  "HIFSend_head env j x s = (r, t) \<Longrightarrow> txq i t = txq i s"
  "HTCSendBundledNetbuf env j b ps s = (r, t) \<Longrightarrow> txq i t = txq i s"
  "AllocateHTCBundleTxPacket env s = (q, t) \<Longrightarrow> txq i t = txq i s"
  using txq_send [of i env j x s] txq_bundle_send [of i env j b ps s] txq_bundle_buffers(1) [of i env s]
  by (simp_all del: txq_send txq_bundle_send txq_bundle_buffers)

lemma txq_bundle_loop: "txq i (snd (bundle_loop env j b saved space ps s)) = txq i s"
proof (induction ps arbitrary: b saved space s)
  case Nil
  show ?case
    by (auto simp: Let_def txq_D split: prod.split)
next
  case (Cons p ps)
  show ?case
  proof (rule bundle_loop_cases [of env j b saved s space p ps])
    fix taken t assume "HTCSendBundledNetbuf env j b saved s = (taken, t)"
      "bundle_loop env j b saved space (p # ps) s = (saved @ p # ps, FreeHTCBundleTxPacket b t)"
    then show ?thesis by (simp add: txq_D(2))
  next
    fix t u assume "HTCSendBundledNetbuf env j b saved s = (True, t)"
      "u = t \<or> AllocateHTCBundleTxPacket env t = (None, u)"
      "bundle_loop env j b saved space (p # ps) s = (p # ps, u)"
    then show ?thesis by (auto simp: txq_D(2,3))
  next
    fix t b' u pad space' assume "HTCSendBundledNetbuf env j b saved s = (True, t)"
      "AllocateHTCBundleTxPacket env t = (Some b', u)"
      "bundle_loop env j b saved space (p # ps) s = bundle_loop env j b' [bundle_header pad p] space' ps u"
    then show ?thesis by (simp add: Cons.IH txq_D(2,3))
  qed (simp add: Cons.IH)
qed

lemma txq_issue_bundle [simp]: "txq i (snd (HTCIssuePacketsBundle env j ps s)) = txq i s"
  by (auto simp: HTCIssuePacketsBundle_def txq_bundle_loop txq_D(3) split: prod.split option.split)

declare HTCIssuePackets.simps [simp del]

text \<open>One round of the loop: the bundles, then the first packet that was not bundled.\<close>

definition issue_bundles :: "hif_env \<Rightarrow> nat \<Rightarrow> htc_packet list \<Rightarrow> htc_target \<Rightarrow> htc_packet list \<times> htc_target" where
  "issue_bundles env i ps s =
     (if TxCreditFlowEnabled (EndPoint s i) \<and> HTC_ENABLE_BUNDLE s \<and> length ps \<ge> HTC_MIN_MSG_PER_BUNDLE
      then HTCIssuePacketsBundle env i ps s else (ps, s))"

definition issue_header :: "bool \<Rightarrow> htc_packet \<Rightarrow> htc_packet" where
  "issue_header flow p = (if flow then credit_header p else p)"

lemma issue_cases:
  obtains (drained) t where "issue_bundles env i ps s = ([], t)" "HTCIssuePackets env i ps s = (True, [], t)"
  | (sent) p ps' t u c where "issue_bundles env i ps s = (p # ps', t)" "length ps' < length ps"
      "HIFSend_head env i (Lk_packet (issue_header c p)) (lookup_enqueue i (Lk_packet (issue_header c p)) t) = (True, u)"
      "HTCIssuePackets env i ps s = HTCIssuePackets env i ps' (u\<lparr>CE_send_cnt := u32 (CE_send_cnt u + 1)\<rparr>)"
  | (failed) p ps' t u c where "issue_bundles env i ps s = (p # ps', t)"
      "HIFSend_head env i (Lk_packet (issue_header c p)) (lookup_enqueue i (Lk_packet (issue_header c p)) t) = (False, u)"
      "HTCIssuePackets env i ps s = (False, issue_header c p # ps',
         upd_ep i (\<lambda>e. e\<lparr>ul_outstanding_cnt := ul_outstanding_cnt e - 1,
           TxCredits := TxCredits e + int (CreditsUsed (issue_header c p))\<rparr>) (lookup_remove i u))"
proof -
  obtain qs t where b: "issue_bundles env i ps s = (qs, t)" by fastforce
  note unroll = HTCIssuePackets.simps [of env i ps s, folded issue_bundles_def, unfolded b prod.case Let_def]
  show thesis
  proof (cases qs)
    case Nil
    with b unroll show thesis by (intro drained) simp_all
  next
    case (Cons p ps')
    let ?c = "TxCreditFlowEnabled (EndPoint t i)"
    let ?p = "issue_header ?c p"
    obtain taken u where h: "HIFSend_head env i (Lk_packet ?p) (lookup_enqueue i (Lk_packet ?p) t) = (taken, u)"
      by fastforce
    have "length qs \<le> length ps"
      using b issue_bundle_length [of env i ps s] by (auto simp: issue_bundles_def split: if_splits)
    then have len: "length ps' < length ps" by (simp add: Cons)
    have unroll': "HTCIssuePackets env i ps s =
        (if taken then HTCIssuePackets env i ps' (u\<lparr>CE_send_cnt := u32 (CE_send_cnt u + 1)\<rparr>)
         else (False, ?p # ps', upd_ep i (\<lambda>e. e\<lparr>ul_outstanding_cnt := ul_outstanding_cnt e - 1,
           TxCredits := TxCredits e + int (CreditsUsed ?p)\<rparr>) (lookup_remove i u)))"
      using unroll h by (simp add: Cons issue_header_def)
    show thesis
    proof (cases taken)
      case True
      then show thesis using b h len unroll' by (intro sent [of p ps' t ?c u]) (simp_all add: Cons)
    next
      case False
      then show thesis using b h unroll' by (intro failed [of p ps' t ?c u]) (simp_all add: Cons)
    qed
  qed
qed

lemma txq_issue_bundles: "issue_bundles env j ps s = (qs, t) \<Longrightarrow> txq i t = txq i s"
  using txq_issue_bundle [of i env j ps s]
  by (auto simp: issue_bundles_def simp del: txq_issue_bundle split: if_splits)

lemma txq_issue [simp]: "txq i (snd (snd (HTCIssuePackets env j ps s))) = txq i s"
proof (induction ps arbitrary: s rule: length_induct)
  case (1 ps)
  show ?case
  proof (rule issue_cases [of env j ps s])
    fix t assume "issue_bundles env j ps s = ([], t)" "HTCIssuePackets env j ps s = (True, [], t)"
    then show ?thesis using txq_issue_bundles [of env j ps s] by simp
  next
    fix p ps' t u c
    assume b: "issue_bundles env j ps s = (p # ps', t)" and len: "length ps' < length ps"
      and h: "HIFSend_head env j (Lk_packet (issue_header c p)) (lookup_enqueue j (Lk_packet (issue_header c p)) t) = (True, u)"
      and e: "HTCIssuePackets env j ps s = HTCIssuePackets env j ps' (u\<lparr>CE_send_cnt := u32 (CE_send_cnt u + 1)\<rparr>)"
    have "txq i u = txq i s" by (simp add: txq_D(1) [OF h] txq_issue_bundles [OF b])
    then show ?thesis using 1 len by (simp add: e)
  next
    fix p ps' t u c
    assume b: "issue_bundles env j ps s = (p # ps', t)"
      and h: "HIFSend_head env j (Lk_packet (issue_header c p)) (lookup_enqueue j (Lk_packet (issue_header c p)) t) = (False, u)"
      and e: "HTCIssuePackets env j ps s = (False, issue_header c p # ps',
         upd_ep j (\<lambda>e. e\<lparr>ul_outstanding_cnt := ul_outstanding_cnt e - 1,
           TxCredits := TxCredits e + int (CreditsUsed (issue_header c p))\<rparr>) (lookup_remove j u))"
    have "txq i u = txq i s" by (simp add: txq_D(1) [OF h] txq_issue_bundles [OF b])
    then show ?thesis by (simp only: e snd_conv) (subst txq_upd, simp_all)
  qed
qed

end
