(* ===== verification/HtcOps.thy ===== *)
theory HtcOps
  imports HtcSend
begin

text \<open>
  The operations of \<open>htc_send.c\<close> on an endpoint: accepting packets into the queue, draining the queue,
  sending data, completions of the bus, credit reports, flushes.
\<close>

section \<open>Draining the queue\<close>

definition free_entries :: "hif_env \<Rightarrow> nat \<Rightarrow> htc_target \<Rightarrow> int" where
  "free_entries env i s = int (hif_free_entries env (UL_PipeID (EndPoint s i)) (hif_sends s))"

definition take_packets :: "nat \<Rightarrow> int \<Rightarrow> htc_target \<Rightarrow> htc_packet list \<times> htc_target" where
  "take_packets i tx_resources s =
     (if TxCreditFlowEnabled (EndPoint s i) then GetHTCSendPacketsCreditBased i s
      else GetHTCSendPackets i tx_resources s)"

lemma take_packets_parts:
  assumes "take_packets i res s = (taken, t)"
  shows "length taken + length (txq i t) = length (txq i s)"
  using assms credit_loop_parts resource_loop_parts
  by (fastforce simp: take_packets_def GetHTCSendPacketsCreditBased_def GetHTCSendPackets_def Let_def txq_def
      split: if_splits prod.splits)

text \<open>
  The loop of \<open>HTCTrySend\<close>. When HIF does not take a packet, the packets taken off the queue go back to
  its front; all but the first of them without their credits.
\<close>

function drain_queue :: "hif_env \<Rightarrow> nat \<Rightarrow> int \<Rightarrow> htc_target \<Rightarrow> htc_target" where
  "drain_queue env i tx_resources s =
     (if TxQueue (EndPoint s i) = [] then s
      else
        (let (taken, s) = take_packets i tx_resources s
         in if taken = [] then s
            else
              (let (ok, left, s) = HTCIssuePackets env i taken s
               in if \<not> ok then
                    log_htc [Ev_put_back i (tl left)] (upd_ep i (\<lambda>e. e\<lparr>TxQueue := left @ TxQueue e\<rparr>) s)
                  else drain_queue env i
                         (if TxCreditFlowEnabled (EndPoint s i) then tx_resources else free_entries env i s) s)))"
  by pat_completeness auto
termination
proof (relation "measure (\<lambda>(env, i, res, s). length (txq i s))", goal_cases)
  case (2 env i res s x taken t y ok z left u)
  have "HTCIssuePackets env i taken t = (ok, left, u)" using 2(5,6,7) by simp
  then have "txq i u = txq i t" using txq_issue [of i env i taken t] by simp
  moreover have "take_packets i res s = (taken, t)" using 2(2,3) by simp
  note take_packets_parts [OF this]
  moreover have "0 < length taken" using 2(4) by simp
  ultimately show ?case by (simp only: in_measure prod.case)
qed simp

declare drain_queue.simps [simp del]

section \<open>Accepting packets\<close>

datatype send_queue_result = HTC_SEND_QUEUE_OK | HTC_SEND_QUEUE_DROP

text \<open>
  What does not fit into the queue of an endpoint with a send-full callback is shown to the callback: the
  packets it keeps are accepted, the others stay with the caller.
\<close>

fun ask_send_full :: "(htc_packet \<Rightarrow> bool) \<Rightarrow> htc_packet list \<Rightarrow> htc_packet list \<times> htc_packet list" where
  "ask_send_full keep [] = ([], [])"
| "ask_send_full keep (p # ps) =
     (let p = RestoreTxPacket p; (kept, dropped) = ask_send_full keep ps
      in if keep p then (push_hdr p # kept, dropped) else (kept, p # dropped))"

definition accept_packets ::
  "nat \<Rightarrow> htc_packet list \<Rightarrow> htc_target \<Rightarrow> send_queue_result \<times> htc_packet list \<times> htc_packet list \<times> htc_target" where
  "accept_packets i ps s =
     (if ps = [] then (HTC_SEND_QUEUE_DROP, [], [], s\<lparr>htc_pkt_q_empty_count := u32 (htc_pkt_q_empty_count s + 1)\<rparr>)
      else
        let e = EndPoint s i;
            depth = int (length (TxQueue e));
            overflow = (if depth \<ge> MaxTxQueueDepth e then int (length ps)
                        else depth + int (length ps) - MaxTxQueueDepth e)
        in case (if overflow \<le> 0 then None else EpSendFull (EpCallBacks e)) of
             None \<Rightarrow> (HTC_SEND_QUEUE_OK, ps, [], s)
           | Some keep \<Rightarrow>
               let good = nat (int (length ps) - overflow);
                   (kept, dropped) = ask_send_full keep (drop good ps);
                   send_queue = take good ps @ kept
               in if send_queue = []
                  then (HTC_SEND_QUEUE_DROP, [], dropped, s\<lparr>htc_send_q_empty_count := u32 (htc_send_q_empty_count s + 1)\<rparr>)
                  else (HTC_SEND_QUEUE_OK, send_queue, dropped, s))"

definition enter_queue :: "nat \<Rightarrow> htc_packet list \<Rightarrow> htc_target \<Rightarrow> htc_target" where
  "enter_queue i ps s =
     (if ps = [] then s
      else if is_nodrop_pkt s then
        (log_htc [Ev_entered i ps] (upd_ep i (\<lambda>e. e\<lparr>TxQueue := ps @ TxQueue e\<rparr>) s))\<lparr>is_nodrop_pkt := False\<rparr>
      else log_htc [Ev_entered i ps] (upd_ep i (\<lambda>e. e\<lparr>TxQueue := TxQueue e @ ps\<rparr>) s))"

definition process_queue :: "(htc_target \<Rightarrow> htc_target) \<Rightarrow> nat \<Rightarrow> htc_target \<Rightarrow> htc_target" where
  "process_queue work i s =
     (let s = upd_ep i (\<lambda>e. e\<lparr>TxProcessCount := TxProcessCount e + 1\<rparr>) s
      in if TxProcessCount (EndPoint s i) > 1 then upd_ep i (\<lambda>e. e\<lparr>TxProcessCount := TxProcessCount e - 1\<rparr>) s
         else upd_ep i (\<lambda>e. e\<lparr>TxProcessCount := 0\<rparr>) (work s))"

text \<open>\<open>None\<close> for the caller's queue: only drain the queue of the endpoint.\<close>

definition HTCTrySend ::
  "hif_env \<Rightarrow> nat \<Rightarrow> htc_packet list option \<Rightarrow> htc_target \<Rightarrow> send_queue_result \<times> htc_packet list \<times> htc_target" where
  "HTCTrySend env i callers s =
     (case (case callers of None \<Rightarrow> (HTC_SEND_QUEUE_OK, [], [], s) | Some ps \<Rightarrow> accept_packets i ps s) of
        (HTC_SEND_QUEUE_DROP, _, rest, s) \<Rightarrow> (HTC_SEND_QUEUE_DROP, rest, s)
      | (HTC_SEND_QUEUE_OK, send_queue, rest, s) \<Rightarrow>
          let tx_resources = (if TxCreditFlowEnabled (EndPoint s i) then 0 else free_entries env i s)
          in (HTC_SEND_QUEUE_OK, rest, process_queue (drain_queue env i tx_resources) i (enter_queue i send_queue s)))"

definition retry_send :: "hif_env \<Rightarrow> nat \<Rightarrow> htc_target \<Rightarrow> htc_target" where
  "retry_send env i s = snd (snd (HTCTrySend env i None s))"

text \<open>The header room and the first header of a packet, with the next sequence number of the endpoint.\<close>

definition first_header :: "bool \<Rightarrow> nat \<Rightarrow> htc_packet \<Rightarrow> htc_packet" where
  "first_header flow seq p =
     (let p = push_hdr p
      in p\<lparr>hdr_words := (SM (ActualLength p) HTC_FRAME_HDR_PAYLOADLEN OR SM (hp_Endpoint p) HTC_FRAME_HDR_ENDPOINTID,
              SM seq HTC_FRAME_HDR_CONTROLBYTES1),
           hp_SeqNo := seq, fixup_netbuf := (if flow then fixup_netbuf p else True)\<rparr>)"

fun first_headers :: "bool \<Rightarrow> nat \<Rightarrow> htc_packet list \<Rightarrow> htc_packet list \<times> nat" where
  "first_headers flow seq [] = ([], seq)"
| "first_headers flow seq (p # ps) =
     (let (ps, next) = first_headers flow (u8 (seq + 1)) ps in (first_header flow seq p # ps, next))"

definition HTCSendPktsMultiple :: "hif_env \<Rightarrow> htc_packet list \<Rightarrow> htc_target \<Rightarrow> a_status \<times> htc_target" where
  "HTCSendPktsMultiple env ps s =
     (case ps of
        [] \<Rightarrow> (A_EINVAL, s\<lparr>htc_get_pkt_q_fail_count := u32 (htc_get_pkt_q_fail_count s + 1)\<rparr>)
      | p # _ \<Rightarrow>
          let i = hp_Endpoint p in
          if ServiceID (EndPoint s i) = 0 then (A_EINVAL, s)
          else
            let (ps, next) = first_headers (TxCreditFlowEnabled (EndPoint s i)) (SeqNo (EndPoint s i)) ps;
                (result, rest, s) = HTCTrySend env i (Some ps) (upd_ep i (\<lambda>e. e\<lparr>SeqNo := next\<rparr>) s);
                st = (if HTC_STOPPING s then A_ECANCELED_ST else A_NO_RESOURCE)
            in (A_OK_ST, DoSendCompletion i (map (\<lambda>p. (RestoreTxPacket p)\<lparr>hp_Status := Some st\<rparr>) rest) s))"

definition HTCSendPkt :: "hif_env \<Rightarrow> htc_packet \<Rightarrow> htc_target \<Rightarrow> a_status \<times> htc_target" where
  "HTCSendPkt env p s = HTCSendPktsMultiple env [p] s"

section \<open>Sending data\<close>

text \<open>
  \<open>HTCSendDataPkt\<close> without \<open>ATH_11AC_TXCOMPACT\<close>: the frame is appended to the queue of its endpoint, and
  unless more data is announced the queue is drained once. The credits of packets that HIF does not
  take are not given back. The status, which no caller uses, is left out. Without a packet (a credit report) the queue of endpoint 1 is drained.
\<close>

function data_issue :: "hif_env \<Rightarrow> nat \<Rightarrow> htc_packet list \<Rightarrow> htc_target \<Rightarrow> bool \<times> htc_packet list \<times> htc_target" where
  "data_issue env i ps s =
     (let (ps', s) = (if HTC_ENABLE_BUNDLE s \<and> length ps \<ge> HTC_MIN_MSG_PER_BUNDLE
                      then HTCIssuePacketsBundle env i ps s else (ps, s))
      in case ps' of
           [] \<Rightarrow> (True, [], s)
         | p # ps' \<Rightarrow>
             (let (taken, s) = HIFSend_head env i (Lk_packet p) (lookup_enqueue i (Lk_packet p) s)
              in if taken then data_issue env i ps' s
                 else (False, p # ps',
                   upd_ep i (\<lambda>e. e\<lparr>ul_outstanding_cnt := ul_outstanding_cnt e - 1\<rparr>) (lookup_remove i s))))"
  by pat_completeness auto
termination
proof (relation "measure (\<lambda>(env, i, ps, s). length ps)", goal_cases)
  case (2 env i ps s x ps1 s1 p ps' y taken t)
  have "length (p # ps') \<le> length ps"
    using 2(1,2,3) issue_bundle_length [of env i ps s] by (auto split: if_splits) (metis fst_conv length_Cons)
  then show ?case by simp
qed simp

declare data_issue.simps [simp del]

definition data_header :: "nat \<Rightarrow> nat \<Rightarrow> htc_packet \<Rightarrow> htc_packet" where
  "data_header csize seq p =
     (let room = usub 32 csize HTC_HDR_LENGTH;
          p = (if ActualLength p > room then p\<lparr>ActualLength := room\<rparr> else p)
      in p\<lparr>hdr_words := (SM (ActualLength p) HTC_FRAME_HDR_PAYLOADLEN OR SM (SendFlags p) HTC_FRAME_HDR_FLAGS OR
              SM (hp_Endpoint p) HTC_FRAME_HDR_ENDPOINTID,
            SM seq HTC_FRAME_HDR_CONTROLBYTES1),
           hp_SeqNo := seq\<rparr>)"

definition poll_timer_stop :: "nat \<Rightarrow> htc_target \<Rightarrow> htc_target" where
  "poll_timer_stop i s = (if ul_poll_timer_active (EndPoint s i) then upd_ep i (\<lambda>e. e\<lparr>ul_poll_timer_active := False\<rparr>) s else s)"

definition poll_timer_start :: "nat \<Rightarrow> htc_target \<Rightarrow> htc_target" where
  "poll_timer_start i s =
     (if ul_outstanding_cnt (EndPoint s i) \<noteq> 0 \<and> \<not> ul_poll_timer_active (EndPoint s i)
      then upd_ep i (\<lambda>e. e\<lparr>ul_poll_timer_active := True\<rparr>) s else s)"

definition data_take :: "hif_env \<Rightarrow> nat \<Rightarrow> htc_target \<Rightarrow> htc_packet list \<times> htc_target" where
  "data_take env i s =
     (if TxCreditFlowEnabled (EndPoint s i) then GetHTCSendPacketsCreditBased i s
      else if HTC_ENABLE_BUNDLE s then GetHTCSendPackets i HTC_MAX_TX_BUNDLE_SEND_LIMIT s
      else GetHTCSendPackets i (free_entries env i s) s)"

definition data_drain :: "hif_env \<Rightarrow> nat \<Rightarrow> htc_target \<Rightarrow> htc_target" where
  "data_drain env i s =
     (let (taken, s) = data_take env i s;
          (ok, left, s) = data_issue env i taken s
      in if ok then s
         else log_htc [Ev_put_back i left] (upd_ep i (\<lambda>e. e\<lparr>TxQueue := left @ TxQueue e\<rparr>) s))"

definition data_process :: "hif_env \<Rightarrow> nat \<Rightarrow> htc_target \<Rightarrow> htc_target" where
  "data_process env i s =
     (let s1 = upd_ep i (\<lambda>e. e\<lparr>TxProcessCount := TxProcessCount e + 1\<rparr>) s
      in if TxProcessCount (EndPoint s1 i) > 1 then upd_ep i (\<lambda>e. e\<lparr>TxProcessCount := TxProcessCount e - 1\<rparr>) s1
         else
           (let s2 = upd_ep i (\<lambda>e. e\<lparr>TxProcessCount := 0\<rparr>) (data_drain env i s1)
            in if ul_is_polled (EndPoint s2 i) then poll_timer_start i s2 else s2))"

definition HTCSendDataPkt :: "hif_env \<Rightarrow> htc_packet option \<Rightarrow> bool \<Rightarrow> htc_target \<Rightarrow> htc_target" where
  "HTCSendDataPkt env pkt more_data s =
     (case pkt of
        None \<Rightarrow> data_process env 1 s
      | Some p \<Rightarrow>
          let i = hp_Endpoint p;
              s = (if ul_is_polled (EndPoint s i) then poll_timer_stop i s else s);
              q = data_header (TxCreditSize (EndPoint s i)) (SeqNo (EndPoint s i)) p;
              s = log_htc [Ev_entered i [q]]
                    (upd_ep i (\<lambda>e. e\<lparr>SeqNo := u8 (SeqNo e + 1), TxQueue := TxQueue e @ [q]\<rparr>) s)
          in if HTC_ENABLE_BUNDLE s \<and> more_data then s else data_process env i s)"

section \<open>Completions\<close>

text \<open>The first buffer of the lookup queue that is the given one; the others keep their order.\<close>

fun lookup_take :: "netbuf \<Rightarrow> tx_lookup list \<Rightarrow> tx_lookup option \<times> tx_lookup list" where
  "lookup_take nb [] = (None, [])"
| "lookup_take nb (x # xs) =
     (if lk_netbuf x = nb then (Some x, xs) else (let (r, ys) = lookup_take nb xs in (r, x # ys)))"

definition HTCLookupTxPacket :: "nat \<Rightarrow> netbuf \<Rightarrow> htc_target \<Rightarrow> tx_lookup option \<times> htc_target" where
  "HTCLookupTxPacket i nb s =
     (let (r, xs) = lookup_take nb (TxLookupQueue (EndPoint s i))
      in (r, upd_ep i (\<lambda>e. e\<lparr>TxLookupQueue := xs, ul_outstanding_cnt := ul_outstanding_cnt e - 1\<rparr>) s))"

text \<open>
  The packets of a bundle complete with the status they have; the status that is set is the one of the
  bundle's own packet.
\<close>

definition HTCTxCompletionHandler :: "hif_env \<Rightarrow> netbuf \<Rightarrow> nat \<Rightarrow> htc_target \<Rightarrow> htc_target" where
  "HTCTxCompletionHandler env nb i s =
     (let (r, s) = HTCLookupTxPacket i nb (s\<lparr>TX_comp_cnt := u32 (TX_comp_cnt s + 1)\<rparr>);
          again = (\<lambda>s. if TxCreditFlowEnabled (EndPoint s i) then s else retry_send env i s)
      in case r of
           None \<Rightarrow> again s
         | Some (Lk_bundle b ps) \<Rightarrow> FreeHTCBundleTxPacket b (fold SendPacketCompletion ps s)
         | Some (Lk_packet p) \<Rightarrow> again (SendPacketCompletion (p\<lparr>hp_Status := Some A_OK_ST\<rparr>) s))"

definition HTCTxResourceAvailHandler :: "hif_env \<Rightarrow> nat \<Rightarrow> htc_target \<Rightarrow> htc_target" where
  "HTCTxResourceAvailHandler env pipe s =
     (case find (\<lambda>i. ServiceID (EndPoint s i) \<noteq> 0 \<and> UL_PipeID (EndPoint s i) = pipe) [0..<ENDPOINT_MAX] of
        None \<Rightarrow> s
      | Some i \<Rightarrow> retry_send env i s)"

definition resume_endpoint :: "hif_env \<Rightarrow> nat \<Rightarrow> htc_target \<Rightarrow> htc_target" where
  "resume_endpoint env i s =
     (if ServiceID (EndPoint s i) = 0 then s
      else retry_send env i (if EpResumeTxQueue (EpCallBacks (EndPoint s i)) then log_htc [Ev_resume i] s else s))"

definition HTCTxResumeAllHandler :: "hif_env \<Rightarrow> htc_target \<Rightarrow> htc_target" where
  "HTCTxResumeAllHandler env s = fold (resume_endpoint env) [0..<ENDPOINT_MAX] s"

definition HTCFlushEndpointTX :: "nat \<Rightarrow> htc_target \<Rightarrow> htc_target" where
  "HTCFlushEndpointTX i s =
     fold (\<lambda>p. SendPacketCompletion (p\<lparr>hp_Status := Some A_ECANCELED_ST\<rparr>)) (TxQueue (EndPoint s i))
       (log_htc [Ev_flushed i (length (TxQueue (EndPoint s i)))] (upd_ep i (\<lambda>e. e\<lparr>TxQueue := []\<rparr>) s))"

definition HTCFlushEndpoint :: "nat \<Rightarrow> htc_target \<Rightarrow> htc_target" where
  "HTCFlushEndpoint i s = (if ServiceID (EndPoint s i) = 0 then s else HTCFlushEndpointTX i s)"

definition HTCSetNodropPkt :: "bool \<Rightarrow> htc_target \<Rightarrow> htc_target" where
  "HTCSetNodropPkt isNodropPkt s = s\<lparr>is_nodrop_pkt := isNodropPkt\<rparr>"

section \<open>Credit reports\<close>

fun HTCProcessCreditRpt :: "hif_env \<Rightarrow> (nat \<times> nat) list \<Rightarrow> htc_target \<Rightarrow> htc_target" where
  "HTCProcessCreditRpt env [] s = s"
| "HTCProcessCreditRpt env ((rpt_ep_id, rpt_credits) # rs) s =
     (if rpt_ep_id \<ge> ENDPOINT_MAX then s
      else
        let s = log_htc [Ev_credits rpt_ep_id rpt_credits]
                  (upd_ep rpt_ep_id (\<lambda>e. e\<lparr>TxCredits := TxCredits e + int rpt_credits\<rparr>) s);
            e = EndPoint s rpt_ep_id;
            s = (if TxCredits e \<noteq> 0 \<and> TxQueue e \<noteq> [] then
                   (if ServiceID e = HTT_DATA_MSG_SVC then HTCSendDataPkt env None False s
                    else retry_send env rpt_ep_id s)
                 else s)
        in HTCProcessCreditRpt env rs s)"

end
