(* ===== verification/HtcCtl.thy ===== *)
theory HtcCtl
  imports HtcOps
begin

unbundle bit_operations_syntax

text \<open>
  Receiving and control (\<open>htc_recv.c\<close>, \<open>htc_services.c\<close>, \<open>htc.c\<close>): the trailer of a message with its
  credit reports, the dispatch of a message to its endpoint, the connection of services, start and stop.
  A received buffer is its bytes. A reply of the target to a control message arrives while the host waits
  for it or before; both are lists of received buffers.
\<close>

section \<open>Trailers\<close>

definition credit_report :: "8 word list \<Rightarrow> nat \<times> nat" where
  "credit_report bs = (HTC_GET_FIELD bs HTC_CREDIT_REPORT_ENDPOINTID, HTC_GET_FIELD bs HTC_CREDIT_REPORT_CREDITS)"

definition credit_reports :: "8 word list \<Rightarrow> (nat \<times> nat) list" where
  "credit_reports bs =
     map (\<lambda>k. credit_report (drop (k * HTC_CREDIT_REPORT_SIZE) bs)) [0..<length bs div HTC_CREDIT_REPORT_SIZE]"

definition HTC_RECORD_handler :: "hif_env \<Rightarrow> nat \<Rightarrow> 8 word list \<Rightarrow> htc_target \<Rightarrow> htc_target" where
  "HTC_RECORD_handler env htc_rec_id record s =
     (if htc_rec_id = HTC_RECORD_CREDITS then HTCProcessCreditRpt env (credit_reports record) s else s)"

function HTCProcessTrailer :: "hif_env \<Rightarrow> 8 word list \<Rightarrow> htc_target \<Rightarrow> a_status \<times> htc_target" where
  "HTCProcessTrailer env bs s =
     (if bs = [] then (A_OK_ST, s)
      else if length bs < HTC_RECORD_HDR_SIZE then (A_EPROTO, s)
      else
        let rest = drop HTC_RECORD_HDR_SIZE bs;
            htc_rec_len = HTC_GET_FIELD bs HTC_RECORD_HDR_LENGTH;
            htc_rec_id = HTC_GET_FIELD bs HTC_RECORD_HDR_RECORDID
        in if htc_rec_len > length rest then (A_EPROTO, s)
           else HTCProcessTrailer env (drop htc_rec_len rest)
                  (HTC_RECORD_handler env htc_rec_id (take htc_rec_len rest) s))"
  by pat_completeness auto
termination
  by (relation "measure (\<lambda>(env, bs, s). length bs)") (auto simp: HTC_RECORD_HDR_SIZE_def)

declare HTCProcessTrailer.simps [simp del]

section \<open>Received messages\<close>

text \<open>
  The completion of the polled sends, which the handler asks HIF for first, is a step of its own; here
  it only stops and starts the poll timer.
\<close>

definition HTCSendCompleteCheck :: "nat \<Rightarrow> htc_target \<Rightarrow> htc_target" where
  "HTCSendCompleteCheck i s = poll_timer_start i (poll_timer_stop i s)"

definition free_netbuf :: "htc_target \<Rightarrow> htc_target" where
  "free_netbuf = log_htc [Ev_nbuf_free]"

text \<open>A control message: \<open>bs\<close> is what follows the frame header, trailer included.\<close>

definition ctrl_message :: "8 word list \<Rightarrow> htc_target \<Rightarrow> a_status \<times> htc_target" where
  "ctrl_message bs s =
     (let message_id = HTC_GET_FIELD bs HTC_UNKNOWN_MSG_MESSAGEID in
      if message_id = HTC_MSG_SEND_SUSPEND_COMPLETE then (A_OK_ST, log_htc [Ev_suspend False, Ev_suspend_wow] s)
      else if message_id = HTC_MSG_NACK_SUSPEND then (A_OK_ST, log_htc [Ev_suspend True] s)
      else if CtrlResponseProcessing s then (A_ERROR_ST, log_htc [Ev_bug] s)
      else
        let len = min (length bs) HTC_MAX_CONTROL_MESSAGE_LENGTH
        in (A_OK_ST, log_htc [Ev_ctrl_msg]
             (s\<lparr>CtrlResponseLength := len, CtrlResponseBuffer := take len bs @ drop len (CtrlResponseBuffer s),
               CtrlResponseProcessing := True, CtrlResponseValid := True\<rparr>)))"

text \<open>
  A packet for a service: its structure comes from the pool and goes back to it. Without a receive
  callback the frame is dropped.
\<close>

definition recv_packet :: "nat \<Rightarrow> 8 word list \<Rightarrow> nat \<Rightarrow> htc_target \<Rightarrow> a_status \<times> htc_target" where
  "recv_packet i bs trailerlen s =
     (if struct_pool s = 0 then (A_NO_RESOURCE, free_netbuf s)
      else
        let len = length bs - HTC_HDR_LENGTH - trailerlen
        in (A_OK_ST, log_htc [if EpRecv (EpCallBacks (EndPoint s i)) then Ev_recv i len (take len (drop HTC_HDR_LENGTH bs))
                              else Ev_recv_lost i] s))"

definition recv_payload :: "nat \<Rightarrow> 8 word list \<Rightarrow> nat \<Rightarrow> nat \<Rightarrow> htc_target \<Rightarrow> a_status \<times> htc_target" where
  "recv_payload i bs payloadLen trailerlen s =
     (if payloadLen \<le> trailerlen then (A_OK_ST, free_netbuf s)
      else if i = 0 then
        (let (st, s) = ctrl_message (drop HTC_HDR_LENGTH bs) s in (st, free_netbuf s))
      else recv_packet i bs trailerlen s)"

definition HTCRxCompletionHandler :: "hif_env \<Rightarrow> 8 word list \<Rightarrow> htc_target \<Rightarrow> a_status \<times> htc_target" where
  "HTCRxCompletionHandler env bs s =
     (let htc_ep_id = HTC_GET_FIELD bs HTC_FRAME_HDR_ENDPOINTID in
      if htc_ep_id \<ge> ENDPOINT_MAX then (A_ERROR_ST, free_netbuf (log_htc [Ev_bug] s))
      else
        let s = (if ul_is_polled (EndPoint s htc_ep_id) then HTCSendCompleteCheck htc_ep_id s else s);
            payloadLen = HTC_GET_FIELD bs HTC_FRAME_HDR_PAYLOADLEN
        in if length bs < payloadLen + HTC_HDR_LENGTH then (A_ERROR_ST, free_netbuf (log_htc [Ev_bug] s))
           else if HTC_GET_FIELD bs HTC_FRAME_HDR_FLAGS AND HTC_FLAGS_RECV_TRAILER = 0
           then recv_payload htc_ep_id bs payloadLen 0 s
           else
             let temp = HTC_GET_FIELD bs HTC_FRAME_HDR_CONTROLBYTES0
             in if temp < HTC_RECORD_HDR_SIZE \<or> temp > payloadLen then (A_EPROTO, free_netbuf s)
                else
                  (case HTCProcessTrailer env (take temp (drop (HTC_HDR_LENGTH + payloadLen - temp) bs)) s of
                     (A_OK_ST, s) \<Rightarrow> recv_payload htc_ep_id bs payloadLen temp s
                   | (st, s) \<Rightarrow> (st, free_netbuf s)))"

text \<open>Buffers that a client gives for reception; HTC keeps them until it is stopped.\<close>

definition HTCAddReceivePktMultiple :: "htc_packet list \<Rightarrow> htc_target \<Rightarrow> a_status \<times> htc_target" where
  "HTCAddReceivePktMultiple ps s =
     (case ps of
        [] \<Rightarrow> (A_EINVAL, s)
      | p # _ \<Rightarrow>
          let i = hp_Endpoint p in
          if HTC_STOPPING s then
            (A_ERROR_ST, log_htc (map (\<lambda>p. Ev_rx_buffer i (p\<lparr>hp_Status := Some A_ECANCELED_ST\<rparr>)) ps) s)
          else (A_OK_ST, upd_ep i (\<lambda>e. e\<lparr>RxBufferHoldQueue := RxBufferHoldQueue e @ ps\<rparr>) s))"

definition HTCFlushRxHoldQueue :: "nat \<Rightarrow> htc_target \<Rightarrow> htc_target" where
  "HTCFlushRxHoldQueue i s =
     log_htc (map (\<lambda>p. Ev_rx_buffer i (p\<lparr>hp_Status := Some A_ECANCELED_ST, ActualLength := 0\<rparr>))
                (RxBufferHoldQueue (EndPoint s i)))
       (upd_ep i (\<lambda>e. e\<lparr>RxBufferHoldQueue := []\<rparr>) s)"

section \<open>Waiting for a reply\<close>

definition receive_all :: "hif_env \<Rightarrow> 8 word list list \<Rightarrow> htc_target \<Rightarrow> htc_target" where
  "receive_all env bufs s = fold (\<lambda>bs s. snd (HTCRxCompletionHandler env bs s)) bufs s"

text \<open>The completion is initialised again before the wait, so a reply that came earlier does not count.\<close>

definition HTCWaitRecvCtrlMessage :: "hif_env \<Rightarrow> 8 word list list \<Rightarrow> htc_target \<Rightarrow> a_status \<times> htc_target" where
  "HTCWaitRecvCtrlMessage env arriving s =
     (let s = receive_all env arriving (s\<lparr>CtrlResponseValid := False\<rparr>)
      in if CtrlResponseValid s then (A_OK_ST, s\<lparr>CtrlResponseValid := False\<rparr>) else (A_ERROR_ST, s))"

section \<open>Connecting services\<close>

text \<open>A request: service, flags, length of the meta data, callbacks and queue depth.\<close>

record htc_connect_req =
  cr_ServiceID :: nat
  cr_ConnectionFlags :: nat
  cr_MetaDataLength :: nat
  cr_EpCallbacks :: htc_callbacks
  cr_MaxSendQueueDepth :: int

text \<open>The packet of a control message; \<open>id\<close> is its identity.\<close>

definition ctrl_packet :: "nat \<Rightarrow> nat \<Rightarrow> htc_packet" where
  "ctrl_packet pid len =
     \<lparr>hp_id = pid, ActualLength = len, hp_Endpoint = 0, hp_Status = None, hp_Tag = HTC_SERVICE_TX_PACKET_TAG,
      CreditsUsed = 0, SendFlags = 0, hp_SeqNo = 0, fixup_netbuf = False, num_frags = 1, hdr_rooms = 0,
      hdr_words = (0, 0)\<rparr>"

definition flow_control_off :: "hif_env \<Rightarrow> htc_connect_req \<Rightarrow> bool" where
  "flow_control_off env req \<longleftrightarrow>
     cr_ServiceID req \<noteq> HTC_CTRL_RSVD_SVC \<and>
     (cr_ConnectionFlags req AND HTC_CONNECT_FLAGS_DISABLE_CREDIT_FLOW_CTRL \<noteq> 0 \<or>
      \<not> htc_credit_flow env \<and> cr_ServiceID req \<noteq> WMI_CONTROL_SVC)"

text \<open>
  Setting up the endpoint that the target assigned. The status of the parameter checks is \<open>A_EPROTO\<close>;
  an endpoint whose service has no pipes stays marked as in use.
\<close>

definition setup_endpoint ::
  "hif_env \<Rightarrow> htc_connect_req \<Rightarrow> nat \<Rightarrow> nat \<Rightarrow> nat \<Rightarrow> htc_target \<Rightarrow> a_status \<times> htc_target" where
  "setup_endpoint env req i maxMsgSize txAlloc s =
     (if i \<ge> ENDPOINT_MAX \<or> maxMsgSize = 0 \<or> ServiceID (EndPoint s i) \<noteq> 0 then (A_EPROTO, s)
      else
        let credit_size = TargetCreditSize s;
            s = log_htc [Ev_alloc i txAlloc] (upd_ep i (\<lambda>e. e\<lparr>
                  ServiceID := cr_ServiceID req, MaxTxQueueDepth := cr_MaxSendQueueDepth req,
                  MaxMsgLength := maxMsgSize, TxCredits := int txAlloc, TxCreditSize := credit_size,
                  TxCreditsPerMaxMsg := maxMsgSize div credit_size + (if maxMsgSize mod credit_size \<noteq> 0 then 1 else 0),
                  EpCallBacks := cr_EpCallbacks req\<rparr>) s)
        in case hif_pipes env (cr_ServiceID req) of
             None \<Rightarrow> (A_ERROR_ST, s)
           | Some (ul, dl, polled) \<Rightarrow>
               (A_OK_ST, upd_ep i (\<lambda>e. e\<lparr>
                  UL_PipeID := ul, DL_PipeID := dl, ul_is_polled := polled,
                  TxCreditSize := (if AltDataCreditSize s \<noteq> 0 \<and> HIFIsMailBoxSwapped env \<and> ul = 1 \<and> dl = 0
                                   then AltDataCreditSize s else TxCreditSize e),
                  TxCreditFlowEnabled := (if flow_control_off env req then False else TxCreditFlowEnabled e)\<rparr>) s))"

text \<open>
  \<open>pid\<close> is the packet of the request, \<open>early\<close> and \<open>arriving\<close> are the buffers received before and
  during the wait. A refused request, like every failure after the reply was received, leaves
  \<open>CtrlResponseProcessing\<close> set (\<open>QCA_TX_HTT2_SUPPORT\<close> is not defined for SDIO).
\<close>

definition HTCConnectService ::
  "hif_env \<Rightarrow> nat \<Rightarrow> 8 word list list \<Rightarrow> 8 word list list \<Rightarrow> htc_connect_req \<Rightarrow> htc_target \<Rightarrow> a_status \<times> htc_target" where
  "HTCConnectService env pid early arriving req s =
     (if cr_ServiceID req = HTC_CTRL_RSVD_SVC
      then setup_endpoint env req 0 HTC_MAX_CONTROL_MESSAGE_LENGTH 0 s
      else
        let txAlloc = HTCGetCreditAllocation s (cr_ServiceID req) in
        if \<not> hif_mem_ok env then (A_NO_MEMORY, s)
        else
          let p = ctrl_packet pid (HTC_CONNECT_SERVICE_MSG_SIZE + cr_MetaDataLength req);
              (sent, s) = HTCSendPkt env p s
          in if sent \<noteq> A_OK_ST then (sent, s)
             else
               let (waited, s) = HTCWaitRecvCtrlMessage env arriving (receive_all env early s);
                   rsp = CtrlResponseBuffer s
               in if waited \<noteq> A_OK_ST then (waited, s)
                  else if HTC_GET_FIELD rsp HTC_CONNECT_SERVICE_RESPONSE_MSG_MESSAGEID
                            \<noteq> HTC_MSG_CONNECT_SERVICE_RESPONSE_ID \<or>
                          CtrlResponseLength s < HTC_CONNECT_SERVICE_RESPONSE_MSG_SIZE then (A_EPROTO, s)
                  else if HTC_GET_FIELD rsp HTC_CONNECT_SERVICE_RESPONSE_MSG_STATUS \<noteq> HTC_SERVICE_SUCCESS
                  then (A_EPROTO, s)
                  else setup_endpoint env req (HTC_GET_FIELD rsp HTC_CONNECT_SERVICE_RESPONSE_MSG_ENDPOINTID)
                         (HTC_GET_FIELD rsp HTC_CONNECT_SERVICE_RESPONSE_MSG_MAXMSGSIZE) txAlloc
                         (s\<lparr>enable_b2b := (HTC_GET_FIELD rsp HTC_CONNECT_SERVICE_RESPONSE_MSG_LOOKAHEADV2 = 1),
                            CtrlResponseProcessing := False\<rparr>))"

definition htc_disconnect_service :: "nat \<Rightarrow> htc_target \<Rightarrow> htc_target" where
  "htc_disconnect_service i = upd_ep i (\<lambda>e. e\<lparr>EpCallBacks := (EpCallBacks e)\<lparr>EpRecv := False\<rparr>\<rparr>)"

section \<open>Start and stop\<close>

definition ctrl_service_req :: htc_connect_req where
  "ctrl_service_req = \<lparr>cr_ServiceID = HTC_CTRL_RSVD_SVC, cr_ConnectionFlags = 0, cr_MetaDataLength = 0,
     cr_EpCallbacks = no_callbacks\<lparr>EpRecv := True\<rparr>, cr_MaxSendQueueDepth = NUM_CONTROL_TX_BUFFERS\<rparr>"

definition HTCWaitTarget :: "hif_env \<Rightarrow> 8 word list list \<Rightarrow> 8 word list list \<Rightarrow> htc_target \<Rightarrow> a_status \<times> htc_target" where
  "HTCWaitTarget env early arriving s =
     (if \<not> hif_start_ok env then (A_ERROR_ST, s)
      else
        let (waited, s) = HTCWaitRecvCtrlMessage env arriving (receive_all env early s);
            rdy = CtrlResponseBuffer s
        in if waited \<noteq> A_OK_ST then (waited, s)
           else if CtrlResponseLength s < HTC_READY_EX_MSG_SIZE then (A_ECOMM, s)
           else if HTC_GET_FIELD rdy HTC_READY_MSG_MESSAGEID \<noteq> HTC_MSG_READY_ID then (A_ECOMM, s)
           else
             let s = s\<lparr>TotalTransmitCredits := HTC_GET_FIELD rdy HTC_READY_MSG_CREDITCOUNT,
                       TargetCreditSize := HTC_GET_FIELD rdy HTC_READY_MSG_CREDITSIZE,
                       MaxMsgsPerHTCBundle := max 1 (HTC_GET_FIELD rdy HTC_READY_EX_MSG_MAXMSGSPERHTCBUNDLE),
                       AltDataCreditSize := HTC_GET_FIELD rdy HTC_READY_EX_MSG_ALTDATACREDITSIZE\<rparr>
             in if TotalTransmitCredits s = 0 \<or> TargetCreditSize s = 0 then (A_ECOMM, s)
                else HTCConnectService env 0 [] [] ctrl_service_req
                       (HTCSetupTargetBufferAssignments env (s\<lparr>CtrlResponseProcessing := False\<rparr>)))"

definition HTC_SETUP_COMPLETE_EX_MSG_SIZE :: nat where "HTC_SETUP_COMPLETE_EX_MSG_SIZE = 12"
definition HTC_MAX_MSG_PER_BUNDLE_RX :: nat where "HTC_MAX_MSG_PER_BUNDLE_RX = 64"

definition HTCStart :: "hif_env \<Rightarrow> nat \<Rightarrow> htc_target \<Rightarrow> a_status \<times> htc_target" where
  "HTCStart env pid s =
     (if \<not> hif_mem_ok env then (A_NO_MEMORY, s)
      else HTCSendPkt env (ctrl_packet pid HTC_SETUP_COMPLETE_EX_MSG_SIZE)
             (if HTC_ENABLE_BUNDLE s then log_htc [Ev_bundle_mode HTC_MAX_MSG_PER_BUNDLE_RX] s else s))"

definition flush_endpoint :: "nat \<Rightarrow> htc_target \<Rightarrow> htc_target" where
  "flush_endpoint i s = HTCFlushEndpointTX i (HTCFlushRxHoldQueue i s)"

definition HTCStop :: "htc_target \<Rightarrow> htc_target" where
  "HTCStop s = ResetEndpointStates (log_htc [Ev_hif_stop] (fold flush_endpoint [0..<ENDPOINT_MAX] s))"

definition HTCFlushSurpriseRemove :: "htc_target \<Rightarrow> htc_target" where
  "HTCFlushSurpriseRemove s = ResetEndpointStates (log_htc [Ev_hif_flush] (fold flush_endpoint [0..<ENDPOINT_MAX] s))"

end
