(* ===== verification/HtcTxInv.thy ===== *)
theory HtcTxInv
  imports HtcCtl
begin

text \<open>
  The books of HTC: which packets entered the queue of an endpoint, which were handed to HIF, which
  completed, and where the credits of an endpoint went. Each operation is shown to keep them.
\<close>

section \<open>The books\<close>

fun ev_issued :: "nat \<Rightarrow> htc_event \<Rightarrow> tx_lookup list" where
  "ev_issued i (Ev_send pipe j x ok) = (if j = i \<and> ok then [x] else [])"
| "ev_issued i _ = []"

fun ev_put_back :: "nat \<Rightarrow> htc_event \<Rightarrow> htc_packet list" where
  "ev_put_back i (Ev_put_back j ps) = (if j = i then ps else [])"
| "ev_put_back i _ = []"

fun ev_completed :: "htc_event \<Rightarrow> htc_packet list" where
  "ev_completed (Ev_tx_complete i ps) = ps"
| "ev_completed _ = []"

text \<open>The credits an endpoint was given since its service was connected.\<close>

fun ev_given :: "nat \<Rightarrow> htc_event \<Rightarrow> nat \<Rightarrow> nat" where
  "ev_given i (Ev_credits j n) g = (if j = i then g + n else g)"
| "ev_given i (Ev_alloc j n) g = (if j = i then n else g)"
| "ev_given i _ g = g"

text \<open>The packets an endpoint accepted, less those flushed from its queue.\<close>

fun ev_accepted :: "nat \<Rightarrow> htc_event \<Rightarrow> nat list \<Rightarrow> nat list" where
  "ev_accepted i (Ev_entered j ps) acc = (if j = i then acc @ map hp_id ps else acc)"
| "ev_accepted i (Ev_flushed j n) acc = (if j = i then take (length acc - n) acc else acc)"
| "ev_accepted i _ acc = acc"

definition issued :: "nat \<Rightarrow> htc_target \<Rightarrow> tx_lookup list" where
  "issued i s = concat (map (ev_issued i) (htc_log s))"
definition put_back :: "nat \<Rightarrow> htc_target \<Rightarrow> htc_packet list" where
  "put_back i s = concat (map (ev_put_back i) (htc_log s))"
definition completed :: "htc_target \<Rightarrow> htc_packet list" where
  "completed s = concat (map ev_completed (htc_log s))"
definition given :: "nat \<Rightarrow> htc_target \<Rightarrow> nat" where
  "given i s = fold (ev_given i) (htc_log s) 0"
definition accepted :: "nat \<Rightarrow> htc_target \<Rightarrow> nat list" where
  "accepted i s = fold (ev_accepted i) (htc_log s) []"

definition lookups :: "nat \<Rightarrow> htc_target \<Rightarrow> tx_lookup list" where
  "lookups i s = TxLookupQueue (EndPoint s i)"
definition credits :: "nat \<Rightarrow> htc_target \<Rightarrow> int" where
  "credits i s = TxCredits (EndPoint s i)"

definition pkts :: "tx_lookup list \<Rightarrow> htc_packet list" where
  "pkts xs = concat (map lk_packets xs)"
abbreviation ids :: "htc_packet list \<Rightarrow> nat list" where "ids \<equiv> map hp_id"
definition used :: "htc_packet list \<Rightarrow> int" where
  "used ps = (\<Sum>p\<leftarrow>ps. int (CreditsUsed p))"
definition tag :: "htc_packet \<Rightarrow> nat \<times> nat" where
  "tag p = (hp_id p, CreditsUsed p)"

lemma pkts_simps [simp]: "pkts [] = []" "pkts (x # xs) = lk_packets x @ pkts xs" "pkts (xs @ ys) = pkts xs @ pkts ys"
  by (simp_all add: pkts_def)

lemma used_simps [simp]: "used [] = 0" "used (p # ps) = int (CreditsUsed p) + used ps" "used (ps @ qs) = used ps + used qs"
  by (simp_all add: used_def)

lemma used_nonneg: "0 \<le> used ps"
  by (induction ps) simp_all

lemma tagged: "map tag ps = map tag qs \<Longrightarrow> ids ps = ids qs \<and> used ps = used qs"
proof -
  assume eq: "map tag ps = map tag qs"
  have "map fst (map tag ps) = map fst (map tag qs)" by (simp only: eq)
  moreover have "sum_list (map (int \<circ> snd) (map tag ps)) = sum_list (map (int \<circ> snd) (map tag qs))" by (simp only: eq)
  ultimately show ?thesis by (simp add: tag_def comp_def used_def)
qed

section \<open>What an operation on an endpoint leaves alone\<close>

definition ctl :: "htc_target \<Rightarrow> bool \<times> bool \<times> nat \<times> 8 word list \<times> nat" where
  "ctl s = (CtrlResponseProcessing s, CtrlResponseValid s, struct_pool s, CtrlResponseBuffer s, CtrlResponseLength s)"

text \<open>Nothing is accepted, completed or given; only endpoint \<open>i\<close> changes.\<close>

definition frame :: "nat \<Rightarrow> htc_target \<Rightarrow> htc_target \<Rightarrow> bool" where
  "frame i s s' \<longleftrightarrow> ctl s' = ctl s \<and> is_nodrop_pkt s' = is_nodrop_pkt s \<and> completed s' = completed s \<and>
     (\<forall>j. accepted j s' = accepted j s \<and> given j s' = given j s) \<and>
     (\<forall>j. j \<noteq> i \<longrightarrow> EndPoint s' j = EndPoint s j \<and> issued j s' = issued j s \<and> put_back j s' = put_back j s) \<and>
     ServiceID (EndPoint s' i) = ServiceID (EndPoint s i)"

lemma frame_trans: "frame i s t \<Longrightarrow> frame i t u \<Longrightarrow> frame i s u"
  by (simp add: frame_def)

lemma frame_refl [simp]: "frame i s s"
  by (simp add: frame_def)

lemma frame_upd: "(\<And>e. ServiceID (f e) = ServiceID e) \<Longrightarrow> frame i s (upd_ep i f s)"
  by (simp add: frame_def ctl_def completed_def accepted_def given_def issued_def put_back_def)

lemmas book_defs = issued_def put_back_def completed_def given_def accepted_def lookups_def credits_def txq_def

text \<open>
  Issuing: of the packets \<open>ps\<close> the ones in front are handed to HIF, in order and with their credits,
  and \<open>left\<close> are still in hand; \<open>back\<close> credits are given back.
\<close>

definition issuing :: "nat \<Rightarrow> htc_packet list \<Rightarrow> htc_packet list \<Rightarrow> int \<Rightarrow> htc_target \<Rightarrow> htc_target \<Rightarrow> bool" where
  "issuing i ps left back s s' \<longleftrightarrow> frame i s s' \<and> put_back i s' = put_back i s \<and> txq i s' = txq i s \<and>
     credits i s' = credits i s + back \<and>
     (\<exists>xs. issued i s' = issued i s @ xs \<and> lookups i s' = lookups i s @ xs \<and> map tag (pkts xs @ left) = map tag ps)"

lemma issuing_refl: "map tag left = map tag ps \<Longrightarrow> issuing i ps left 0 s s"
  by (simp add: issuing_def)

lemma issuing_trans:
  assumes "issuing i ps mid b s t" and "issuing i mid left c t u"
  shows "issuing i ps left (b + c) s u"
proof -
  obtain xs where xs: "issued i t = issued i s @ xs" "lookups i t = lookups i s @ xs" "map tag (pkts xs @ mid) = map tag ps"
    using assms(1) by (auto simp: issuing_def)
  obtain ys where ys: "issued i u = issued i t @ ys" "lookups i u = lookups i t @ ys" "map tag (pkts ys @ left) = map tag mid"
    using assms(2) by (auto simp: issuing_def)
  have "issued i u = issued i s @ (xs @ ys)" "lookups i u = lookups i s @ (xs @ ys)" "map tag (pkts (xs @ ys) @ left) = map tag ps"
    using xs ys by simp_all
  then have "\<exists>xs. issued i u = issued i s @ xs \<and> lookups i u = lookups i s @ xs \<and> map tag (pkts xs @ left) = map tag ps"
    by blast
  then show ?thesis using assms frame_trans by (auto simp: issuing_def)
qed

lemma issuing_tags: "issuing i ps left b s t \<Longrightarrow> map tag ps = map tag qs \<Longrightarrow> map tag left = map tag rest \<Longrightarrow>
    issuing i qs rest b s t"
  by (simp add: issuing_def)

text \<open>A buffer that HIF takes, and one that it does not take.\<close>

lemma issuing_send:
  assumes "HIFSend_head env i x (lookup_enqueue i x s) = (True, t)" and "map tag (lk_packets x) = map tag ps"
  shows "issuing i (ps @ left) left 0 s t"
  using assms
  by (auto simp: HIFSend_head_def Let_def lookup_enqueue_def issuing_def frame_def ctl_def book_defs)

lemma issuing_refused:
  assumes "HIFSend_head env i x (lookup_enqueue i x s) = (False, t)"
  shows "issuing i ps ps 0 s (lookup_remove i t)"
  using assms
  by (auto simp: HIFSend_head_def Let_def lookup_enqueue_def lookup_remove_def issuing_def frame_def ctl_def book_defs)

lemma issuing_fields:
  "issuing i ps left b s (t\<lparr>CE_send_cnt := n\<rparr>) = issuing i ps left b s t"
  "issuing i ps left b s (t\<lparr>bundle_free_tx := bs\<rparr>) = issuing i ps left b s t"
  "issuing i ps left b s (t\<lparr>bundle_next := n\<rparr>) = issuing i ps left b s t"
  "issuing i ps left b (s\<lparr>bundle_free_tx := bs\<rparr>) t = issuing i ps left b s t"
  "issuing i ps left b (s\<lparr>bundle_next := n\<rparr>) t = issuing i ps left b s t"
  by (simp_all add: issuing_def frame_def ctl_def book_defs)

lemma issuing_buffers:
  "issuing i ps left b s (FreeHTCBundleTxPacket k t) = issuing i ps left b s t"
  "AllocateHTCBundleTxPacket env t = (r, u) \<Longrightarrow> issuing i ps left b s u = issuing i ps left b s t"
  "AllocateHTCBundleTxPacket env s = (r, u) \<Longrightarrow> issuing i ps left b u t = issuing i ps left b s t"
  by (auto simp: FreeHTCBundleTxPacket_def AllocateHTCBundleTxPacket_def issuing_fields split: list.splits if_splits)

lemma issuing_bundle_send:
  assumes "HTCSendBundledNetbuf env i b saved s = (taken, t)"
  shows "issuing i (saved @ left) (if taken then left else saved @ left) 0 s t"
proof -
  obtain ok u where h: "HIFSend_head env i (Lk_bundle b saved) (lookup_enqueue i (Lk_bundle b saved) s) = (ok, u)"
    by fastforce
  have t: "taken = ok" "t = (if ok then u else lookup_remove i u)"
    using assms h by (auto simp: HTCSendBundledNetbuf_def)
  show ?thesis
  proof (cases ok)
    case True
    then show ?thesis using h t issuing_send [of env i "Lk_bundle b saved" s u saved left] by simp
  next
    case False
    then show ?thesis using h t issuing_refused [of env i "Lk_bundle b saved" s u "saved @ left"] by simp
  qed
qed

text \<open>Bundles.\<close>

lemma tag_headers [simp]: "tag (bundle_header pad p) = tag p" "tag (credit_header p) = tag p" "tag (issue_header c p) = tag p"
  by (simp_all add: tag_def bundle_header_def credit_header_def issue_header_def)

lemma issuing_bundle_loop:
  "bundle_loop env i b saved space ps s = (left, t) \<Longrightarrow> issuing i (saved @ ps) left 0 s t"
proof (induction ps arbitrary: b saved space s)
  case Nil
  obtain taken u where h: "HTCSendBundledNetbuf env i b saved s = (taken, u)" by fastforce
  show ?case
  proof (cases "saved = []")
    case True
    then show ?thesis using Nil by (auto simp: issuing_buffers issuing_refl)
  next
    case False
    then show ?thesis using Nil issuing_bundle_send [OF h, of "[]"] by (auto simp: h issuing_buffers split: if_splits)
  qed
next
  case (Cons p ps)
  show ?case
  proof (rule bundle_loop_cases [of env i b saved s space p ps])
    fix taken u
    assume h: "HTCSendBundledNetbuf env i b saved s = (taken, u)" "\<not> taken"
      "bundle_loop env i b saved space (p # ps) s = (saved @ p # ps, FreeHTCBundleTxPacket b u)"
    then show ?thesis using Cons.prems issuing_bundle_send [OF h(1), of "p # ps"] by (auto simp: issuing_buffers)
  next
    fix u v
    assume h: "HTCSendBundledNetbuf env i b saved s = (True, u)" "v = u \<or> AllocateHTCBundleTxPacket env u = (None, v)"
      "bundle_loop env i b saved space (p # ps) s = (p # ps, v)"
    then show ?thesis using Cons.prems issuing_bundle_send [OF h(1), of "p # ps"] by (auto simp: issuing_buffers)
  next
    fix u b' v pad space'
    assume h: "HTCSendBundledNetbuf env i b saved s = (True, u)" "AllocateHTCBundleTxPacket env u = (Some b', v)"
      "bundle_loop env i b saved space (p # ps) s = bundle_loop env i b' [bundle_header pad p] space' ps v"
    have "issuing i (saved @ p # ps) (p # ps) 0 s v"
      using issuing_bundle_send [OF h(1), of "p # ps"] h(2) by (simp add: issuing_buffers)
    moreover have "issuing i (p # ps) left 0 v t"
      by (rule issuing_tags [OF Cons.IH [of b' "[bundle_header pad p]" space' v]]) (use Cons.prems h(3) in simp_all)
    ultimately show ?thesis using issuing_trans [of i "saved @ p # ps" "p # ps" 0 s v left 0 t] by simp
  next
    fix pad space'
    assume h: "bundle_loop env i b saved space (p # ps) s = bundle_loop env i b (saved @ [bundle_header pad p]) space' ps s"
    show ?thesis
      by (rule issuing_tags [OF Cons.IH [of b "saved @ [bundle_header pad p]" space' s]]) (use Cons.prems h in simp_all)
  qed
qed

lemma issuing_issue_bundle:
  assumes "HTCIssuePacketsBundle env i ps s = (left, t)" shows "issuing i ps left 0 s t"
proof -
  obtain r u where a: "AllocateHTCBundleTxPacket env s = (r, u)" by fastforce
  show ?thesis
    using assms a issuing_buffers(3) [OF a] issuing_bundle_loop [of env i _ "[]" _ ps u left t]
    by (cases r) (auto simp: HTCIssuePacketsBundle_def issuing_buffers(2) issuing_refl)
qed

lemma issuing_issue_bundles: "issue_bundles env i ps s = (left, t) \<Longrightarrow> issuing i ps left 0 s t"
  by (auto simp: issue_bundles_def issuing_issue_bundle issuing_refl split: if_splits)

text \<open>A packet that HIF refuses keeps its place; on an endpoint with flow control it gets its credits back.\<close>

lemma issuing_give_back:
  assumes "issuing i ps left b s t" "\<And>e. ServiceID (f e) = ServiceID e \<and> TxQueue (f e) = TxQueue e \<and>
    TxLookupQueue (f e) = TxLookupQueue e \<and> TxCredits (f e) = TxCredits e + c"
  shows "issuing i ps left (b + c) s (upd_ep i f t)"
  using assms by (auto simp: issuing_def frame_def ctl_def book_defs)

lemma issuing_packet:
  assumes "HIFSend_head env i (Lk_packet p) (lookup_enqueue i (Lk_packet p) t) = (True, u)" "issuing i ps (q # left) b s t" "tag p = tag q"
  shows "issuing i ps left b s u"
proof -
  have "issuing i (q # left) left 0 t u"
    using issuing_send [OF assms(1), of "[q]" left] assms(3) by simp
  then show ?thesis using issuing_trans [OF assms(2), of left 0 u] by simp
qed

lemma issuing_packet_refused:
  assumes "HIFSend_head env i (Lk_packet p) (lookup_enqueue i (Lk_packet p) t) = (False, u)" "issuing i ps (q # left) b s t" "tag p = tag q"
  shows "issuing i ps (p # left) b s (lookup_remove i u)"
proof -
  have "issuing i (q # left) (p # left) 0 t (lookup_remove i u)"
    using issuing_tags [OF issuing_refused [OF assms(1)], of "p # left" "q # left" "p # left"] assms(3) by simp
  then show ?thesis using issuing_trans [OF assms(2), of "p # left" 0 "lookup_remove i u"] by simp
qed

definition back_of :: "bool \<Rightarrow> htc_packet list \<Rightarrow> int" where
  "back_of ok left = (if ok then 0 else int (CreditsUsed (hd left)))"

lemma issuing_issue:
  "HTCIssuePackets env i ps s = (ok, left, t) \<Longrightarrow> issuing i ps left (back_of ok left) s t \<and> (left = [] \<longleftrightarrow> ok)"
proof (induction ps arbitrary: s rule: length_induct)
  case (1 ps)
  show ?case
  proof (rule issue_cases [of env i ps s])
    fix t assume "issue_bundles env i ps s = ([], t)" "HTCIssuePackets env i ps s = (True, [], t)"
    then show ?thesis using 1 issuing_issue_bundles by (auto simp: back_of_def)
  next
    fix p ps' v u c
    assume b: "issue_bundles env i ps s = (p # ps', v)" and len: "length ps' < length ps"
      and h: "HIFSend_head env i (Lk_packet (issue_header c p)) (lookup_enqueue i (Lk_packet (issue_header c p)) v) = (True, u)"
      and e: "HTCIssuePackets env i ps s = HTCIssuePackets env i ps' (u\<lparr>CE_send_cnt := u32 (CE_send_cnt u + 1)\<rparr>)"
    have "issuing i ps ps' 0 s (u\<lparr>CE_send_cnt := u32 (CE_send_cnt u + 1)\<rparr>)"
      using issuing_packet [OF h issuing_issue_bundles [OF b]] by (simp add: issuing_fields)
    moreover have "issuing i ps' left (back_of ok left) (u\<lparr>CE_send_cnt := u32 (CE_send_cnt u + 1)\<rparr>) t \<and> (left = [] \<longleftrightarrow> ok)"
      using 1 len e by auto
    ultimately show ?thesis using issuing_trans by fastforce
  next
    fix p ps' v u c
    assume b: "issue_bundles env i ps s = (p # ps', v)"
      and h: "HIFSend_head env i (Lk_packet (issue_header c p)) (lookup_enqueue i (Lk_packet (issue_header c p)) v) = (False, u)"
      and e: "HTCIssuePackets env i ps s = (False, issue_header c p # ps',
         upd_ep i (\<lambda>e. e\<lparr>ul_outstanding_cnt := ul_outstanding_cnt e - 1,
           TxCredits := TxCredits e + int (CreditsUsed (issue_header c p))\<rparr>) (lookup_remove i u))"
    have "issuing i ps (issue_header c p # ps') 0 s (lookup_remove i u)"
      using issuing_packet_refused [OF h issuing_issue_bundles [OF b]] by simp
    then show ?thesis using 1(2) e
      by (auto simp: back_of_def intro!: issuing_give_back [where b = 0, simplified])
  qed
qed

end
