(* ===== verification/HtcDrain.thy ===== *)
theory HtcDrain
  imports HtcTxInv
begin

text \<open>
  Draining the queue of an endpoint: packets leave it in order, and every credit that leaves the
  endpoint is in a packet handed to HIF or in one that went back to the queue without it.
\<close>

section \<open>Data packets\<close>

lemma data_issue_cases:
  obtains (drained) t where "HTCIssuePacketsBundle env i ps s = ([], t) \<or> ps = [] \<and> t = s" "data_issue env i ps s = (True, [], t)"
  | (sent) p ps' t u where "HTCIssuePacketsBundle env i ps s = (p # ps', t) \<or> ps = p # ps' \<and> t = s" "length ps' < length ps"
      "HIFSend_head env i (Lk_packet p) (lookup_enqueue i (Lk_packet p) t) = (True, u)"
      "data_issue env i ps s = data_issue env i ps' u"
  | (failed) p ps' t u where "HTCIssuePacketsBundle env i ps s = (p # ps', t) \<or> ps = p # ps' \<and> t = s"
      "HIFSend_head env i (Lk_packet p) (lookup_enqueue i (Lk_packet p) t) = (False, u)"
      "data_issue env i ps s = (False, p # ps',
         upd_ep i (\<lambda>e. e\<lparr>ul_outstanding_cnt := ul_outstanding_cnt e - 1\<rparr>) (lookup_remove i u))"
proof -
  obtain qs t where b: "(if HTC_ENABLE_BUNDLE s \<and> length ps \<ge> HTC_MIN_MSG_PER_BUNDLE
      then HTCIssuePacketsBundle env i ps s else (ps, s)) = (qs, t)" by fastforce
  then have b': "HTCIssuePacketsBundle env i ps s = (qs, t) \<or> ps = qs \<and> t = s" by (auto split: if_splits)
  have len: "length qs \<le> length ps" using b' issue_bundle_length [of env i ps s] by auto
  note unroll = data_issue.simps [of env i ps s, unfolded b prod.case Let_def]
  show thesis
  proof (cases qs)
    case Nil
    with b' unroll show thesis by (intro drained [of t]) auto
  next
    case (Cons p ps')
    obtain taken u where h: "HIFSend_head env i (Lk_packet p) (lookup_enqueue i (Lk_packet p) t) = (taken, u)"
      by fastforce
    show thesis
    proof (cases taken)
      case True
      then show thesis using b' h len unroll Cons by (intro sent [of p ps' t u]) auto
    next
      case False
      then show thesis using b' h unroll Cons by (intro failed [of p ps' t u]) auto
    qed
  qed
qed

lemma issuing_data_issue:
  "data_issue env i ps s = (ok, left, t) \<Longrightarrow> issuing i ps left 0 s t \<and> (left = [] \<longleftrightarrow> ok)"
proof (induction ps arbitrary: s rule: length_induct)
  case (1 ps)
  have bundles: "issuing i ps qs 0 s v" if "HTCIssuePacketsBundle env i ps s = (qs, v) \<or> ps = qs \<and> v = s" for qs v
    using that by (auto simp: issuing_issue_bundle issuing_refl)
  show ?case
  proof (rule data_issue_cases [of env i ps s])
    fix v assume "HTCIssuePacketsBundle env i ps s = ([], v) \<or> ps = [] \<and> v = s" "data_issue env i ps s = (True, [], v)"
    then show ?thesis using 1(2) bundles [of "[]" v] by simp
  next
    fix p ps' v u
    assume b: "HTCIssuePacketsBundle env i ps s = (p # ps', v) \<or> ps = p # ps' \<and> v = s" and len: "length ps' < length ps"
      and h: "HIFSend_head env i (Lk_packet p) (lookup_enqueue i (Lk_packet p) v) = (True, u)"
      and e: "data_issue env i ps s = data_issue env i ps' u"
    have "issuing i ps ps' 0 s u" using issuing_packet [OF h bundles [OF b]] by simp
    moreover have "issuing i ps' left 0 u t \<and> (left = [] \<longleftrightarrow> ok)" using 1 len e by auto
    ultimately show ?thesis using issuing_trans by fastforce
  next
    fix p ps' v u
    assume b: "HTCIssuePacketsBundle env i ps s = (p # ps', v) \<or> ps = p # ps' \<and> v = s"
      and h: "HIFSend_head env i (Lk_packet p) (lookup_enqueue i (Lk_packet p) v) = (False, u)"
      and e: "data_issue env i ps s = (False, p # ps',
         upd_ep i (\<lambda>e. e\<lparr>ul_outstanding_cnt := ul_outstanding_cnt e - 1\<rparr>) (lookup_remove i u))"
    have "issuing i ps (p # ps') 0 s (lookup_remove i u)"
      using issuing_packet_refused [OF h bundles [OF b]] by simp
    then show ?thesis using 1(2) e
      by (auto intro!: issuing_give_back [where b = 0 and c = 0, simplified])
  qed
qed

section \<open>Taking packets off the queue\<close>

lemma credit_loop_books:
  "credit_loop i csize per_max cr ps = (taken, rest, left) \<Longrightarrow>
    ids taken @ ids rest = ids ps \<and> left + used taken = cr \<and> (0 \<le> cr \<longrightarrow> 0 \<le> left)"
proof (induction ps arbitrary: cr taken rest left)
  case (Cons p ps)
  then show ?case
    by (fastforce simp: Let_def split: if_splits prod.splits)
qed simp

lemma resource_loop_books:
  "resource_loop res ps = (taken, rest) \<Longrightarrow> ids taken @ ids rest = ids ps \<and> used taken = 0"
proof (induction ps arbitrary: res taken rest)
  case (Cons p ps)
  then show ?case by (fastforce simp: Let_def split: if_splits prod.splits)
qed simp

definition taking :: "nat \<Rightarrow> htc_packet list \<Rightarrow> htc_target \<Rightarrow> htc_target \<Rightarrow> bool" where
  "taking i taken s t \<longleftrightarrow> frame i s t \<and> put_back i t = put_back i s \<and> issued i t = issued i s \<and> lookups i t = lookups i s \<and>
     ids taken @ ids (txq i t) = ids (txq i s) \<and> credits i t + used taken = credits i s \<and> (0 \<le> credits i s \<longrightarrow> 0 \<le> credits i t)"

lemma taking_credit: "GetHTCSendPacketsCreditBased i s = (taken, t) \<Longrightarrow> taking i taken s t"
  using credit_loop_books
  by (fastforce simp: GetHTCSendPacketsCreditBased_def Let_def taking_def frame_def ctl_def book_defs split: prod.splits)

lemma taking_resource: "GetHTCSendPackets i res s = (taken, t) \<Longrightarrow> taking i taken s t"
  using resource_loop_books
  by (fastforce simp: GetHTCSendPackets_def Let_def taking_def frame_def ctl_def book_defs split: prod.splits)

lemma taking_take:
  "take_packets i res s = (taken, t) \<Longrightarrow> taking i taken s t"
  "data_take env i s = (taken, t) \<Longrightarrow> taking i taken s t"
  by (auto simp: take_packets_def data_take_def taking_credit taking_resource split: if_splits)

section \<open>Draining\<close>

definition drained :: "nat \<Rightarrow> htc_target \<Rightarrow> htc_target \<Rightarrow> bool" where
  "drained i s t \<longleftrightarrow> frame i s t \<and> (0 \<le> credits i s \<longrightarrow> 0 \<le> credits i t) \<and>
     (\<exists>xs bs. issued i t = issued i s @ xs \<and> lookups i t = lookups i s @ xs \<and> put_back i t = put_back i s @ bs \<and>
        ids (pkts xs) @ ids (txq i t) = ids (txq i s) \<and> credits i t + used (pkts xs) + used bs = credits i s \<and>
        (txq i s = [] \<longrightarrow> bs = []))"

lemma drained_refl [simp]: "drained i s s"
  by (simp add: drained_def)

lemma drained_trans:
  assumes "drained i s t" and "drained i t u" shows "drained i s u"
proof -
  obtain xs bs where xs: "issued i t = issued i s @ xs" "lookups i t = lookups i s @ xs" "put_back i t = put_back i s @ bs"
    "ids (pkts xs) @ ids (txq i t) = ids (txq i s)" "credits i t + used (pkts xs) + used bs = credits i s"
    "txq i s = [] \<longrightarrow> bs = []"
    using assms(1) by (auto simp: drained_def)
  obtain ys cs where ys: "issued i u = issued i t @ ys" "lookups i u = lookups i t @ ys" "put_back i u = put_back i t @ cs"
    "ids (pkts ys) @ ids (txq i u) = ids (txq i t)" "credits i u + used (pkts ys) + used cs = credits i t"
    "txq i t = [] \<longrightarrow> cs = []"
    using assms(2) by (auto simp: drained_def)
  have "issued i u = issued i s @ (xs @ ys)" "lookups i u = lookups i s @ (xs @ ys)" "put_back i u = put_back i s @ (bs @ cs)"
    "ids (pkts (xs @ ys)) @ ids (txq i u) = ids (txq i s)" "credits i u + used (pkts (xs @ ys)) + used (bs @ cs) = credits i s"
    "txq i s = [] \<longrightarrow> bs @ cs = []"
    using xs ys by auto
  then have "\<exists>xs bs. issued i u = issued i s @ xs \<and> lookups i u = lookups i s @ xs \<and> put_back i u = put_back i s @ bs \<and>
      ids (pkts xs) @ ids (txq i u) = ids (txq i s) \<and> credits i u + used (pkts xs) + used bs = credits i s \<and>
      (txq i s = [] \<longrightarrow> bs = [])"
    by blast
  then show ?thesis using assms frame_trans by (auto simp: drained_def)
qed

text \<open>Taking, issuing, and putting back what was not issued; \<open>bs\<close> are those that go back without credits.\<close>

lemma drained_round:
  assumes t: "taking i taken s t" and u: "issuing i taken left b t u" and b: "b + used bs = used left" "0 \<le> b" "left = [] \<longrightarrow> bs = []"
  shows "drained i s (log_htc [Ev_put_back i bs] (upd_ep i (\<lambda>e. e\<lparr>TxQueue := left @ TxQueue e\<rparr>) u))" (is "drained i s ?v")
proof -
  obtain xs where xs: "issued i u = issued i t @ xs" "lookups i u = lookups i t @ xs" "map tag (pkts xs @ left) = map tag taken"
    using u by (auto simp: issuing_def)
  note tags = tagged [OF xs(3)]
  have "(ids (pkts xs) @ ids left) @ ids (txq i t) = ids (txq i s)"
    using tags t by (simp only: taking_def map_append)
  then have order: "ids (pkts xs) @ ids left @ ids (txq i t) = ids (txq i s)" by simp
  have empty: "txq i s = [] \<longrightarrow> bs = []" using order b(3) by auto
  have v: "frame i u ?v" "issued i ?v = issued i u" "lookups i ?v = lookups i u" "put_back i ?v = put_back i u @ bs"
    "txq i ?v = left @ txq i u" "credits i ?v = credits i u"
    by (simp_all add: frame_def ctl_def book_defs)
  have "issued i ?v = issued i s @ xs \<and> lookups i ?v = lookups i s @ xs \<and> put_back i ?v = put_back i s @ bs \<and>
      ids (pkts xs) @ ids (txq i ?v) = ids (txq i s) \<and> credits i ?v + used (pkts xs) + used bs = credits i s \<and>
      (txq i s = [] \<longrightarrow> bs = [])"
    using t u b xs(1,2) tags v order empty by (simp add: taking_def issuing_def)
  moreover have "frame i s t" "frame i t u" using t u by (simp_all add: taking_def issuing_def)
  then have "frame i s ?v" using v(1) frame_trans by blast
  moreover have "0 \<le> credits i s \<longrightarrow> 0 \<le> credits i ?v" using t u b v by (auto simp: taking_def issuing_def)
  ultimately show ?thesis by (auto simp: drained_def)
qed

lemma drained_all:
  assumes t: "taking i taken s t" and u: "issuing i taken [] 0 t u"
  shows "drained i s u"
proof -
  have *: "drained i s (log_htc [Ev_put_back i []] (upd_ep i (\<lambda>e. e\<lparr>TxQueue := [] @ TxQueue e\<rparr>) u))"
    by (rule drained_round [OF t u]) simp_all
  then show ?thesis by (simp add: drained_def frame_def ctl_def book_defs)
qed

lemma taking_drained: "taking i [] s t \<Longrightarrow> drained i s t"
  by (rule drained_all) (auto intro: issuing_refl)

lemma drained_queue: "drained i s (drain_queue env i res s)"
proof (induction env i res s rule: drain_queue.induct)
  case (1 env i res s)
  obtain taken t where t: "take_packets i res s = (taken, t)" by fastforce
  obtain ok left u where u: "HTCIssuePackets env i taken t = (ok, left, u)" by (cases "HTCIssuePackets env i taken t")
  note taking = taking_take(1) [OF t] and issuing = issuing_issue [OF u]
  show ?case
  proof (cases "TxQueue (EndPoint s i) = [] \<or> taken = []")
    case True
    then show ?thesis using taking_drained taking by (auto simp: drain_queue.simps [of env i res s] t)
  next
    case False
    note f = False
    show ?thesis
    proof (cases ok)
      case True
      have "issuing i taken [] 0 t u" using issuing True by (auto simp: back_of_def)
      then have "drained i s u" by (rule drained_all [OF taking])
      moreover have "drained i u (drain_queue env i
          (if TxCreditFlowEnabled (EndPoint u i) then res else free_entries env i u) u)"
        using f True u t 1 [where xa = taken and y = t and xb = "(ok, left, u)" and xc = ok and ya = "(left, u)" and xd = left and yb = u] by simp
      ultimately show ?thesis using f True u t by (auto simp: drain_queue.simps [of env i res s] intro: drained_trans)
    next
      case notok: False
      then obtain p left' where left: "left = p # left'" using issuing by (cases left) auto
      have "drained i s (log_htc [Ev_put_back i left'] (upd_ep i (\<lambda>e. e\<lparr>TxQueue := left @ TxQueue e\<rparr>) u))"
        using drained_round [OF taking conjunct1 [OF issuing]] notok left by (simp add: back_of_def)
      then show ?thesis using f notok left by (simp add: drain_queue.simps [of env i res s] t u)
    qed
  qed
qed

lemma drained_data: "drained i s (data_drain env i s)"
proof -
  obtain taken t where t: "data_take env i s = (taken, t)" by fastforce
  obtain ok left u where u: "data_issue env i taken t = (ok, left, u)" by (cases "data_issue env i taken t")
  note taking = taking_take(2) [OF t] and issuing = issuing_data_issue [OF u]
  show ?thesis
    using drained_round [OF taking conjunct1 [OF issuing], of left] drained_all [OF taking] issuing
    by (auto simp: data_drain_def t u)
qed

end
