(* ===== verification/HtcBooks.thy ===== *)
theory HtcBooks
  imports HtcDrain
begin

text \<open>
  The invariant of HTC and that every operation keeps it: per endpoint the packets handed to HIF followed
  by those in the queue are the packets accepted, in order; the credits are those given less those in
  packets; and every packet that a client handed over is in exactly one place.
\<close>

section \<open>The invariant\<close>

definition books :: "nat \<Rightarrow> htc_target \<Rightarrow> bool" where
  "books i s \<longleftrightarrow>
     ids (pkts (issued i s)) @ ids (txq i s) = accepted i s \<and>
     credits i s + used (pkts (issued i s)) + used (put_back i s) = int (given i s) \<and> 0 \<le> credits i s \<and>
     (ServiceID (EndPoint s i) = 0 \<longrightarrow> txq i s = [] \<and> pkts (issued i s) = [] \<and> put_back i s = [])"

definition ep_hold :: "nat \<Rightarrow> htc_target \<Rightarrow> nat multiset" where
  "ep_hold i s = mset (ids (txq i s)) + mset (ids (pkts (lookups i s)))"

definition htc_inv :: "nat multiset \<Rightarrow> htc_target \<Rightarrow> bool" where
  "htc_inv offered s \<longleftrightarrow>
     \<not> is_nodrop_pkt s \<and> (\<forall>i. books i s) \<and> (\<Sum>i<ENDPOINT_MAX. ep_hold i s) + mset (ids (completed s)) = offered"

lemma ep_hold_sum:
  assumes "i < ENDPOINT_MAX" and "\<And>j. j \<noteq> i \<Longrightarrow> ep_hold j t = ep_hold j s"
  shows "(\<Sum>j<ENDPOINT_MAX. ep_hold j t) + ep_hold i s = (\<Sum>j<ENDPOINT_MAX. ep_hold j s) + ep_hold i t"
proof -
  have "(\<Sum>j<ENDPOINT_MAX. ep_hold j u) = ep_hold i u + (\<Sum>j\<in>{..<ENDPOINT_MAX} - {i}. ep_hold j u)" for u
    using assms(1) by (intro sum.remove) simp_all
  moreover have "(\<Sum>j\<in>{..<ENDPOINT_MAX} - {i}. ep_hold j t) = (\<Sum>j\<in>{..<ENDPOINT_MAX} - {i}. ep_hold j s)"
    using assms(2) by (intro sum.cong) simp_all
  ultimately show ?thesis by (simp add: ac_simps)
qed

text \<open>A change of one endpoint, with packets that come in (\<open>new\<close>).\<close>

lemma inv_change:
  assumes inv: "htc_inv off s" and i: "i < ENDPOINT_MAX" and nodrop: "\<not> is_nodrop_pkt t"
    and other: "\<And>j. j \<noteq> i \<Longrightarrow> (books j s \<longrightarrow> books j t) \<and> ep_hold j t = ep_hold j s" and here: "books i s \<Longrightarrow> books i t"
    and held: "ep_hold i t + mset (ids (completed t)) = ep_hold i s + mset (ids (completed s)) + new"
  shows "htc_inv (off + new) t"
proof -
  have b: "books j t" for j using inv other [of j] here by (cases "j = i") (auto simp: htc_inv_def)
  have "(\<Sum>j<ENDPOINT_MAX. ep_hold j t) + ep_hold i s = (\<Sum>j<ENDPOINT_MAX. ep_hold j s) + ep_hold i t"
    using ep_hold_sum [OF i] other by blast
  then have "((\<Sum>j<ENDPOINT_MAX. ep_hold j t) + mset (ids (completed t))) + ep_hold i s =
      (\<Sum>j<ENDPOINT_MAX. ep_hold j s) + (ep_hold i t + mset (ids (completed t)))" by (simp add: ac_simps)
  also have "\<dots> = (off + new) + ep_hold i s" using inv held by (auto simp: htc_inv_def)
  finally have "(\<Sum>j<ENDPOINT_MAX. ep_hold j t) + mset (ids (completed t)) = off + new" by simp
  then show ?thesis using nodrop b by (simp add: htc_inv_def)
qed

lemma inv_drained:
  assumes inv: "htc_inv off s" and d: "drained i s t" and i: "i < ENDPOINT_MAX"
  shows "htc_inv off t"
proof -
  obtain xs bs where xs: "issued i t = issued i s @ xs" "lookups i t = lookups i s @ xs" "put_back i t = put_back i s @ bs"
    "ids (pkts xs) @ ids (txq i t) = ids (txq i s)" "credits i t + used (pkts xs) + used bs = credits i s"
    "txq i s = [] \<longrightarrow> bs = []"
    using d by (auto simp: drained_def)
  have fr: "frame i s t" and cr: "0 \<le> credits i s \<longrightarrow> 0 \<le> credits i t" using d by (simp_all add: drained_def)
  have "mset (ids (txq i s)) = mset (ids (pkts xs)) + mset (ids (txq i t))"
    by (simp only: xs(4) [symmetric] mset_append)
  then have held: "ep_hold i t + mset (ids (completed t)) = ep_hold i s + mset (ids (completed s)) + {#}"
    using fr xs(2) by (simp add: ep_hold_def frame_def ac_simps)
  have here: "books i t" if "books i s"
  proof -
    have "txq i s = [] \<Longrightarrow> txq i t = [] \<and> pkts xs = [] \<and> bs = []" using xs(4,6) by simp
    then show ?thesis using that fr cr xs(1,3,5) unfolding xs(4) [symmetric] books_def frame_def
      using xs(4) by auto
  qed
  have "htc_inv (off + {#}) t"
    by (rule inv_change [OF inv i _ _ here held])
      (use fr inv in \<open>auto simp: frame_def htc_inv_def books_def ep_hold_def txq_def lookups_def credits_def\<close>)
  then show ?thesis by simp
qed

text \<open>What the books do not see.\<close>

definition quiet :: "htc_target \<Rightarrow> htc_target \<Rightarrow> bool" where
  "quiet s t \<longleftrightarrow> is_nodrop_pkt t = is_nodrop_pkt s \<and> completed t = completed s \<and>
     (\<forall>j. issued j t = issued j s \<and> put_back j t = put_back j s \<and> accepted j t = accepted j s \<and> given j t = given j s \<and>
        txq j t = txq j s \<and> lookups j t = lookups j s \<and> credits j t = credits j s \<and>
        ServiceID (EndPoint t j) = ServiceID (EndPoint s j))"

lemma inv_quiet: "htc_inv off s \<Longrightarrow> quiet s t \<Longrightarrow> htc_inv off t"
  by (simp add: htc_inv_def quiet_def books_def ep_hold_def)

lemma quiet_refl [simp]: "quiet s s"
  by (simp add: quiet_def)

lemma quiet_trans: "quiet s t \<Longrightarrow> quiet t u \<Longrightarrow> quiet s u"
  by (simp add: quiet_def)

lemma quiet_upd:
  "(\<And>e. ServiceID (f e) = ServiceID e \<and> TxQueue (f e) = TxQueue e \<and> TxLookupQueue (f e) = TxLookupQueue e \<and>
     TxCredits (f e) = TxCredits e) \<Longrightarrow> quiet s (upd_ep i f s)"
  by (simp add: quiet_def book_defs)

text \<open>Events that say nothing about packets of the transmit path or credits.\<close>

fun quiet_event :: "htc_event \<Rightarrow> bool" where
  "quiet_event (Ev_send p i x ok) = False"
| "quiet_event (Ev_tx_complete i ps) = False"
| "quiet_event (Ev_entered i ps) = False"
| "quiet_event (Ev_put_back i ps) = False"
| "quiet_event (Ev_flushed i n) = False"
| "quiet_event (Ev_credits i n) = False"
| "quiet_event (Ev_alloc i n) = False"
| "quiet_event _ = True"

lemma quiet_event_books:
  "quiet_event ev \<Longrightarrow> ev_issued i ev = [] \<and> ev_put_back i ev = [] \<and> ev_completed ev = [] \<and>
    (\<forall>g. ev_given i ev g = g) \<and> (\<forall>acc. ev_accepted i ev acc = acc)"
  by (cases ev) simp_all

lemma quiet_log: "list_all quiet_event es \<Longrightarrow> quiet s (log_htc es s)"
proof (induction es arbitrary: s)
  case (Cons ev es)
  have "quiet s (log_htc [ev] s)"
    using Cons.prems quiet_event_books [of ev] by (simp add: quiet_def book_defs)
  moreover have "quiet (log_htc [ev] s) (log_htc es (log_htc [ev] s))"
    using Cons by (intro Cons.IH) simp
  ultimately show ?case using quiet_trans by fastforce
qed simp

lemma inv_completed_event:
  assumes "htc_inv off s" shows "htc_inv (off + mset (ids ps)) (log_htc [Ev_tx_complete i ps] s)"
  using assms by (simp add: htc_inv_def books_def ep_hold_def book_defs ac_simps)

section \<open>Completion\<close>

lemma ids_restored [simp]: "hp_id (RestoreTxPacket p) = hp_id p" "hp_id (push_hdr p) = hp_id p"
  by (simp_all add: RestoreTxPacket_def push_hdr_def)

lemma inv_completions: "htc_inv off s \<Longrightarrow> htc_inv (off + mset (ids ps)) (log_htc (map (\<lambda>p. Ev_tx_complete i [p]) ps) s)"
proof (induction ps arbitrary: off s)
  case (Cons p ps)
  have "htc_inv (off + mset (ids [p])) (log_htc [Ev_tx_complete i [p]] s)"
    by (rule inv_completed_event [OF Cons.prems])
  from Cons.IH [OF this] show ?case by (simp add: ac_simps)
qed simp

lemma inv_send_completion: "htc_inv off s \<Longrightarrow> htc_inv (off + mset (ids ps)) (DoSendCompletion i ps s)"
  using inv_completed_event [of off s ps i] inv_completions [of off s ps i] by (simp add: DoSendCompletion_def)

lemma inv_packet_completion: "htc_inv off s \<Longrightarrow> htc_inv (off + {#hp_id p#}) (SendPacketCompletion p s)"
  using inv_send_completion [of off s "[RestoreTxPacket p]"] by (simp add: SendPacketCompletion_def)

lemma inv_fold_completion:
  "htc_inv off s \<Longrightarrow> (\<And>p. hp_id (f p) = hp_id p) \<Longrightarrow>
    htc_inv (off + mset (ids ps)) (fold (\<lambda>p. SendPacketCompletion (f p)) ps s)"
proof (induction ps arbitrary: off s)
  case (Cons p ps)
  have "htc_inv (off + {#hp_id p#}) (SendPacketCompletion (f p) s)"
    using inv_packet_completion [OF Cons.prems(1), of "f p"] Cons.prems(2) by simp
  from Cons.IH [OF this Cons.prems(2)] show ?case by (simp add: ac_simps)
qed simp

end
