(* ===== verification/HtcKeeps.thy ===== *)
theory HtcKeeps
  imports HtcBooks
begin

text \<open>Every operation on an endpoint keeps the books of HTC.\<close>

section \<open>Entering the queue\<close>

lemma inv_enter:
  assumes inv: "htc_inv off s" and i: "i < ENDPOINT_MAX" and up: "ps = [] \<or> ServiceID (EndPoint s i) \<noteq> 0"
    and f: "\<And>e. ServiceID (f e) = ServiceID e \<and> TxQueue (f e) = TxQueue e @ ps \<and> TxLookupQueue (f e) = TxLookupQueue e \<and>
      TxCredits (f e) = TxCredits e"
  shows "htc_inv (off + mset (ids ps)) (log_htc [Ev_entered i ps] (upd_ep i f s))"
proof (rule inv_change [OF inv i])
  show "\<not> is_nodrop_pkt (log_htc [Ev_entered i ps] (upd_ep i f s))" using inv by (simp add: htc_inv_def)
  show "books i s \<Longrightarrow> books i (log_htc [Ev_entered i ps] (upd_ep i f s))"
    using up f by (auto simp: books_def book_defs)
qed (use f in \<open>simp_all add: books_def ep_hold_def book_defs\<close>)

lemma inv_enter_queue:
  assumes "htc_inv off s" "i < ENDPOINT_MAX" "ps = [] \<or> ServiceID (EndPoint s i) \<noteq> 0"
  shows "htc_inv (off + mset (ids ps)) (enter_queue i ps s)"
proof -
  have "\<not> is_nodrop_pkt s" using assms(1) by (simp add: htc_inv_def)
  then show ?thesis
    using assms inv_enter [OF assms, of "\<lambda>e. e\<lparr>TxQueue := TxQueue e @ ps\<rparr>"] by (auto simp: enter_queue_def)
qed

section \<open>Sending\<close>

lemma quiet_upd_intro:
  assumes "quiet s t" and "\<And>e. ServiceID (f e) = ServiceID e \<and> TxQueue (f e) = TxQueue e \<and>
    TxLookupQueue (f e) = TxLookupQueue e \<and> TxCredits (f e) = TxCredits e"
  shows "quiet s (upd_ep i f t)"
  by (rule quiet_trans [OF assms(1) quiet_upd [OF assms(2)]])

lemma inv_process:
  assumes inv: "htc_inv off s" and work: "\<And>s. htc_inv off s \<Longrightarrow> htc_inv off (work s)"
  shows "htc_inv off (process_queue work i s)"
proof -
  let ?s1 = "upd_ep i (\<lambda>e. e\<lparr>TxProcessCount := TxProcessCount e + 1\<rparr>) s"
  have 1: "htc_inv off ?s1" by (rule inv_quiet [OF inv quiet_upd]) simp
  have "htc_inv off (upd_ep i (\<lambda>e. e\<lparr>TxProcessCount := TxProcessCount e - 1\<rparr>) ?s1)"
    by (rule inv_quiet [OF 1 quiet_upd]) simp
  moreover have "htc_inv off (upd_ep i (\<lambda>e. e\<lparr>TxProcessCount := 0\<rparr>) (work ?s1))"
    by (rule inv_quiet [OF work [OF 1] quiet_upd]) simp
  ultimately show ?thesis unfolding process_queue_def Let_def by (simp only: split: if_split) blast
qed

lemma ask_send_full_ids:
  "ask_send_full keep ps = (kept, dropped) \<Longrightarrow> mset (ids kept) + mset (ids dropped) = mset (ids ps)"
proof (induction ps arbitrary: kept dropped)
  case (Cons p ps)
  obtain k d where kd: "ask_send_full keep ps = (k, d)" by fastforce
  then show ?case using Cons.IH [OF kd] Cons.prems by (auto simp: Let_def split: if_splits)
qed simp

lemma accept_packets_ids:
  assumes "accept_packets i ps s = (r, q, rest, t)"
  shows "quiet s t" "mset (ids q) + mset (ids rest) = mset (ids ps)" "r = HTC_SEND_QUEUE_DROP \<longrightarrow> q = []"
    "EndPoint t = EndPoint s"
proof -
  have "mset (ids (take n ps)) + (mset (ids kept) + mset (ids dropped)) = mset (ids ps)"
    if "ask_send_full keep (drop n ps) = (kept, dropped)" for n keep kept dropped
    using ask_send_full_ids [OF that] by (metis append_take_drop_id map_append mset_append)
  then show "quiet s t" "mset (ids q) + mset (ids rest) = mset (ids ps)" "r = HTC_SEND_QUEUE_DROP \<longrightarrow> q = []"
    "EndPoint t = EndPoint s"
    using assms
    by (auto simp: accept_packets_def Let_def quiet_def book_defs add.assoc split: if_splits option.splits prod.splits dest: ask_send_full_ids)
qed

lemma inv_try_send:
  assumes inv: "htc_inv off s" and i: "i < ENDPOINT_MAX" and up: "callers = None \<or> ServiceID (EndPoint s i) \<noteq> 0"
    and try_send: "HTCTrySend env i callers s = (r, rest, t)"
  shows "\<exists>off'. htc_inv off' t \<and> off' + mset (ids rest) = off + (case callers of None \<Rightarrow> {#} | Some ps \<Rightarrow> mset (ids ps))"
proof -
  obtain r' q rest' u where a: "(case callers of None \<Rightarrow> (HTC_SEND_QUEUE_OK, [], [], s) | Some ps \<Rightarrow> accept_packets i ps s) = (r', q, rest', u)"
    by (cases "case callers of None \<Rightarrow> (HTC_SEND_QUEUE_OK, [], [], s) | Some ps \<Rightarrow> accept_packets i ps s")
  have u: "quiet s u" "mset (ids q) + mset (ids rest') = (case callers of None \<Rightarrow> {#} | Some ps \<Rightarrow> mset (ids ps))"
      "r' = HTC_SEND_QUEUE_DROP \<longrightarrow> q = []" "EndPoint u = EndPoint s" "callers = None \<longrightarrow> q = []"
    using a accept_packets_ids by (auto split: option.splits)
  have invu: "htc_inv off u" by (rule inv_quiet [OF inv u(1)])
  show ?thesis
  proof (cases r')
    case HTC_SEND_QUEUE_DROP
    then have "t = u" "rest = rest'" "q = []" using try_send a u(3) by (simp_all add: HTCTrySend_def)
    then show ?thesis using invu u(2) by (intro exI [of _ off]) simp
  next
    case HTC_SEND_QUEUE_OK
    let ?res = "if TxCreditFlowEnabled (EndPoint u i) then 0 else free_entries env i u"
    have t: "rest = rest'" "t = process_queue (drain_queue env i ?res) i (enter_queue i q u)"
      using try_send a HTC_SEND_QUEUE_OK by (simp_all add: HTCTrySend_def Let_def)
    have "htc_inv (off + mset (ids q)) (enter_queue i q u)"
      using invu i up u(4,5) by (intro inv_enter_queue) auto
    then have "htc_inv (off + mset (ids q)) t"
      unfolding t(2) by (rule inv_process) (rule inv_drained [OF _ drained_queue i])
    then show ?thesis using u(2) t(1) by (intro exI [of _ "off + mset (ids q)"]) (simp add: ac_simps)
  qed
qed

lemma inv_retry: "htc_inv off s \<Longrightarrow> i < ENDPOINT_MAX \<Longrightarrow> htc_inv off (retry_send env i s)"
proof -
  assume h: "htc_inv off s" "i < ENDPOINT_MAX"
  obtain r rest t where t: "HTCTrySend env i None s = (r, rest, t)" by (cases "HTCTrySend env i None s")
  have "rest = []" using t by (simp add: HTCTrySend_def Let_def split: if_splits)
  then show ?thesis using inv_try_send [OF h _ t] t by (auto simp: retry_send_def)
qed

lemma first_headers_ids: "first_headers flow seq ps = (qs, nxt) \<Longrightarrow> ids qs = ids ps"
proof (induction ps arbitrary: seq qs nxt)
  case (Cons p ps)
  then show ?case by (fastforce simp: Let_def first_header_def split: prod.splits)
qed simp

text \<open>The packets that a call of the send function takes over.\<close>

definition offered_pkts :: "htc_packet list \<Rightarrow> htc_target \<Rightarrow> nat multiset" where
  "offered_pkts ps s = (if ps \<noteq> [] \<and> ServiceID (EndPoint s (hp_Endpoint (hd ps))) \<noteq> 0 then mset (ids ps) else {#})"

lemma inv_send_multiple:
  assumes inv: "htc_inv off s" and i: "ps = [] \<or> hp_Endpoint (hd ps) < ENDPOINT_MAX"
  shows "htc_inv (off + offered_pkts ps s) (snd (HTCSendPktsMultiple env ps s))"
proof (cases ps)
  case Nil
  then show ?thesis
    using inv inv_quiet [OF inv, of "s\<lparr>htc_get_pkt_q_fail_count := u32 (htc_get_pkt_q_fail_count s + 1)\<rparr>"]
    by (simp add: HTCSendPktsMultiple_def offered_pkts_def quiet_def book_defs)
next
  case (Cons p ps')
  let ?i = "hp_Endpoint p"
  obtain qs nxt where q: "first_headers (TxCreditFlowEnabled (EndPoint s ?i)) (SeqNo (EndPoint s ?i)) ps = (qs, nxt)" by fastforce
  let ?s1 = "upd_ep ?i (\<lambda>e. e\<lparr>SeqNo := nxt\<rparr>) s"
  obtain r rest t where t: "HTCTrySend env ?i (Some qs) ?s1 = (r, rest, t)" by (cases "HTCTrySend env ?i (Some qs) ?s1")
  have inv1: "htc_inv off ?s1" by (rule inv_quiet [OF inv quiet_upd]) simp
  show ?thesis
  proof (cases "ServiceID (EndPoint s ?i) = 0")
    case True
    then show ?thesis using inv by (simp add: HTCSendPktsMultiple_def offered_pkts_def Cons)
  next
    case False
    obtain off' where off': "htc_inv off' t" "off' + mset (ids rest) = off + mset (ids ps)"
      using inv_try_send [OF inv1 _ _ t] i False first_headers_ids [OF q] by (auto simp: Cons)
    let ?f = "\<lambda>p. (RestoreTxPacket p)\<lparr>hp_Status := Some (if HTC_STOPPING t then A_ECANCELED_ST else A_NO_RESOURCE)\<rparr>"
    have "htc_inv (off + mset (ids ps)) (DoSendCompletion ?i (map ?f rest) t)"
      using inv_send_completion [OF off'(1), of "map ?f rest" ?i] off'(2) by (simp add: comp_def)
    then show ?thesis using False q t by (simp add: HTCSendPktsMultiple_def offered_pkts_def Cons Let_def)
  qed
qed

section \<open>Data\<close>

lemma quiet_timers: "quiet s (poll_timer_stop i s)" "quiet s (poll_timer_start i s)"
  by (simp_all add: poll_timer_stop_def poll_timer_start_def quiet_upd)

lemma inv_data_process:
  assumes inv: "htc_inv off s" and i: "i < ENDPOINT_MAX"
  shows "htc_inv off (data_process env i s)"
proof -
  let ?s1 = "upd_ep i (\<lambda>e. e\<lparr>TxProcessCount := TxProcessCount e + 1\<rparr>) s"
  let ?s2 = "upd_ep i (\<lambda>e. e\<lparr>TxProcessCount := 0\<rparr>) (data_drain env i ?s1)"
  have 1: "htc_inv off ?s1" by (rule inv_quiet [OF inv quiet_upd]) simp
  have 2: "htc_inv off ?s2" by (rule inv_quiet [OF inv_drained [OF 1 drained_data i] quiet_upd]) simp
  have "htc_inv off (upd_ep i (\<lambda>e. e\<lparr>TxProcessCount := TxProcessCount e - 1\<rparr>) ?s1)"
    by (rule inv_quiet [OF 1 quiet_upd]) simp
  then show ?thesis
    using 2 inv_quiet [OF 2 quiet_timers(2) [of _ i]] by (simp only: data_process_def Let_def split: if_split) blast
qed

lemma inv_send_data:
  assumes inv: "htc_inv off s" and p: "\<And>p. pkt = Some p \<Longrightarrow> hp_Endpoint p < ENDPOINT_MAX \<and> ServiceID (EndPoint s (hp_Endpoint p)) \<noteq> 0"
  shows "htc_inv (off + (case pkt of None \<Rightarrow> {#} | Some p \<Rightarrow> {#hp_id p#})) (HTCSendDataPkt env pkt more_data s)"
proof (cases pkt)
  case None
  then show ?thesis using inv_data_process [OF inv, of 1 env] by (simp add: HTCSendDataPkt_def ENDPOINT_MAX_def)
next
  case (Some p)
  let ?i = "hp_Endpoint p"
  let ?s1 = "if ul_is_polled (EndPoint s ?i) then poll_timer_stop ?i s else s"
  let ?q = "data_header (TxCreditSize (EndPoint ?s1 ?i)) (SeqNo (EndPoint ?s1 ?i)) p"
  let ?s2 = "log_htc [Ev_entered ?i [?q]] (upd_ep ?i (\<lambda>e. e\<lparr>SeqNo := u8 (SeqNo e + 1), TxQueue := TxQueue e @ [?q]\<rparr>) ?s1)"
  have "quiet s ?s1" by (simp add: quiet_timers)
  then have 1: "htc_inv off ?s1" and up: "ServiceID (EndPoint ?s1 ?i) \<noteq> 0"
    using inv_quiet [OF inv] p [OF Some] by (auto simp: quiet_def)
  have "hp_id ?q = hp_id p" by (simp add: data_header_def Let_def)
  moreover have "htc_inv (off + mset (ids [?q])) ?s2"
    by (rule inv_enter [OF 1]) (use p [OF Some] up in simp_all)
  ultimately have 2: "htc_inv (off + {#hp_id p#}) ?s2" by (simp only: list.map mset.simps)
  then show ?thesis
    using inv_data_process [OF 2, of ?i env] p [OF Some] by (simp add: HTCSendDataPkt_def Some Let_def)
qed

end
