(* ===== verification/HtcRuns.thy ===== *)
theory HtcRuns
  imports HtcKeeps
begin

text \<open>
  Completions, credit reports, received messages and the control operations keep the books, and so
  does every run of operations after the creation of the target.
\<close>

section \<open>Completions of the bus\<close>

lemma lookup_take_ids:
  "lookup_take nb xs = (r, ys) \<Longrightarrow>
    mset (ids (pkts xs)) = mset (ids (case r of None \<Rightarrow> [] | Some x \<Rightarrow> lk_packets x)) + mset (ids (pkts ys))"
proof (induction xs arbitrary: r ys)
  case (Cons x xs)
  obtain q zs where q: "lookup_take nb xs = (q, zs)" by fastforce
  show ?case using Cons.prems Cons.IH [OF q] by (auto simp: q split: if_splits)
qed simp

lemma inv_lookup:
  assumes inv: "htc_inv off s" and i: "i < ENDPOINT_MAX" and l: "HTCLookupTxPacket i nb s = (r, t)"
  shows "\<exists>off'. htc_inv off' t \<and> off = off' + mset (ids (case r of None \<Rightarrow> [] | Some x \<Rightarrow> lk_packets x))"
proof -
  let ?ps = "ids (case r of None \<Rightarrow> [] | Some x \<Rightarrow> lk_packets x)"
  obtain xs where xs: "lookup_take nb (lookups i s) = (r, xs)"
    and t: "t = upd_ep i (\<lambda>e. e\<lparr>TxLookupQueue := xs, ul_outstanding_cnt := ul_outstanding_cnt e - 1\<rparr>) s"
    using l by (auto simp: HTCLookupTxPacket_def lookups_def split: prod.splits)
  have h: "ep_hold i s = ep_hold i t + mset ?ps" "\<And>j. j \<noteq> i \<Longrightarrow> ep_hold j t = ep_hold j s"
    using lookup_take_ids [OF xs] by (simp_all add: t ep_hold_def txq_def lookups_def)
  have b: "books j s \<longrightarrow> books j t" for j by (simp add: t books_def book_defs)
  have c: "completed t = completed s" "is_nodrop_pkt t = is_nodrop_pkt s" by (simp_all add: t completed_def)
  have "(\<Sum>j<ENDPOINT_MAX. ep_hold j t) + ep_hold i s = (\<Sum>j<ENDPOINT_MAX. ep_hold j s) + ep_hold i t"
    using ep_hold_sum [OF i] h(2) by blast
  then have "(\<Sum>j<ENDPOINT_MAX. ep_hold j s) = (\<Sum>j<ENDPOINT_MAX. ep_hold j t) + mset ?ps"
    using h(1) by (simp add: ac_simps)
  then have "off = (\<Sum>j<ENDPOINT_MAX. ep_hold j t) + mset (ids (completed t)) + mset ?ps"
    using inv c by (auto simp: htc_inv_def ac_simps)
  then show ?thesis using inv b c by (auto simp: htc_inv_def)
qed

lemma inv_tx_completion:
  assumes inv: "htc_inv off s" and i: "i < ENDPOINT_MAX"
  shows "htc_inv off (HTCTxCompletionHandler env nb i s)"
proof -
  let ?s1 = "s\<lparr>TX_comp_cnt := u32 (TX_comp_cnt s + 1)\<rparr>"
  obtain r t where l: "HTCLookupTxPacket i nb ?s1 = (r, t)" by fastforce
  have 1: "htc_inv off ?s1" by (rule inv_quiet [OF inv]) (simp add: quiet_def book_defs)
  obtain off' where off': "htc_inv off' t" "off = off' + mset (ids (case r of None \<Rightarrow> [] | Some x \<Rightarrow> lk_packets x))"
    using inv_lookup [OF 1 i l] by auto
  have again: "htc_inv m (if TxCreditFlowEnabled (EndPoint u i) then u else retry_send env i u)" if "htc_inv m u" for m u
    using that inv_retry [OF _ i] by simp
  note e = HTCTxCompletionHandler_def [of env nb i s, unfolded l Let_def prod.case]
  show ?thesis
  proof (cases r)
    case None
    then show ?thesis using again [OF off'(1)] off'(2) by (simp add: e)
  next
    case (Some x)
    show ?thesis
    proof (cases x)
      case (Lk_packet p)
      have "htc_inv (off' + {#hp_id p#}) (SendPacketCompletion (p\<lparr>hp_Status := Some A_OK_ST\<rparr>) t)"
        using inv_packet_completion [OF off'(1), of "p\<lparr>hp_Status := Some A_OK_ST\<rparr>"] by simp
      from again [OF this] show ?thesis using off'(2) by (simp add: e Some Lk_packet)
    next
      case (Lk_bundle b ps)
      let ?u = "fold SendPacketCompletion ps t"
      have "htc_inv off ?u" using inv_fold_completion [OF off'(1), of "\<lambda>p. p" ps] off'(2) by (simp add: Some Lk_bundle)
      then have "htc_inv off (FreeHTCBundleTxPacket b ?u)"
        by (rule inv_quiet) (simp add: quiet_def book_defs FreeHTCBundleTxPacket_def)
      then show ?thesis by (simp add: e Some Lk_bundle)
    qed
  qed
qed

lemma inv_resource_avail: "htc_inv off s \<Longrightarrow> htc_inv off (HTCTxResourceAvailHandler env pipe s)"
  by (auto simp: HTCTxResourceAvailHandler_def find_Some_iff inv_retry split: option.split)

lemma inv_fold:
  assumes "\<And>x s. x \<in> set xs \<Longrightarrow> htc_inv off s \<Longrightarrow> htc_inv off (f x s)" and "htc_inv off s"
  shows "htc_inv off (fold f xs s)"
  using assms by (induction xs arbitrary: s) simp_all

lemma inv_resume_all: "htc_inv off s \<Longrightarrow> htc_inv off (HTCTxResumeAllHandler env s)"
proof -
  have "htc_inv off (resume_endpoint env i u)" if "htc_inv off u" "i < ENDPOINT_MAX" for i u
    using that inv_retry inv_quiet [OF that(1) quiet_log [of "[Ev_resume i]" u]] by (simp add: resume_endpoint_def)
  then show "htc_inv off s \<Longrightarrow> ?thesis" by (auto simp: HTCTxResumeAllHandler_def intro!: inv_fold)
qed

section \<open>Flushes\<close>

lemma inv_flush_tx:
  assumes inv: "htc_inv off s" and i: "i < ENDPOINT_MAX"
  shows "htc_inv off (HTCFlushEndpointTX i s)"
proof -
  let ?q = "txq i s"
  define u where "u = log_htc [Ev_flushed i (length ?q)] (upd_ep i (\<lambda>e. e\<lparr>TxQueue := []\<rparr>) s)"
  have t: "issued j u = issued j s" "put_back j u = put_back j s" "given j u = given j s" "lookups j u = lookups j s"
    "credits j u = credits j s" "ServiceID (EndPoint u j) = ServiceID (EndPoint s j)" "completed u = completed s" "is_nodrop_pkt u = is_nodrop_pkt s"
    "txq j u = (if j = i then [] else txq j s)"
    "accepted j u = (if j = i then take (length (accepted j s) - length ?q) (accepted j s) else accepted j s)" for j
    by (simp_all add: u_def book_defs)
  have b: "books j u" for j
  proof -
    have acc: "ids (pkts (issued j s)) @ ids (txq j s) = accepted j s" using inv by (simp add: htc_inv_def books_def)
    have "take (length (accepted i s) - length ?q) (accepted i s) = ids (pkts (issued i s))" if "j = i"
      by (simp add: acc [unfolded that, symmetric])
    then show ?thesis using inv acc by (auto simp: htc_inv_def books_def t)
  qed
  have h: "ep_hold i s = ep_hold i u + mset (ids ?q)" "\<And>j. j \<noteq> i \<Longrightarrow> ep_hold j u = ep_hold j s" by (simp_all add: ep_hold_def t)
  have "(\<Sum>j<ENDPOINT_MAX. ep_hold j u) + ep_hold i s = (\<Sum>j<ENDPOINT_MAX. ep_hold j s) + ep_hold i u"
    using ep_hold_sum [OF i] h(2) by blast
  then have "(\<Sum>j<ENDPOINT_MAX. ep_hold j s) = (\<Sum>j<ENDPOINT_MAX. ep_hold j u) + mset (ids ?q)"
    using h(1) by (simp add: ac_simps)
  moreover obtain off' where off': "off' = (\<Sum>j<ENDPOINT_MAX. ep_hold j u) + mset (ids (completed u))" by blast
  ultimately have off: "off = off' + mset (ids ?q)" using inv by (auto simp: htc_inv_def t ac_simps)
  have "htc_inv off' u" using inv b off' by (simp add: htc_inv_def t)
  from inv_fold_completion [OF this, of "\<lambda>p. p\<lparr>hp_Status := Some A_ECANCELED_ST\<rparr>" ?q]
  show ?thesis by (simp add: HTCFlushEndpointTX_def txq_def off u_def)
qed

lemma inv_flush: "htc_inv off s \<Longrightarrow> i < ENDPOINT_MAX \<Longrightarrow> htc_inv off (HTCFlushEndpoint i s)"
  by (simp add: HTCFlushEndpoint_def inv_flush_tx)

section \<open>Received messages\<close>

lemma inv_credits:
  assumes "htc_inv off s"
  shows "htc_inv off (log_htc [Ev_credits i n] (upd_ep i (\<lambda>e. e\<lparr>TxCredits := TxCredits e + int n\<rparr>) s))"
    (is "htc_inv off ?t")
proof -
  have "ep_hold j ?t = ep_hold j s" for j by (simp add: ep_hold_def book_defs)
  moreover have "books j s \<longrightarrow> books j ?t" for j by (auto simp: books_def book_defs)
  moreover have "completed ?t = completed s" "is_nodrop_pkt ?t = is_nodrop_pkt s" by (simp_all add: completed_def)
  ultimately show ?thesis using assms by (auto simp: htc_inv_def)
qed

lemma inv_credit_rpt: "htc_inv off s \<Longrightarrow> htc_inv off (HTCProcessCreditRpt env rs s)"
proof (induction rs arbitrary: s)
  case (Cons r rs)
  obtain i n where r: "r = (i, n)" by fastforce
  let ?s1 = "log_htc [Ev_credits i n] (upd_ep i (\<lambda>e. e\<lparr>TxCredits := TxCredits e + int n\<rparr>) s)"
  have 1: "htc_inv off ?s1" by (rule inv_credits [OF Cons.prems])
  show ?case
  proof (cases "i < ENDPOINT_MAX")
    case True
    have "htc_inv off (HTCSendDataPkt env None False ?s1)" "htc_inv off (retry_send env i ?s1)"
      using inv_send_data [OF 1, of None env False] inv_retry [OF 1 True] by simp_all
    then show ?thesis using True 1 Cons.IH by (simp add: r Let_def)
  next
    case False
    then show ?thesis using Cons.prems by (simp add: r)
  qed
qed simp

lemma inv_trailer: "htc_inv off s \<Longrightarrow> htc_inv off (snd (HTCProcessTrailer env bs s))"
proof (induction env bs s rule: HTCProcessTrailer.induct)
  case (1 env bs s)
  have "htc_inv off (HTC_RECORD_handler env rid rcd s)" for rid rcd
    using 1(2) inv_credit_rpt by (simp add: HTC_RECORD_handler_def)
  then show ?case using 1(1) [OF _ _ refl refl refl] 1(2)
    by (auto simp: HTCProcessTrailer.simps [of env bs s] Let_def)
qed

lemma quiet_ctrl: "quiet s (snd (ctrl_message bs s))"
proof -
  have "quiet s (s\<lparr>CtrlResponseLength := n, CtrlResponseBuffer := bs, CtrlResponseProcessing := p, CtrlResponseValid := v\<rparr>)" for n bs p v
    by (simp add: quiet_def book_defs)
  then have "quiet s (log_htc [Ev_ctrl_msg] (s\<lparr>CtrlResponseLength := n, CtrlResponseBuffer := bs, CtrlResponseProcessing := p, CtrlResponseValid := v\<rparr>))" for n bs p v
    by (rule quiet_trans [OF _ quiet_log]) simp
  then show ?thesis
    using quiet_log [of "[Ev_suspend False, Ev_suspend_wow]" s] quiet_log [of "[Ev_suspend True]" s] quiet_log [of "[Ev_bug]" s]
    by (simp add: ctrl_message_def Let_def)
qed

lemma quiet_free: "quiet s (free_netbuf s)"
  using quiet_log [of "[Ev_nbuf_free]" s] by (simp add: free_netbuf_def)

lemma quiet_payload: "quiet s (snd (recv_payload i bs len tlen s))"
proof -
  have "quiet s (snd (recv_packet i bs tlen s))"
    using quiet_free quiet_log [of "[_]" s] by (simp add: recv_packet_def Let_def)
  moreover have "quiet s (free_netbuf (snd (ctrl_message (drop HTC_HDR_LENGTH bs) s)))"
    by (rule quiet_trans [OF quiet_ctrl quiet_free])
  ultimately show ?thesis
    by (cases "ctrl_message (drop HTC_HDR_LENGTH bs) s") (simp add: recv_payload_def quiet_free)
qed

lemma inv_rx:
  assumes "htc_inv off s" shows "htc_inv off (snd (HTCRxCompletionHandler env bs s))"
proof -
  have drop: "htc_inv off (free_netbuf u)" "htc_inv off (free_netbuf (log_htc [Ev_bug] u))" if "htc_inv off u" for u
    using inv_quiet [OF that] quiet_free quiet_log [of "[Ev_bug]" u] quiet_trans by auto
  have pay: "htc_inv off (snd (recv_payload i bs' len tlen u))" if "htc_inv off u" for i bs' len tlen u
    by (rule inv_quiet [OF that quiet_payload])
  let ?s1 = "\<lambda>i. if ul_is_polled (EndPoint s i) then HTCSendCompleteCheck i s else s"
  have "quiet s (?s1 i)" for i by (auto simp: HTCSendCompleteCheck_def intro: quiet_trans quiet_timers)
  then have 1: "htc_inv off (?s1 i)" for i by (rule inv_quiet [OF assms])
  define u where "u = ?s1 (HTC_GET_FIELD bs HTC_FRAME_HDR_ENDPOINTID)"
  have u: "htc_inv off u" unfolding u_def by (rule 1)
  have "htc_inv off (snd (case HTCProcessTrailer env tr u of
      (A_OK_ST, u) \<Rightarrow> recv_payload i bs len tlen u | (st, u) \<Rightarrow> (st, free_netbuf u)))" for tr i len tlen
  proof -
    obtain st v where v: "HTCProcessTrailer env tr u = (st, v)" by fastforce
    have "htc_inv off v" using inv_trailer [OF u, of env tr] by (simp add: v)
    then show ?thesis using drop pay by (cases st) (simp_all add: v)
  qed
  then show ?thesis
    using u drop pay assms unfolding HTCRxCompletionHandler_def Let_def u_def [symmetric] by simp
qed

end
