(* ===== verification/HtcProps.thy ===== *)
theory HtcProps
  imports HtcRuns
begin

text \<open>Control operations, runs of HTC after its creation, and the properties of every run.\<close>

section \<open>Connecting services\<close>

lemma inv_alloc:
  assumes inv: "htc_inv off s" and unused: "ServiceID (EndPoint s i) = 0"
    and f: "\<And>e. ServiceID (f e) \<noteq> 0 \<and> TxQueue (f e) = TxQueue e \<and> TxLookupQueue (f e) = TxLookupQueue e \<and> TxCredits (f e) = int n"
  shows "htc_inv off (log_htc [Ev_alloc i n] (upd_ep i f s))" (is "htc_inv off ?t")
proof -
  have t: "issued j ?t = issued j s" "put_back j ?t = put_back j s" "accepted j ?t = accepted j s" "txq j ?t = txq j s"
    "lookups j ?t = lookups j s" "given i ?t = n" "credits i ?t = int n" "ServiceID (EndPoint ?t i) \<noteq> 0"
    "j \<noteq> i \<Longrightarrow> given j ?t = given j s \<and> EndPoint ?t j = EndPoint s j \<and> credits j ?t = credits j s" for j
    using f by (simp_all add: book_defs)
  have h: "ep_hold j ?t = ep_hold j s" for j by (simp only: ep_hold_def t)
  have "books j ?t" for j
  proof -
    have "books j s" using inv by (simp add: htc_inv_def)
    then show ?thesis using unused t(6-8) t(9) [of j] unfolding books_def t(1-5) by (cases "j = i") auto
  qed
  then show ?thesis using inv h by (simp add: htc_inv_def completed_def)
qed

lemma inv_setup:
  assumes inv: "htc_inv off s" and req: "cr_ServiceID req \<noteq> 0"
  shows "htc_inv off (snd (setup_endpoint env req i maxlen txAlloc s))"
proof (cases "i \<ge> ENDPOINT_MAX \<or> maxlen = 0 \<or> ServiceID (EndPoint s i) \<noteq> 0")
  case True
  then show ?thesis using inv by (simp only: setup_endpoint_def if_True snd_conv)
next
  case False
  define u where "u = log_htc [Ev_alloc i txAlloc] (upd_ep i (\<lambda>e. e\<lparr>
      ServiceID := cr_ServiceID req, MaxTxQueueDepth := cr_MaxSendQueueDepth req,
      MaxMsgLength := maxlen, TxCredits := int txAlloc, TxCreditSize := TargetCreditSize s,
      TxCreditsPerMaxMsg := maxlen div TargetCreditSize s + (if maxlen mod TargetCreditSize s \<noteq> 0 then 1 else 0),
      EpCallBacks := cr_EpCallbacks req\<rparr>) s)"
  have u: "htc_inv off u" unfolding u_def by (rule inv_alloc [OF inv]) (use False req in simp_all)
  show ?thesis
  proof (cases "hif_pipes env (cr_ServiceID req)")
    case None
    then show ?thesis using False u unfolding setup_endpoint_def Let_def u_def [symmetric] by simp
  next
    case (Some pipes)
    obtain ul dl polled where pipes: "pipes = (ul, dl, polled)" by (cases pipes)
    have "snd (setup_endpoint env req i maxlen txAlloc s) = upd_ep i (\<lambda>e. e\<lparr>
                  UL_PipeID := ul, DL_PipeID := dl, ul_is_polled := polled,
                  TxCreditSize := (if AltDataCreditSize u \<noteq> 0 \<and> HIFIsMailBoxSwapped env \<and> ul = 1 \<and> dl = 0
                                   then AltDataCreditSize u else TxCreditSize e),
                  TxCreditFlowEnabled := (if flow_control_off env req then False else TxCreditFlowEnabled e)\<rparr>) u"
      using False Some pipes unfolding setup_endpoint_def Let_def u_def [symmetric] by simp
    also have "htc_inv off \<dots>" by (rule inv_quiet [OF u quiet_upd]) simp
    finally show ?thesis .
  qed
qed

lemma inv_receive_all: "htc_inv off s \<Longrightarrow> htc_inv off (receive_all env bufs s)"
  unfolding receive_all_def by (rule inv_fold) (rule inv_rx)

lemma inv_wait_ctrl: "htc_inv off s \<Longrightarrow> htc_inv off (snd (HTCWaitRecvCtrlMessage env arriving s))"
proof -
  assume inv: "htc_inv off s"
  have valid: "htc_inv off (u\<lparr>CtrlResponseValid := False\<rparr>)" if "htc_inv off u" for u
    by (rule inv_quiet [OF that]) (simp add: quiet_def book_defs)
  then have "htc_inv off (receive_all env arriving (s\<lparr>CtrlResponseValid := False\<rparr>))" by (intro inv_receive_all) (rule valid [OF inv])
  then show ?thesis using valid by (simp add: HTCWaitRecvCtrlMessage_def Let_def)
qed

lemma inv_connect:
  assumes inv: "htc_inv off s" and req: "cr_ServiceID req \<noteq> 0"
  shows "htc_inv (off + (if cr_ServiceID req = HTC_CTRL_RSVD_SVC \<or> \<not> hif_mem_ok env then {#}
           else offered_pkts [ctrl_packet pid (HTC_CONNECT_SERVICE_MSG_SIZE + cr_MetaDataLength req)] s))
         (snd (HTCConnectService env pid early arriving req s))"
proof (cases "cr_ServiceID req = HTC_CTRL_RSVD_SVC \<or> \<not> hif_mem_ok env")
  case True
  then show ?thesis using inv inv_setup [OF inv req] by (auto simp: HTCConnectService_def)
next
  case False
  let ?p = "ctrl_packet pid (HTC_CONNECT_SERVICE_MSG_SIZE + cr_MetaDataLength req)"
  obtain st t where t: "HTCSendPkt env ?p s = (st, t)" by fastforce
  obtain w u where u: "HTCWaitRecvCtrlMessage env arriving (receive_all env early t) = (w, u)" by fastforce
  have 1: "htc_inv (off + offered_pkts [?p] s) t"
    using inv_send_multiple [OF inv, of "[?p]" env] t by (simp add: HTCSendPkt_def ctrl_packet_def ENDPOINT_MAX_def)
  have 2: "htc_inv (off + offered_pkts [?p] s) u"
    using inv_wait_ctrl [OF inv_receive_all [OF 1], of env arriving env early] u by simp
  have "htc_inv (off + offered_pkts [?p] s) (u\<lparr>enable_b2b := b, CtrlResponseProcessing := c\<rparr>)" for b c
    by (rule inv_quiet [OF 2]) (simp add: quiet_def book_defs)
  from inv_setup [OF this req] show ?thesis
    using False 1 2 by (simp add: HTCConnectService_def Let_def t u)
qed

lemma inv_wait_target:
  assumes inv: "htc_inv off s" shows "htc_inv off (snd (HTCWaitTarget env early arriving s))"
proof -
  obtain w u where u: "HTCWaitRecvCtrlMessage env arriving (receive_all env early s) = (w, u)" by fastforce
  have 1: "htc_inv off u"
    using inv_wait_ctrl [OF inv_receive_all [OF inv], of env arriving env early] u by simp
  have 2: "htc_inv off (u\<lparr>TotalTransmitCredits := a, TargetCreditSize := b, MaxMsgsPerHTCBundle := c, AltDataCreditSize := d\<rparr>)" for a b c d
    by (rule inv_quiet [OF 1]) (simp add: quiet_def book_defs)
  have 3: "htc_inv off (HTCSetupTargetBufferAssignments env (v\<lparr>CtrlResponseProcessing := False\<rparr>))" if "htc_inv off v" for v
    by (rule inv_quiet [OF that]) (simp add: quiet_def book_defs HTCSetupTargetBufferAssignments_def Let_def)
  have "cr_ServiceID ctrl_service_req = HTC_CTRL_RSVD_SVC" "cr_ServiceID ctrl_service_req \<noteq> 0"
    by (simp_all add: ctrl_service_req_def HTC_CTRL_RSVD_SVC_def MAKE_SERVICE_ID_def)
  then have 4: "htc_inv off (snd (HTCConnectService env 0 [] [] ctrl_service_req v))" if "htc_inv off v" for v
    using inv_connect [OF that, of ctrl_service_req env 0 "[]" "[]"] by simp
  show ?thesis using inv 1 2 4 [OF 3 [OF 2]] by (simp add: HTCWaitTarget_def Let_def u)
qed

lemma inv_start:
  assumes inv: "htc_inv off s"
  shows "htc_inv (off + (if hif_mem_ok env then offered_pkts [ctrl_packet pid HTC_SETUP_COMPLETE_EX_MSG_SIZE] s else {#}))
      (snd (HTCStart env pid s))"
proof -
  let ?p = "ctrl_packet pid HTC_SETUP_COMPLETE_EX_MSG_SIZE"
  let ?s1 = "if HTC_ENABLE_BUNDLE s then log_htc [Ev_bundle_mode HTC_MAX_MSG_PER_BUNDLE_RX] s else s"
  have "htc_inv off ?s1" using inv inv_quiet [OF inv quiet_log [of "[Ev_bundle_mode HTC_MAX_MSG_PER_BUNDLE_RX]"]] by simp
  then have "htc_inv (off + offered_pkts [?p] ?s1) (snd (HTCSendPktsMultiple env [?p] ?s1))"
    by (rule inv_send_multiple) (simp add: ctrl_packet_def ENDPOINT_MAX_def)
  moreover have "offered_pkts [?p] ?s1 = offered_pkts [?p] s" by (simp add: offered_pkts_def)
  ultimately show ?thesis using inv by (simp only: HTCStart_def HTCSendPkt_def split: if_split) simp
qed

section \<open>Runs\<close>

datatype htc_op =
    Hop_send "htc_packet list"
  | Hop_data "htc_packet option" bool
  | Hop_complete netbuf nat
  | Hop_avail nat
  | Hop_resume
  | Hop_flush nat
  | Hop_receive "8 word list"
  | Hop_add_rx "htc_packet list"
  | Hop_connect nat "8 word list list" "8 word list list" htc_connect_req
  | Hop_disconnect nat
  | Hop_wait_target "8 word list list" "8 word list list"
  | Hop_start nat

fun htc_exec :: "htc_target \<Rightarrow> hif_env \<times> htc_op \<Rightarrow> htc_target" where
  "htc_exec s (env, Hop_send ps) = snd (HTCSendPktsMultiple env ps s)"
| "htc_exec s (env, Hop_data pkt more_data) = HTCSendDataPkt env pkt more_data s"
| "htc_exec s (env, Hop_complete nb i) = HTCTxCompletionHandler env nb i s"
| "htc_exec s (env, Hop_avail pipe) = HTCTxResourceAvailHandler env pipe s"
| "htc_exec s (env, Hop_resume) = HTCTxResumeAllHandler env s"
| "htc_exec s (env, Hop_flush i) = HTCFlushEndpoint i s"
| "htc_exec s (env, Hop_receive bs) = snd (HTCRxCompletionHandler env bs s)"
| "htc_exec s (env, Hop_add_rx ps) = snd (HTCAddReceivePktMultiple ps s)"
| "htc_exec s (env, Hop_connect pid early arriving req) = snd (HTCConnectService env pid early arriving req s)"
| "htc_exec s (env, Hop_disconnect i) = htc_disconnect_service i s"
| "htc_exec s (env, Hop_wait_target early arriving) = snd (HTCWaitTarget env early arriving s)"
| "htc_exec s (env, Hop_start pid) = snd (HTCStart env pid s)"

text \<open>The packets that an operation hands to HTC.\<close>

fun htc_offers :: "htc_target \<Rightarrow> hif_env \<times> htc_op \<Rightarrow> nat multiset" where
  "htc_offers s (env, Hop_send ps) = offered_pkts ps s"
| "htc_offers s (env, Hop_data (Some p) more_data) = {#hp_id p#}"
| "htc_offers s (env, Hop_connect pid early arriving req) =
     (if cr_ServiceID req = HTC_CTRL_RSVD_SVC \<or> \<not> hif_mem_ok env then {#}
      else offered_pkts [ctrl_packet pid (HTC_CONNECT_SERVICE_MSG_SIZE + cr_MetaDataLength req)] s)"
| "htc_offers s (env, Hop_start pid) =
     (if hif_mem_ok env then offered_pkts [ctrl_packet pid HTC_SETUP_COMPLETE_EX_MSG_SIZE] s else {#})"
| "htc_offers s _ = {#}"

text \<open>Clients name endpoints that exist, send data on connected ones and connect services other than 0.\<close>

fun htc_ok :: "htc_target \<Rightarrow> hif_env \<times> htc_op \<Rightarrow> bool" where
  "htc_ok s (env, Hop_send ps) = (ps = [] \<or> hp_Endpoint (hd ps) < ENDPOINT_MAX)"
| "htc_ok s (env, Hop_data (Some p) more_data) =
     (hp_Endpoint p < ENDPOINT_MAX \<and> ServiceID (EndPoint s (hp_Endpoint p)) \<noteq> 0)"
| "htc_ok s (env, Hop_complete nb i) = (i < ENDPOINT_MAX)"
| "htc_ok s (env, Hop_flush i) = (i < ENDPOINT_MAX)"
| "htc_ok s (env, Hop_connect pid early arriving req) = (cr_ServiceID req \<noteq> 0)"
| "htc_ok s _ = True"

lemma inv_exec:
  assumes inv: "htc_inv off s" and ok: "htc_ok s op"
  shows "htc_inv (off + htc_offers s op) (htc_exec s op)"
proof -
  obtain env a where op: "op = (env, a)" by fastforce
  have add_rx: "htc_inv off (snd (HTCAddReceivePktMultiple ps s))" for ps
  proof (cases ps)
    case (Cons p ps')
    have "quiet s (upd_ep (hp_Endpoint p) (\<lambda>e. e\<lparr>RxBufferHoldQueue := RxBufferHoldQueue e @ ps\<rparr>) s)"
      by (rule quiet_upd) simp
    moreover have "quiet s (log_htc (map (\<lambda>q. Ev_rx_buffer (hp_Endpoint p) (q\<lparr>hp_Status := Some A_ECANCELED_ST\<rparr>)) ps) s)"
      by (rule quiet_log) (simp add: list_all_iff)
    ultimately show ?thesis using inv_quiet [OF inv] by (simp add: HTCAddReceivePktMultiple_def Cons Let_def)
  qed (simp add: HTCAddReceivePktMultiple_def inv)
  have disc: "htc_inv off (htc_disconnect_service i s)" for i
    unfolding htc_disconnect_service_def by (rule inv_quiet [OF inv quiet_upd]) simp
  show ?thesis
  proof (cases a)
    case (Hop_data pkt more_data)
    then show ?thesis using ok inv_send_data [OF inv, of pkt env more_data] by (cases pkt) (simp_all add: op)
  next
    case (Hop_connect pid early arriving req)
    then show ?thesis using ok inv_connect [OF inv, of req env pid early arriving] by (simp add: op)
  next
    case (Hop_start pid)
    then show ?thesis using inv_start [OF inv, of env pid] by (simp add: op)
  qed (use ok inv in \<open>simp_all add: op inv_send_multiple inv_tx_completion inv_resource_avail inv_resume_all
      inv_flush inv_rx add_rx disc inv_wait_target\<close>)
qed

text \<open>Runs keep the account of the packets handed over.\<close>

definition htc_step :: "nat multiset \<times> htc_target \<Rightarrow> hif_env \<times> htc_op \<Rightarrow> nat multiset \<times> htc_target" where
  "htc_step r op = (fst r + htc_offers (snd r) op, htc_exec (snd r) op)"

definition htc_step_ok :: "nat multiset \<times> htc_target \<Rightarrow> hif_env \<times> htc_op \<Rightarrow> bool" where
  "htc_step_ok r op = htc_ok (snd r) op"

interpretation htc_runs: run_invariant htc_step htc_step_ok "\<lambda>r. htc_inv (fst r) (snd r)"
  by unfold_locales (simp add: htc_step_def htc_step_ok_def inv_exec)

lemma create_endpoints:
  "TxQueue (EndPoint (HTCCreate pipes) j) = []" "TxLookupQueue (EndPoint (HTCCreate pipes) j) = []"
  "TxCredits (EndPoint (HTCCreate pipes) j) = 0" "htc_log (HTCCreate pipes) = []" "\<not> is_nodrop_pkt (HTCCreate pipes)"
  by (simp_all add: HTCCreate_def ResetEndpointStates_def reset_endpoint_def zero_endpoint_def)

lemma inv_create: "htc_inv {#} (HTCCreate pipes)"
  by (simp add: htc_inv_def books_def ep_hold_def book_defs create_endpoints)

end
