(* ===== verification/HtcMain.thy ===== *)
theory HtcMain
  imports HtcProps
begin

text \<open>
  What bundles and the control messages guarantee: a bundle fits in its buffer, and the flag that a
  reply is being processed stays set once it is left behind.
\<close>

section \<open>The size of a bundle\<close>

text \<open>The bytes of a packet in a bundle: payload, header and padding.\<close>

definition bundle_len :: "nat \<Rightarrow> htc_packet \<Rightarrow> nat" where
  "bundle_len csize p = (let len = ActualLength p + HTC_HDR_LENGTH in len + creditPad csize len)"

definition bundle_bytes :: "nat \<Rightarrow> htc_packet list \<Rightarrow> nat" where
  "bundle_bytes csize ps = sum_list (map (bundle_len csize) ps)"

text \<open>A bundle on an endpoint with credits of \<open>csize\<close> bytes fits in a buffer of \<open>room\<close> bytes.\<close>

fun fits :: "nat \<Rightarrow> nat \<Rightarrow> htc_event \<Rightarrow> bool" where
  "fits csize room (Ev_send pipe i (Lk_bundle b ps) ok) = (bundle_bytes csize ps \<le> room)"
| "fits csize room _ = True"

lemma fits_mono: "fits csize room ev \<Longrightarrow> room \<le> room' \<Longrightarrow> fits csize room' ev"
  by (induction csize room ev rule: fits.induct) simp_all

definition adds_fitting :: "nat \<Rightarrow> htc_target \<Rightarrow> htc_target \<Rightarrow> bool" where
  "adds_fitting csize s t \<longleftrightarrow> (\<exists>es. htc_log t = htc_log s @ es \<and> list_all (fits csize (HTC_MAX_MSG_PER_BUNDLE_TX * csize)) es)"

lemma adds_fitting_refl: "htc_log t = htc_log s \<Longrightarrow> adds_fitting csize s t"
  by (auto simp: adds_fitting_def)

lemma adds_fitting_trans: "adds_fitting csize s t \<Longrightarrow> adds_fitting csize t u \<Longrightarrow> adds_fitting csize s u"
  unfolding adds_fitting_def by (metis append.assoc list_all_append)

lemma bundle_send_fits:
  assumes "HTCSendBundledNetbuf env i b saved s = (taken, t)" "bundle_bytes csize saved \<le> HTC_MAX_MSG_PER_BUNDLE_TX * csize"
  shows "adds_fitting csize s t" "TxCreditSize (EndPoint t i) = TxCreditSize (EndPoint s i)"
  using assms
  by (auto simp: HTCSendBundledNetbuf_def HIFSend_head_def Let_def lookup_enqueue_def lookup_remove_def adds_fitting_def
      split: if_splits)

lemma bundle_alloc_log:
  assumes "AllocateHTCBundleTxPacket env s = (r, t)"
  shows "htc_log t = htc_log s" "EndPoint t = EndPoint s"
  using assms by (auto simp: AllocateHTCBundleTxPacket_def split: list.splits if_splits)

lemma bundle_free_log [simp]: "htc_log (FreeHTCBundleTxPacket b s) = htc_log s" "EndPoint (FreeHTCBundleTxPacket b s) = EndPoint s"
  by (simp_all add: FreeHTCBundleTxPacket_def)

lemma bundle_bytes_simps [simp]:
  "bundle_bytes csize [] = 0" "bundle_bytes csize (ps @ qs) = bundle_bytes csize ps + bundle_bytes csize qs"
  "bundle_bytes csize (p # ps) = bundle_len csize p + bundle_bytes csize ps"
  by (simp_all add: bundle_bytes_def)

lemma bundle_len_header [simp]: "bundle_len csize (bundle_header pad p) = bundle_len csize p"
  by (simp add: bundle_len_def bundle_header_def)

text \<open>The space left in the current bundle is what its packets leave of the buffer.\<close>

lemma bundle_loop_fits:
  assumes "TxCreditSize (EndPoint s i) = csize" "int (bundle_bytes csize saved) + space = int (HTC_MAX_MSG_PER_BUNDLE_TX * csize)"
    "0 \<le> space" "\<And>p. p \<in> set ps \<Longrightarrow> bundle_len csize p \<le> HTC_MAX_MSG_PER_BUNDLE_TX * csize"
    "bundle_loop env i b saved space ps s = (left, t)"
  shows "adds_fitting csize s t"
  using assms
proof (induction ps arbitrary: b saved space s)
  case Nil
  obtain taken u where h: "HTCSendBundledNetbuf env i b saved s = (taken, u)" by fastforce
  have "bundle_bytes csize saved \<le> HTC_MAX_MSG_PER_BUNDLE_TX * csize" using Nil.prems(2,3) by linarith
  note sent = bundle_send_fits(1) [OF h this]
  show ?case
    using Nil.prems(5) sent by (auto simp: h adds_fitting_def split: if_splits)
next
  case (Cons p ps)
  let ?cap = "int (HTC_MAX_MSG_PER_BUNDLE_TX * csize)"
  obtain taken u where h: "HTCSendBundledNetbuf env i b saved s = (taken, u)" by fastforce
  obtain r v where a: "AllocateHTCBundleTxPacket env u = (r, v)" by fastforce
  have "bundle_bytes csize saved \<le> HTC_MAX_MSG_PER_BUNDLE_TX * csize" using Cons.prems(2,3) by linarith
  note sent = bundle_send_fits [OF h this] and alloc = bundle_alloc_log [OF a]
  have sv: "adds_fitting csize s v" using adds_fitting_trans [OF sent(1)] adds_fitting_refl alloc(1) by blast
  let ?pad = "creditPad csize (ActualLength p + HTC_HDR_LENGTH)"
  have unroll: "bundle_loop env i b saved space (p # ps) s =
      (if space < int (bundle_len csize p) then
         (if \<not> taken then (saved @ p # ps, FreeHTCBundleTxPacket b u)
          else if length ps + 1 < HTC_MIN_MSG_PER_BUNDLE then (p # ps, u)
          else (case r of None \<Rightarrow> (p # ps, v)
                | Some b' \<Rightarrow> bundle_loop env i b' [bundle_header ?pad p] (?cap - int (bundle_len csize p)) ps v))
       else bundle_loop env i b (saved @ [bundle_header ?pad p]) (space - int (bundle_len csize p)) ps s)"
    using Cons.prems(1) h a by (simp add: bundle_len_def Let_def split: option.split)
  have p: "int (bundle_len csize p) \<le> ?cap" using Cons.prems(4) [of p] by (simp only: list.set_intros of_nat_le_iff)
  show ?case
  proof (cases "space < int (bundle_len csize p)")
    case False
    show ?thesis
      by (rule Cons.IH [of s "saved @ [bundle_header ?pad p]" "space - int (bundle_len csize p)" b])
        (use Cons.prems unroll False in simp_all)
  next
    case True
    have next_bundle: "adds_fitting csize v t"
      if "r = Some b'" "bundle_loop env i b' [bundle_header ?pad p] (?cap - int (bundle_len csize p)) ps v = (left, t)" for b'
      by (rule Cons.IH [of v "[bundle_header ?pad p]" "?cap - int (bundle_len csize p)" b'])
        (use Cons.prems(1,4) sent(2) alloc(2) p that in simp_all)
    have "adds_fitting csize s (FreeHTCBundleTxPacket b u)" using sent(1) by (simp add: adds_fitting_def)
    then show ?thesis
      using Cons.prems(5) unroll True sent(1) sv next_bundle adds_fitting_trans [OF sv]
      by (auto split: if_splits option.splits)
  qed
qed

section \<open>The flag of a reply\<close>

text \<open>
  A step on the flags of control messages: once a reply is being processed it stays so; a reply becomes
  valid only together with that flag, and not while it is set.
\<close>

definition ctl_step :: "htc_target \<Rightarrow> htc_target \<Rightarrow> bool" where
  "ctl_step s t \<longleftrightarrow> (CtrlResponseProcessing s \<longrightarrow> CtrlResponseProcessing t) \<and>
     (CtrlResponseValid t \<longrightarrow> CtrlResponseValid s \<or> CtrlResponseProcessing t) \<and>
     (CtrlResponseProcessing s \<and> CtrlResponseValid t \<longrightarrow> CtrlResponseValid s)"

lemma ctl_step_same [simp]:
  "CtrlResponseProcessing t = CtrlResponseProcessing s \<Longrightarrow> CtrlResponseValid t = CtrlResponseValid s \<Longrightarrow> ctl_step s t"
  by (simp add: ctl_step_def)

lemma ctl_step_trans: "ctl_step s t \<Longrightarrow> ctl_step t u \<Longrightarrow> ctl_step s u"
  by (auto simp: ctl_step_def)

lemma ctl_drained: "drained i s t \<Longrightarrow> ctl_step s t"
  by (simp add: drained_def frame_def ctl_def)

lemma ctl_completion: "ctl_step s (DoSendCompletion i ps s)" "ctl_step s (SendPacketCompletion p s)"
  by (simp_all add: DoSendCompletion_def SendPacketCompletion_def)

lemma ctl_fold: "(\<And>x s. ctl_step s (f x s)) \<Longrightarrow> ctl_step s (fold f xs s)"
  by (induction xs arbitrary: s) (auto intro: ctl_step_trans)

lemma ctl_process: "(\<And>s. ctl_step s (work s)) \<Longrightarrow> ctl_step s (process_queue work i s)"
proof -
  assume work: "\<And>s. ctl_step s (work s)"
  let ?s1 = "upd_ep i (\<lambda>e. e\<lparr>TxProcessCount := TxProcessCount e + 1\<rparr>) s"
  have "ctl_step s ?s1" by simp
  moreover have "ctl_step (work ?s1) (upd_ep i (\<lambda>e. e\<lparr>TxProcessCount := 0\<rparr>) (work ?s1))" by simp
  ultimately have "ctl_step s (upd_ep i (\<lambda>e. e\<lparr>TxProcessCount := 0\<rparr>) (work ?s1))"
    using work ctl_step_trans by blast
  moreover have "ctl_step s (upd_ep i (\<lambda>e. e\<lparr>TxProcessCount := TxProcessCount e - 1\<rparr>) ?s1)" by simp
  ultimately show ?thesis unfolding process_queue_def Let_def by (simp only: split: if_split) blast
qed

lemma ctl_try_send: "ctl_step s (snd (snd (HTCTrySend env i callers s)))"
proof -
  obtain r q rest u where a: "(case callers of None \<Rightarrow> (HTC_SEND_QUEUE_OK, [], [], s) | Some ps \<Rightarrow> accept_packets i ps s) = (r, q, rest, u)"
    by (cases "case callers of None \<Rightarrow> (HTC_SEND_QUEUE_OK, [], [], s) | Some ps \<Rightarrow> accept_packets i ps s")
  have u: "ctl_step s u"
    using a by (auto simp: accept_packets_def Let_def split: option.splits if_splits prod.splits)
  have e: "ctl_step u (enter_queue i q u)" by (simp add: enter_queue_def)
  have "ctl_step s (process_queue (drain_queue env i n) i (enter_queue i q u))" for n
    using ctl_step_trans [OF u ctl_step_trans [OF e ctl_process [OF ctl_drained [OF drained_queue]]]] .
  then show ?thesis using u by (cases r) (simp_all add: HTCTrySend_def a Let_def)
qed

lemma ctl_retry: "ctl_step s (retry_send env i s)"
  by (simp add: retry_send_def ctl_try_send)

lemma ctl_send_multiple: "ctl_step s (snd (HTCSendPktsMultiple env ps s))"
proof (cases ps)
  case (Cons p ps')
  let ?i = "hp_Endpoint p"
  obtain qs nxt where q: "first_headers (TxCreditFlowEnabled (EndPoint s ?i)) (SeqNo (EndPoint s ?i)) ps = (qs, nxt)" by fastforce
  let ?s1 = "upd_ep ?i (\<lambda>e. e\<lparr>SeqNo := nxt\<rparr>) s"
  obtain r rest t where t: "HTCTrySend env ?i (Some qs) ?s1 = (r, rest, t)" by (cases "HTCTrySend env ?i (Some qs) ?s1")
  have "ctl_step s ?s1" by simp
  then have "ctl_step s t" using ctl_step_trans [OF _ ctl_try_send [of ?s1 env ?i "Some qs"]] t by simp
  then show ?thesis
    using ctl_step_trans [OF _ ctl_completion(1)] q t by (simp add: HTCSendPktsMultiple_def Cons Let_def)
qed (simp add: HTCSendPktsMultiple_def)

lemma ctl_data_process: "ctl_step s (data_process env i s)"
proof -
  let ?s1 = "upd_ep i (\<lambda>e. e\<lparr>TxProcessCount := TxProcessCount e + 1\<rparr>) s"
  let ?s2 = "upd_ep i (\<lambda>e. e\<lparr>TxProcessCount := 0\<rparr>) (data_drain env i ?s1)"
  have "ctl_step s ?s1" by simp
  moreover have "ctl_step ?s1 (data_drain env i ?s1)" by (rule ctl_drained [OF drained_data])
  moreover have "ctl_step (data_drain env i ?s1) ?s2" by simp
  ultimately have "ctl_step s ?s2" using ctl_step_trans by blast
  moreover have "ctl_step ?s2 (poll_timer_start i ?s2)" by (simp add: poll_timer_start_def)
  moreover have "ctl_step s (upd_ep i (\<lambda>e. e\<lparr>TxProcessCount := TxProcessCount e - 1\<rparr>) ?s1)" by simp
  ultimately show ?thesis using ctl_step_trans unfolding data_process_def Let_def by (simp only: split: if_split) blast
qed

lemma ctl_send_data: "ctl_step s (HTCSendDataPkt env pkt more_data s)"
proof (cases pkt)
  case None
  then show ?thesis by (simp add: HTCSendDataPkt_def ctl_data_process)
next
  case (Some p)
  let ?i = "hp_Endpoint p"
  let ?s1 = "if ul_is_polled (EndPoint s ?i) then poll_timer_stop ?i s else s"
  define u where "u = log_htc [Ev_entered ?i [data_header (TxCreditSize (EndPoint ?s1 ?i)) (SeqNo (EndPoint ?s1 ?i)) p]]
    (upd_ep ?i (\<lambda>e. e\<lparr>SeqNo := u8 (SeqNo e + 1), TxQueue := TxQueue e @ [data_header (TxCreditSize (EndPoint ?s1 ?i)) (SeqNo (EndPoint ?s1 ?i)) p]\<rparr>) ?s1)"
  have u: "ctl_step s u" by (simp add: u_def poll_timer_stop_def)
  have "HTCSendDataPkt env pkt more_data s = (if HTC_ENABLE_BUNDLE u \<and> more_data then u else data_process env ?i u)"
    unfolding HTCSendDataPkt_def Some Let_def option.case u_def ..
  then show ?thesis using u ctl_step_trans [OF u ctl_data_process] by simp
qed

lemma ctl_credit_rpt: "ctl_step s (HTCProcessCreditRpt env rs s)"
proof (induction rs arbitrary: s)
  case (Cons r rs)
  obtain i n where r: "r = (i, n)" by fastforce
  let ?s1 = "log_htc [Ev_credits i n] (upd_ep i (\<lambda>e. e\<lparr>TxCredits := TxCredits e + int n\<rparr>) s)"
  have 1: "ctl_step s ?s1" by simp
  have "ctl_step s (HTCSendDataPkt env None False ?s1)" "ctl_step s (retry_send env i ?s1)"
    using ctl_step_trans [OF 1] ctl_send_data ctl_retry by blast+
  then have "ctl_step s (HTCProcessCreditRpt env rs (HTCSendDataPkt env None False ?s1))"
    "ctl_step s (HTCProcessCreditRpt env rs (retry_send env i ?s1))" "ctl_step s (HTCProcessCreditRpt env rs ?s1)"
    using 1 by (rule_tac [!] ctl_step_trans [OF _ Cons.IH])
  then show ?case by (simp add: r Let_def)
qed simp

lemma ctl_trailer: "ctl_step s (snd (HTCProcessTrailer env bs s))"
proof (induction env bs s rule: HTCProcessTrailer.induct)
  case (1 env bs s)
  have "ctl_step s (HTC_RECORD_handler env rid rcd s)" for rid rcd
    using ctl_credit_rpt by (simp add: HTC_RECORD_handler_def)
  then show ?case using ctl_step_trans [OF _ 1 [OF _ _ refl refl refl]]
    by (simp add: HTCProcessTrailer.simps [of env bs s] Let_def)
qed

lemma ctl_ctrl_message: "ctl_step s (snd (ctrl_message bs s))"
  by (simp add: ctrl_message_def Let_def ctl_step_def)

lemma ctl_payload: "ctl_step s (snd (recv_payload i bs len tlen s))"
  using ctl_ctrl_message [of s "drop HTC_HDR_LENGTH bs"]
  by (cases "ctrl_message (drop HTC_HDR_LENGTH bs) s")
    (simp add: recv_payload_def recv_packet_def free_netbuf_def Let_def, simp add: ctl_step_def)

lemma ctl_rx: "ctl_step s (snd (HTCRxCompletionHandler env bs s))"
proof -
  let ?s1 = "\<lambda>i. if ul_is_polled (EndPoint s i) then HTCSendCompleteCheck i s else s"
  define u where "u = ?s1 (HTC_GET_FIELD bs HTC_FRAME_HDR_ENDPOINTID)"
  have u: "ctl_step s u" by (simp add: u_def HTCSendCompleteCheck_def poll_timer_start_def poll_timer_stop_def)
  have free: "ctl_step s (free_netbuf v)" "ctl_step s (free_netbuf (log_htc [Ev_bug] v))" if "ctl_step s v" for v
    using that by (simp_all add: free_netbuf_def ctl_step_def)
  have "ctl_step s (snd (case HTCProcessTrailer env tr u of
      (A_OK_ST, u) \<Rightarrow> recv_payload i bs len tlen u | (st, u) \<Rightarrow> (st, free_netbuf u)))" for tr i len tlen
  proof -
    obtain st v where v: "HTCProcessTrailer env tr u = (st, v)" by fastforce
    have "ctl_step s v" using ctl_step_trans [OF u ctl_trailer [of u env tr]] by (simp add: v)
    then show ?thesis using free ctl_step_trans [OF _ ctl_payload] by (cases st) (simp_all add: v)
  qed
  then show ?thesis
    using u free ctl_step_trans [OF u ctl_payload] free [of s]
    unfolding HTCRxCompletionHandler_def Let_def u_def [symmetric] by simp
qed

lemma ctl_receive_all: "ctl_step s (receive_all env bufs s)"
  unfolding receive_all_def by (rule ctl_fold) (rule ctl_rx)

lemma ctl_tx_completion: "ctl_step s (HTCTxCompletionHandler env nb i s)"
proof -
  obtain r t where l: "HTCLookupTxPacket i nb (s\<lparr>TX_comp_cnt := u32 (TX_comp_cnt s + 1)\<rparr>) = (r, t)" by fastforce
  note e = HTCTxCompletionHandler_def [of env nb i s, unfolded l Let_def prod.case]
  have t: "ctl_step s t" using l by (auto simp: HTCLookupTxPacket_def split: prod.splits)
  have again: "ctl_step s (if TxCreditFlowEnabled (EndPoint u i) then u else retry_send env i u)" if "ctl_step s u" for u
    using that ctl_step_trans [OF that ctl_retry] by simp
  show ?thesis
  proof (cases r)
    case None
    then show ?thesis using again [OF t] by (simp add: e)
  next
    case (Some x)
    show ?thesis
    proof (cases x)
      case (Lk_packet p)
      then show ?thesis using again [OF ctl_step_trans [OF t ctl_completion(2)]] by (simp add: e Some)
    next
      case (Lk_bundle b ps)
      have "ctl_step s (fold SendPacketCompletion ps t)" by (rule ctl_step_trans [OF t ctl_fold [OF ctl_completion(2)]])
      then show ?thesis by (simp add: e Some Lk_bundle FreeHTCBundleTxPacket_def ctl_step_def)
    qed
  qed
qed

lemma ctl_resume_all: "ctl_step s (HTCTxResumeAllHandler env s)"
  unfolding HTCTxResumeAllHandler_def
proof (rule ctl_fold)
  fix i u
  have "ctl_step u (log_htc [Ev_resume i] u)" by simp
  from ctl_step_trans [OF this ctl_retry] show "ctl_step u (resume_endpoint env i u)"
    by (simp add: resume_endpoint_def ctl_retry)
qed

lemma ctl_flush: "ctl_step s (HTCFlushEndpoint i s)"
proof -
  let ?u = "log_htc [Ev_flushed i (length (TxQueue (EndPoint s i)))] (upd_ep i (\<lambda>e. e\<lparr>TxQueue := []\<rparr>) s)"
  have "ctl_step s ?u" by simp
  moreover have "ctl_step ?u (fold (\<lambda>p. SendPacketCompletion (p\<lparr>hp_Status := Some A_ECANCELED_ST\<rparr>)) (TxQueue (EndPoint s i)) ?u)"
    by (rule ctl_fold) (rule ctl_completion(2))
  ultimately show ?thesis
    unfolding HTCFlushEndpoint_def HTCFlushEndpointTX_def by (simp only: split: if_split) (blast intro: ctl_step_trans ctl_step_same)
qed

end
