(* ===== verification/HtcTheorems.thy ===== *)
theory HtcTheorems
  imports HtcMain
begin

text \<open>The properties of HTC.\<close>

section \<open>A reply that is left behind\<close>

lemma wait_valid:
  assumes "HTCWaitRecvCtrlMessage env arriving s = (st, t)"
  shows "CtrlResponseProcessing s \<Longrightarrow> st = A_ERROR_ST \<and> CtrlResponseProcessing t"
    and "st = A_OK_ST \<Longrightarrow> CtrlResponseProcessing t" and "st = A_OK_ST \<or> st = A_ERROR_ST"
  using assms ctl_receive_all [of "s\<lparr>CtrlResponseValid := False\<rparr>" env arriving]
  by (auto simp: HTCWaitRecvCtrlMessage_def Let_def ctl_step_def split: if_splits)

lemma setup_processing: "CtrlResponseProcessing (snd (setup_endpoint env req i maxlen n s)) = CtrlResponseProcessing s"
  "CtrlResponseBuffer (snd (setup_endpoint env req i maxlen n s)) = CtrlResponseBuffer s"
  by (simp_all add: setup_endpoint_def Let_def split: option.split prod.split)

lemma sent_status: "fst (HTCSendPkt env p s) = A_OK_ST \<or> fst (HTCSendPkt env p s) = A_EINVAL"
  by (simp add: HTCSendPkt_def HTCSendPktsMultiple_def Let_def split: prod.split)

lemma connect_processing:
  assumes "CtrlResponseProcessing s"
  shows "CtrlResponseProcessing (snd (HTCConnectService env pid early arriving req s))"
    and "cr_ServiceID req \<noteq> HTC_CTRL_RSVD_SVC \<Longrightarrow> fst (HTCConnectService env pid early arriving req s) \<noteq> A_OK_ST"
proof -
  let ?p = "ctrl_packet pid (HTC_CONNECT_SERVICE_MSG_SIZE + cr_MetaDataLength req)"
  obtain st t where t: "HTCSendPkt env ?p s = (st, t)" by fastforce
  obtain w u where u: "HTCWaitRecvCtrlMessage env arriving (receive_all env early t) = (w, u)" by fastforce
  have t': "CtrlResponseProcessing t"
    using ctl_send_multiple [of s env "[?p]"] t assms by (simp add: HTCSendPkt_def ctl_step_def)
  then have "CtrlResponseProcessing (receive_all env early t)"
    using ctl_receive_all [of t env early] by (simp add: ctl_step_def)
  then have u': "w = A_ERROR_ST" "CtrlResponseProcessing u" using wait_valid(1) [OF u] by simp_all
  show "CtrlResponseProcessing (snd (HTCConnectService env pid early arriving req s))"
    using assms t' u' by (simp add: HTCConnectService_def Let_def t u setup_processing)
  show "fst (HTCConnectService env pid early arriving req s) \<noteq> A_OK_ST" if "cr_ServiceID req \<noteq> HTC_CTRL_RSVD_SVC"
    using that u' by (simp add: HTCConnectService_def Let_def t u)
qed

lemma wait_target_processing:
  assumes "CtrlResponseProcessing s" shows "CtrlResponseProcessing (snd (HTCWaitTarget env early arriving s))"
proof -
  obtain w u where u: "HTCWaitRecvCtrlMessage env arriving (receive_all env early s) = (w, u)" by fastforce
  have "CtrlResponseProcessing (receive_all env early s)"
    using assms ctl_receive_all [of s env early] by (simp add: ctl_step_def)
  note w = wait_valid(1) [OF u this]
  show ?thesis using assms w unfolding HTCWaitTarget_def u Let_def prod.case by simp
qed

lemma ctl_start: "ctl_step s (snd (HTCStart env pid s))"
proof -
  let ?s1 = "if HTC_ENABLE_BUNDLE s then log_htc [Ev_bundle_mode HTC_MAX_MSG_PER_BUNDLE_RX] s else s"
  have "ctl_step s ?s1" by simp
  from ctl_step_trans [OF this ctl_send_multiple]
  have "ctl_step s (snd (HTCSendPktsMultiple env [ctrl_packet pid HTC_SETUP_COMPLETE_EX_MSG_SIZE] ?s1))" .
  then show ?thesis by (cases "hif_mem_ok env") (simp_all only: HTCStart_def HTCSendPkt_def if_True if_False not_True_eq_False not_False_eq_True snd_conv ctl_step_same)
qed

lemma ctl_avail: "ctl_step s (HTCTxResourceAvailHandler env pipe s)"
  by (simp add: HTCTxResourceAvailHandler_def ctl_retry split: option.split)

lemma ctl_add_rx: "ctl_step s (snd (HTCAddReceivePktMultiple ps s))"
  by (simp add: HTCAddReceivePktMultiple_def Let_def split: list.split)

lemma exec_processing: "CtrlResponseProcessing s \<Longrightarrow> CtrlResponseProcessing (htc_exec s op)"
proof -
  assume p: "CtrlResponseProcessing s"
  obtain env a where op: "op = (env, a)" by fastforce
  have step: "CtrlResponseProcessing t" if "ctl_step s t" for t using that p by (simp add: ctl_step_def)
  have disconnect: "ctl_step s (htc_disconnect_service i s)" for i by (simp add: htc_disconnect_service_def)
  show ?thesis unfolding op
    by (cases a; simp only: htc_exec.simps)
      (rule step ctl_send_multiple ctl_send_data ctl_tx_completion ctl_avail ctl_resume_all ctl_flush ctl_rx ctl_add_rx
        ctl_start disconnect connect_processing(1) wait_target_processing p)+
qed

lemma run_processing: "CtrlResponseProcessing s \<Longrightarrow> CtrlResponseProcessing (run_ops htc_exec s ops)"
  by (induction ops arbitrary: s) (simp_all add: exec_processing)

text \<open>
  Property C39. Once the target refuses a connect request, or answers it with a malformed reply whose
  status field is not success, no service can be connected any more, whatever the target sends and whatever
  else is done.
\<close>

theorem refused_connect_blocks_every_service:
  assumes "HTCConnectService env pid early arriving req s = (A_EPROTO, t)" and "cr_ServiceID req \<noteq> HTC_CTRL_RSVD_SVC"
    and "HTC_GET_FIELD (CtrlResponseBuffer t) HTC_CONNECT_SERVICE_RESPONSE_MSG_STATUS \<noteq> HTC_SERVICE_SUCCESS"
    and "cr_ServiceID req' \<noteq> HTC_CTRL_RSVD_SVC"
  shows "fst (HTCConnectService env' pid' early' arriving' req' (run_ops htc_exec t ops)) \<noteq> A_OK_ST"
proof -
  let ?p = "ctrl_packet pid (HTC_CONNECT_SERVICE_MSG_SIZE + cr_MetaDataLength req)"
  obtain st v where v: "HTCSendPkt env ?p s = (st, v)" by fastforce
  obtain w u where u: "HTCWaitRecvCtrlMessage env arriving (receive_all env early v) = (w, u)" by fastforce
  have st: "st = A_OK_ST \<or> st = A_EINVAL" using sent_status [of env ?p s] v by simp
  have "CtrlResponseProcessing t"
  proof -
    have buffer: "CtrlResponseBuffer t = CtrlResponseBuffer u"
      if "setup_endpoint env req i m n (u\<lparr>enable_b2b := b, CtrlResponseProcessing := False\<rparr>) = (A_EPROTO, t)" for i m n b
      using setup_processing(2) [of env req i m n "u\<lparr>enable_b2b := b, CtrlResponseProcessing := False\<rparr>"] that by simp
    show ?thesis
      using assms(1-3) st wait_valid(2,3) [OF u] buffer
      by (auto simp: HTCConnectService_def Let_def v u split: if_splits)
  qed
  from run_processing [OF this] show ?thesis using assms(4) by (intro connect_processing(2))
qed

section \<open>Bundles\<close>

text \<open>
  Property C40. Every bundle that is handed to the bus fits in its buffer, which was allocated for
  \<open>HTC_MAX_MSG_PER_BUNDLE_TX\<close> credits of the target's credit size, when each packet by itself fits in that
  many credits of its endpoint and these are not larger than the target's.
\<close>

theorem HTCIssuePacketsBundle_fits_buffer:
  assumes "\<forall>p\<in>set ps. bundle_len (TxCreditSize (EndPoint s i)) p \<le> HTC_MAX_MSG_PER_BUNDLE_TX * TxCreditSize (EndPoint s i)"
    and "TxCreditSize (EndPoint s i) \<le> TargetCreditSize s"
    and "HTCIssuePacketsBundle env i ps s = (left, t)"
  shows "\<exists>es. htc_log t = htc_log s @ es \<and> list_all (fits (TxCreditSize (EndPoint s i)) (bundle_buffer_size s)) es"
proof -
  let ?csize = "TxCreditSize (EndPoint s i)"
  obtain r u where a: "AllocateHTCBundleTxPacket env s = (r, u)" by fastforce
  note alloc = bundle_alloc_log [OF a]
  have "adds_fitting ?csize s t"
  proof (cases r)
    case None
    then show ?thesis using assms(3) a alloc by (simp add: HTCIssuePacketsBundle_def adds_fitting_refl)
  next
    case (Some b)
    have "bundle_loop env i b [] (int (HTC_MAX_MSG_PER_BUNDLE_TX * ?csize)) ps u = (left, t)"
      using assms(3) a alloc(2) by (simp add: HTCIssuePacketsBundle_def Some)
    then have "adds_fitting ?csize u t"
      by (rule bundle_loop_fits [rotated -1]) (use assms(1) alloc(2) in simp_all)
    then show ?thesis using alloc(1) by (simp add: adds_fitting_def)
  qed
  then obtain es where es: "htc_log t = htc_log s @ es" "list_all (fits ?csize (HTC_MAX_MSG_PER_BUNDLE_TX * ?csize)) es"
    by (auto simp: adds_fitting_def)
  have "HTC_MAX_MSG_PER_BUNDLE_TX * ?csize \<le> bundle_buffer_size s"
    using assms(2) by (simp add: bundle_buffer_size_def)
  then have "list_all (fits ?csize (bundle_buffer_size s)) es"
    using es(2) fits_mono by (blast intro: list.pred_mono_strong)
  then show ?thesis using es(1) by blast
qed

section \<open>Order, ownership and credits\<close>



text \<open>
  Property C38. In every run the credits of an endpoint are never negative, and they are those it was
  given less those in the packets handed to the bus and less those of the packets that went back to its queue when
  the bus refused a packet in front of them; the latter are lost.
\<close>

theorem htc_credits_conserved:
  assumes "admissible htc_step htc_step_ok ({#}, HTCCreate pipes) ops" and "run_ops htc_step ({#}, HTCCreate pipes) ops = (off, s)"
  shows "0 \<le> TxCredits (EndPoint s i) \<and>
     TxCredits (EndPoint s i) + used (pkts (issued i s)) + used (put_back i s) = int (given i s)"
  using htc_runs.run_inv [OF _ assms(1)] assms(2) inv_create by (simp add: htc_inv_def books_def credits_def)

end
