(* ===== verification/HtcDemo.thy ===== *)
theory HtcDemo
  imports HtcTheorems
begin

text \<open>A run of HTC from its creation, and the witnesses of the properties.\<close>

section \<open>A concrete target\<close>

text \<open>
  A target with three credits of 512 bytes and one service (WMI) on endpoint 1; the bus refuses one
  attempt to send (number \<open>k\<close>).
\<close>

definition bus_env :: "nat \<Rightarrow> hif_env" where
  "bus_env k = \<lparr>hif_send_ok = (\<lambda>n. n \<noteq> k), hif_free_entries = (\<lambda>_ _. 8), hif_mem_ok = True,
     hif_pipes = (\<lambda>_. Some (2, 3, False)), hif_start_ok = True, HIFIsMailBoxSwapped = False, htc_credit_flow = True,
     epping = False\<rparr>"

definition demo_ready :: "8 word list" where
  "demo_ready = [0, 0, 12, 0, 0, 0, 0, 0, 1, 0, 3, 0, 0, 2, 0, 0, 0, 1, 0, 0]"

definition demo_reply :: "8 word \<Rightarrow> 8 word list" where
  "demo_reply st = [0, 0, 12, 0, 0, 0, 0, 0, 3, 0, 0, 1, st, 1, 0, 6, 0, 0, 0, 0]"

definition demo_req :: htc_connect_req where
  "demo_req = \<lparr>cr_ServiceID = WMI_CONTROL_SVC, cr_ConnectionFlags = 0, cr_MetaDataLength = 0,
     cr_EpCallbacks = no_callbacks, cr_MaxSendQueueDepth = 8\<rparr>"

definition demo_packet :: "nat \<Rightarrow> htc_packet" where
  "demo_packet pid = (ctrl_packet pid 100)\<lparr>hp_Endpoint := 1\<rparr>"

definition htc_demo_ops :: "(hif_env \<times> htc_op) list" where
  "htc_demo_ops =
     [(bus_env 1, Hop_wait_target [] [demo_ready]), (bus_env 1, Hop_connect 100 [] [demo_reply 0] demo_req),
      (bus_env 1, Hop_send [demo_packet 1, demo_packet 2, demo_packet 3]), (bus_env 1, Hop_complete (Nb_packet 100) 0)]"

definition htc_demo_run :: "nat multiset \<times> htc_target" where
  "htc_demo_run = run_ops htc_step ({#}, HTCCreate (0, 0)) htc_demo_ops"


lemmas field_defs = HTC_GET_FIELD_def rd32_def rd8_def HTC_FRAME_HDR_ENDPOINTID_def HTC_FRAME_HDR_PAYLOADLEN_def
  HTC_FRAME_HDR_FLAGS_def HTC_UNKNOWN_MSG_MESSAGEID_def HTC_READY_MSG_MESSAGEID_def HTC_READY_MSG_CREDITCOUNT_def
  HTC_READY_MSG_CREDITSIZE_def HTC_READY_EX_MSG_MAXMSGSPERHTCBUNDLE_def HTC_READY_EX_MSG_ALTDATACREDITSIZE_def
  HTC_CONNECT_SERVICE_RESPONSE_MSG_MESSAGEID_def HTC_CONNECT_SERVICE_RESPONSE_MSG_STATUS_def
  HTC_CONNECT_SERVICE_RESPONSE_MSG_ENDPOINTID_def HTC_CONNECT_SERVICE_RESPONSE_MSG_MAXMSGSIZE_def
  HTC_CONNECT_SERVICE_RESPONSE_MSG_LOOKAHEADV2_def

text \<open>The messages, and what their fields say.\<close>

lemma demo_ready_fields:
  "HTC_GET_FIELD demo_ready HTC_FRAME_HDR_ENDPOINTID = 0" "HTC_GET_FIELD demo_ready HTC_FRAME_HDR_PAYLOADLEN = 12"
  "HTC_GET_FIELD demo_ready HTC_FRAME_HDR_FLAGS = 0" "HTC_GET_FIELD (drop 8 demo_ready) HTC_UNKNOWN_MSG_MESSAGEID = 1"
  "length demo_ready = 20"
  "HTC_GET_FIELD (drop 8 demo_ready @ xs) HTC_READY_MSG_MESSAGEID = 1"
  "HTC_GET_FIELD (drop 8 demo_ready @ xs) HTC_READY_MSG_CREDITCOUNT = 3"
  "HTC_GET_FIELD (drop 8 demo_ready @ xs) HTC_READY_MSG_CREDITSIZE = 512"
  "HTC_GET_FIELD (drop 8 demo_ready @ xs) HTC_READY_EX_MSG_MAXMSGSPERHTCBUNDLE = 1"
  "HTC_GET_FIELD (drop 8 demo_ready @ xs) HTC_READY_EX_MSG_ALTDATACREDITSIZE = 0"
  by (simp_all add: demo_ready_def field_defs)

lemma demo_reply_fields:
  "HTC_GET_FIELD (demo_reply st) HTC_FRAME_HDR_ENDPOINTID = 0" "HTC_GET_FIELD (demo_reply st) HTC_FRAME_HDR_PAYLOADLEN = 12"
  "HTC_GET_FIELD (demo_reply st) HTC_FRAME_HDR_FLAGS = 0" "HTC_GET_FIELD (drop 8 (demo_reply st)) HTC_UNKNOWN_MSG_MESSAGEID = 3"
  "length (demo_reply st) = 20"
  "HTC_GET_FIELD (drop 8 (demo_reply st) @ xs) HTC_CONNECT_SERVICE_RESPONSE_MSG_MESSAGEID = 3"
  "HTC_GET_FIELD (drop 8 (demo_reply 0) @ xs) HTC_CONNECT_SERVICE_RESPONSE_MSG_STATUS = 0"
  "HTC_GET_FIELD (drop 8 (demo_reply 2) @ xs) HTC_CONNECT_SERVICE_RESPONSE_MSG_STATUS = 2"
  "HTC_GET_FIELD (drop 8 (demo_reply 0) @ xs) HTC_CONNECT_SERVICE_RESPONSE_MSG_ENDPOINTID = 1"
  "HTC_GET_FIELD (drop 8 (demo_reply 0) @ xs) HTC_CONNECT_SERVICE_RESPONSE_MSG_MAXMSGSIZE = 1536"
  "HTC_GET_FIELD (drop 8 (demo_reply 0) @ xs) HTC_CONNECT_SERVICE_RESPONSE_MSG_LOOKAHEADV2 = 0"
  by (simp_all add: demo_reply_def field_defs)

lemma demo_ctrl_rx:
  assumes "HTC_GET_FIELD bs HTC_FRAME_HDR_ENDPOINTID = 0" "HTC_GET_FIELD bs HTC_FRAME_HDR_PAYLOADLEN = 12"
    "HTC_GET_FIELD bs HTC_FRAME_HDR_FLAGS = 0" "HTC_GET_FIELD (drop 8 bs) HTC_UNKNOWN_MSG_MESSAGEID \<le> 3" "length bs = 20"
    "\<not> ul_is_polled (EndPoint s 0)" "\<not> CtrlResponseProcessing s"
  shows "HTCRxCompletionHandler env bs s =
    (A_OK_ST, log_htc [Ev_ctrl_msg, Ev_nbuf_free] (s\<lparr>CtrlResponseLength := 12, CtrlResponseBuffer := drop 8 bs @ drop 12 (CtrlResponseBuffer s),
       CtrlResponseProcessing := True, CtrlResponseValid := True\<rparr>))"
  using assms
  by (simp add: HTCRxCompletionHandler_def Let_def ENDPOINT_MAX_def HTC_HDR_LENGTH_def recv_payload_def ctrl_message_def
      free_netbuf_def HTC_MAX_CONTROL_MESSAGE_LENGTH_def HTC_MSG_SEND_SUSPEND_COMPLETE_def HTC_MSG_NACK_SUSPEND_def)

lemma demo_wait:
  assumes "HTC_GET_FIELD bs HTC_FRAME_HDR_ENDPOINTID = 0" "HTC_GET_FIELD bs HTC_FRAME_HDR_PAYLOADLEN = 12"
    "HTC_GET_FIELD bs HTC_FRAME_HDR_FLAGS = 0" "HTC_GET_FIELD (drop 8 bs) HTC_UNKNOWN_MSG_MESSAGEID \<le> 3" "length bs = 20"
    "\<not> ul_is_polled (EndPoint s 0)" "\<not> CtrlResponseProcessing s"
  shows "HTCWaitRecvCtrlMessage env [bs] s =
    (A_OK_ST, log_htc [Ev_ctrl_msg, Ev_nbuf_free] (s\<lparr>CtrlResponseLength := 12, CtrlResponseBuffer := drop 8 bs @ drop 12 (CtrlResponseBuffer s),
       CtrlResponseProcessing := True, CtrlResponseValid := False\<rparr>))"
  using assms by (simp add: HTCWaitRecvCtrlMessage_def receive_all_def demo_ctrl_rx Let_def)


definition demo0 :: htc_target where "demo0 = HTCCreate (0, 0)"

lemma demo_table: "replicate 8 (0 :: nat, 0 :: nat) = [(0, 0), (0, 0), (0, 0), (0, 0), (0, 0), (0, 0), (0, 0), (0, 0)]"
  by code_simp

lemma demo0_simps:
  "CtrlResponseProcessing demo0 = False" "ServiceTxAllocTable demo0 = [(0, 0), (0, 0), (0, 0), (0, 0), (0, 0), (0, 0), (0, 0), (0, 0)]" "htc_log demo0 = []"
  "AltDataCreditSize demo0 = 0" "HTC_STOPPING demo0 = False" "is_nodrop_pkt demo0 = False" "bundle_free_tx demo0 = []"
  "EndPoint demo0 0 = zero_endpoint\<lparr>TxCreditFlowEnabled := True\<rparr>"
  "EndPoint demo0 (Suc 0) = zero_endpoint\<lparr>TxCreditFlowEnabled := True\<rparr>"
  by (simp_all add: demo0_def HTCCreate_def ResetEndpointStates_def reset_endpoint_def zero_endpoint_def ENDPOINT_MAX_def HTC_MAX_SERVICE_ALLOC_ENTRIES_def
    demo_table)

lemmas bus_demo_defs = bus_env_def zero_endpoint_def ctrl_service_req_def demo_req_def ENDPOINT_MAX_def HTC_HDR_LENGTH_def
  HTC_CTRL_RSVD_SVC_def WMI_CONTROL_SVC_def MAKE_SERVICE_ID_def HTC_MAX_CONTROL_MESSAGE_LENGTH_def no_callbacks_def

text \<open>The control endpoint, and the state after the target has announced itself.\<close>

definition demo_control :: htc_endpoint where
  "demo_control = zero_endpoint\<lparr>ServiceID := 1, EpCallBacks := no_callbacks\<lparr>EpRecv := True\<rparr>, MaxTxQueueDepth := 2,
     MaxMsgLength := 256, UL_PipeID := 2, DL_PipeID := 3, TxCreditSize := 512, TxCreditsPerMaxMsg := 1, TxCreditFlowEnabled := True\<rparr>"

definition demo1 :: htc_target where
  "demo1 = demo0\<lparr>CtrlResponseLength := 12, CtrlResponseBuffer := drop 8 demo_ready @ drop 12 (CtrlResponseBuffer demo0),
     CtrlResponseValid := False, TotalTransmitCredits := 3, TargetCreditSize := 512, MaxMsgsPerHTCBundle := 1,
     AltDataCreditSize := 0, CtrlResponseProcessing := False, ServiceTxAllocTable := [(0, 0), (256, 3), (0, 0), (0, 0), (0, 0), (0, 0), (0, 0), (0, 0)],
     htc_log := [Ev_ctrl_msg, Ev_nbuf_free, Ev_alloc 0 0], EndPoint := (EndPoint demo0)(0 := demo_control)\<rparr>"

lemma demo_wait_target: "HTCWaitTarget (bus_env 1) [] [demo_ready] demo0 = (A_OK_ST, demo1)"
  by (simp add: HTCWaitTarget_def receive_all_def demo_wait demo_ready_fields demo0_simps bus_demo_defs NUM_CONTROL_TX_BUFFERS_def
    HTC_READY_EX_MSG_SIZE_def HTC_MSG_READY_ID_def Let_def HTCConnectService_def HTCSetupTargetBufferAssignments_def
    setup_endpoint_def flow_control_off_def demo1_def demo_control_def)

lemmas send_defs = HTCSendPkt_def HTCSendPktsMultiple_def ctrl_packet_def first_header_def push_hdr_def HTCTrySend_def
  accept_packets_def enter_queue_def process_queue_def drain_queue.simps take_packets_def GetHTCSendPacketsCreditBased_def
  HTCIssuePackets.simps HIFSend_head_def lookup_enqueue_def lookup_remove_def hif_sends_def DoSendCompletion_def RestoreTxPacket_def
  HTC_ENABLE_BUNDLE_def creditsRequired_def credit_header_def

lemmas connect_defs = HTCConnectService_def receive_all_def demo_wait demo_reply_fields setup_endpoint_def flow_control_off_def
  HTCGetCreditAllocation_def HTC_CONNECT_SERVICE_MSG_SIZE_def HTC_CONNECT_SERVICE_RESPONSE_MSG_SIZE_def
  HTC_MSG_CONNECT_SERVICE_RESPONSE_ID_def HTC_SERVICE_SUCCESS_def

text \<open>The request of the connection, the endpoint of WMI, and the state after the connection.\<close>

definition demo_request :: htc_packet where
  "demo_request = first_header True 0 (ctrl_packet 100 8)"

definition demo_wmi :: htc_endpoint where
  "demo_wmi = zero_endpoint\<lparr>ServiceID := 256, MaxTxQueueDepth := 8, MaxMsgLength := 1536, UL_PipeID := 2, DL_PipeID := 3,
     TxCredits := 3, TxCreditSize := 512, TxCreditsPerMaxMsg := 3, TxCreditFlowEnabled := True\<rparr>"

definition demo2 :: htc_target where
  "demo2 = demo0\<lparr>CtrlResponseLength := 12, CtrlResponseBuffer := drop 8 (demo_reply 0) @ drop 12 (CtrlResponseBuffer demo1),
     CtrlResponseValid := False, TotalTransmitCredits := 3, TargetCreditSize := 512, MaxMsgsPerHTCBundle := 1,
     AltDataCreditSize := 0, CtrlResponseProcessing := False, ServiceTxAllocTable := ServiceTxAllocTable demo1,
     CE_send_cnt := u32 (CE_send_cnt demo0 + 1), enable_b2b := False,
     htc_log := [Ev_ctrl_msg, Ev_nbuf_free, Ev_alloc 0 0, Ev_entered 0 [demo_request],
       Ev_send 2 0 (Lk_packet (credit_header demo_request)) True, Ev_ctrl_msg, Ev_nbuf_free, Ev_alloc 1 3],
     EndPoint := (EndPoint demo0)
       (0 := demo_control\<lparr>SeqNo := 1, TxLookupQueue := [Lk_packet (credit_header demo_request)], ul_outstanding_cnt := 1\<rparr>,
        1 := demo_wmi)\<rparr>"

lemma demo_connect: "HTCConnectService (bus_env 1) 100 [] [demo_reply 0] demo_req demo1 = (A_OK_ST, demo2)"
  by (simp add: connect_defs send_defs demo1_def demo2_def demo_control_def demo_wmi_def demo_request_def demo0_simps bus_demo_defs Let_def)

text \<open>The three packets, with their headers, and as they are taken off the queue.\<close>

definition demo_headed :: "nat \<Rightarrow> htc_packet" where
  "demo_headed k = first_header True k (demo_packet (k + 1))"

definition demo_taken :: "nat \<Rightarrow> htc_packet" where
  "demo_taken k = (demo_headed k)\<lparr>CreditsUsed := 1, SendFlags := HTC_FLAGS_NEED_CREDIT_UPDATE\<rparr>"

lemma demo_packets [simp]:
  "hp_id (demo_headed k) = k + 1" "ActualLength (demo_headed k) = 100" "hp_id (demo_taken k) = k + 1" "CreditsUsed (demo_taken k) = 1"
  "CreditsUsed (credit_header p) = CreditsUsed p" "hp_id (credit_header p) = hp_id p"
  by (simp_all add: demo_taken_def demo_headed_def demo_packet_def ctrl_packet_def first_header_def push_hdr_def
      credit_header_def Let_def)

lemma demo_headers:
  "first_headers True 0 [demo_packet 1, demo_packet 2, demo_packet 3] = ([demo_headed 0, demo_headed 1, demo_headed 2], 3)"
proof -
  have "demo_headed (Suc 0) = first_header True (Suc 0) (demo_packet 2)"
    "demo_headed 2 = first_header True (Suc (Suc 0)) (demo_packet 3)"
    by (simp_all add: demo_headed_def numeral_2_eq_2 numeral_3_eq_3)
  moreover have "demo_headed 0 = first_header True 0 (demo_packet 1)" by (simp add: demo_headed_def)
  ultimately show ?thesis by simp
qed

lemma demo_take:
  "credit_loop 1 512 3 3 [demo_headed 0, demo_headed 1, demo_headed 2] = ([demo_taken 0, demo_taken 1, demo_taken 2], [], 0)"
  by (simp add: demo_taken_def creditsRequired_def HTC_HDR_LENGTH_def Let_def)

lemma demo_issue:
  assumes "TxCreditFlowEnabled (EndPoint s 1)" "MaxMsgsPerHTCBundle s = 1" "hif_sends s = 1"
  shows "HTCIssuePackets (bus_env 1) 1 [demo_taken 0, demo_taken 1, demo_taken 2] s =
    (False, [credit_header (demo_taken 0), demo_taken 1, demo_taken 2],
     log_htc [Ev_send (UL_PipeID (EndPoint s 1)) 1 (Lk_packet (credit_header (demo_taken 0))) False]
      (upd_ep 1 (\<lambda>e. e\<lparr>TxCredits := TxCredits e + 1\<rparr>) s))"
  using assms
  by (subst HTCIssuePackets.simps) (simp add: HTC_ENABLE_BUNDLE_def HIFSend_head_def lookup_enqueue_def lookup_remove_def hif_sends_def
      bus_env_def Let_def)

definition demo3 :: htc_target where
  "demo3 = log_htc [Ev_entered 1 [demo_headed 0, demo_headed 1, demo_headed 2],
       Ev_send 2 1 (Lk_packet (credit_header (demo_taken 0))) False, Ev_put_back 1 [demo_taken 1, demo_taken 2]]
     (upd_ep 1 (\<lambda>e. e\<lparr>SeqNo := 3, TxCredits := 1, TxQueue := [credit_header (demo_taken 0), demo_taken 1, demo_taken 2]\<rparr>) demo2)"

lemma demo_send: "HTCSendPktsMultiple (bus_env 1) [demo_packet 1, demo_packet 2, demo_packet 3] demo2 = (A_OK_ST, demo3)"
proof -
  have e: "hp_Endpoint (demo_packet k) = 1" for k by (simp add: demo_packet_def)
  define s where "s = log_htc [Ev_entered 1 [demo_headed 0, demo_headed 1, demo_headed 2]]
     (upd_ep 1 (\<lambda>e. e\<lparr>SeqNo := 3, TxProcessCount := 1, TxQueue := [demo_headed 0, demo_headed 1, demo_headed 2]\<rparr>) demo2)"
  have t: "take_packets 1 0 s = ([demo_taken 0, demo_taken 1, demo_taken 2], upd_ep 1 (\<lambda>e. e\<lparr>TxQueue := [], TxCredits := 0\<rparr>) s)"
    using demo_take by (simp add: take_packets_def GetHTCSendPacketsCreditBased_def s_def demo2_def demo_wmi_def zero_endpoint_def Let_def)
  have "drain_queue (bus_env 1) 1 0 s = log_htc [Ev_send 2 1 (Lk_packet (credit_header (demo_taken 0))) False, Ev_put_back 1 [demo_taken 1, demo_taken 2]]
     (upd_ep 1 (\<lambda>e. e\<lparr>TxCredits := 1, TxQueue := [credit_header (demo_taken 0), demo_taken 1, demo_taken 2]\<rparr>) s)"
    by (subst drain_queue.simps, subst t, simp only: prod.case Let_def, subst demo_issue)
      (simp_all add: s_def demo2_def demo_wmi_def zero_endpoint_def hif_sends_def Let_def)
  then have d: "upd_ep 1 (\<lambda>e. e\<lparr>TxProcessCount := 0\<rparr>) (drain_queue (bus_env 1) 1 0 s) = demo3"
    by (simp add: s_def demo3_def demo2_def demo_wmi_def zero_endpoint_def)
  let ?hs = "[demo_headed 0, demo_headed 1, demo_headed 2]"
  let ?s1 = "upd_ep 1 (\<lambda>e. e\<lparr>SeqNo := 3\<rparr>) demo2"
  have h: "first_headers (TxCreditFlowEnabled (EndPoint demo2 1)) (SeqNo (EndPoint demo2 1))
      [demo_packet 1, demo_packet 2, demo_packet 3] = (?hs, 3)"
    using demo_headers by (simp add: demo2_def demo_wmi_def zero_endpoint_def)
  have a: "accept_packets 1 ?hs ?s1 = (HTC_SEND_QUEUE_OK, ?hs, [], ?s1)"
    by (simp add: accept_packets_def demo2_def demo_wmi_def zero_endpoint_def no_callbacks_def Let_def)
  have e1: "upd_ep 1 (\<lambda>e. e\<lparr>TxProcessCount := TxProcessCount e + 1\<rparr>) (enter_queue 1 ?hs ?s1) = s"
    by (simp add: enter_queue_def s_def demo2_def demo_wmi_def zero_endpoint_def demo0_simps)
  have s: "TxProcessCount (EndPoint s 1) = 1" by (simp add: s_def)
  have f: "TxCreditFlowEnabled (EndPoint ?s1 1)" "ServiceID (EndPoint demo2 1) \<noteq> 0"
    by (simp_all add: demo2_def demo_wmi_def zero_endpoint_def)
  have p: "process_queue (drain_queue (bus_env 1) 1 0) 1 (enter_queue 1 ?hs ?s1) = demo3"
    unfolding process_queue_def Let_def e1 s using d by simp
  have "HTCTrySend (bus_env 1) 1 (Some ?hs) ?s1 = (HTC_SEND_QUEUE_OK, [], demo3)"
    unfolding HTCTrySend_def option.case a prod.case send_queue_result.case Let_def using f p by (simp only: if_True)
  then show ?thesis
    using f unfolding HTCSendPktsMultiple_def list.case e Let_def h prod.case by (simp add: DoSendCompletion_def)
qed

section \<open>The run\<close>

definition demo4 :: htc_target where
  "demo4 = HTCTxCompletionHandler (bus_env 1) (Nb_packet 100) 0 demo3"

lemma htc_demo_admissible: "admissible htc_step htc_step_ok ({#}, HTCCreate (0, 0)) htc_demo_ops"
  by (simp add: htc_demo_ops_def htc_step_def htc_step_ok_def demo_req_def WMI_CONTROL_SVC_def MAKE_SERVICE_ID_def demo_packet_def
      ENDPOINT_MAX_def)

lemma htc_demo_run_eq: "htc_demo_run = ({#100, 1, 2, 3#}, demo4)"
proof -
  have "ServiceID (EndPoint demo1 0) = 1" "ServiceID (EndPoint demo2 1) = 256"
    by (simp_all add: demo1_def demo2_def demo_control_def demo_wmi_def zero_endpoint_def)
  moreover have "cr_ServiceID demo_req = 256" "HTC_CTRL_RSVD_SVC = 1" "hif_mem_ok (bus_env 1)"
    by (simp_all add: demo_req_def WMI_CONTROL_SVC_def HTC_CTRL_RSVD_SVC_def MAKE_SERVICE_ID_def bus_env_def)
  moreover have "hp_Endpoint (demo_packet k) = 1" "hp_id (demo_packet k) = k" "hp_id (ctrl_packet k n) = k"
    "hp_Endpoint (ctrl_packet k n) = 0" for k n
    by (simp_all add: demo_packet_def ctrl_packet_def)
  ultimately show ?thesis
    using demo_wait_target demo_connect demo_send
    by (simp add: htc_demo_run_def htc_demo_ops_def htc_step_def demo4_def offered_pkts_def demo0_def)
qed

lemma demo4_books:
  "TxCredits (EndPoint demo4 1) = 1" "used (put_back 1 demo4) = 2" "given 1 demo4 = 3" "accepted 1 demo4 = [1, 2, 3]"
  "accepted 0 demo4 = [100]" "map hp_id (pkts (issued 0 demo4)) = [100]" "map hp_id (completed demo4) = [100]"
proof -
  note defs = demo4_def demo3_def demo2_def demo_wmi_def demo_control_def zero_endpoint_def demo_request_def HTCTxCompletionHandler_def
    HTCLookupTxPacket_def SendPacketCompletion_def DoSendCompletion_def RestoreTxPacket_def credit_header_def first_header_def
    push_hdr_def ctrl_packet_def no_callbacks_def Let_def book_defs
  show "TxCredits (EndPoint demo4 1) = 1" "used (put_back 1 demo4) = 2" "given 1 demo4 = 3" "accepted 1 demo4 = [1, 2, 3]"
    "accepted 0 demo4 = [100]" "map hp_id (pkts (issued 0 demo4)) = [100]" "map hp_id (completed demo4) = [100]"
    by (simp_all add: defs)
qed

section \<open>Witnesses\<close>



theorem htc_credits_conserved_witness:
  "0 \<le> TxCredits (EndPoint demo4 1) \<and>
   TxCredits (EndPoint demo4 1) + used (pkts (issued 1 demo4)) + used (put_back 1 demo4) = int (given 1 demo4) \<and>
   used (put_back 1 demo4) = 2"
  using htc_credits_conserved [OF htc_demo_admissible, of "fst htc_demo_run" "snd htc_demo_run" 1] demo4_books
  by (simp add: htc_demo_run_def [symmetric] htc_demo_run_eq)

lemma demo_refused:
  "fst (HTCConnectService (bus_env 1) 100 [] [demo_reply 2] demo_req demo1) = A_EPROTO"
  "HTC_GET_FIELD (CtrlResponseBuffer (snd (HTCConnectService (bus_env 1) 100 [] [demo_reply 2] demo_req demo1)))
     HTC_CONNECT_SERVICE_RESPONSE_MSG_STATUS = 2"
  by (simp_all add: connect_defs send_defs demo1_def demo_control_def demo0_simps bus_demo_defs Let_def)

theorem refused_connect_blocks_every_service_witness:
  "fst (HTCConnectService (bus_env 1) 101 [] [demo_reply 0] demo_req
     (run_ops htc_exec (snd (HTCConnectService (bus_env 1) 100 [] [demo_reply 2] demo_req demo1)) [(bus_env 1, Hop_resume)])) \<noteq> A_OK_ST"
proof -
  have "cr_ServiceID demo_req \<noteq> HTC_CTRL_RSVD_SVC"
    by (simp add: demo_req_def WMI_CONTROL_SVC_def HTC_CTRL_RSVD_SVC_def MAKE_SERVICE_ID_def)
  then show ?thesis
    using demo_refused by (intro refused_connect_blocks_every_service [of "bus_env 1" 100 "[]" "[demo_reply 2]" demo_req demo1])
      (simp_all add: prod_eq_iff HTC_SERVICE_SUCCESS_def)
qed

theorem HTCIssuePacketsBundle_fits_buffer_witness:
  "\<exists>es. htc_log (snd (HTCIssuePacketsBundle (bus_env 1) 1 [demo_packet 1, demo_packet 2] demo2)) = htc_log demo2 @ es \<and>
     list_all (fits 512 (32 * 512)) es"
proof -
  have "TxCreditSize (EndPoint demo2 1) = 512" "TargetCreditSize demo2 = 512"
    by (simp_all add: demo2_def demo_wmi_def zero_endpoint_def)
  moreover have "bundle_len 512 (demo_packet k) = 512" for k
    by (simp add: bundle_len_def demo_packet_def ctrl_packet_def HTC_HDR_LENGTH_def creditPad_def Let_def)
  ultimately show ?thesis
    using HTCIssuePacketsBundle_fits_buffer [of "[demo_packet 1, demo_packet 2]" demo2 1 "bus_env 1"
      "fst (HTCIssuePacketsBundle (bus_env 1) 1 [demo_packet 1, demo_packet 2] demo2)"
      "snd (HTCIssuePacketsBundle (bus_env 1) 1 [demo_packet 1, demo_packet 2] demo2)"]
    by (simp add: HTC_MAX_MSG_PER_BUNDLE_TX_def bundle_buffer_size_def)
qed

end
