(* ===== verification/Spec2Isabelle.thy ===== *)
theory Spec2Isabelle
  imports HttHost HtcDemo
begin

text \<open>
  Verification of the host data path of the qcacld-2.0 WLAN driver.

  The program. The driver connects the network stack of the host with the firmware of a WLAN
  device. Its data path is \<open>CORE/CLD_TXRX\<close>: \<open>TXRX\<close> keeps the objects (device, virtual devices,
  peers) and does the work on frames, \<open>HTT\<close> speaks the message protocol of the firmware, and
  \<open>CORE/SERVICES/HTC\<close> and \<open>HIF\<close> below it carry the messages. Frames to send come from the network
  stack into queues per peer and traffic identifier (TID), a scheduler downloads them while the
  target has credits, and completions and credit reports come back as HTT messages. Received
  frames come as HTT indications, pass the duplicate check, the reorder array of their TID, the
  replay check and, if they are fragments, defragmentation, and are delivered or forwarded. PEER_MAP
  and PEER_UNMAP messages, block-ack negotiation and key installation change the state of peers
  underneath. The rest of the repository (the network interface HDD, station management, the legacy
  MAC, the firmware message layers) controls the data path from above.

  Build configuration. The transmit side is the high-latency build (\<open>CONFIG_HL_SUPPORT\<close>,
  \<open>FEATURE_HL_GROUP_CREDIT_FLOW_CONTROL\<close>, the \<open>OL_TX_SCHED_WRR_ADV\<close> scheduler). The receive side
  is the high-latency build with \<open>QCA_SUPPORT_OL_RX_REORDER_TIMEOUT\<close> and
  \<open>HL_RX_AGGREGATION_HOLE_DETCTION\<close>. \<open>QCA_SUPPORT_TXRX_LOCAL_PEER_ID\<close> is on. Assertions do nothing,
  as in the production build. Locks make each operation of the models one atomic step.

  Transmit (\<open>ol_tx_desc.c\<close>, \<open>ol_tx_sched.c\<close>, \<open>ol_tx_queue.c\<close>, \<open>ol_tx_send.c\<close>, \<open>htt_tx.c\<close>).
  \<^item> \<open>TxDesc\<close>: the data model and the pool of tx descriptors, an \<open>id_pool\<close>.
  \<^item> \<open>TxSched\<close>: the scheduler: selection of a category and a queue, credit sanity check, commit,
    discard choice, dispatch loop. The loop ends because each round that goes on takes frames off
    a queue; its termination proof is part of the definition.
  \<^item> \<open>TxInv\<close>: the consistency invariant of queues and scheduler and its preservation by the
    scheduler. \<open>TxDownload\<close>: what one run of the scheduler downloads: order, credit, conservation.
  \<^item> \<open>TxQueue\<close>, \<open>TxQueueInv\<close>: enqueueing with congestion discard, pausing, flushing, freeing.
  \<^item> \<open>TxOps\<close>: runs of all operations, an interpretation of \<open>run_invariant\<close>; the scheduler is work
    conserving; the one call sequence that breaks the counters.

  \<^item> \<open>TxGroup\<close>: the credit groups of virtual devices and access categories; a move of a virtual device
    between groups that loses its group. \<open>TxCompl\<close>: completed downloads, tx completions, inspection,
    discards. \<open>TxComplProps\<close>: they keep the queues and the credit account; the download that frees a
    frame twice.

  Receive (\<open>ol_rx.c\<close>, \<open>ol_rx_pn.c\<close>, \<open>ol_rx_reorder.c\<close>, \<open>ol_rx_reorder_timeout.c\<close>,
  \<open>ol_rx_defrag.c\<close>, \<open>ol_rx_fwd.c\<close>, the accessors of \<open>htt_rx.c\<close>).
  \<^item> \<open>RxData\<close>: peers, TIDs, frames, the accessors, the privacy filter, delivery, forwarding.
  \<^item> \<open>RxPn\<close>: the replay check; its comparisons are interpretations of \<open>replay_order\<close>.
  \<^item> \<open>RxReorder\<close>, \<open>RxReorderInv\<close>, \<open>RxReorderProps\<close>: reorder arrays, virtual timers, block-ack. The
    flush and release loops of the code walk the window modulo its size until they meet their
    end index. The walk has fuel of one window: an index masked by the window size comes back to
    every position within that many steps, which the closed form of the walk proves.
  \<^item> \<open>RxDefrag\<close>, \<open>RxDefragProps\<close>: fragment lists, wait list, ciphers, the Michael MIC against its
    definition, recombination.
  \<^item> \<open>RxInd\<close>: the indication handler. \<open>RxOps\<close>: runs of all operations, and the invariant that keeps
    every masked index inside its array. \<open>RxDemo\<close>: a concrete device for the witnesses.

  \<^item> \<open>RxWaitlist\<close>: flag and membership of the wait list for fragments agree after every operation, except
    after a DELBA for a waiting TID.

  Peers (\<open>ol_txrx_peer_find.c\<close>, the peer and virtual device functions of \<open>ol_txrx.c\<close>).
  \<^item> \<open>PeerFind\<close>: objects in memory, the hash table, the id map, the local ids. \<open>PeerTables\<close>: the hash
    table refines the list of peers in order of addition; the local ids are an \<open>id_pool\<close>.
  \<^item> \<open>PeerLife\<close>: attach, detach, references and deletion, PEER_MAP and PEER_UNMAP. Calls into the
    other components are recorded in order.
  \<^item> \<open>PeerInv\<close>, \<open>PeerOps\<close>, \<open>PeerAttach\<close>: what every reference count is made of, and that each
    operation keeps it so. \<open>PeerRuns\<close>: runs and their theorems. \<open>PeerDemo\<close>: witnesses.

  \<^item> \<open>PeerRx\<close>: the calls that each operation makes in the receive path: no peer is freed without the
    clean-up of its receive state, and none is initialised while in use.

  Messages of the target (\<open>htt_t2h.c\<close>, \<open>htt.h\<close>, \<open>htt_tx.c\<close>, \<open>htt_h2t.c\<close>).
  \<^item> \<open>HttFields\<close>: a message as 32-bit words, and the fields of the words by mask and shift as \<open>htt.h\<close>
    has them.
  \<^item> \<open>HttT2h\<close>: both dispatchers with every message type, and the exchange of credit between target,
    bus and scheduler. Calls to the tx side are made; calls to the other receivers are recorded. The
    loop over group elements is a \<open>partial_function\<close>, since it may not end.
  \<^item> \<open>HttProps\<close>: when that loop ends, the types of the recorded calls, who frees the message.
    \<open>HttCredit\<close>: the account of the credit over runs of messages and downloads.
  \<^item> \<open>HttRxInd\<close>: the accessors of an rx indication; each recorded call as an operation of the receive
    path or of the peer tables.
  \<^item> \<open>HttHost\<close>: all parts on one state: messages, downloads, transmit operations, operations on peers
    and what they call in the receive path, and the invariant that ties the parts together.

  Host-target communication, HTC (\<open>htc_send.c\<close>, \<open>htc_recv.c\<close>, \<open>htc_services.c\<close>, \<open>htc.c\<close>, the layouts of
  \<open>htc.h\<close>). SDIO build with credit-based endpoints and bundles (\<open>HIF_SDIO\<close>, \<open>ENABLE_BUNDLE_TX\<close>).
  \<^item> \<open>HtcData\<close>: packets, endpoints and the state of the target; the frame header and the fields of the
    control messages; the allocation of the target's credits to services.
  \<^item> \<open>HtcSend\<close>, \<open>HtcOps\<close>: taking packets off the queue of an endpoint, handing them to HIF singly or in
    bundles, completions, credit reports, flushes. The loops over a queue recurse on its packets.
  \<^item> \<open>HtcCtl\<close>: trailers, dispatch of a received message, control messages, connection of services,
    start and stop.
  \<^item> \<open>HtcTxInv\<close>, \<open>HtcDrain\<close>: what sending does to the books: which packets entered a queue, which were
    issued and completed, where the credits went. \<open>HtcBooks\<close>, \<open>HtcKeeps\<close>, \<open>HtcRuns\<close>, \<open>HtcProps\<close>: the
    invariant, that every operation keeps it, and runs as an interpretation of \<open>run_invariant\<close>.
  \<^item> \<open>HtcMain\<close>, \<open>HtcTheorems\<close>: each packet is in one place, order, credits, the size of a bundle, and
    the failed connection that blocks every later one. \<open>HtcDemo\<close>: a concrete run and the witnesses.

  Interfaces (\<open>Prelude\<close>): \<open>run_invariant\<close> (interpreted by the runs of each part and of the whole), \<open>id_pool\<close> (tx
  descriptors, local ids), \<open>replay_order\<close> (the packet-number comparisons).

  Properties carry the ids C1, C2, ... of the manifest in the text before them.

  Not modelled. Low-latency transmit, the contents of HTT descriptors and the messages from host to
  target; the life of the transmit queues of a peer in \<open>HttHost\<close>; the buses below HTC;
  of HTC, runtime power management, scatter-gather reception and the counters of suspension
  (\<open>HTCSetNodropPkt\<close> is modelled, but no run calls it, since it puts packets in front of the queue); HTC has a
  state of its own, not joined to that of \<open>HttHost\<close>; statistics of transmit completions; encapsulation and decapsulation of raw and native frames; radio measurements, OCB
  headers, monitor mode, in-order indications and the full reorder offload on receive; debug output and statistics.
  Calls of the kernel (buffers, timers, memory) appear as arguments, or as state where the code
  relies on them. The components outside the data path are listed in the manifest with the
  reason for each.
\<close>

end
